(* ===== verification/Prelude.thy ===== *)
theory Prelude
  imports Main
begin

text \<open>
  What every component of the model shares: panics as values, the types that name the
  program's identifiers, decimal printing as \<^verbatim>\<open>fmt.Sprintf("%d")\<close> does it, and the
  generic list and option lemmas the component proofs use.
\<close>

named_theorems handler_defs "definitions of request handlers, unfolded together"

section \<open>Identifiers and external types\<close>

text \<open>
  A Go \<^verbatim>\<open>peer.ID\<close> and a \<^verbatim>\<open>cid.Cid\<close> are strings of bytes underneath, so they are
  strings here. The empty peer ID is the one \<^verbatim>\<open>Validate\<close> rejects; the empty CID is
  \<^verbatim>\<open>cid.Undef\<close>. A multiaddr is opaque bytes; a nil \<^verbatim>\<open>multiaddr.Multiaddr\<close> is
  \<^term>\<open>None\<close>. Times and durations are integers of nanoseconds, and the zero
  \<^verbatim>\<open>time.Time\<close> is 0.
\<close>

type_synonym peer_id = string
type_synonym cid = string
type_synonym multihash = string
type_synonym bytes = string
type_synonym gotime = int
type_synonym duration = int

datatype multiaddr = Multiaddr bytes

abbreviation (input) cid_undef :: cid where
  "cid_undef \<equiv> []"

abbreviation (input) zero_time :: gotime where
  "zero_time \<equiv> 0"

definition peer_valid :: "peer_id \<Rightarrow> bool" where
  "peer_valid p \<longleftrightarrow> p \<noteq> []"

lemma peer_valid_Cons [simp]: "peer_valid (c # cs)"
  by (simp add: peer_valid_def)

lemma peer_valid_Nil [simp]: "\<not> peer_valid []"
  by (simp add: peer_valid_def)

record addr_info =
  ai_id :: peer_id
  ai_addrs :: "multiaddr list"

section \<open>Durations\<close>

definition second :: duration where
  "second = 1000000000"

definition minute :: duration where
  "minute = 60 * second"

definition hour :: duration where
  "hour = 60 * minute"

section \<open>Panics\<close>

text \<open>
  A Go run-time panic ends the goroutine; an operation that can panic returns a value of
  \<open>panic + 'a\<close>, with \<open>Inl\<close> for the panic.
\<close>

datatype panic = IndexOutOfRange | NilDereference | ExplicitPanic string

type_synonym 'a go = "panic + 'a"

definition go_bind :: "'a go \<Rightarrow> ('a \<Rightarrow> 'b go) \<Rightarrow> 'b go" where
  "go_bind m f = (case m of Inl p \<Rightarrow> Inl p | Inr a \<Rightarrow> f a)"

lemma go_bind_Inl [simp]: "go_bind (Inl p) f = Inl p"
  by (simp add: go_bind_def)

lemma go_bind_Inr [simp]: "go_bind (Inr a) f = f a"
  by (simp add: go_bind_def)

lemma go_bind_eq_Inr:
  "go_bind m f = Inr b \<longleftrightarrow> (\<exists>a. m = Inr a \<and> f a = Inr b)"
  by (cases m) auto

text \<open>The slice read \<^verbatim>\<open>xs[0]\<close>.\<close>

definition first_elem :: "'a list \<Rightarrow> 'a go" where
  "first_elem xs = (case xs of [] \<Rightarrow> Inl IndexOutOfRange | x # _ \<Rightarrow> Inr x)"

lemma first_elem_simps [simp]:
  "first_elem [] = Inl IndexOutOfRange"
  "first_elem (x # xs) = Inr x"
  by (simp_all add: first_elem_def)

lemma first_elem_Inr: "first_elem xs = Inr x \<longleftrightarrow> (\<exists>ys. xs = x # ys)"
  by (cases xs) auto

section \<open>Decimal printing\<close>

fun show_nat :: "nat \<Rightarrow> string" where
  "show_nat n = (if n < 10 then [char_of (48 + n)]
                 else show_nat (n div 10) @ [char_of (48 + n mod 10)])"

declare show_nat.simps [simp del]

definition show_int :: "int \<Rightarrow> string" where
  "show_int i = (if i < 0 then CHR ''-'' # show_nat (nat (- i)) else show_nat (nat i))"

lemma show_nat_nonempty [simp]: "show_nat n \<noteq> []"
  by (subst show_nat.simps) simp

lemma show_int_nonempty [simp]: "show_int i \<noteq> []"
  by (simp add: show_int_def)

section \<open>Machine integers\<close>

text \<open>A Go \<^verbatim>\<open>int\<close> has 64 bits; \<open>wrap_int64\<close> is what is left of a result that has more.\<close>

definition in_int64 :: "int \<Rightarrow> bool" where
  "in_int64 n \<longleftrightarrow> - (2 ^ 63) \<le> n \<and> n < 2 ^ 63"

definition wrap_int64 :: "int \<Rightarrow> int" where
  "wrap_int64 n = (n + 2 ^ 63) mod 2 ^ 64 - 2 ^ 63"

lemma wrap_int64_in: "in_int64 (wrap_int64 n)"
  unfolding in_int64_def wrap_int64_def using pos_mod_bound [of "2 ^ 64" "n + 2 ^ 63"] pos_mod_sign [of "2 ^ 64" "n + 2 ^ 63"]
  by simp

fun digits_value :: "nat \<Rightarrow> string \<Rightarrow> nat option" where
  "digits_value n [] = Some n"
| "digits_value n (c # cs) =
     (if 48 \<le> (of_char c :: nat) \<and> (of_char c :: nat) \<le> 57
      then digits_value (10 * n + (of_char c - 48)) cs else None)"

lemma digits_value_append:
  "digits_value n (xs @ ys) = Option.bind (digits_value n xs) (\<lambda>m. digits_value m ys)"
  by (induction xs arbitrary: n) auto

lemma show_nat_digits: "c \<in> set (show_nat n) \<Longrightarrow> 48 \<le> (of_char c :: nat) \<and> (of_char c :: nat) \<le> 57"
proof (induction n rule: show_nat.induct)
  case (1 n)
  then show ?case by (subst (asm) (2) show_nat.simps) (auto split: if_splits)
qed

lemma digits_value_show_nat: "digits_value 0 (show_nat n) = Some n"
proof (induction n rule: show_nat.induct)
  case (1 n)
  moreover have "n mod 10 \<le> 9" using mod_less_divisor [of 10 n] by simp
  ultimately show ?case by (subst show_nat.simps) (simp add: digits_value_append)
qed

text \<open>\<^verbatim>\<open>strconv.ParseInt(s, 10, 64)\<close>.\<close>

definition parse_int64 :: "string \<Rightarrow> int option" where
  "parse_int64 s =
     (let neg = (s \<noteq> [] \<and> hd s = CHR ''-'');
          ds = (if s \<noteq> [] \<and> (hd s = CHR ''-'' \<or> hd s = CHR ''+'') then tl s else s)
      in if ds = [] then None
         else (case digits_value 0 ds of
             None \<Rightarrow> None
           | Some n \<Rightarrow> let i = (if neg then - int n else int n) in if in_int64 i then Some i else None))"

lemma show_nat_hd: "hd (show_nat n) \<noteq> CHR ''-''" "hd (show_nat n) \<noteq> CHR ''+''"
  using show_nat_digits [of "hd (show_nat n)" n] by (auto dest: arg_cong [of _ _ "of_char :: char \<Rightarrow> nat"])

lemma parse_int64_show_int: "in_int64 i \<Longrightarrow> parse_int64 (show_int i) = Some i"
  by (simp add: parse_int64_def show_int_def digits_value_show_nat show_nat_hd)

lemma parse_int64_in: "parse_int64 s = Some i \<Longrightarrow> in_int64 i"
  by (auto simp: parse_int64_def Let_def split: option.splits if_splits)

text \<open>
  The numeric parsers of \<^verbatim>\<open>strconv\<close> with their errors; \<open>quote\<close> is \<^verbatim>\<open>strconv.Quote\<close> and \<open>func\<close> the
  name of the parser.
\<close>

definition num_error :: "(string \<Rightarrow> string) \<Rightarrow> string \<Rightarrow> string \<Rightarrow> string \<Rightarrow> string" where
  "num_error quote func s reason = ''strconv.'' @ func @ '': parsing '' @ quote s @ '': '' @ reason"

definition parse_decimal :: "(string \<Rightarrow> string) \<Rightarrow> string \<Rightarrow> string \<Rightarrow> string + int" where
  "parse_decimal quote func s =
     (case parse_int64 s of
        Some n \<Rightarrow> Inr n
      | None \<Rightarrow>
          (let ds = (if s \<noteq> [] \<and> (hd s = CHR ''-'' \<or> hd s = CHR ''+'') then tl s else s)
           in Inl (num_error quote func s
                (if ds \<noteq> [] \<and> digits_value 0 ds \<noteq> None then ''value out of range'' else ''invalid syntax''))))"


section \<open>Lists and options\<close>

lemma option_case_None_iff:
  "(case x of None \<Rightarrow> None | Some a \<Rightarrow> f a) = None \<longleftrightarrow> (\<forall>a. x = Some a \<longrightarrow> f a = None)"
  by (cases x) auto

lemma map_sum_eq_Inr: "map_sum g h x = Inr y \<longleftrightarrow> (\<exists>z. x = Inr z \<and> y = h z)"
  by (cases x) auto

lemma case_sum_Inr:
  "(case x of Inl e \<Rightarrow> Inl (g e) | Inr z \<Rightarrow> h z) = Inr y \<longleftrightarrow> (\<exists>z. x = Inr z \<and> h z = Inr y)"
  "(case x of Inl e \<Rightarrow> Inr (Inl (g e)) | Inr z \<Rightarrow> k z) = Inr (Inr w) \<longleftrightarrow> (\<exists>z. x = Inr z \<and> k z = Inr (Inr w))"
  by (cases x; simp)+

lemma fold_invariant_on:
  assumes "P s" and "\<And>x s. x \<in> set xs \<Longrightarrow> P s \<Longrightarrow> P (f x s)"
  shows "P (fold f xs s)"
  using assms by (induction xs arbitrary: s) auto


lemma takeWhile_replicate_stop [simp]:
  "P x \<Longrightarrow> \<not> P y \<Longrightarrow> takeWhile P (replicate n x @ y # ys) = replicate n x"
  by (induction n) auto

end
