(* ===== verification/Errors.thy ===== *)
theory Errors
  imports Prelude
begin

text \<open>
  Errors and the ways they leave the process: \<^verbatim>\<open>api/v0/error.go\<close> (an error that carries
  an HTTP status), \<^verbatim>\<open>api/v0/common.go\<close> (its encoding on the wire),
  \<^verbatim>\<open>internal/httpserver/util.go\<close> and \<^verbatim>\<open>HandleError\<close> of
  \<^verbatim>\<open>internal/libp2pserver/server.go\<close> (what a client is told). The response writer of
  net/http is modelled with it, since the handlers rely on when it sends its headers.
\<close>

section \<open>Go errors\<close>

text \<open>
  \<open>ErrMsg\<close> is an error with only a text (\<^verbatim>\<open>errors.New\<close>, or \<^verbatim>\<open>fmt.Errorf\<close> with
  \<^verbatim>\<open>%s\<close>), \<open>ErrWrap\<close> is \<^verbatim>\<open>fmt.Errorf("text %w", err)\<close>, and \<open>ErrApi\<close> is
  the program's own \<^verbatim>\<open>v0.Error\<close> with its wrapped error and its status.
\<close>

datatype go_error =
    ErrMsg string
  | ErrWrap string go_error
  | ErrApi "go_error option" int

type_synonym api_error = "go_error option \<times> int"

text \<open>The table behind \<^verbatim>\<open>http.StatusText\<close>.\<close>

definition status_texts :: "(int \<times> string) list" where
  "status_texts =
     [(100, ''Continue''),
      (101, ''Switching Protocols''),
      (102, ''Processing''),
      (103, ''Early Hints''),
      (200, ''OK''),
      (201, ''Created''),
      (202, ''Accepted''),
      (203, ''Non-Authoritative Information''),
      (204, ''No Content''),
      (205, ''Reset Content''),
      (206, ''Partial Content''),
      (207, ''Multi-Status''),
      (208, ''Already Reported''),
      (226, ''IM Used''),
      (300, ''Multiple Choices''),
      (301, ''Moved Permanently''),
      (302, ''Found''),
      (303, ''See Other''),
      (304, ''Not Modified''),
      (305, ''Use Proxy''),
      (307, ''Temporary Redirect''),
      (308, ''Permanent Redirect''),
      (400, ''Bad Request''),
      (401, ''Unauthorized''),
      (402, ''Payment Required''),
      (403, ''Forbidden''),
      (404, ''Not Found''),
      (405, ''Method Not Allowed''),
      (406, ''Not Acceptable''),
      (407, ''Proxy Authentication Required''),
      (408, ''Request Timeout''),
      (409, ''Conflict''),
      (410, ''Gone''),
      (411, ''Length Required''),
      (412, ''Precondition Failed''),
      (413, ''Request Entity Too Large''),
      (414, ''Request URI Too Long''),
      (415, ''Unsupported Media Type''),
      (416, ''Requested Range Not Satisfiable''),
      (417, ''Expectation Failed''),
      (418, ''I'' @ [char_of (39::nat)] @ ''m a teapot''),
      (421, ''Misdirected Request''),
      (422, ''Unprocessable Entity''),
      (423, ''Locked''),
      (424, ''Failed Dependency''),
      (425, ''Too Early''),
      (426, ''Upgrade Required''),
      (428, ''Precondition Required''),
      (429, ''Too Many Requests''),
      (431, ''Request Header Fields Too Large''),
      (451, ''Unavailable For Legal Reasons''),
      (500, ''Internal Server Error''),
      (501, ''Not Implemented''),
      (502, ''Bad Gateway''),
      (503, ''Service Unavailable''),
      (504, ''Gateway Timeout''),
      (505, ''HTTP Version Not Supported''),
      (506, ''Variant Also Negotiates''),
      (507, ''Insufficient Storage''),
      (508, ''Loop Detected''),
      (510, ''Not Extended''),
      (511, ''Network Authentication Required'')]"

definition status_text :: "int \<Rightarrow> string" where
  "status_text c = (case map_of status_texts c of None \<Rightarrow> '''' | Some t \<Rightarrow> t)"

definition new_error :: "go_error option \<Rightarrow> int \<Rightarrow> go_error" where
  "new_error e status = ErrApi e status"

fun error_string :: "go_error \<Rightarrow> string" where
  "error_string (ErrMsg s) = s"
| "error_string (ErrWrap s e) = s @ error_string e"
| "error_string (ErrApi (Some e) status) = error_string e"
| "error_string (ErrApi None status) =
     (if status = 0 then ''''
      else if status_text status \<noteq> '''' then show_int status @ '' '' @ status_text status
      else show_int status)"

text \<open>\<^verbatim>\<open>errors.As(err, &apierr)\<close>: the first \<^verbatim>\<open>v0.Error\<close> along the chain of wrapped errors.\<close>

fun as_api_error :: "go_error \<Rightarrow> api_error option" where
  "as_api_error (ErrMsg s) = None"
| "as_api_error (ErrWrap s e) = as_api_error e"
| "as_api_error (ErrApi e status) = Some (e, status)"

definition error_status :: "api_error \<Rightarrow> int" where
  "error_status a = snd a"

definition error_unwrap :: "api_error \<Rightarrow> go_error option" where
  "error_unwrap a = fst a"

definition error_text :: "api_error \<Rightarrow> string" where
  "error_text a =
     (let parts = (if snd a \<noteq> 0
                   then show_int (snd a) #
                        (if status_text (snd a) \<noteq> '''' then ['' '', status_text (snd a)] else [])
                   else []);
          parts = (case fst a of
                     None \<Rightarrow> parts
                   | Some e \<Rightarrow> (if parts \<noteq> [] then parts @ ['': ''] else parts) @ [error_string e])
      in concat parts)"

section \<open>Errors on the wire\<close>

record error_message =
  em_message :: string
  em_status :: int

text \<open>
  The JSON codec is a parameter: \<open>marshal\<close> fails or returns the bytes, \<open>unmarshal\<close> fails
  with a text or returns the message. \<open>server_error\<close> is the encoding made once at start-up.
\<close>

definition encode_error ::
    "(error_message \<Rightarrow> bytes option) \<Rightarrow> bytes \<Rightarrow> go_error option \<Rightarrow> bytes" where
  "encode_error marshal server_error err =
     (case err of
        None \<Rightarrow> []
      | Some e \<Rightarrow>
          (let m = \<lparr>em_message = error_string e,
                    em_status = (case as_api_error e of None \<Rightarrow> 0 | Some a \<Rightarrow> error_status a)\<rparr>
           in case marshal m of None \<Rightarrow> server_error | Some data \<Rightarrow> data))"

definition decode_error ::
    "(bytes \<Rightarrow> string + error_message) \<Rightarrow> bytes \<Rightarrow> go_error option" where
  "decode_error unmarshal data =
     (if data = [] then None
      else case unmarshal data of
             Inl t \<Rightarrow> Some (ErrMsg (''cannot decode error message: '' @ t))
           | Inr m \<Rightarrow>
               Some (ErrMsg (error_text (Some (ErrMsg (em_message m)), em_status m))))"

text \<open>A codec that a decoder inverts and that never encodes to the empty string.\<close>

definition codec_ok ::
    "(error_message \<Rightarrow> bytes option) \<Rightarrow> (bytes \<Rightarrow> string + error_message) \<Rightarrow> bool" where
  "codec_ok marshal unmarshal \<longleftrightarrow>
     (\<forall>m. \<exists>data. marshal m = Some data \<and> data \<noteq> [] \<and> unmarshal data = Inr m)"

lemma decode_encode_message:
  assumes "codec_ok marshal unmarshal"
  shows "decode_error unmarshal (encode_error marshal se (Some e)) =
           Some (ErrMsg (error_text
             (Some (ErrMsg (error_string e)),
              case as_api_error e of None \<Rightarrow> 0 | Some a \<Rightarrow> error_status a)))"
proof -
  define m where "m = \<lparr>em_message = error_string e,
    em_status = (case as_api_error e of None \<Rightarrow> 0 | Some a \<Rightarrow> error_status a)\<rparr>"
  obtain data where "marshal m = Some data" "data \<noteq> []" "unmarshal data = Inr m"
    using assms unfolding codec_ok_def by blast
  then show ?thesis
    unfolding encode_error_def decode_error_def m_def by (simp add: Let_def)
qed

section \<open>The response writer of net/http\<close>

text \<open>
  \<open>rw_header\<close> is the header map a handler may still change; the first \<open>write_header\<close> fixes
  the status and a snapshot of the headers, which is what the client receives. Later
  \<open>write_header\<close> calls are ignored. Writing a body first writes status 200.
\<close>

record response_writer =
  rw_header :: "string \<rightharpoonup> string"
  rw_sent :: "(int \<times> (string \<rightharpoonup> string)) option"
  rw_body :: string

definition new_response :: response_writer where
  "new_response = \<lparr>rw_header = Map.empty, rw_sent = None, rw_body = []\<rparr>"

definition set_header :: "string \<Rightarrow> string \<Rightarrow> response_writer \<Rightarrow> response_writer" where
  "set_header k v w = w\<lparr>rw_header := (rw_header w)(k \<mapsto> v)\<rparr>"

definition write_header :: "int \<Rightarrow> response_writer \<Rightarrow> response_writer" where
  "write_header status w =
     (case rw_sent w of
        None \<Rightarrow> w\<lparr>rw_sent := Some (status, rw_header w)\<rparr>
      | Some _ \<Rightarrow> w)"

definition write_body :: "string \<Rightarrow> response_writer \<Rightarrow> response_writer" where
  "write_body b w = (let w = write_header 200 w in w\<lparr>rw_body := rw_body w @ b\<rparr>)"

text \<open>\<^verbatim>\<open>http.Error\<close> of the standard library.\<close>

definition http_error :: "string \<Rightarrow> int \<Rightarrow> response_writer \<Rightarrow> response_writer" where
  "http_error msg code w =
     write_body (msg @ [char_of (10::nat)])
       (write_header code
         (set_header ''X-Content-Type-Options'' ''nosniff''
           (set_header ''Content-Type'' ''text/plain; charset=utf-8'' w)))"

definition response_status :: "response_writer \<Rightarrow> int option" where
  "response_status w = map_option fst (rw_sent w)"

definition sent_header :: "string \<Rightarrow> response_writer \<Rightarrow> string option" where
  "sent_header k w = (case rw_sent w of None \<Rightarrow> None | Some (_, h) \<Rightarrow> h k)"

lemmas rw_defs =
  set_header_def write_header_def write_body_def http_error_def
  response_status_def sent_header_def new_response_def

lemma response_status_http_error [simp]:
  "rw_sent w = None \<Longrightarrow> response_status (http_error msg code w) = Some code"
  by (simp add: rw_defs Let_def)

section \<open>Telling the client\<close>

text \<open>
  \<^verbatim>\<open>httpserver.WriteJsonResponse\<close>. \<open>wr\<close> is the outcome of the write: an error makes the
  handler call \<^verbatim>\<open>http.Error\<close>.
\<close>

definition write_json_response ::
    "bool \<Rightarrow> int \<Rightarrow> bytes \<Rightarrow> response_writer \<Rightarrow> response_writer" where
  "write_json_response write_fails status body w =
     (let w = write_header status w;
          w = set_header ''Content-Type'' ''application/json; charset=utf-8'' w;
          w = set_header ''Cache-Control'' ''no-cache'' w;
          w = set_header ''Access-Control-Allow-Origin'' ''*'' w
      in if write_fails then http_error '''' 500 w else write_body body w)"

definition http_handle_error :: "go_error \<Rightarrow> response_writer \<Rightarrow> response_writer" where
  "http_handle_error err w =
     (case as_api_error err of
        Some a \<Rightarrow>
          if error_status a \<ge> 500 then http_error '''' (error_status a) w
          else http_error (error_string err) (error_status a) w
      | None \<Rightarrow> http_error (error_string err) 400 w)"

definition p2p_handle_error :: "go_error \<Rightarrow> api_error" where
  "p2p_handle_error err =
     (case as_api_error err of
        Some a \<Rightarrow> if error_status a \<ge> 500 then (None, error_status a) else a
      | None \<Rightarrow> (Some err, 400))"

lemma p2p_handle_error_status:
  "error_status (p2p_handle_error err) =
     (case as_api_error err of Some a \<Rightarrow> error_status a | None \<Rightarrow> 400)"
  by (auto simp: p2p_handle_error_def error_status_def split: option.splits)

lemma http_handle_error_status:
  assumes "rw_sent w = None"
  shows "response_status (http_handle_error err w) =
           Some (case as_api_error err of Some a \<Rightarrow> error_status a | None \<Rightarrow> 400)"
  using assms by (auto simp: http_handle_error_def split: option.splits)

section \<open>Properties\<close>

text \<open>An error with a 5xx status never reaches a client as text: the HTTP response has that
status and an empty line for a body, and the libp2p reply keeps the status but drops the
wrapped error, so the text it shows is the standard status text only. Every other error is
reported with its own text, under its own status or 400.\<close>

theorem handle_error_hides_server_errors:
  assumes "rw_sent w = None" and "rw_body w = []"
  shows "(case as_api_error err of
            Some a \<Rightarrow>
              if error_status a \<ge> 500
              then response_status (http_handle_error err w) = Some (error_status a) \<and>
                   rw_body (http_handle_error err w) = [char_of (10::nat)] \<and>
                   p2p_handle_error err = (None, error_status a)
              else response_status (http_handle_error err w) = Some (error_status a) \<and>
                   rw_body (http_handle_error err w) = error_string err @ [char_of (10::nat)] \<and>
                   p2p_handle_error err = a
          | None \<Rightarrow>
              response_status (http_handle_error err w) = Some 400 \<and>
              rw_body (http_handle_error err w) = error_string err @ [char_of (10::nat)] \<and>
              p2p_handle_error err = (Some err, 400))"
  using assms
  by (auto simp: http_handle_error_def p2p_handle_error_def rw_defs Let_def split: option.splits)

theorem handle_error_hides_server_errors_witness:
  "rw_body (http_handle_error (ErrWrap ''put: '' (ErrApi (Some (ErrMsg ''disk full'')) 500)) new_response)
     = [char_of (10::nat)]"
proof -
  have "rw_sent new_response = None" "rw_body new_response = []"
    by (simp_all add: new_response_def)
  from handle_error_hides_server_errors
    [OF this, of "ErrWrap ''put: '' (ErrApi (Some (ErrMsg ''disk full'')) 500)"]
  show ?thesis by (simp add: error_status_def)
qed

text \<open>A codec to instantiate theorems about the wire: a message as its length-prefixed parts.\<close>

definition unary_marshal :: "error_message \<Rightarrow> bytes option" where
  "unary_marshal m =
     Some (replicate (length (em_message m)) CHR ''1'' @ CHR ''0'' # em_message m @
           (if em_status m < 0 then CHR ''-'' else CHR ''+'') #
           replicate (nat \<bar>em_status m\<bar>) CHR ''1'')"

definition unary_unmarshal :: "bytes \<Rightarrow> string + error_message" where
  "unary_unmarshal d =
     (let n = length (takeWhile (\<lambda>c. c = CHR ''1'') d);
          r = drop (Suc n) d;
          k = int (length r) - int n - 1
      in Inr \<lparr>em_message = take n r,
               em_status = (if r ! n = CHR ''-'' then - k else k)\<rparr>)"

lemma unary_codec_ok: "codec_ok unary_marshal unary_unmarshal"
proof -
  have "unary_unmarshal (the (unary_marshal m)) = Inr m" for m
    by (cases m) (auto simp: unary_marshal_def unary_unmarshal_def Let_def nth_append)
  then show ?thesis
    unfolding codec_ok_def by (auto simp: unary_marshal_def)
qed

text \<open>Encoding an error for the wire and decoding it at the client gives exactly the text
that \<open>Text\<close> of the same error gives, whenever the error is an API error that wraps
another error; an API error that has only the status 500 reaches the client with the status
text twice.\<close>

theorem decode_encode_api_error:
  assumes "codec_ok marshal unmarshal"
  shows "decode_error unmarshal (encode_error marshal se (Some (ErrApi (Some e) status))) =
           Some (ErrMsg (error_text (Some e, status))) \<and>
         decode_error unmarshal (encode_error marshal se (Some (ErrApi None 500))) =
           Some (ErrMsg (error_text (None, 500) @ '': '' @ error_text (None, 500))) \<and>
         decode_error unmarshal (encode_error marshal se None) = None"
proof -
  have "status_text 500 \<noteq> ''''"
    by (simp add: status_text_def status_texts_def)
  then show ?thesis
    by (simp add: decode_encode_message [OF assms] error_status_def error_text_def Let_def
        encode_error_def [of _ _ None] decode_error_def [of _ "[]"])
qed

theorem decode_encode_api_error_witness:
  "decode_error unary_unmarshal
     (encode_error unary_marshal [] (Some (ErrApi (Some (ErrMsg ''no'')) 404))) =
       Some (ErrMsg ''404 Not Found: no'')"
proof -
  have "show_nat 404 = ''404''"
    by code_simp
  then show ?thesis
    using decode_encode_api_error [OF unary_codec_ok, of "[]" "ErrMsg ''no''" 404]
    by (simp add: error_text_def status_text_def status_texts_def show_int_def)
qed

text \<open>A JSON response carries none of the headers its writer sets after the status: at the
client the response has the status and the body, but only the headers that were set before
the call, because \<open>WriteHeader\<close> has already sent the headers.\<close>

theorem write_json_response_headers_not_sent:
  assumes "rw_sent w = None"
  shows "response_status (write_json_response fails status body w) = Some status \<and>
         sent_header k (write_json_response fails status body w) = rw_header w k \<and>
         (fails \<or> rw_body (write_json_response fails status body w) = rw_body w @ body)"
  using assms by (simp add: write_json_response_def rw_defs Let_def)

theorem write_json_response_headers_not_sent_witness:
  "sent_header ''Content-Type'' (write_json_response False 200 ''[]'' new_response) = None"
  using write_json_response_headers_not_sent
      [of new_response False 200 "''[]''" "''Content-Type''"]
  by (simp add: new_response_def)

end
