(* ===== verification/Peer_Policy.thy ===== *)
theory Peer_Policy
  imports Errors "HOL-Library.FSet"
begin

text \<open>
  \<^verbatim>\<open>peerutil/policy.go\<close> (a boolean with a set of exceptions) and
  \<^verbatim>\<open>internal/registry/policy/policy.go\<close> (which peers may index, and which may publish for
  others), with their configuration from \<^verbatim>\<open>config/policy.go\<close>. The interface the registry and
  its administrators rely on is the locale \<open>access_list\<close>.

  The Go map \<open>except\<close> is a finite set; a nil map and an empty map cannot be told apart by these
  functions. \<open>decode\<close> stands for \<^verbatim>\<open>peer.Decode\<close> (\<open>Inl\<close> an error text) and \<open>encode\<close> for
  \<^verbatim>\<open>peer.ID.String\<close>. Where the code ranges over a Go map, the order of the iteration is an
  argument.
\<close>

section \<open>The policy of peerutil\<close>

record peer_policy =
  pol_value :: bool
  pol_except :: "peer_id fset"

definition new_policy :: "bool \<Rightarrow> peer_id list \<Rightarrow> peer_policy" where
  "new_policy v except = \<lparr>pol_value = v, pol_except = fset_of_list except\<rparr>"

fun decode_peers ::
    "(string \<Rightarrow> string + peer_id) \<Rightarrow> string list \<Rightarrow> peer_id fset \<Rightarrow> go_error + peer_id fset" where
  "decode_peers decode [] ids = Inr ids"
| "decode_peers decode (s # ss) ids =
     (case decode s of
        Inl t \<Rightarrow> Inl (ErrMsg (''error decoding peer id '' @ s @ '': '' @ t))
      | Inr p \<Rightarrow> decode_peers decode ss (finsert p ids))"

definition new_policy_strings ::
    "(string \<Rightarrow> string + peer_id) \<Rightarrow> bool \<Rightarrow> string list \<Rightarrow> go_error + peer_policy" where
  "new_policy_strings decode v except =
     (case decode_peers decode except {||} of
        Inl e \<Rightarrow> Inl e
      | Inr ids \<Rightarrow> Inr \<lparr>pol_value = v, pol_except = ids\<rparr>)"

definition policy_eval :: "peer_policy \<Rightarrow> peer_id \<Rightarrow> bool" where
  "policy_eval p peer =
     (let ok = peer |\<in>| pol_except p in if pol_value p then \<not> ok else ok)"

definition policy_any :: "peer_policy \<Rightarrow> bool \<Rightarrow> bool" where
  "policy_any p v \<longleftrightarrow> v = pol_value p \<or> fcard (pol_except p) \<noteq> 0"

definition policy_set_peer :: "peer_policy \<Rightarrow> peer_id \<Rightarrow> bool \<Rightarrow> peer_policy \<times> bool" where
  "policy_set_peer p peer v =
     (if v \<noteq> pol_value p then
        (let prev_len = fcard (pol_except p);
             p' = p\<lparr>pol_except := finsert peer (pol_except p)\<rparr>
         in (p', fcard (pol_except p') \<noteq> prev_len))
      else if fcard (pol_except p) \<noteq> 0 then
        (let prev_len = fcard (pol_except p);
             p' = p\<lparr>pol_except := pol_except p |-| {|peer|}\<rparr>
         in (p', fcard (pol_except p') \<noteq> prev_len))
      else (p, False))"

definition policy_default :: "peer_policy \<Rightarrow> bool" where
  "policy_default p = pol_value p"

definition except_strings :: "(peer_id \<Rightarrow> string) \<Rightarrow> peer_id list \<Rightarrow> string list" where
  "except_strings encode order = map encode order"

text \<open>An order in which a range over the exceptions can deliver them.\<close>

definition except_order :: "peer_policy \<Rightarrow> peer_id list \<Rightarrow> bool" where
  "except_order p order \<longleftrightarrow> distinct order \<and> fset_of_list order = pol_except p"

subsection \<open>Lemmas\<close>

lemma fcard_finsert_neq: "fcard (finsert x A) \<noteq> fcard A \<longleftrightarrow> x |\<notin>| A"
  by (simp add: fcard_finsert_if)

lemma fcard_fminus_neq: "fcard (A |-| {|x|}) \<noteq> fcard A \<longleftrightarrow> x |\<in>| A"
  by (metis fcard_fminus1_less fminus_finsert_absorb fempty_fminus finsert_fminus1
      finsert_fminus_single fcard_finsert_if finsert_absorb less_irrefl fminus_fempty
      finsertCI finsert_fminus n_not_Suc_n)

lemma policy_eval_iff: "policy_eval p i \<longleftrightarrow> (i |\<in>| pol_except p) \<noteq> pol_value p"
  by (auto simp: policy_eval_def Let_def)

lemma policy_set_peer_value [simp]: "pol_value (fst (policy_set_peer p i v)) = pol_value p"
  by (simp add: policy_set_peer_def Let_def)

lemma policy_set_peer_except:
  "pol_except (fst (policy_set_peer p i v)) =
     (if v \<noteq> pol_value p then finsert i (pol_except p) else pol_except p |-| {|i|})"
  by (auto simp: policy_set_peer_def Let_def)

lemma policy_set_peer_changed:
  "snd (policy_set_peer p i v) \<longleftrightarrow> policy_eval p i \<noteq> v"
  by (auto simp: policy_set_peer_def Let_def policy_eval_iff fcard_finsert_if
      fcard_fminus_neq [simplified])

lemma policy_set_peer_eval:
  "policy_eval (fst (policy_set_peer p i v)) = (policy_eval p)(i := v)"
  by (auto simp: policy_eval_iff policy_set_peer_except fun_eq_iff)

lemma decode_peers_map:
  assumes "\<And>p. decode (encode p) = Inr p"
  shows "decode_peers decode (map encode ps) ids = Inr (fset_of_list ps |\<union>| ids)"
  by (induction ps arbitrary: ids) (auto simp: assms)

lemma decode_peers_ok:
  "decode_peers decode ss ids = Inr ids' \<Longrightarrow>
     ids' = fset_of_list (map (\<lambda>s. projr (decode s)) ss) |\<union>| ids \<and> (\<forall>s\<in>set ss. \<not> isl (decode s))"
  by (induction ss arbitrary: ids) (auto split: sum.splits)

lemma decode_peers_error:
  "\<exists>s\<in>set ss. isl (decode s) \<Longrightarrow> isl (decode_peers decode ss ids)"
  by (induction ss arbitrary: ids) (auto split: sum.splits)

section \<open>The interface: a list of admitted peers that can be edited\<close>

text \<open>
  Clients test a peer and set the answer for a peer. The provider promises that setting changes
  that answer and no other, and that it reports whether anything changed.
\<close>

locale access_list =
  fixes test :: "'p \<Rightarrow> peer_id \<Rightarrow> bool"
    and edit :: "'p \<Rightarrow> peer_id \<Rightarrow> bool \<Rightarrow> 'p \<times> bool"
  assumes test_edit: "test (fst (edit p i v)) = (test p)(i := v)"
    and edit_changed: "snd (edit p i v) \<longleftrightarrow> test p i \<noteq> v"
begin

definition edit_all :: "(peer_id \<times> bool) list \<Rightarrow> 'p \<Rightarrow> 'p" where
  "edit_all es p = fold (\<lambda>(i, v) p. fst (edit p i v)) es p"

lemma edit_all_Nil [simp]: "edit_all [] p = p"
  by (simp add: edit_all_def)

lemma edit_all_snoc: "edit_all (es @ [(i, v)]) p = fst (edit (edit_all es p) i v)"
  by (simp add: edit_all_def)

lemma edit_all_last_wins:
  "test (edit_all es p) i =
     (case map_of (rev es) i of None \<Rightarrow> test p i | Some v \<Rightarrow> v)"
proof (induction es rule: rev_induct)
  case Nil
  then show ?case by simp
next
  case (snoc e es)
  obtain j v where "e = (j, v)" by (cases e)
  with snoc show ?case by (simp add: edit_all_snoc test_edit)
qed

lemma edit_idem: "test (fst (edit (fst (edit p i v)) i v)) = test (fst (edit p i v))"
  by (simp add: test_edit)

lemma edit_twice_unchanged: "\<not> snd (edit (fst (edit p i v)) i v)"
  by (simp add: edit_changed test_edit)

lemma edit_commute:
  "i \<noteq> j \<Longrightarrow> test (fst (edit (fst (edit p i v)) j w)) = test (fst (edit (fst (edit p j w)) i v))"
  by (auto simp: test_edit fun_eq_iff)

end

interpretation peerutil: access_list policy_eval policy_set_peer
  by unfold_locales (simp_all add: policy_set_peer_eval policy_set_peer_changed)

section \<open>The policy of the registry\<close>

record policy_config =
  pc_allow :: bool
  pc_except :: "string list"
  pc_publish :: bool
  pc_publish_except :: "string list"

record registry_policy =
  rp_allow :: peer_policy
  rp_publish :: peer_policy

definition policy_new ::
    "(string \<Rightarrow> string + peer_id) \<Rightarrow> policy_config \<Rightarrow> go_error + registry_policy" where
  "policy_new decode cfg =
     (case new_policy_strings decode (pc_allow cfg) (pc_except cfg) of
        Inl e \<Rightarrow> Inl (ErrMsg (''bad allow policy: '' @ error_string e))
      | Inr allow \<Rightarrow>
          (case new_policy_strings decode (pc_publish cfg) (pc_publish_except cfg) of
             Inl e \<Rightarrow> Inl (ErrMsg (''bad publish policy: '' @ error_string e))
           | Inr publish \<Rightarrow> Inr \<lparr>rp_allow = allow, rp_publish = publish\<rparr>))"

definition policy_allowed :: "registry_policy \<Rightarrow> peer_id \<Rightarrow> bool" where
  "policy_allowed p peer = policy_eval (rp_allow p) peer"

definition policy_publish_allowed :: "registry_policy \<Rightarrow> peer_id \<Rightarrow> peer_id \<Rightarrow> bool" where
  "policy_publish_allowed p publisher provider =
     (if publisher = provider then True else policy_eval (rp_publish p) publisher)"

definition policy_allow :: "registry_policy \<Rightarrow> peer_id \<Rightarrow> registry_policy \<times> bool" where
  "policy_allow p peer =
     (let (a, changed) = policy_set_peer (rp_allow p) peer True in (p\<lparr>rp_allow := a\<rparr>, changed))"

definition policy_block :: "registry_policy \<Rightarrow> peer_id \<Rightarrow> registry_policy \<times> bool" where
  "policy_block p peer =
     (let (a, changed) = policy_set_peer (rp_allow p) peer False in (p\<lparr>rp_allow := a\<rparr>, changed))"

definition policy_copy :: "registry_policy \<Rightarrow> registry_policy \<Rightarrow> registry_policy" where
  "policy_copy p other = p\<lparr>rp_allow := rp_allow other, rp_publish := rp_publish other\<rparr>"

definition policy_to_config ::
    "(peer_id \<Rightarrow> string) \<Rightarrow> peer_id list \<Rightarrow> peer_id list \<Rightarrow> registry_policy \<Rightarrow> policy_config" where
  "policy_to_config encode allow_order publish_order p =
     \<lparr>pc_allow = policy_default (rp_allow p),
      pc_except = except_strings encode allow_order,
      pc_publish = policy_default (rp_publish p),
      pc_publish_except = except_strings encode publish_order\<rparr>"

definition policy_none_allowed :: "registry_policy \<Rightarrow> bool" where
  "policy_none_allowed p \<longleftrightarrow> \<not> policy_any (rp_allow p) True"

text \<open>The administrator's edit: allow or block.\<close>

definition policy_admit :: "registry_policy \<Rightarrow> peer_id \<Rightarrow> bool \<Rightarrow> registry_policy \<times> bool" where
  "policy_admit p peer v = (if v then policy_allow p peer else policy_block p peer)"

lemma policy_admit_set_peer:
  "policy_admit p peer v =
     (p\<lparr>rp_allow := fst (policy_set_peer (rp_allow p) peer v)\<rparr>,
      snd (policy_set_peer (rp_allow p) peer v))"
  by (simp add: policy_admit_def policy_allow_def policy_block_def split: prod.splits)

interpretation admission: access_list policy_allowed policy_admit
  by unfold_locales
     (simp_all add: policy_admit_set_peer policy_allowed_def fun_eq_iff policy_set_peer_eval
        policy_set_peer_changed)

lemma policy_publish_self [simp]: "policy_publish_allowed p i i"
  by (simp add: policy_publish_allowed_def)

lemma policy_copy_eq [simp]: "policy_copy p (other :: registry_policy) = other"
  by (simp add: policy_copy_def)

lemma infinite_peers: "infinite (UNIV :: peer_id set)"
  by (rule infinite_UNIV_listI)

lemma policy_eval_fresh: "\<exists>i. policy_eval p i = pol_value p"
proof -
  obtain i where "i \<notin> fset (pol_except p)"
    using ex_new_if_finite [OF infinite_peers finite_fset] by blast
  then show ?thesis by (auto simp: policy_eval_iff)
qed

lemma policy_any_iff: "policy_any p v \<longleftrightarrow> (\<exists>i. policy_eval p i = v)"
proof (cases "v = pol_value p")
  case True
  then show ?thesis using policy_eval_fresh [of p] by (auto simp: policy_any_def)
next
  case False
  then show ?thesis
    by (cases "pol_value p") (auto simp: policy_any_def policy_eval_iff fcard_fempty)
qed

section \<open>Properties\<close>

text \<open>Whatever sequence of allow and block requests an administrator sends, the policy
afterwards admits a peer exactly when the last request about that peer allowed it, or, if no
request was about it, when the policy admitted it before; and the publish policy is not
touched.\<close>

theorem policy_last_request_wins:
  "policy_allowed (fold (\<lambda>(i, v) p. fst (policy_admit p i v)) requests p) i =
     (case map_of (rev requests) i of None \<Rightarrow> policy_allowed p i | Some v \<Rightarrow> v) \<and>
   rp_publish (fold (\<lambda>(i, v) p. fst (policy_admit p i v)) requests p) = rp_publish p"
proof
  show "policy_allowed (fold (\<lambda>(i, v) p. fst (policy_admit p i v)) requests p) i =
     (case map_of (rev requests) i of None \<Rightarrow> policy_allowed p i | Some v \<Rightarrow> v)"
    by (rule admission.edit_all_last_wins [unfolded admission.edit_all_def])
  show "rp_publish (fold (\<lambda>(i, v) p. fst (policy_admit p i v)) requests p) = rp_publish p"
    by (induction requests arbitrary: p) (auto simp: policy_admit_set_peer)
qed

text \<open>The boolean that \<open>Allow\<close> and \<open>Block\<close> return says exactly whether the answer for the
peer changed, and \<open>NoneAllowed\<close> says exactly whether no peer at all is admitted.\<close>

theorem policy_reports_change:
  "(snd (policy_allow p i) \<longleftrightarrow> policy_allowed (fst (policy_allow p i)) \<noteq> policy_allowed p) \<and>
   (snd (policy_block p i) \<longleftrightarrow> policy_allowed (fst (policy_block p i)) \<noteq> policy_allowed p) \<and>
   (policy_none_allowed p \<longleftrightarrow> (\<forall>j. \<not> policy_allowed p j))"
proof (intro conjI)
  have edit: "snd (policy_admit p i v) \<longleftrightarrow> policy_allowed (fst (policy_admit p i v)) \<noteq> policy_allowed p" for v
    by (auto simp: admission.edit_changed admission.test_edit fun_eq_iff)
  show "snd (policy_allow p i) \<longleftrightarrow> policy_allowed (fst (policy_allow p i)) \<noteq> policy_allowed p"
    using edit [of True] by (simp add: policy_admit_def)
  show "snd (policy_block p i) \<longleftrightarrow> policy_allowed (fst (policy_block p i)) \<noteq> policy_allowed p"
    using edit [of False] by (simp add: policy_admit_def)
  show "policy_none_allowed p \<longleftrightarrow> (\<forall>j. \<not> policy_allowed p j)"
    by (simp add: policy_none_allowed_def policy_any_iff policy_allowed_def)
qed

text \<open>Writing a policy to the configuration and building a policy from that configuration
gives the same policy back, in whatever order the exceptions are listed, when decoding a peer
ID inverts printing it.\<close>

theorem policy_config_roundtrip:
  assumes "\<And>i. decode (encode i) = Inr i"
    and "except_order (rp_allow p) allow_order" and "except_order (rp_publish p) publish_order"
  shows "policy_new decode (policy_to_config encode allow_order publish_order p) = Inr p"
  using assms
  by (cases p, cases "rp_allow p", cases "rp_publish p")
     (simp add: policy_new_def policy_to_config_def new_policy_strings_def except_strings_def
        decode_peers_map policy_default_def except_order_def)

theorem policy_config_roundtrip_witness:
  "policy_new Inr (policy_to_config id [''p'', ''q''] []
      \<lparr>rp_allow = \<lparr>pol_value = True, pol_except = {|''q'', ''p''|}\<rparr>,
       rp_publish = \<lparr>pol_value = False, pol_except = {||}\<rparr>\<rparr>) =
     Inr \<lparr>rp_allow = \<lparr>pol_value = True, pol_except = {|''q'', ''p''|}\<rparr>,
          rp_publish = \<lparr>pol_value = False, pol_except = {||}\<rparr>\<rparr>"
proof (rule policy_config_roundtrip)
  show "Inr (id i) = Inr i" for i :: peer_id by simp
qed (simp_all add: except_order_def finsert_commute)

end
