(* ===== verification/Sequences.thy ===== *)
theory Sequences
  imports Errors "HOL-Library.Word"
begin

text \<open>
  \<^verbatim>\<open>internal/registry/sequences.go\<close>: the sequence numbers of signed requests, which keep a
  request from being replayed. Sequence numbers are \<^verbatim>\<open>uint64\<close>; the clock is an \<^verbatim>\<open>int64\<close>
  of nanoseconds converted to \<^verbatim>\<open>uint64\<close>, with the wrap-around of that conversion. Every
  operation takes the clock reading it makes as an argument.
\<close>

section \<open>State and operations\<close>

record sequences =
  sq_max_age :: duration
  sq_seqs :: "peer_id \<rightharpoonup> 64 word"

definition default_max_age :: duration where
  "default_max_age = 48 * 3600 * 1000000000"

definition new_sequences :: "duration \<Rightarrow> sequences" where
  "new_sequences max_age =
     (let max_age = (if max_age = 0 then default_max_age else max_age)
      in \<lparr>sq_max_age = max_age, sq_seqs = Map.empty\<rparr>)"

definition oldest_allowed :: "sequences \<Rightarrow> gotime \<Rightarrow> 64 word" where
  "oldest_allowed s now = word_of_int (now - sq_max_age s)"

definition sequences_check ::
    "gotime \<Rightarrow> sequences \<Rightarrow> peer_id \<Rightarrow> 64 word \<Rightarrow> go_error option \<times> sequences" where
  "sequences_check now s i sequence =
     (if sequence < oldest_allowed s now then (Some (ErrMsg ''sequence too small''), s)
      else (case sq_seqs s i of
              Some prev \<Rightarrow>
                if sequence \<le> prev
                then (Some (ErrMsg ''sequence less than or equal to last seen''), s)
                else (None, s\<lparr>sq_seqs := (sq_seqs s)(i \<mapsto> sequence)\<rparr>)
            | None \<Rightarrow> (None, s\<lparr>sq_seqs := (sq_seqs s)(i \<mapsto> sequence)\<rparr>)))"

definition sequences_retire :: "gotime \<Rightarrow> sequences \<Rightarrow> sequences" where
  "sequences_retire now s =
     s\<lparr>sq_seqs := (\<lambda>i. case sq_seqs s i of
         None \<Rightarrow> None
       | Some q \<Rightarrow> if q > oldest_allowed s now then Some q else None)\<rparr>"

section \<open>The interface: a guard against replays\<close>

text \<open>
  What the request handlers rely on. \<open>covers t s i m\<close> says that in state \<open>s\<close>, at any time after
  \<open>t\<close>, no number up to \<open>m\<close> is accepted from peer \<open>i\<close> again. \<open>ok s t\<close> says that \<open>t\<close> is a reading
  the guard can compare.
\<close>

datatype seq_event = CheckSeq peer_id "64 word" | RetireSeqs

locale replay_guard =
  fixes check :: "gotime \<Rightarrow> 's \<Rightarrow> peer_id \<Rightarrow> 64 word \<Rightarrow> go_error option \<times> 's"
    and retire :: "gotime \<Rightarrow> 's \<Rightarrow> 's"
    and ok :: "'s \<Rightarrow> gotime \<Rightarrow> bool"
    and covers :: "gotime \<Rightarrow> 's \<Rightarrow> peer_id \<Rightarrow> 64 word \<Rightarrow> bool"
  assumes ok_check: "ok (snd (check t s i q)) = ok s"
    and ok_retire: "ok (retire t s) = ok s"
    and check_accepts: "fst (check t s i q) = None \<Longrightarrow> covers t (snd (check t s i q)) i q"
    and check_above: "covers t s i m \<Longrightarrow> t < t' \<Longrightarrow> ok s t \<Longrightarrow> ok s t' \<Longrightarrow>
          fst (check t' s i q) = None \<Longrightarrow> m < q"
    and check_keeps: "covers t s i m \<Longrightarrow> t < t' \<Longrightarrow> ok s t \<Longrightarrow> ok s t' \<Longrightarrow>
          covers t' (snd (check t' s j q)) i m"
    and retire_keeps: "covers t s i m \<Longrightarrow> t < t' \<Longrightarrow> ok s t \<Longrightarrow> ok s t' \<Longrightarrow>
          covers t' (retire t' s) i m"
begin

fun run :: "(gotime \<times> seq_event) list \<Rightarrow> 's \<Rightarrow> (peer_id \<times> 64 word) list" where
  "run [] s = []"
| "run ((t, RetireSeqs) # es) s = run es (retire t s)"
| "run ((t, CheckSeq i q) # es) s =
     (case check t s i q of (None, s') \<Rightarrow> (i, q) # run es s' | (Some _, s') \<Rightarrow> run es s')"

definition accepted :: "peer_id \<Rightarrow> (gotime \<times> seq_event) list \<Rightarrow> 's \<Rightarrow> 64 word list" where
  "accepted i es s = map snd (filter (\<lambda>x. fst x = i) (run es s))"

lemma accepted_above:
  assumes "covers t s i m" and "ok s t" and "sorted_wrt (<) (t # map fst es)"
    and "\<And>u. u \<in> fst ` set es \<Longrightarrow> ok s u"
  shows "sorted_wrt (<) (m # accepted i es s)"
  using assms
proof (induction es arbitrary: s t m)
  case Nil
  then show ?case by (simp add: accepted_def)
next
  case (Cons e es)
  obtain u a where e: "e = (u, a)" by (cases e)
  from Cons.prems e have u: "t < u" "ok s u" and later: "sorted_wrt (<) (u # map fst es)"
    by auto
  show ?case
  proof (cases a)
    case RetireSeqs
    have "covers u (retire u s) i m"
      using Cons.prems u by (blast intro: retire_keeps)
    moreover have "ok (retire u s) v" if "v = u \<or> v \<in> fst ` set es" for v
      using Cons.prems(4) that u e by (auto simp: ok_retire)
    ultimately have "sorted_wrt (<) (m # accepted i es (retire u s))"
      using Cons.IH later by blast
    then show ?thesis using e RetireSeqs by (simp add: accepted_def)
  next
    case (CheckSeq j q)
    let ?s' = "snd (check u s j q)"
    have kept: "covers u ?s' i m"
      using Cons.prems u by (blast intro: check_keeps)
    have ok': "ok ?s' v" if "v = u \<or> v \<in> fst ` set es" for v
      using Cons.prems(4) that u e by (auto simp: ok_check)
    have rest: "sorted_wrt (<) (m # accepted i es ?s')"
      using Cons.IH kept later ok' by blast
    show ?thesis
    proof (cases "fst (check u s j q) = None \<and> j = i")
      case True
      then have "covers u ?s' i q" using check_accepts [of u s j q] by auto
      then have "sorted_wrt (<) (q # accepted i es ?s')"
        using Cons.IH later ok' by blast
      moreover have "m < q" using check_above Cons.prems u True by blast
      ultimately have "sorted_wrt (<) (m # q # accepted i es ?s')" by auto
      then show ?thesis using e CheckSeq True
        by (auto simp: accepted_def split: prod.splits option.splits)
    next
      case False
      then show ?thesis using e CheckSeq rest
        by (auto simp: accepted_def split: prod.splits option.splits)
    qed
  qed
qed

lemma accepted_increasing:
  assumes "sorted_wrt (<) (map fst es)" and "\<And>u. u \<in> fst ` set es \<Longrightarrow> ok s u"
  shows "sorted_wrt (<) (accepted i es s)"
  using assms
proof (induction es arbitrary: s)
  case Nil
  then show ?case by (simp add: accepted_def)
next
  case (Cons e es)
  obtain u a where e: "e = (u, a)" by (cases e)
  have later: "sorted_wrt (<) (map fst es)" "sorted_wrt (<) (u # map fst es)"
    using Cons.prems(1) e by auto
  show ?case
  proof (cases a)
    case RetireSeqs
    then show ?thesis using e later Cons.IH [of "retire u s"] Cons.prems(2)
      by (auto simp: accepted_def ok_retire)
  next
    case (CheckSeq j q)
    let ?s' = "snd (check u s j q)"
    have ok': "ok ?s' v" if "v = u \<or> v \<in> fst ` set es" for v
      using Cons.prems(2) that e by (auto simp: ok_check)
    have rest: "sorted_wrt (<) (accepted i es ?s')"
      using Cons.IH later ok' by blast
    show ?thesis
    proof (cases "fst (check u s j q) = None \<and> j = i")
      case True
      then have "covers u ?s' i q" using check_accepts [of u s j q] by auto
      then have "sorted_wrt (<) (q # accepted i es ?s')"
        using accepted_above later ok' by blast
      then show ?thesis using e CheckSeq True
        by (auto simp: accepted_def split: prod.splits option.splits)
    next
      case False
      then show ?thesis using e CheckSeq rest
        by (auto simp: accepted_def split: prod.splits option.splits)
    qed
  qed
qed

end

section \<open>The model is such a guard\<close>

text \<open>A reading in the range where neither \<^verbatim>\<open>UnixNano\<close> nor its conversion wraps.\<close>

definition clock_ok :: "sequences \<Rightarrow> gotime \<Rightarrow> bool" where
  "clock_ok s t \<longleftrightarrow> 0 \<le> t - sq_max_age s \<and> t - sq_max_age s < 2 ^ 63"

text \<open>
  A number stays refused because it is remembered, or because it is older than the oldest
  number allowed at a time that has already passed.
\<close>

definition seq_covers :: "gotime \<Rightarrow> sequences \<Rightarrow> peer_id \<Rightarrow> 64 word \<Rightarrow> bool" where
  "seq_covers t s i m \<longleftrightarrow>
     (case sq_seqs s i of Some q \<Rightarrow> m \<le> q | None \<Rightarrow> m \<le> oldest_allowed s t)"

lemma uint_oldest_allowed: "clock_ok s t \<Longrightarrow> uint (oldest_allowed s t) = t - sq_max_age s"
  by (simp del: of_int_diff add: oldest_allowed_def clock_ok_def uint_word_of_int)

lemma oldest_allowed_mono:
  "clock_ok s t \<Longrightarrow> clock_ok s u \<Longrightarrow> t < u \<Longrightarrow> oldest_allowed s t < oldest_allowed s u"
  by (simp add: word_less_alt uint_oldest_allowed)

lemma sequences_check_age [simp]: "sq_max_age (snd (sequences_check t s i q)) = sq_max_age s"
  by (auto simp: sequences_check_def split: option.splits)

lemma sequences_retire_age [simp]: "sq_max_age (sequences_retire t s) = sq_max_age s"
  by (simp add: sequences_retire_def)

lemma oldest_allowed_cong: "sq_max_age s = sq_max_age s' \<Longrightarrow> oldest_allowed s = oldest_allowed s'"
  by (simp add: oldest_allowed_def fun_eq_iff)

lemma sequences_check_accepts_iff:
  "fst (sequences_check t s i q) = None \<longleftrightarrow>
     oldest_allowed s t \<le> q \<and> (\<forall>p. sq_seqs s i = Some p \<longrightarrow> p < q)"
  by (auto simp: sequences_check_def not_less not_le split: option.splits)

lemma sequences_check_state:
  "snd (sequences_check t s i q) =
     (if fst (sequences_check t s i q) = None
      then s\<lparr>sq_seqs := (sq_seqs s)(i \<mapsto> q)\<rparr> else s)"
  by (auto simp: sequences_check_def split: option.splits)

lemma seq_covers_later:
  "seq_covers t s i m \<Longrightarrow> t < u \<Longrightarrow> clock_ok s t \<Longrightarrow> clock_ok s u \<Longrightarrow> seq_covers u s i m"
  using oldest_allowed_mono [of s t u] by (auto simp: seq_covers_def split: option.splits)

lemma seq_covers_above:
  assumes "seq_covers t s i m" "t < u" "clock_ok s t" "clock_ok s u"
    and "fst (sequences_check u s i q) = None"
  shows "m < q"
proof (cases "sq_seqs s i")
  case None
  with assms show ?thesis
    using oldest_allowed_mono [of s t u]
    by (auto simp: seq_covers_def sequences_check_accepts_iff)
next
  case (Some p)
  with assms show ?thesis by (auto simp: seq_covers_def sequences_check_accepts_iff)
qed

lemma seq_covers_check:
  assumes "seq_covers t s i m" "t < u" "clock_ok s t" "clock_ok s u"
  shows "seq_covers u (snd (sequences_check u s j q)) i m"
proof (cases "fst (sequences_check u s j q) = None \<and> j = i")
  case True
  then have "m < q" using seq_covers_above assms by blast
  with True show ?thesis by (auto simp: seq_covers_def sequences_check_state)
next
  case False
  have "seq_covers u s i m" using seq_covers_later assms by blast
  with False show ?thesis
    by (auto simp: seq_covers_def sequences_check_state oldest_allowed_def split: option.splits)
qed

lemma seq_covers_retire:
  assumes "seq_covers t s i m" "t < u" "clock_ok s t" "clock_ok s u"
  shows "seq_covers u (sequences_retire u s) i m"
  using seq_covers_later [OF assms]
  by (auto simp: seq_covers_def sequences_retire_def oldest_allowed_def not_less
      split: option.splits)

interpretation sq: replay_guard sequences_check sequences_retire clock_ok seq_covers
proof unfold_locales
  show "clock_ok (snd (sequences_check t s i q)) = clock_ok s" for t s i q
    by (simp add: clock_ok_def fun_eq_iff)
  show "clock_ok (sequences_retire t s) = clock_ok s" for t s
    by (simp add: clock_ok_def fun_eq_iff)
  show "seq_covers t (snd (sequences_check t s i q)) i q"
    if "fst (sequences_check t s i q) = None" for t s i q
    using that by (simp add: seq_covers_def sequences_check_state)
qed (fact seq_covers_above seq_covers_check seq_covers_retire)+

section \<open>Properties\<close>

text \<open>
  A run of the table: requests, each with the clock reading it is checked at, and clean-ups. The
  result lists the accepted requests.
\<close>

fun sequences_run :: "(gotime \<times> seq_event) list \<Rightarrow> sequences \<Rightarrow> (peer_id \<times> 64 word) list" where
  "sequences_run [] s = []"
| "sequences_run ((t, RetireSeqs) # es) s = sequences_run es (sequences_retire t s)"
| "sequences_run ((t, CheckSeq i q) # es) s =
     (case sequences_check t s i q of
        (None, s') \<Rightarrow> (i, q) # sequences_run es s'
      | (Some _, s') \<Rightarrow> sequences_run es s')"

lemma sequences_run_eq: "sq.run es s = sequences_run es s"
  by (induction es s rule: sequences_run.induct) (auto split: prod.splits option.splits)

text \<open>A request passes exactly when its sequence number is not below the oldest allowed one
and above the last one accepted from that peer; then, and only then, the number is remembered
for that peer, and nothing is remembered for any other peer.\<close>

theorem sequences_check_behaviour:
  "(fst (sequences_check now s i q) = None \<longleftrightarrow>
      oldest_allowed s now \<le> q \<and> (\<forall>p. sq_seqs s i = Some p \<longrightarrow> p < q)) \<and>
   sq_seqs (snd (sequences_check now s i q)) =
     (if fst (sequences_check now s i q) = None then (sq_seqs s)(i \<mapsto> q) else sq_seqs s)"
  by (rule conjI [OF sequences_check_accepts_iff]) (subst sequences_check_state, simp)

theorem sequences_check_behaviour_witness:
  "fst (sequences_check 11 \<lparr>sq_max_age = 10, sq_seqs = [''p'' \<mapsto> 5]\<rparr> ''p'' 5) \<noteq> None"
  using sequences_check_behaviour [of 11 "\<lparr>sq_max_age = 10, sq_seqs = [''p'' \<mapsto> 5]\<rparr>" "''p''" 5]
  by simp



text \<open>The boundary the clean-up gets wrong: a number equal to the oldest allowed one is
accepted by the check and forgotten by the clean-up, so with three readings of the same clock
value the same request is accepted twice.\<close>

theorem sequences_replay_at_boundary:
  "sequences_run [(t, CheckSeq i (oldest_allowed s t)), (t, RetireSeqs), (t, CheckSeq i (oldest_allowed s t))]
      (s\<lparr>sq_seqs := Map.empty\<rparr>)
   = [(i, oldest_allowed s t), (i, oldest_allowed s t)]"
  by (simp add: sequences_check_def sequences_retire_def oldest_allowed_def)

end
