(* ===== verification/Externals.thy ===== *)
theory Externals
  imports Errors
begin

text \<open>
  The code the program calls but does not contain, as records of functions that the
  definitions take as arguments: the codecs and parsers (\<open>lib\<close>), the datastore
  (\<open>datastore\<close>, the interface of go-datastore) and the indexer core (\<open>indexer\<close>, the interface
  of go-indexer-core). Each comes with a predicate that says what its documentation promises;
  theorems that need the promise assume the predicate, and an instance that satisfies it is
  given for the witnesses.

  The \<^verbatim>\<open>path\<close> functions of the standard library are defined here, since keys are built with
  them.
\<close>

section \<open>Slash-separated paths\<close>

fun split_on :: "char \<Rightarrow> string \<Rightarrow> string list" where
  "split_on c [] = [[]]"
| "split_on c (x # xs) =
     (if x = c then [] # split_on c xs
      else (case split_on c xs of [] \<Rightarrow> [[x]] | y # ys \<Rightarrow> (x # y) # ys))"

fun join_with :: "string \<Rightarrow> string list \<Rightarrow> string" where
  "join_with sep [] = []"
| "join_with sep [x] = x"
| "join_with sep (x # y # ys) = x @ sep @ join_with sep (y # ys)"

fun clean_elems :: "bool \<Rightarrow> string list \<Rightarrow> string list \<Rightarrow> string list" where
  "clean_elems rooted acc [] = rev acc"
| "clean_elems rooted acc (e # es) =
     (if e = [] \<or> e = ''.'' then clean_elems rooted acc es
      else if e = ''..'' then
        (if acc \<noteq> [] \<and> hd acc \<noteq> ''..'' then clean_elems rooted (tl acc) es
         else if rooted then clean_elems rooted acc es
         else clean_elems rooted (e # acc) es)
      else clean_elems rooted (e # acc) es)"

definition path_clean :: "string \<Rightarrow> string" where
  "path_clean s =
     (if s = [] then ''.''
      else let rooted = (hd s = CHR ''/'');
               body = join_with ''/'' (clean_elems rooted [] (split_on CHR ''/'' s))
           in if rooted then CHR ''/'' # body else if body = [] then ''.'' else body)"

definition path_join :: "string list \<Rightarrow> string" where
  "path_join elems =
     (let es = filter (\<lambda>e. e \<noteq> []) elems
      in if es = [] then [] else path_clean (join_with ''/'' es))"

definition path_base :: "string \<Rightarrow> string" where
  "path_base s =
     (if s = [] then ''.''
      else let t = rev (dropWhile (\<lambda>c. c = CHR ''/'') (rev s));
               b = rev (takeWhile (\<lambda>c. c \<noteq> CHR ''/'') (rev t))
           in if b = [] then ''/'' else b)"

lemma split_on_nonempty [simp]: "split_on c s \<noteq> []"
  by (cases s) (auto split: list.splits)

lemma split_on_no_sep: "c \<notin> set s \<Longrightarrow> split_on c s = [s]"
  by (induction s) auto

lemma split_on_append: "c \<notin> set xs \<Longrightarrow> split_on c (xs @ c # ys) = xs # split_on c ys"
  by (induction xs) auto

text \<open>A path element: not empty, not a dot name and without a slash.\<close>

definition path_elem :: "string \<Rightarrow> bool" where
  "path_elem e \<longleftrightarrow> e \<noteq> [] \<and> e \<noteq> ''.'' \<and> e \<noteq> ''..'' \<and> CHR ''/'' \<notin> set e"

lemma path_base_elem:
  assumes "path_elem e"
  shows "path_base (p @ CHR ''/'' # e) = e"
proof -
  have last: "e \<noteq> []" "\<forall>c\<in>set (rev e). c \<noteq> CHR ''/''"
    using assms by (auto simp: path_elem_def)
  then have "dropWhile (\<lambda>c. c = CHR ''/'') (rev e @ CHR ''/'' # rev p) = rev e @ CHR ''/'' # rev p"
    by (cases "rev e") auto
  moreover have "takeWhile (\<lambda>c. c \<noteq> CHR ''/'') (rev e @ CHR ''/'' # rev p) = rev e"
    using last by (subst takeWhile_append2) auto
  ultimately show ?thesis using last by (simp add: path_base_def Let_def)
qed

section \<open>Codecs and parsers\<close>

text \<open>
  The functions of go-libp2p-core, go-multiaddr, go-cid and go-datastore the program uses, with
  \<open>Inl\<close> an error text. \<open>lib_new_key\<close> is \<^verbatim>\<open>datastore.NewKey\<close>.
\<close>

record lib =
  lib_peer_decode :: "string \<Rightarrow> string + peer_id"
  lib_peer_string :: "peer_id \<Rightarrow> string"
  lib_new_multiaddr :: "string \<Rightarrow> string + multiaddr"
  lib_multiaddr_string :: "multiaddr \<Rightarrow> string"
  lib_cid_string :: "cid \<Rightarrow> string"
  lib_cid_bytes :: "cid \<Rightarrow> bytes"
  lib_cid_from_bytes :: "bytes \<Rightarrow> string + cid"
  lib_new_key :: "string \<Rightarrow> string"

text \<open>
  What the libraries document of them: an identifier printed and parsed again is itself, and
  what is printed is a path element (base-encoded, so without a slash); \<open>NewKey\<close> of a clean
  absolute path is that path.
\<close>

definition lib_laws :: "lib \<Rightarrow> bool" where
  "lib_laws L \<longleftrightarrow>
     (\<forall>p. peer_valid p \<longrightarrow>
        lib_peer_decode L (lib_peer_string L p) = Inr p \<and> path_elem (lib_peer_string L p)) \<and>
     (\<forall>a. lib_new_multiaddr L (lib_multiaddr_string L a) = Inr a \<and> lib_multiaddr_string L a \<noteq> []) \<and>
     (\<forall>c. path_elem (lib_cid_string L c)) \<and> inj (lib_cid_string L) \<and>
     (\<forall>c. c \<noteq> cid_undef \<longrightarrow> lib_cid_from_bytes L (lib_cid_bytes L c) = Inr c) \<and>
     (\<forall>s. lib_new_key L s =
        (if s \<noteq> [] \<and> hd s = CHR ''/'' then path_clean s else path_clean (CHR ''/'' # s)))"

lemma lib_lawsD:
  assumes "lib_laws L"
  shows "peer_valid p \<Longrightarrow> lib_peer_decode L (lib_peer_string L p) = Inr p"
    and "peer_valid p \<Longrightarrow> path_elem (lib_peer_string L p)"
    and "lib_new_multiaddr L (lib_multiaddr_string L a) = Inr a"
    and "lib_multiaddr_string L a \<noteq> []"
    and "path_elem (lib_cid_string L c)"
    and "inj (lib_cid_string L)"
    and "c \<noteq> cid_undef \<Longrightarrow> lib_cid_from_bytes L (lib_cid_bytes L c) = Inr c"
    and "lib_new_key L s =
      (if s \<noteq> [] \<and> hd s = CHR ''/'' then path_clean s else path_clean (CHR ''/'' # s))"
  using assms unfolding lib_laws_def by blast+

lemma lib_peer_string_inj:
  "lib_laws L \<Longrightarrow> peer_valid p \<Longrightarrow> peer_valid q \<Longrightarrow>
     lib_peer_string L p = lib_peer_string L q \<longleftrightarrow> p = q"
  by (metis lib_lawsD(1) sum.inject(2))

text \<open>An instance: every character is printed as two letters.\<close>

definition hex_char :: "char \<Rightarrow> string" where
  "hex_char c = [char_of (97 + of_char c div 16 :: nat), char_of (97 + of_char c mod 16 :: nat)]"

definition hex_string :: "string \<Rightarrow> string" where
  "hex_string s = CHR ''z'' # concat (map hex_char s)"

fun unhex :: "string \<Rightarrow> string option" where
  "unhex [] = Some []"
| "unhex [a] = None"
| "unhex (a # b # s) =
     (let h = of_char a - 97; l = of_char b - 97 :: nat
      in if of_char a < (97 :: nat) \<or> of_char b < (97 :: nat) \<or> h \<ge> 16 \<or> l \<ge> 16 then None
         else map_option (\<lambda>r. char_of (16 * h + l) # r) (unhex s))"

text \<open>Both are computed bit by bit: four bits to a letter from a to p.\<close>

fun letter_bits :: "char \<Rightarrow> (bool \<times> bool \<times> bool \<times> bool) option" where
  "letter_bits (Char b0 b1 b2 b3 b4 b5 b6 b7) =
     (if b7 \<or> \<not> b6 \<or> \<not> b5 then None
      else if b4 then (if b0 \<or> b1 \<or> b2 \<or> b3 then None else Some (True, True, True, True))
      else if b0 then Some (False, b1, b2, b3)
      else if b1 then Some (True, False, b2, b3)
      else if b2 then Some (True, True, False, b3)
      else if b3 then Some (True, True, True, False) else None)"

fun letter :: "bool \<Rightarrow> bool \<Rightarrow> bool \<Rightarrow> bool \<Rightarrow> char" where
  "letter b0 b1 b2 b3 =
     (if \<not> b0 then Char True b1 b2 b3 False True True False
      else if \<not> b1 then Char False True b2 b3 False True True False
      else if \<not> b2 then Char False False True b3 False True True False
      else if \<not> b3 then Char False False False True False True True False
      else Char False False False False True True True False)"

definition nibble :: "bool \<Rightarrow> bool \<Rightarrow> bool \<Rightarrow> bool \<Rightarrow> nat" where
  "nibble b0 b1 b2 b3 = of_bool b0 + 2 * of_bool b1 + 4 * of_bool b2 + 8 * of_bool b3"

lemma nibble_less: "nibble b0 b1 b2 b3 < 16"
  by (simp add: nibble_def)

lemma of_char_nibbles:
  "(of_char (Char b0 b1 b2 b3 b4 b5 b6 b7) :: nat) = 16 * nibble b4 b5 b6 b7 + nibble b0 b1 b2 b3"
  by (simp add: nibble_def of_char_def)

lemma letter_nibble: "(of_char (letter b0 b1 b2 b3) :: nat) = 97 + nibble b0 b1 b2 b3"
  by (simp add: of_char_nibbles nibble_def)

lemma char_of_nibbles:
  "char_of (16 * nibble b4 b5 b6 b7 + nibble b0 b1 b2 b3) = Char b0 b1 b2 b3 b4 b5 b6 b7"
  by (simp only: of_char_nibbles [symmetric] char_of_char)

lemma hex_char_code [code]:
  "hex_char (Char b0 b1 b2 b3 b4 b5 b6 b7) = [letter b4 b5 b6 b7, letter b0 b1 b2 b3]"
proof -
  have "char_of (97 + nibble c0 c1 c2 c3) = letter c0 c1 c2 c3" for c0 c1 c2 c3
    by (metis letter_nibble char_of_char)
  then show ?thesis
    using nibble_less [of b0 b1 b2 b3] unfolding hex_char_def of_char_nibbles by (simp del: letter.simps)
qed

lemma letter_bits_Some:
  "letter_bits a = Some (b0, b1, b2, b3) \<Longrightarrow> a = letter b0 b1 b2 b3"
  by (cases a) (auto split: if_splits)

lemma letter_bits_None: "letter_bits a = None \<longleftrightarrow> \<not> (97 \<le> (of_char a :: nat) \<and> of_char a < (113 :: nat))"
  by (cases a) (auto simp: of_char_nibbles nibble_def of_bool_def split: if_splits)

lemma unhex_code [code]:
  "unhex [] = Some []"
  "unhex [a] = None"
  "unhex (a # b # s) =
     (case letter_bits a of
        None \<Rightarrow> None
      | Some (b4, b5, b6, b7) \<Rightarrow>
          (case letter_bits b of
             None \<Rightarrow> None
           | Some (b0, b1, b2, b3) \<Rightarrow> map_option ((#) (Char b0 b1 b2 b3 b4 b5 b6 b7)) (unhex s)))"
proof -
  show "unhex (a # b # s) =
     (case letter_bits a of
        None \<Rightarrow> None
      | Some (b4, b5, b6, b7) \<Rightarrow>
          (case letter_bits b of
             None \<Rightarrow> None
           | Some (b0, b1, b2, b3) \<Rightarrow> map_option ((#) (Char b0 b1 b2 b3 b4 b5 b6 b7)) (unhex s)))"
  proof (cases "letter_bits a = None \<or> letter_bits b = None")
    case True
    then have "unhex (a # b # s) = None"
      unfolding letter_bits_None by (auto simp: Let_def not_less le_diff_conv2)
    with True show ?thesis by (auto split: option.splits simp del: unhex.simps)
  next
    case False
    then obtain b4 b5 b6 b7 b0 b1 b2 b3 where
      bits: "letter_bits a = Some (b4, b5, b6, b7)" "letter_bits b = Some (b0, b1, b2, b3)" by auto
    note letters = this [THEN letter_bits_Some]
    show ?thesis
      using nibble_less [of b0 b1 b2 b3] nibble_less [of b4 b5 b6 b7]
      by (simp add: bits del: letter.simps)
        (simp add: letters letter_nibble char_of_nibbles del: letter.simps)
  qed
qed simp_all

definition unhex_string :: "string \<Rightarrow> string + string" where
  "unhex_string s =
     (case s of
        [] \<Rightarrow> Inl ''empty''
      | c # r \<Rightarrow> if c \<noteq> CHR ''z'' then Inl ''bad prefix''
                 else (case unhex r of None \<Rightarrow> Inl ''bad digits'' | Some t \<Rightarrow> Inr t))"

definition hex_lib :: lib where
  "hex_lib =
     \<lparr>lib_peer_decode = unhex_string, lib_peer_string = hex_string,
      lib_new_multiaddr = (\<lambda>s. map_sum id Multiaddr (unhex_string s)),
      lib_multiaddr_string = (\<lambda>a. case a of Multiaddr s \<Rightarrow> hex_string s),
      lib_cid_string = hex_string, lib_cid_bytes = id, lib_cid_from_bytes = Inr,
      lib_new_key = (\<lambda>s. if s \<noteq> [] \<and> hd s = CHR ''/'' then path_clean s
                         else path_clean (CHR ''/'' # s))\<rparr>"

lemma unhex_hex: "unhex (concat (map hex_char s)) = Some s"
proof (induction s)
  case Nil
  then show ?case by simp
next
  case (Cons c s)
  have c: "of_char c < (256 :: nat)" by (rule nat_of_char_less_256)
  have d: "of_char c div 16 < (16 :: nat)" "of_char c mod 16 < (16 :: nat)"
    using less_mult_imp_div_less [of "of_char c" 16 16] c by auto
  have m: "(97 + of_char c div 16) mod 256 = 97 + (of_char c div 16 :: nat)"
    "(97 + of_char c mod 16) mod 256 = 97 + (of_char c mod 16 :: nat)"
    using d by auto
  have eq: "16 * (of_char c div 16) + of_char c mod 16 = (of_char c :: nat)" by simp
  show ?case
    using Cons d eq by (simp add: hex_char_def Let_def m not_le)
qed

lemma unhex_hex_string [simp]: "unhex_string (hex_string s) = Inr s"
  by (simp add: unhex_string_def hex_string_def unhex_hex)

lemma hex_no_slash: "x \<in> set (hex_string s) \<Longrightarrow> x \<noteq> CHR ''/'' \<and> x \<noteq> CHR ''.''"
proof -
  have "y \<noteq> CHR ''/'' \<and> y \<noteq> CHR ''.''" if "y \<in> set (hex_char c)" for y c
  proof -
    obtain n :: nat where y: "y = char_of (97 + n)" and n: "n < 16"
    proof -
      have "of_char c div 16 < (16 :: nat)" using nat_of_char_less_256 [of c] by (simp add: less_mult_imp_div_less)
      moreover have "of_char c mod 16 < (16 :: nat)" by simp
      ultimately show ?thesis using \<open>y \<in> set (hex_char c)\<close> that by (auto simp: hex_char_def)
    qed
    have "of_char y = 97 + n" using y n by (simp add: of_char_of)
    moreover have "of_char CHR ''/'' = (47 :: nat)" "of_char CHR ''.'' = (46 :: nat)" by simp_all
    ultimately show ?thesis by auto
  qed
  then show "x \<in> set (hex_string s) \<Longrightarrow> x \<noteq> CHR ''/'' \<and> x \<noteq> CHR ''.''"
    by (auto simp: hex_string_def)
qed

lemma hex_path_elem: "path_elem (hex_string s)"
  using hex_no_slash [of _ s] by (auto simp: path_elem_def hex_string_def)

lemma hex_lib_laws: "lib_laws hex_lib"
proof -
  have inj: "inj hex_string"
    by (rule injI) (metis unhex_hex_string sum.inject(2))
  have ma: "hex_string s \<noteq> []" for s by (simp add: hex_string_def)
  show ?thesis
    unfolding lib_laws_def hex_lib_def by (auto simp: hex_path_elem inj ma split: multiaddr.splits)
qed

section \<open>The datastore\<close>

datatype get_result = Found bytes | NotFound | GetFailed string

record 'd datastore =
  ds_get :: "'d \<Rightarrow> string \<Rightarrow> get_result"
  ds_put :: "'d \<Rightarrow> string \<Rightarrow> bytes \<Rightarrow> string option \<times> 'd"
  ds_delete :: "'d \<Rightarrow> string \<Rightarrow> string option \<times> 'd"
  ds_sync :: "'d \<Rightarrow> string \<Rightarrow> string option \<times> 'd"
  ds_query :: "'d \<Rightarrow> string \<Rightarrow> string + (string + string \<times> bytes) list"

text \<open>
  What go-datastore documents of a key-value store: a put that reports success is seen by later
  gets of that key, a delete that reports success makes the key not found, neither changes
  another key, an operation that fails changes nothing, and a sync changes no content.
\<close>

definition datastore_laws :: "'d datastore \<Rightarrow> bool" where
  "datastore_laws D \<longleftrightarrow>
     (\<forall>d k v. ds_get D (snd (ds_put D d k v)) =
        (if fst (ds_put D d k v) = None then (ds_get D d)(k := Found v) else ds_get D d)) \<and>
     (\<forall>d k. ds_get D (snd (ds_delete D d k)) =
        (if fst (ds_delete D d k) = None then (ds_get D d)(k := NotFound) else ds_get D d)) \<and>
     (\<forall>d k. ds_get D (snd (ds_sync D d k)) = ds_get D d)"

text \<open>A store all of whose operations succeed.\<close>

definition datastore_reliable :: "'d datastore \<Rightarrow> bool" where
  "datastore_reliable D \<longleftrightarrow>
     (\<forall>d k v. fst (ds_put D d k v) = None) \<and> (\<forall>d k. fst (ds_delete D d k) = None) \<and>
     (\<forall>d k. fst (ds_sync D d k) = None) \<and> (\<forall>d k t. ds_get D d k \<noteq> GetFailed t)"

lemma ds_put_get:
  "datastore_laws D \<Longrightarrow> ds_get D (snd (ds_put D d k v)) =
     (if fst (ds_put D d k v) = None then (ds_get D d)(k := Found v) else ds_get D d)"
  unfolding datastore_laws_def by blast

lemma ds_delete_get:
  "datastore_laws D \<Longrightarrow> ds_get D (snd (ds_delete D d k)) =
     (if fst (ds_delete D d k) = None then (ds_get D d)(k := NotFound) else ds_get D d)"
  unfolding datastore_laws_def by blast

lemma ds_sync_get: "datastore_laws D \<Longrightarrow> ds_get D (snd (ds_sync D d k)) = ds_get D d"
  unfolding datastore_laws_def by blast

lemma reliable_ops:
  assumes "datastore_reliable D"
  shows "fst (ds_put D d k v) = None" "fst (ds_delete D d k) = None" "fst (ds_sync D d k) = None"
    and "ds_get D d k \<noteq> GetFailed t"
  using assms unfolding datastore_reliable_def by blast+

text \<open>An association list is such a store.\<close>

definition alist_ds :: "(string \<times> bytes) list datastore" where
  "alist_ds =
     \<lparr>ds_get = (\<lambda>d k. case map_of d k of None \<Rightarrow> NotFound | Some v \<Rightarrow> Found v),
      ds_put = (\<lambda>d k v. (None, (k, v) # d)),
      ds_delete = (\<lambda>d k. (None, filter (\<lambda>x. fst x \<noteq> k) d)),
      ds_sync = (\<lambda>d k. (None, d)),
      ds_query = (\<lambda>d prefix. Inr (map Inr (filter (\<lambda>x. take (length prefix) (fst x) = prefix) d)))\<rparr>"

lemma map_of_filter_neq: "map_of (filter (\<lambda>x. fst x \<noteq> k) d) j = (if j = k then None else map_of d j)"
  by (induction d) auto

lemma alist_ds_laws: "datastore_laws alist_ds"
  by (auto simp: datastore_laws_def alist_ds_def fun_eq_iff map_of_filter_neq)

lemma alist_ds_reliable: "datastore_reliable alist_ds"
  by (auto simp: datastore_reliable_def alist_ds_def split: option.splits)

section \<open>The indexer core\<close>

record index_value =
  iv_provider :: peer_id
  iv_context :: bytes
  iv_metadata :: bytes

record 'i indexer =
  ix_get :: "'i \<Rightarrow> multihash \<Rightarrow> string + index_value list option"
  ix_put :: "'i \<Rightarrow> index_value \<Rightarrow> multihash list \<Rightarrow> string option \<times> 'i"
  ix_remove :: "'i \<Rightarrow> index_value \<Rightarrow> multihash list \<Rightarrow> string option \<times> 'i"
  ix_remove_context :: "'i \<Rightarrow> peer_id \<Rightarrow> bytes \<Rightarrow> string option \<times> 'i"
  ix_size :: "'i \<Rightarrow> string + int"

text \<open>
  The contents of an indexer are, for every multihash, the contexts (provider and context ID) it
  is mapped to, and for every context one metadata. Putting a value sets the metadata of its
  context and maps the multihashes to it; removing a value unmaps the multihashes from its
  context; removing a context unmaps everything from it and forgets its metadata. \<open>absv\<close> reads
  these contents from an indexer state.
\<close>

type_synonym context_key = "peer_id \<times> bytes"

record contents =
  ct_meta :: "context_key \<rightharpoonup> bytes"
  ct_entries :: "(multihash \<times> context_key) set"

definition value_key :: "index_value \<Rightarrow> context_key" where
  "value_key v = (iv_provider v, iv_context v)"

definition contents_put :: "index_value \<Rightarrow> multihash list \<Rightarrow> contents \<Rightarrow> contents" where
  "contents_put v mhs c =
     \<lparr>ct_meta = (ct_meta c)(value_key v \<mapsto> iv_metadata v),
      ct_entries = ct_entries c \<union> (\<lambda>m. (m, value_key v)) ` set mhs\<rparr>"

definition contents_remove :: "index_value \<Rightarrow> multihash list \<Rightarrow> contents \<Rightarrow> contents" where
  "contents_remove v mhs c =
     c\<lparr>ct_entries := ct_entries c - (\<lambda>m. (m, value_key v)) ` set mhs\<rparr>"

definition contents_remove_context :: "context_key \<Rightarrow> contents \<Rightarrow> contents" where
  "contents_remove_context k c =
     \<lparr>ct_meta = (ct_meta c)(k := None), ct_entries = {e \<in> ct_entries c. snd e \<noteq> k}\<rparr>"

definition indexer_laws :: "'i indexer \<Rightarrow> ('i \<Rightarrow> contents) \<Rightarrow> bool" where
  "indexer_laws X absv \<longleftrightarrow>
     (\<forall>i v mhs. fst (ix_put X i v mhs) = None \<longrightarrow>
        absv (snd (ix_put X i v mhs)) = contents_put v mhs (absv i)) \<and>
     (\<forall>i v mhs. fst (ix_remove X i v mhs) = None \<longrightarrow>
        absv (snd (ix_remove X i v mhs)) = contents_remove v mhs (absv i)) \<and>
     (\<forall>i p c. fst (ix_remove_context X i p c) = None \<longrightarrow>
        absv (snd (ix_remove_context X i p c)) = contents_remove_context (p, c) (absv i))"

text \<open>An indexer that keeps its contents as they are described, and never fails.\<close>

definition plain_indexer :: "contents indexer" where
  "plain_indexer =
     \<lparr>ix_get = (\<lambda>c m. Inr None),
      ix_put = (\<lambda>c v mhs. (None, contents_put v mhs c)),
      ix_remove = (\<lambda>c v mhs. (None, contents_remove v mhs c)),
      ix_remove_context = (\<lambda>c p k. (None, contents_remove_context (p, k) c)),
      ix_size = (\<lambda>c. Inr 0)\<rparr>"

lemma plain_indexer_laws: "indexer_laws plain_indexer id"
  by (simp add: indexer_laws_def plain_indexer_def)

end
