(* ===== verification/Registry.thy ===== *)
theory Registry
  imports Peer_Policy Sequences Externals
begin

text \<open>
  \<^verbatim>\<open>internal/registry/registry.go\<close>: the providers the indexer knows, who may register them,
  how they are discovered, polled, removed, persisted and loaded. The goroutine that runs the
  actions makes each action atomic, so every action is one function on the registry state;
  operations that use several actions are composed of them in the order the code runs them.

  \<open>D\<close> is the datastore, \<open>L\<close> the codecs, \<open>J\<close> the JSON codec of persisted providers. A clock
  reading and the order in which a Go map is ranged over are arguments.
\<close>

section \<open>State\<close>

record provider_info =
  pi_addr_info :: addr_info
  pi_discovery_addr :: string
  pi_last_ad :: cid
  pi_last_ad_time :: gotime
  pi_publisher :: peer_id
  pi_publisher_addr :: "multiaddr option"
  pi_last_contact :: gotime
  pi_deleted :: bool
  pi_inactive :: bool

definition new_provider_info :: "addr_info \<Rightarrow> provider_info" where
  "new_provider_info ai =
     \<lparr>pi_addr_info = ai, pi_discovery_addr = [], pi_last_ad = cid_undef,
      pi_last_ad_time = zero_time, pi_publisher = [], pi_publisher_addr = None,
      pi_last_contact = zero_time, pi_deleted = False, pi_inactive = False\<rparr>"

abbreviation pi_id :: "provider_info \<Rightarrow> peer_id" where
  "pi_id info \<equiv> ai_id (pi_addr_info info)"

abbreviation pi_addrs :: "provider_info \<Rightarrow> multiaddr list" where
  "pi_addrs info \<equiv> ai_addrs (pi_addr_info info)"

record polling =
  poll_interval :: duration
  poll_retry_after :: duration
  poll_stop_after :: duration

record 'd registry =
  rg_policy :: registry_policy
  rg_providers :: "peer_id \<rightharpoonup> provider_info"
  rg_sequences :: sequences
  rg_discover_times :: "string \<rightharpoonup> gotime"
  rg_discover_wait :: nat
  rg_rediscover_wait :: duration
  rg_sync_chan :: "provider_info list"
  rg_dstore :: "'d option"

definition provider_deleted :: "provider_info \<Rightarrow> bool" where
  "provider_deleted p = pi_deleted p"

definition provider_inactive :: "provider_info \<Rightarrow> bool" where
  "provider_inactive p = pi_inactive p"

text \<open>The sentinel errors of \<^verbatim>\<open>errors.go\<close>.\<close>

definition err_in_progress :: go_error where
  "err_in_progress = ErrMsg ''discovery already in progress''"
definition err_cannot_publish :: go_error where
  "err_cannot_publish = ErrMsg ''publisher not allowed to publish to other provider''"
definition err_not_allowed :: go_error where
  "err_not_allowed = ErrMsg ''provider not allowed by policy''"
definition err_no_discovery :: go_error where
  "err_no_discovery = ErrMsg ''discovery not available''"
definition err_publisher_not_allowed :: go_error where
  "err_publisher_not_allowed = ErrMsg ''publisher not allowed by policy''"
definition err_too_soon :: go_error where
  "err_too_soon = ErrMsg ''not enough time since previous discovery''"
definition err_empty_peer_id :: go_error where
  "err_empty_peer_id = ErrMsg ''empty peer ID''"

lemmas registry_error_defs =
  err_in_progress_def err_cannot_publish_def err_not_allowed_def err_no_discovery_def
  err_publisher_not_allowed_def err_too_soon_def err_empty_peer_id_def

definition peer_id_validate :: "peer_id \<Rightarrow> go_error option" where
  "peer_id_validate p = (if peer_valid p then None else Some err_empty_peer_id)"

lemma peer_id_validate_None [simp]: "peer_id_validate p = None \<longleftrightarrow> peer_valid p"
  by (simp add: peer_id_validate_def)

section \<open>What is persisted\<close>

text \<open>
  The exported fields, with the publisher address as its text (empty for nil). The JSON codec
  of this struct is the parameter \<open>J\<close>.
\<close>

record persisted =
  ps_addr_info :: addr_info
  ps_discovery_addr :: string
  ps_last_ad :: cid
  ps_last_ad_time :: gotime
  ps_publisher :: peer_id
  ps_publisher_addr :: string

record json_codec =
  js_marshal :: "persisted \<Rightarrow> string + bytes"
  js_unmarshal :: "bytes \<Rightarrow> string + persisted"

definition codec_inverts :: "json_codec \<Rightarrow> bool" where
  "codec_inverts J \<longleftrightarrow> (\<forall>p. \<exists>b. js_marshal J p = Inr b \<and> js_unmarshal J b = Inr p)"

definition marshal_json :: "lib \<Rightarrow> json_codec \<Rightarrow> provider_info \<Rightarrow> string + bytes" where
  "marshal_json L J p =
     js_marshal J
       \<lparr>ps_addr_info = pi_addr_info p, ps_discovery_addr = pi_discovery_addr p,
        ps_last_ad = pi_last_ad p, ps_last_ad_time = pi_last_ad_time p,
        ps_publisher = pi_publisher p,
        ps_publisher_addr = (case pi_publisher_addr p of None \<Rightarrow> [] | Some a \<Rightarrow> lib_multiaddr_string L a)\<rparr>"

definition unmarshal_json :: "lib \<Rightarrow> json_codec \<Rightarrow> bytes \<Rightarrow> string + provider_info" where
  "unmarshal_json L J data =
     (case js_unmarshal J data of
        Inl e \<Rightarrow> Inl e
      | Inr aux \<Rightarrow>
          let p = (new_provider_info (ps_addr_info aux))
                    \<lparr>pi_discovery_addr := ps_discovery_addr aux, pi_last_ad := ps_last_ad aux,
                     pi_last_ad_time := ps_last_ad_time aux, pi_publisher := ps_publisher aux\<rparr>
          in if ps_publisher_addr aux \<noteq> [] then
               (case lib_new_multiaddr L (ps_publisher_addr aux) of
                  Inl e \<Rightarrow> Inl e
                | Inr a \<Rightarrow> Inr (p\<lparr>pi_publisher_addr := Some a\<rparr>))
             else Inr p)"

definition provider_key_path :: string where
  "provider_key_path = ''/registry/pinfo''"

definition peer_id_to_ds_key :: "lib \<Rightarrow> peer_id \<Rightarrow> string" where
  "peer_id_to_ds_key L p = lib_new_key L (path_join [provider_key_path, lib_peer_string L p])"

definition ds_key :: "lib \<Rightarrow> provider_info \<Rightarrow> string" where
  "ds_key L p = peer_id_to_ds_key L (pi_id p)"

definition sync_persist_provider ::
    "'d datastore \<Rightarrow> lib \<Rightarrow> json_codec \<Rightarrow> provider_info \<Rightarrow> 'd registry \<Rightarrow>
       go_error option \<times> 'd registry" where
  "sync_persist_provider D L J info r =
     (case rg_dstore r of
        None \<Rightarrow> (None, r)
      | Some d \<Rightarrow>
          (case marshal_json L J info of
             Inl e \<Rightarrow> (Some (ErrMsg e), r)
           | Inr v \<Rightarrow>
               (case ds_put D d (ds_key L info) v of
                  (Some e, d') \<Rightarrow> (Some (ErrMsg e), r\<lparr>rg_dstore := Some d'\<rparr>)
                | (None, d') \<Rightarrow>
                    (case ds_sync D d' (ds_key L info) of
                       (Some e, d'') \<Rightarrow> (Some (ErrMsg e), r\<lparr>rg_dstore := Some d''\<rparr>)
                     | (None, d'') \<Rightarrow> (None, r\<lparr>rg_dstore := Some d''\<rparr>)))))"

definition sync_register ::
    "'d datastore \<Rightarrow> lib \<Rightarrow> json_codec \<Rightarrow> provider_info \<Rightarrow> 'd registry \<Rightarrow>
       go_error option \<times> 'd registry" where
  "sync_register D L J info r =
     (let r = r\<lparr>rg_providers := (rg_providers r)(pi_id info \<mapsto> info)\<rparr>
      in case sync_persist_provider D L J info r of
           (Some e, r') \<Rightarrow>
             (Some (new_error (Some (ErrMsg (''could not persist provider: '' @ error_string e))) 500), r')
         | (None, r') \<Rightarrow> (None, r'))"

definition sync_remove_provider ::
    "'d datastore \<Rightarrow> lib \<Rightarrow> peer_id \<Rightarrow> 'd registry \<Rightarrow> go_error option \<times> 'd registry" where
  "sync_remove_provider D L p r =
     (let r = r\<lparr>rg_providers := (rg_providers r)(p := None)\<rparr>
      in case rg_dstore r of
           None \<Rightarrow> (None, r)
         | Some d \<Rightarrow>
             (case ds_delete D d (peer_id_to_ds_key L p) of
                (Some e, d') \<Rightarrow> (Some (ErrMsg e), r\<lparr>rg_dstore := Some d'\<rparr>)
              | (None, d') \<Rightarrow>
                  (case ds_sync D d' (peer_id_to_ds_key L p) of
                     (Some e, d'') \<Rightarrow> (Some (ErrMsg e), r\<lparr>rg_dstore := Some d''\<rparr>)
                   | (None, d'') \<Rightarrow> (None, r\<lparr>rg_dstore := Some d''\<rparr>))))"

section \<open>Policy and look-ups\<close>

definition allowed :: "'d registry \<Rightarrow> peer_id \<Rightarrow> bool" where
  "allowed r p = policy_allowed (rg_policy r) p"

definition publish_allowed :: "'d registry \<Rightarrow> peer_id \<Rightarrow> peer_id \<Rightarrow> bool" where
  "publish_allowed r publisher provider = policy_publish_allowed (rg_policy r) publisher provider"

definition set_policy ::
    "lib \<Rightarrow> policy_config \<Rightarrow> 'd registry \<Rightarrow> go_error option \<times> 'd registry" where
  "set_policy L cfg r =
     (case policy_new (lib_peer_decode L) cfg of
        Inl e \<Rightarrow> (Some e, r)
      | Inr new \<Rightarrow> (None, r\<lparr>rg_policy := policy_copy (rg_policy r) new\<rparr>))"

definition allow_peer :: "peer_id \<Rightarrow> 'd registry \<Rightarrow> bool \<times> 'd registry" where
  "allow_peer p r = (let (pol, b) = policy_allow (rg_policy r) p in (b, r\<lparr>rg_policy := pol\<rparr>))"

definition block_peer :: "peer_id \<Rightarrow> 'd registry \<Rightarrow> bool \<times> 'd registry" where
  "block_peer p r = (let (pol, b) = policy_block (rg_policy r) p in (b, r\<lparr>rg_policy := pol\<rparr>))"

definition is_registered :: "'d registry \<Rightarrow> peer_id \<Rightarrow> bool" where
  "is_registered r p \<longleftrightarrow> rg_providers r p \<noteq> None"

definition lookup_provider :: "'d registry \<Rightarrow> peer_id \<Rightarrow> provider_info option" where
  "lookup_provider r p =
     (case rg_providers r p of
        Some info \<Rightarrow> if \<not> provider_inactive info then Some info else None
      | None \<Rightarrow> None)"

definition lookup_provider_always :: "'d registry \<Rightarrow> peer_id \<Rightarrow> provider_info option" where
  "lookup_provider_always r p = rg_providers r p"

definition all_provider_info :: "peer_id list \<Rightarrow> 'd registry \<Rightarrow> provider_info list" where
  "all_provider_info order r =
     filter (\<lambda>info. \<not> provider_inactive info)
       (concat (map (\<lambda>p. case rg_providers r p of None \<Rightarrow> [] | Some info \<Rightarrow> [info]) order))"

definition check_sequence ::
    "gotime \<Rightarrow> peer_id \<Rightarrow> 64 word \<Rightarrow> 'd registry \<Rightarrow> go_error option \<times> 'd registry" where
  "check_sequence now p seq r =
     (let (e, s) = sequences_check now (rg_sequences r) p seq in (e, r\<lparr>rg_sequences := s\<rparr>))"

section \<open>Registration\<close>

text \<open>The checks of \<^verbatim>\<open>Register\<close>, in their order.\<close>

definition register_check :: "provider_info \<Rightarrow> 'd registry \<Rightarrow> go_error option" where
  "register_check info r =
     (if pi_addrs info = [] then Some (ErrMsg ''missing provider address'')
      else case peer_id_validate (pi_id info) of
             Some e \<Rightarrow> Some e
           | None \<Rightarrow>
               if \<not> policy_allowed (rg_policy r) (pi_id info)
               then Some (new_error (Some err_not_allowed) 403)
               else if peer_id_validate (pi_publisher info) = None \<and> pi_publisher info \<noteq> pi_id info
               then (if \<not> policy_allowed (rg_policy r) (pi_publisher info)
                     then Some (new_error (Some err_publisher_not_allowed) 403)
                     else if \<not> policy_publish_allowed (rg_policy r) (pi_publisher info) (pi_id info)
                     then Some (new_error (Some err_cannot_publish) 403)
                     else None)
               else None)"

definition register ::
    "'d datastore \<Rightarrow> lib \<Rightarrow> json_codec \<Rightarrow> provider_info \<Rightarrow> 'd registry \<Rightarrow>
       go_error option \<times> 'd registry" where
  "register D L J info r =
     (case register_check info r of
        Some e \<Rightarrow> (Some e, r)
      | None \<Rightarrow> sync_register D L J info r)"

fun strings_to_multiaddrs :: "lib \<Rightarrow> string list \<Rightarrow> go_error + multiaddr list" where
  "strings_to_multiaddrs L [] = Inr []"
| "strings_to_multiaddrs L (s # ss) =
     (case lib_new_multiaddr L s of
        Inl e \<Rightarrow> Inl (ErrMsg (''bad address: '' @ e))
      | Inr m \<Rightarrow>
          (case strings_to_multiaddrs L ss of Inl e \<Rightarrow> Inl e | Inr ms \<Rightarrow> Inr (m # ms)))"

text \<open>
  The publisher part of \<^verbatim>\<open>RegisterOrUpdate\<close>: the new provider info and whether a full
  registration is needed. The first address of a publisher whose ID changed is read without a
  length check.
\<close>

definition update_publisher ::
    "peer_id \<Rightarrow> addr_info \<Rightarrow> provider_info option \<Rightarrow> (provider_info \<times> bool) go" where
  "update_publisher p publisher found =
     (case found of
        Some i \<Rightarrow>
          let info = (new_provider_info \<lparr>ai_id = p, ai_addrs = pi_addrs i\<rparr>)
                       \<lparr>pi_discovery_addr := pi_discovery_addr i, pi_last_ad := pi_last_ad i,
                        pi_last_ad_time := pi_last_ad_time i, pi_publisher := pi_publisher i,
                        pi_publisher_addr := pi_publisher_addr i\<rparr>
          in if peer_id_validate (ai_id publisher) = None then
               (if ai_id publisher \<noteq> pi_publisher info then
                  go_bind (first_elem (ai_addrs publisher))
                    (\<lambda>a. Inr (info\<lparr>pi_publisher := ai_id publisher, pi_publisher_addr := Some a\<rparr>, True))
                else if ai_addrs publisher \<noteq> [] then
                  go_bind (first_elem (ai_addrs publisher))
                    (\<lambda>a. Inr (info\<lparr>pi_publisher_addr := Some a\<rparr>, False))
                else Inr (info, False))
             else Inr (info, False)
      | None \<Rightarrow>
          let info = new_provider_info \<lparr>ai_id = p, ai_addrs = []\<rparr>;
              info = (if peer_id_validate (ai_id publisher) = None
                      then info\<lparr>pi_publisher := ai_id publisher\<rparr> else info)
          in if ai_addrs publisher \<noteq> [] then
               go_bind (first_elem (ai_addrs publisher))
                 (\<lambda>a. Inr (info\<lparr>pi_publisher_addr := Some a\<rparr>, True))
             else Inr (info, True))"

definition default_publisher_addr :: "provider_info \<Rightarrow> provider_info" where
  "default_publisher_addr info =
     (if peer_id_validate (pi_publisher info) = None \<and> pi_publisher_addr info = None \<and>
         pi_publisher info = pi_id info
      then (case pi_addrs info of
              [] \<Rightarrow> info
            | a # _ \<Rightarrow> info\<lparr>pi_publisher_addr := Some a\<rparr>)
      else info)"

definition update_ad :: "gotime \<Rightarrow> cid \<Rightarrow> provider_info \<Rightarrow> provider_info" where
  "update_ad now ad info =
     (let info = (if ad \<noteq> pi_last_ad info \<and> ad \<noteq> cid_undef
                  then info\<lparr>pi_last_ad := ad, pi_last_ad_time := now\<rparr> else info)
      in info\<lparr>pi_last_contact := now\<rparr>)"

definition register_or_update ::
    "'d datastore \<Rightarrow> lib \<Rightarrow> json_codec \<Rightarrow> gotime \<Rightarrow> peer_id \<Rightarrow> string list \<Rightarrow> cid \<Rightarrow> addr_info \<Rightarrow>
       'd registry \<Rightarrow> (go_error option \<times> 'd registry) go" where
  "register_or_update D L J now p addrs ad publisher r =
     go_bind (update_publisher p publisher (lookup_provider r p)) (\<lambda>(info, full).
       let info = default_publisher_addr info
       in go_bind
            (if addrs \<noteq> [] then
               (case strings_to_multiaddrs L addrs of
                  Inl e \<Rightarrow> Inl (ExplicitPanic (error_string e))
                | Inr ms \<Rightarrow> Inr (info\<lparr>pi_addr_info := (pi_addr_info info)\<lparr>ai_addrs := ms\<rparr>\<rparr>))
             else Inr info)
            (\<lambda>info.
               let info = update_ad now ad info
               in if full then Inr (register D L J info r)
                  else Inr (sync_register D L J info r)))"

section \<open>Import and removal\<close>

record remote_provider =
  rm_addr_info :: addr_info
  rm_publisher :: "addr_info option"

definition import_info :: "remote_provider \<Rightarrow> provider_info go" where
  "import_info p =
     (let info = new_provider_info (rm_addr_info p);
          self = go_bind (first_elem (pi_addrs info)) (\<lambda>a.
                   Inr (info\<lparr>pi_publisher := pi_id info, pi_publisher_addr := Some a\<rparr>))
      in case rm_publisher p of
           None \<Rightarrow> self
         | Some pub \<Rightarrow>
             if peer_id_validate (ai_id pub) \<noteq> None then self
             else if ai_addrs pub = [] then self
             else go_bind (first_elem (ai_addrs pub)) (\<lambda>a.
                    Inr (info\<lparr>pi_publisher := ai_id pub, pi_publisher_addr := Some a\<rparr>)))"

fun import_loop ::
    "'d datastore \<Rightarrow> lib \<Rightarrow> json_codec \<Rightarrow> remote_provider option list \<Rightarrow> provider_info list \<Rightarrow>
       'd registry \<Rightarrow> (provider_info list \<times> 'd registry) go" where
  "import_loop D L J [] new r = Inr (new, r)"
| "import_loop D L J (None # ps) new r = Inl NilDereference"
| "import_loop D L J (Some p # ps) new r =
     (if is_registered r (ai_id (rm_addr_info p)) then import_loop D L J ps new r
      else go_bind (import_info p) (\<lambda>info.
             case register D L J info r of
               (Some e, r') \<Rightarrow> import_loop D L J ps new r'
             | (None, r') \<Rightarrow> import_loop D L J ps (new @ [info]) r'))"

text \<open>
  \<open>listed\<close> is what the other indexer answered. The result is the error or the count, and the
  providers that the goroutine started at the end offers to the sync channel one by one.
\<close>

definition import_providers ::
    "'d datastore \<Rightarrow> lib \<Rightarrow> json_codec \<Rightarrow> go_error + remote_provider option list \<Rightarrow> 'd registry \<Rightarrow>
       ((go_error + nat) \<times> provider_info list \<times> 'd registry) go" where
  "import_providers D L J listed r =
     (case listed of
        Inl e \<Rightarrow> Inr (Inl e, [], r)
      | Inr ps \<Rightarrow>
          go_bind (import_loop D L J ps [] r) (\<lambda>(new, r'). Inr (Inr (length new), new, r')))"

text \<open>
  The third component of the result is the notice the caller then sends on the sync channel,
  waiting until there is room for it.
\<close>

definition remove_provider ::
    "'d datastore \<Rightarrow> lib \<Rightarrow> peer_id \<Rightarrow> 'd registry \<Rightarrow>
       go_error option \<times> provider_info option \<times> 'd registry" where
  "remove_provider D L p r =
     (let pinfo = rg_providers r p
      in case sync_remove_provider D L p r of
           (Some e, r') \<Rightarrow> (Some e, None, r')
         | (None, r') \<Rightarrow> (None, map_option (\<lambda>i. i\<lparr>pi_deleted := True\<rparr>) pinfo, r'))"

definition sync_chan_cap :: nat where
  "sync_chan_cap = 1"

text \<open>The non-blocking send: dropped when the channel is full.\<close>

definition try_send :: "provider_info \<Rightarrow> 'd registry \<Rightarrow> 'd registry" where
  "try_send info r =
     (if length (rg_sync_chan r) < sync_chan_cap
      then r\<lparr>rg_sync_chan := rg_sync_chan r @ [info]\<rparr> else r)"

definition receive_sync :: "'d registry \<Rightarrow> (provider_info \<times> 'd registry) option" where
  "receive_sync r =
     (case rg_sync_chan r of [] \<Rightarrow> None | i # is \<Rightarrow> Some (i, r\<lparr>rg_sync_chan := is\<rparr>))"

section \<open>Discovery\<close>

definition sync_need_discover :: "gotime \<Rightarrow> string \<Rightarrow> 'd registry \<Rightarrow> go_error option" where
  "sync_need_discover now sp r =
     (case rg_discover_times r sp of
        None \<Rightarrow> None
      | Some completed \<Rightarrow>
          if completed = zero_time then Some err_in_progress
          else if rg_rediscover_wait r \<noteq> 0 \<and> now - completed < rg_rediscover_wait r
          then Some err_too_soon
          else None)"

text \<open>The result says whether a discovery was started; an error goes to the caller's channel.\<close>

definition sync_start_discover ::
    "gotime \<Rightarrow> string \<Rightarrow> 'd registry \<Rightarrow> go_error option \<times> 'd registry" where
  "sync_start_discover now sp r =
     (case sync_need_discover now sp r of
        Some e \<Rightarrow> (Some e, r)
      | None \<Rightarrow>
          (None, r\<lparr>rg_discover_times := (rg_discover_times r)(sp \<mapsto> zero_time),
                   rg_discover_wait := rg_discover_wait r + 1\<rparr>))"

definition discover_provider ::
    "gotime \<Rightarrow> peer_id \<Rightarrow> string \<Rightarrow> 'd registry \<Rightarrow> go_error option \<times> 'd registry" where
  "discover_provider now p sp r =
     (if \<not> policy_allowed (rg_policy r) p then (Some (new_error (Some err_not_allowed) 403), r)
      else sync_start_discover now sp r)"

definition run_discoverer ::
    "(peer_id \<Rightarrow> string \<Rightarrow> go_error + addr_info) option \<Rightarrow> peer_id \<Rightarrow> string \<Rightarrow> go_error + addr_info" where
  "run_discoverer discoverer p sp =
     (case discoverer of
        None \<Rightarrow> Inl err_no_discovery
      | Some disc \<Rightarrow>
          (case disc p sp of
             Inl e \<Rightarrow> Inl (ErrMsg (''cannot discover provider: '' @ error_string e))
           | Inr data \<Rightarrow> Inr data))"

definition finish_discover ::
    "'d datastore \<Rightarrow> lib \<Rightarrow> json_codec \<Rightarrow> gotime \<Rightarrow> string \<Rightarrow> go_error + addr_info \<Rightarrow> 'd registry \<Rightarrow>
       go_error option \<times> 'd registry" where
  "finish_discover D L J now sp result r =
     (let r = r\<lparr>rg_discover_times := (rg_discover_times r)(sp \<mapsto> now)\<rparr>;
          (e, r) = (case result of
             Inl e \<Rightarrow> (Some e, r)
           | Inr ai \<Rightarrow> sync_register D L J ((new_provider_info ai)\<lparr>pi_discovery_addr := sp\<rparr>) r)
      in (e, r\<lparr>rg_discover_wait := rg_discover_wait r - 1\<rparr>))"

definition cleanup :: "gotime \<Rightarrow> 'd registry \<Rightarrow> 'd registry" where
  "cleanup now r =
     r\<lparr>rg_sequences := sequences_retire now (rg_sequences r),
       rg_discover_times := (\<lambda>sp. case rg_discover_times r sp of
          None \<Rightarrow> None
        | Some completed \<Rightarrow>
            if completed = zero_time then Some completed
            else if rg_rediscover_wait r \<noteq> 0 \<and> now - completed < rg_rediscover_wait r
            then Some completed else None)\<rparr>"

section \<open>Polling\<close>

definition poll_check_interval :: "polling \<Rightarrow> polling list \<Rightarrow> duration" where
  "poll_check_interval poll overrides =
     max minute (fold (\<lambda>ov retry. min (poll_retry_after ov) retry) overrides (poll_retry_after poll))"

text \<open>
  One round of the loop over the providers. The first component of the result is the value of
  the loop's variable \<^verbatim>\<open>poll\<close> for the next provider.
\<close>

definition poll_provider ::
    "'d datastore \<Rightarrow> lib \<Rightarrow> gotime \<Rightarrow> (peer_id \<rightharpoonup> polling) \<Rightarrow> peer_id \<Rightarrow> polling \<times> 'd registry \<Rightarrow>
       polling \<times> 'd registry" where
  "poll_provider D L now overrides p pr =
     (let (poll, r) = pr in
      case rg_providers r p of
        None \<Rightarrow> (poll, r)
      | Some info \<Rightarrow>
          if peer_id_validate (pi_publisher info) \<noteq> None then (poll, r)
          else
            let poll = (case overrides p of Some ov \<Rightarrow> ov | None \<Rightarrow> poll) in
            if pi_last_contact info = zero_time then
              (poll, r\<lparr>rg_providers := (rg_providers r)
                 (p \<mapsto> info\<lparr>pi_last_contact := now - poll_interval poll\<rparr>)\<rparr>)
            else
              let no_contact = now - pi_last_contact info in
              if no_contact < poll_interval poll then (poll, r)
              else
                let since = no_contact - poll_interval poll in
                if since \<ge> poll_stop_after poll then
                  (poll, try_send (info\<lparr>pi_deleted := True\<rparr>) (snd (sync_remove_provider D L p r)))
                else if since \<ge> 2 * poll_retry_after poll then
                  (let info = info\<lparr>pi_inactive := True\<rparr> in
                   (poll, try_send info (r\<lparr>rg_providers := (rg_providers r)(p \<mapsto> info)\<rparr>)))
                else (poll, try_send info r))"

definition poll_providers ::
    "'d datastore \<Rightarrow> lib \<Rightarrow> gotime \<Rightarrow> polling \<Rightarrow> (peer_id \<rightharpoonup> polling) \<Rightarrow> peer_id list \<Rightarrow> 'd registry \<Rightarrow>
       'd registry" where
  "poll_providers D L now poll overrides order r =
     snd (fold (poll_provider D L now overrides) order (poll, r))"

section \<open>Loading\<close>

fun load_loop ::
    "lib \<Rightarrow> json_codec \<Rightarrow> (string + string \<times> bytes) list \<Rightarrow> nat \<Rightarrow> 'd registry \<Rightarrow>
       (go_error + nat \<times> 'd registry) go" where
  "load_loop L J [] count r = Inr (Inr (count, r))"
| "load_loop L J (Inl e # rs) count r = Inr (Inl (ErrMsg (''cannot read provider data: '' @ e)))"
| "load_loop L J (Inr (key, v) # rs) count r =
     (case lib_peer_decode L (path_base key) of
        Inl e \<Rightarrow> Inr (Inl (ErrMsg (''cannot decode provider ID: '' @ e)))
      | Inr p \<Rightarrow>
          if \<not> policy_allowed (rg_policy r) p then load_loop L J rs count r
          else
            (case unmarshal_json L J v of
               Inl e \<Rightarrow> Inr (Inl (ErrMsg e))
             | Inr info \<Rightarrow>
                 go_bind
                   (if peer_id_validate (pi_publisher info) = None \<and>
                       pi_publisher_addr info = None \<and> pi_publisher info = pi_id info
                    then go_bind (first_elem (pi_addrs info))
                           (\<lambda>a. Inr (info\<lparr>pi_publisher_addr := Some a\<rparr>))
                    else Inr info)
                   (\<lambda>info. load_loop L J rs (count + 1)
                      (r\<lparr>rg_providers := (rg_providers r)(p \<mapsto> info)\<rparr>))))"

definition load_persisted_providers ::
    "'d datastore \<Rightarrow> lib \<Rightarrow> json_codec \<Rightarrow> 'd registry \<Rightarrow> (go_error + nat \<times> 'd registry) go" where
  "load_persisted_providers D L J r =
     (case rg_dstore r of
        None \<Rightarrow> Inr (Inr (0, r))
      | Some d \<Rightarrow>
          (case ds_query D d provider_key_path of
             Inl e \<Rightarrow> Inr (Inl (ErrMsg e))
           | Inr results \<Rightarrow> load_loop L J results 0 r))"

end
