(* ===== verification/Registry_Instances.thy ===== *)
theory Registry_Instances
  imports Registry
begin

text \<open>
  A concrete JSON codec for persisted providers, with which the theorems about the persisted
  registry are applied to concrete registries.
\<close>

section \<open>A codec for the instances\<close>

text \<open>Lists of strings, each with its length in unary before it, and integers in unary.\<close>

definition enc_strings :: "string list \<Rightarrow> string" where
  "enc_strings xs = concat (map (\<lambda>x. replicate (length x) CHR ''1'' @ CHR ''0'' # x) xs)"

function dec_strings :: "string \<Rightarrow> string list" where
  "dec_strings s =
     (if s = [] then []
      else let n = length (takeWhile (\<lambda>c. c = CHR ''1'') s); r = drop (Suc n) s
           in take n r # dec_strings (drop n r))"
  by pat_completeness auto
termination
  by (relation "measure length") (auto simp: less_diff_conv)

declare dec_strings.simps [simp del]

lemma dec_enc_strings [simp]: "dec_strings (enc_strings xs) = xs"
proof (induction xs)
  case Nil
  show ?case by (subst dec_strings.simps) (simp add: enc_strings_def)
next
  case (Cons x xs)
  have tail: "enc_strings (x # xs) = replicate (length x) CHR ''1'' @ CHR ''0'' # x @ enc_strings xs"
    by (simp add: enc_strings_def)
  have count: "length (takeWhile (\<lambda>c. c = CHR ''1'') (enc_strings (x # xs))) = length x"
    by (simp add: tail takeWhile_replicate_stop)
  have nonempty: "enc_strings (x # xs) \<noteq> []" by (simp add: tail)
  show ?case
    by (subst dec_strings.simps) (simp add: Let_def count nonempty, simp add: tail Cons.IH)
qed

definition enc_int :: "int \<Rightarrow> string" where
  "enc_int i = (if i < 0 then CHR ''-'' else CHR ''+'') # replicate (nat \<bar>i\<bar>) CHR ''1''"

definition dec_int :: "string \<Rightarrow> int" where
  "dec_int s = (case s of [] \<Rightarrow> 0 | c # r \<Rightarrow> if c = CHR ''-'' then - int (length r) else int (length r))"

lemma dec_enc_int [simp]: "dec_int (enc_int i) = i"
  by (simp add: dec_int_def enc_int_def)

definition plain_json :: json_codec where
  "plain_json =
     \<lparr>js_marshal = (\<lambda>p. Inr (enc_strings
        ([ai_id (ps_addr_info p), ps_discovery_addr p, ps_last_ad p, enc_int (ps_last_ad_time p),
          ps_publisher p, ps_publisher_addr p] @
         map (\<lambda>a. case a of Multiaddr s \<Rightarrow> s) (ai_addrs (ps_addr_info p))))),
      js_unmarshal = (\<lambda>b. case dec_strings b of
          i # d # l # t # p # a # addrs \<Rightarrow>
            Inr \<lparr>ps_addr_info = \<lparr>ai_id = i, ai_addrs = map Multiaddr addrs\<rparr>, ps_discovery_addr = d,
                 ps_last_ad = l, ps_last_ad_time = dec_int t, ps_publisher = p,
                 ps_publisher_addr = a\<rparr>
        | _ \<Rightarrow> Inl ''bad encoding'')\<rparr>"

lemma plain_json_inverts: "codec_inverts plain_json"
proof -
  have addrs: "map (Multiaddr \<circ> (\<lambda>a. case a of Multiaddr s \<Rightarrow> s)) as = as" for as
    by (rule map_idI) (simp split: multiaddr.splits)
  show ?thesis
    unfolding codec_inverts_def plain_json_def by (auto simp: addrs)
qed

end
