(* ===== verification/Registry_Correct.thy ===== *)
theory Registry_Correct
  imports Registry_Instances
begin

text \<open>
  What the registry promises: its well-formedness invariant and that every action keeps it, the
  mirror of the providers in the datastore, the behaviour of registration, update, polling and
  discovery on every branch, and what a restart recovers.
\<close>

section \<open>Small facts about the actions\<close>

lemma lookup_provider_Some:
  "lookup_provider r p = Some info \<longleftrightarrow> rg_providers r p = Some info \<and> \<not> pi_inactive info"
  by (auto simp: lookup_provider_def provider_inactive_def split: option.splits)

lemma sync_persist_frame [simp]:
  "rg_policy (snd (sync_persist_provider D L J info r)) = rg_policy r"
  "rg_providers (snd (sync_persist_provider D L J info r)) = rg_providers r"
  "rg_sequences (snd (sync_persist_provider D L J info r)) = rg_sequences r"
  "rg_discover_times (snd (sync_persist_provider D L J info r)) = rg_discover_times r"
  "rg_discover_wait (snd (sync_persist_provider D L J info r)) = rg_discover_wait r"
  "rg_rediscover_wait (snd (sync_persist_provider D L J info r)) = rg_rediscover_wait r"
  "rg_sync_chan (snd (sync_persist_provider D L J info r)) = rg_sync_chan r"
  by (auto simp: sync_persist_provider_def split: option.splits sum.splits prod.splits)

lemma sync_register_frame [simp]:
  "rg_policy (snd (sync_register D L J info r)) = rg_policy r"
  "rg_providers (snd (sync_register D L J info r)) = (rg_providers r)(pi_id info \<mapsto> info)"
  "rg_sequences (snd (sync_register D L J info r)) = rg_sequences r"
  "rg_discover_times (snd (sync_register D L J info r)) = rg_discover_times r"
  "rg_discover_wait (snd (sync_register D L J info r)) = rg_discover_wait r"
  "rg_rediscover_wait (snd (sync_register D L J info r)) = rg_rediscover_wait r"
  "rg_sync_chan (snd (sync_register D L J info r)) = rg_sync_chan r"
proof -
  define r1 where "r1 = r\<lparr>rg_providers := (rg_providers r)(pi_id info \<mapsto> info)\<rparr>"
  have "snd (sync_register D L J info r) = snd (sync_persist_provider D L J info r1)"
    by (simp add: sync_register_def r1_def Let_def split: option.splits prod.splits)
  then show
    "rg_policy (snd (sync_register D L J info r)) = rg_policy r"
    "rg_providers (snd (sync_register D L J info r)) = (rg_providers r)(pi_id info \<mapsto> info)"
    "rg_sequences (snd (sync_register D L J info r)) = rg_sequences r"
    "rg_discover_times (snd (sync_register D L J info r)) = rg_discover_times r"
    "rg_discover_wait (snd (sync_register D L J info r)) = rg_discover_wait r"
    "rg_rediscover_wait (snd (sync_register D L J info r)) = rg_rediscover_wait r"
    "rg_sync_chan (snd (sync_register D L J info r)) = rg_sync_chan r"
    by (simp_all add: r1_def)
qed

lemma sync_remove_frame [simp]:
  "rg_policy (snd (sync_remove_provider D L p r)) = rg_policy r"
  "rg_providers (snd (sync_remove_provider D L p r)) = (rg_providers r)(p := None)"
  "rg_sequences (snd (sync_remove_provider D L p r)) = rg_sequences r"
  "rg_discover_times (snd (sync_remove_provider D L p r)) = rg_discover_times r"
  "rg_discover_wait (snd (sync_remove_provider D L p r)) = rg_discover_wait r"
  "rg_rediscover_wait (snd (sync_remove_provider D L p r)) = rg_rediscover_wait r"
  "rg_sync_chan (snd (sync_remove_provider D L p r)) = rg_sync_chan r"
  by (auto simp: sync_remove_provider_def Let_def split: option.splits prod.splits)

lemma try_send_frame [simp]:
  "rg_policy (try_send i r) = rg_policy r"
  "rg_providers (try_send i r) = rg_providers r"
  "rg_sequences (try_send i r) = rg_sequences r"
  "rg_discover_times (try_send i r) = rg_discover_times r"
  "rg_discover_wait (try_send i r) = rg_discover_wait r"
  "rg_rediscover_wait (try_send i r) = rg_rediscover_wait r"
  "rg_dstore (try_send i r) = rg_dstore r"
  by (simp_all add: try_send_def)

lemma register_state:
  "snd (register D L J info r) =
     (if register_check info r = None then snd (sync_register D L J info r) else r)"
  by (simp add: register_def split: option.splits)

lemma register_result:
  "fst (register D L J info r) =
     (case register_check info r of Some e \<Rightarrow> Some e | None \<Rightarrow> fst (sync_register D L J info r))"
  by (simp add: register_def split: option.splits)

lemma register_check_None:
  "register_check info r = None \<longleftrightarrow>
     pi_addrs info \<noteq> [] \<and> peer_valid (pi_id info) \<and> policy_allowed (rg_policy r) (pi_id info) \<and>
     (peer_valid (pi_publisher info) \<and> pi_publisher info \<noteq> pi_id info \<longrightarrow>
        policy_allowed (rg_policy r) (pi_publisher info) \<and>
        policy_publish_allowed (rg_policy r) (pi_publisher info) (pi_id info))"
  by (auto simp: register_check_def peer_id_validate_def split: if_splits)

lemma strings_to_multiaddrs_isl:
  "isl (strings_to_multiaddrs L ss) \<longleftrightarrow> (\<exists>s\<in>set ss. isl (lib_new_multiaddr L s))"
  by (induction ss) (auto split: sum.splits)

lemma strings_to_multiaddrs_Inr:
  "strings_to_multiaddrs L ss = Inr ms \<Longrightarrow> ms = map (\<lambda>s. projr (lib_new_multiaddr L s)) ss"
  by (induction ss arbitrary: ms) (auto split: sum.splits)

text \<open>
  The info that \<open>register_or_update\<close> stores when it does not panic, in one expression: what the
  update does to the fields.
\<close>

lemma update_publisher_Inr:
  assumes "update_publisher p publisher found = Inr (info, full)"
  shows "pi_id info = p" and "\<not> pi_deleted info" and "\<not> pi_inactive info"
    and "pi_addrs info = (case found of None \<Rightarrow> [] | Some i \<Rightarrow> pi_addrs i)"
    and "pi_last_ad info = (case found of None \<Rightarrow> cid_undef | Some i \<Rightarrow> pi_last_ad i)"
    and "pi_publisher info =
      (if peer_valid (ai_id publisher) then ai_id publisher
       else (case found of None \<Rightarrow> [] | Some i \<Rightarrow> pi_publisher i))"
    and "full \<longleftrightarrow> found = None \<or>
      (\<exists>i. found = Some i \<and> peer_valid (ai_id publisher) \<and> ai_id publisher \<noteq> pi_publisher i)"
  using assms
  by (auto simp: update_publisher_def Let_def new_provider_info_def go_bind_eq_Inr first_elem_Inr
      peer_id_validate_def peer_valid_def split: option.splits if_splits)

lemma update_publisher_panics:
  "isl (update_publisher p publisher found) \<longleftrightarrow>
     (\<exists>i. found = Some i \<and> peer_valid (ai_id publisher) \<and> ai_id publisher \<noteq> pi_publisher i \<and>
          ai_addrs publisher = [])"
  by (cases "ai_addrs publisher")
     (auto simp: update_publisher_def Let_def new_provider_info_def peer_id_validate_def
        split: option.splits)

lemma default_publisher_addr_frame [simp]:
  "pi_addr_info (default_publisher_addr i) = pi_addr_info i"
  "pi_last_ad (default_publisher_addr i) = pi_last_ad i"
  "pi_publisher (default_publisher_addr i) = pi_publisher i"
  "pi_deleted (default_publisher_addr i) = pi_deleted i"
  "pi_inactive (default_publisher_addr i) = pi_inactive i"
  by (auto simp: default_publisher_addr_def split: list.splits)

lemma update_ad_frame [simp]:
  "pi_addr_info (update_ad now ad i) = pi_addr_info i"
  "pi_publisher (update_ad now ad i) = pi_publisher i"
  "pi_publisher_addr (update_ad now ad i) = pi_publisher_addr i"
  "pi_deleted (update_ad now ad i) = pi_deleted i"
  "pi_inactive (update_ad now ad i) = pi_inactive i"
  "pi_last_contact (update_ad now ad i) = now"
  "pi_last_ad (update_ad now ad i) = (if ad = cid_undef then pi_last_ad i else ad)"
  by (auto simp: update_ad_def Let_def)

definition updated_info ::
    "lib \<Rightarrow> gotime \<Rightarrow> string list \<Rightarrow> cid \<Rightarrow> provider_info \<Rightarrow> provider_info" where
  "updated_info L now addrs ad info =
     (let info = default_publisher_addr info;
          info = (if addrs \<noteq> []
                  then info\<lparr>pi_addr_info := (pi_addr_info info)
                         \<lparr>ai_addrs := map (\<lambda>s. projr (lib_new_multiaddr L s)) addrs\<rparr>\<rparr>
                  else info)
      in update_ad now ad info)"

lemma updated_info_frame [simp]:
  "pi_id (updated_info L now addrs ad i) = pi_id i"
  "pi_publisher (updated_info L now addrs ad i) = pi_publisher i"
  "pi_deleted (updated_info L now addrs ad i) = pi_deleted i"
  "pi_inactive (updated_info L now addrs ad i) = pi_inactive i"
  "pi_last_contact (updated_info L now addrs ad i) = now"
  "pi_last_ad (updated_info L now addrs ad i) = (if ad = cid_undef then pi_last_ad i else ad)"
  "pi_addrs (updated_info L now addrs ad i) =
     (if addrs = [] then pi_addrs i else map (\<lambda>s. projr (lib_new_multiaddr L s)) addrs)"
  by (simp_all add: updated_info_def Let_def)

lemma register_or_update_Inr:
  assumes "register_or_update D L J now p addrs ad publisher r = Inr res"
  obtains info full where
    "update_publisher p publisher (lookup_provider r p) = Inr (info, full)"
    "res = (if full then register D L J (updated_info L now addrs ad info) r
            else sync_register D L J (updated_info L now addrs ad info) r)"
proof -
  from assms obtain info full where
    up: "update_publisher p publisher (lookup_provider r p) = Inr (info, full)"
    unfolding register_or_update_def by (auto simp: go_bind_eq_Inr)
  have "res = (if full then register D L J (updated_info L now addrs ad info) r
            else sync_register D L J (updated_info L now addrs ad info) r)"
    using assms up
    by (auto simp: register_or_update_def updated_info_def Let_def go_bind_eq_Inr
        dest!: strings_to_multiaddrs_Inr split: if_splits sum.splits)
  with up show ?thesis by (rule that)
qed

lemma register_or_update_isl:
  "isl (register_or_update D L J now p addrs ad publisher r) \<longleftrightarrow>
     isl (update_publisher p publisher (lookup_provider r p)) \<or>
     (\<exists>s\<in>set addrs. isl (lib_new_multiaddr L s))"
proof (cases "update_publisher p publisher (lookup_provider r p)")
  case (Inl e)
  then show ?thesis by (simp add: register_or_update_def)
next
  case (Inr x)
  then show ?thesis
    using strings_to_multiaddrs_isl [of L addrs]
    by (cases x) (auto simp: register_or_update_def Let_def split: sum.splits)
qed

section \<open>The well-formedness invariant\<close>

text \<open>
  Every provider is stored under its own ID, which is valid; no stored provider is marked
  deleted; a provider with a publisher has an address (so a load can use its first one); the
  wait group counts exactly the discoveries in progress; the sync channel never holds more than
  its capacity.
\<close>

definition info_ok :: "provider_info \<Rightarrow> bool" where
  "info_ok info \<longleftrightarrow> peer_valid (pi_id info) \<and> \<not> pi_deleted info \<and>
     (peer_valid (pi_publisher info) \<longrightarrow> pi_addrs info \<noteq> [])"

definition discoveries_in_progress :: "'d registry \<Rightarrow> string set" where
  "discoveries_in_progress r = {sp. rg_discover_times r sp = Some zero_time}"

definition registry_inv :: "'d registry \<Rightarrow> bool" where
  "registry_inv r \<longleftrightarrow>
     (\<forall>p info. rg_providers r p = Some info \<longrightarrow> pi_id info = p \<and> info_ok info) \<and>
     finite (discoveries_in_progress r) \<and>
     rg_discover_wait r = card (discoveries_in_progress r) \<and>
     length (rg_sync_chan r) \<le> sync_chan_cap"

lemma registry_invD:
  assumes "registry_inv r" and "rg_providers r p = Some info"
  shows "pi_id info = p" and "info_ok info"
  using assms by (auto simp: registry_inv_def)

lemma registry_inv_cong:
  assumes "rg_providers r' = rg_providers r" "rg_discover_times r' = rg_discover_times r"
    and "rg_discover_wait r' = rg_discover_wait r" "length (rg_sync_chan r') \<le> sync_chan_cap"
  shows "registry_inv r \<Longrightarrow> registry_inv r'"
  using assms by (simp add: registry_inv_def discoveries_in_progress_def)

lemma inv_sync_register:
  "registry_inv r \<Longrightarrow> info_ok info \<Longrightarrow> registry_inv (snd (sync_register D L J info r))"
  by (auto simp: registry_inv_def discoveries_in_progress_def)

lemma inv_sync_remove: "registry_inv r \<Longrightarrow> registry_inv (snd (sync_remove_provider D L p r))"
  by (auto simp: registry_inv_def discoveries_in_progress_def)

lemma inv_set_provider:
  "registry_inv r \<Longrightarrow> info_ok info \<Longrightarrow> pi_id info = p \<Longrightarrow>
     registry_inv (r\<lparr>rg_providers := (rg_providers r)(p \<mapsto> info)\<rparr>)"
  by (auto simp: registry_inv_def discoveries_in_progress_def)

lemma inv_try_send: "registry_inv r \<Longrightarrow> registry_inv (try_send i r)"
  by (auto simp: registry_inv_def discoveries_in_progress_def try_send_def)

lemma inv_register:
  assumes "registry_inv r" and "\<not> pi_deleted info"
  shows "registry_inv (snd (register D L J info r))"
  using assms
  by (auto simp: register_state register_check_None info_ok_def intro!: inv_sync_register)

lemma updated_info_ok:
  assumes inv: "registry_inv r"
    and up: "update_publisher p publisher (lookup_provider r p) = Inr (info, False)"
  shows "info_ok (updated_info L now addrs ad info)"
proof -
  obtain i where i: "lookup_provider r p = Some i"
    and same: "\<not> (peer_valid (ai_id publisher) \<and> ai_id publisher \<noteq> pi_publisher i)"
    using update_publisher_Inr(7) [OF up] by auto
  then have "rg_providers r p = Some i" by (simp add: lookup_provider_Some)
  then have "pi_id i = p" and "info_ok i" using registry_invD [OF inv] by blast+
  moreover have "pi_publisher info = pi_publisher i"
    using update_publisher_Inr(6) [OF up] i same by auto
  moreover have "pi_addrs info = pi_addrs i" using update_publisher_Inr(4) [OF up] i by simp
  ultimately show ?thesis
    using update_publisher_Inr(1-3) [OF up] by (auto simp: info_ok_def)
qed

lemma inv_register_or_update:
  assumes "registry_inv r" and "register_or_update D L J now p addrs ad publisher r = Inr (e, r')"
  shows "registry_inv r'"
proof -
  from assms(2) obtain info full where
    up: "update_publisher p publisher (lookup_provider r p) = Inr (info, full)" and
    res: "(e, r') = (if full then register D L J (updated_info L now addrs ad info) r
            else sync_register D L J (updated_info L now addrs ad info) r)"
    by (rule register_or_update_Inr)
  show ?thesis
  proof (cases full)
    case True
    then have "r' = snd (register D L J (updated_info L now addrs ad info) r)"
      using res by (metis snd_conv)
    then show ?thesis
      using assms(1) update_publisher_Inr(2) [OF up] by (auto intro!: inv_register)
  next
    case False
    then have "r' = snd (sync_register D L J (updated_info L now addrs ad info) r)"
      using res by (metis snd_conv)
    moreover have "info_ok (updated_info L now addrs ad info)"
      using updated_info_ok [OF assms(1)] up False by simp
    ultimately show ?thesis using inv_sync_register [OF assms(1)] by simp
  qed
qed

lemma inv_import_loop:
  "registry_inv r \<Longrightarrow> import_loop D L J ps new r = Inr (new', r') \<Longrightarrow> registry_inv r'"
proof (induction ps arbitrary: new r)
  case Nil
  then show ?case by simp
next
  case (Cons x ps)
  show ?case
  proof (cases x)
    case None
    with Cons.prems show ?thesis by simp
  next
    case (Some p)
    show ?thesis
    proof (cases "is_registered r (ai_id (rm_addr_info p))")
      case True
      with Some Cons show ?thesis by simp
    next
      case False
      with Some Cons.prems(2) obtain info where info: "import_info p = Inr info"
        by (auto simp: go_bind_eq_Inr)
      then have "\<not> pi_deleted info"
        by (auto simp: import_info_def Let_def new_provider_info_def go_bind_eq_Inr
            split: option.splits if_splits)
      then have "registry_inv (snd (register D L J info r))"
        using Cons.prems(1) by (rule inv_register [rotated])
      with Cons Some False info show ?thesis
        by (auto split: prod.splits option.splits)
    qed
  qed
qed

lemma inv_discover: "registry_inv r \<Longrightarrow> registry_inv (snd (discover_provider now p sp r))"
proof -
  assume inv: "registry_inv r"
  have "rg_discover_times r sp \<noteq> Some zero_time" if "sync_need_discover now sp r = None"
    using that by (auto simp: sync_need_discover_def split: option.splits)
  then have "registry_inv (snd (sync_start_discover now sp r))"
    using inv
    by (auto simp: sync_start_discover_def registry_inv_def discoveries_in_progress_def
        split: option.splits)
       (simp add: card_insert_if insert_Collect [symmetric] Collect_disj_eq)+
  with inv show ?thesis by (simp add: discover_provider_def)
qed

lemma inv_finish_discover:
  assumes inv: "registry_inv r" and started: "sp \<in> discoveries_in_progress r" and "now \<noteq> zero_time"
    and result: "\<And>ai. result = Inr ai \<Longrightarrow> peer_valid (ai_id ai)"
  shows "registry_inv (snd (finish_discover D L J now sp result r))"
proof -
  define r1 where "r1 = r\<lparr>rg_discover_times := (rg_discover_times r)(sp \<mapsto> now)\<rparr>"
  have less: "discoveries_in_progress r1 = discoveries_in_progress r - {sp}"
    using assms(3) by (auto simp: r1_def discoveries_in_progress_def)
  have count: "rg_discover_wait r - 1 = card (discoveries_in_progress r1)"
    using inv started by (simp add: registry_inv_def less card_Diff_singleton)
  have fin: "finite (discoveries_in_progress r1)"
    using inv by (simp add: registry_inv_def less)
  have r1: "rg_providers r1 = rg_providers r" "rg_sync_chan r1 = rg_sync_chan r"
    "rg_discover_wait r1 = rg_discover_wait r" by (simp_all add: r1_def)
  show ?thesis
  proof (cases result)
    case (Inl e)
    then show ?thesis
      using inv count fin
      by (simp add: finish_discover_def registry_inv_def discoveries_in_progress_def r1_def)
  next
    case (Inr ai)
    define info where "info = (new_provider_info ai)\<lparr>pi_discovery_addr := sp\<rparr>"
    have "info_ok info" "pi_id info = ai_id ai"
      using result [OF Inr] by (simp_all add: info_ok_def info_def new_provider_info_def)
    moreover have "snd (finish_discover D L J now sp result r) =
        (let r2 = snd (sync_register D L J info r1)
         in r2\<lparr>rg_discover_wait := rg_discover_wait r2 - 1\<rparr>)"
      by (simp add: finish_discover_def Inr info_def r1_def Let_def case_prod_beta)
    ultimately show ?thesis
      using inv count fin r1
      by (auto simp: registry_inv_def discoveries_in_progress_def Let_def)
  qed
qed

lemma inv_cleanup: "registry_inv r \<Longrightarrow> registry_inv (cleanup now r)"
proof -
  have "discoveries_in_progress (cleanup now r) = discoveries_in_progress r"
    by (auto simp: discoveries_in_progress_def cleanup_def split: option.splits if_splits)
  then show "registry_inv r \<Longrightarrow> registry_inv (cleanup now r)"
    by (simp add: registry_inv_def cleanup_def)
qed

text \<open>
  What a polling round does with one provider, as a decision on its info and an effect on the
  registry.
\<close>

datatype poll_action = PollSkip | PollStart | PollSend | PollInactive | PollRemove

definition poll_decision :: "gotime \<Rightarrow> polling \<Rightarrow> provider_info \<Rightarrow> poll_action" where
  "poll_decision now poll info =
     (if \<not> peer_valid (pi_publisher info) then PollSkip
      else if pi_last_contact info = zero_time then PollStart
      else if now < pi_last_contact info + poll_interval poll then PollSkip
      else if now \<ge> pi_last_contact info + poll_interval poll + poll_stop_after poll then PollRemove
      else if now \<ge> pi_last_contact info + poll_interval poll + 2 * poll_retry_after poll
      then PollInactive
      else PollSend)"

definition poll_effect ::
    "'d datastore \<Rightarrow> lib \<Rightarrow> gotime \<Rightarrow> polling \<Rightarrow> peer_id \<Rightarrow> provider_info \<Rightarrow> poll_action \<Rightarrow>
       'd registry \<Rightarrow> 'd registry" where
  "poll_effect D L now poll p info act r =
     (case act of
        PollSkip \<Rightarrow> r
      | PollStart \<Rightarrow> r\<lparr>rg_providers := (rg_providers r)
          (p \<mapsto> info\<lparr>pi_last_contact := now - poll_interval poll\<rparr>)\<rparr>
      | PollSend \<Rightarrow> try_send info r
      | PollInactive \<Rightarrow> try_send (info\<lparr>pi_inactive := True\<rparr>)
          (r\<lparr>rg_providers := (rg_providers r)(p \<mapsto> info\<lparr>pi_inactive := True\<rparr>)\<rparr>)
      | PollRemove \<Rightarrow> try_send (info\<lparr>pi_deleted := True\<rparr>) (snd (sync_remove_provider D L p r)))"

definition next_poll :: "(peer_id \<rightharpoonup> polling) \<Rightarrow> peer_id \<Rightarrow> provider_info \<Rightarrow> polling \<Rightarrow> polling" where
  "next_poll overrides p info poll =
     (if peer_valid (pi_publisher info)
      then (case overrides p of Some ov \<Rightarrow> ov | None \<Rightarrow> poll) else poll)"

lemma poll_provider_None [simp]:
  "rg_providers r p = None \<Longrightarrow> poll_provider D L now overrides p (poll, r) = (poll, r)"
  by (simp add: poll_provider_def)

lemma poll_provider_Some:
  assumes "rg_providers r p = Some info"
  shows "poll_provider D L now overrides p (poll, r) =
    (next_poll overrides p info poll,
     poll_effect D L now (next_poll overrides p info poll) p info
       (poll_decision now (next_poll overrides p info poll) info) r)"
proof -
  define pol where "pol = (case overrides p of Some ov \<Rightarrow> ov | None \<Rightarrow> poll)"
  show ?thesis
  proof (cases "peer_valid (pi_publisher info)")
    case False
    with assms show ?thesis
      by (simp add: poll_provider_def next_poll_def poll_decision_def poll_effect_def
          peer_id_validate_def)
  next
    case True
    then have np: "next_poll overrides p info poll = pol"
      by (simp add: next_poll_def pol_def)
    have start: "poll_provider D L now overrides p (poll, r) =
      (pol, if pi_last_contact info = 0 then r\<lparr>rg_providers := (rg_providers r)
                 (p \<mapsto> info\<lparr>pi_last_contact := now - poll_interval pol\<rparr>)\<rparr>
        else if now - pi_last_contact info < poll_interval pol then r
        else if now - pi_last_contact info - poll_interval pol \<ge> poll_stop_after pol then
          try_send (info\<lparr>pi_deleted := True\<rparr>) (snd (sync_remove_provider D L p r))
        else if now - pi_last_contact info - poll_interval pol \<ge> 2 * poll_retry_after pol then
          try_send (info\<lparr>pi_inactive := True\<rparr>)
            (r\<lparr>rg_providers := (rg_providers r)(p \<mapsto> info\<lparr>pi_inactive := True\<rparr>)\<rparr>)
        else try_send info r)"
      using True assms
      by (simp add: poll_provider_def peer_id_validate_def Let_def pol_def [symmetric])
    show ?thesis
      unfolding start np poll_decision_def poll_effect_def using True by auto
  qed
qed

lemma inv_poll_effect:
  assumes "registry_inv r" and "rg_providers r p = Some info"
  shows "registry_inv (poll_effect D L now poll p info act r)"
proof -
  have "pi_id info = p" "info_ok info" using registry_invD assms by blast+
  then show ?thesis
    using assms(1)
    by (cases act)
       (auto simp: poll_effect_def info_ok_def
          intro!: inv_try_send inv_sync_remove inv_set_provider)
qed

lemma inv_poll_provider:
  "registry_inv (snd pr) \<Longrightarrow> registry_inv (snd (poll_provider D L now overrides p pr))"
proof (cases pr)
  case (Pair poll r)
  then show "registry_inv (snd pr) \<Longrightarrow> ?thesis"
    by (cases "rg_providers r p") (simp_all add: poll_provider_Some inv_poll_effect)
qed

lemma inv_poll_providers:
  "registry_inv r \<Longrightarrow> registry_inv (poll_providers D L now poll overrides order r)"
  unfolding poll_providers_def
  by (rule fold_invariant_on [where P = "\<lambda>pr. registry_inv (snd pr)"]) (auto intro: inv_poll_provider)

section \<open>The registry as a state machine\<close>

text \<open>
  One rule per action the registry's goroutine runs, and one per change of the policy or of the
  sync channel. A discovery finishes only if it was started, with the real time (never the zero
  time) and, when it succeeds, with a valid peer ID.
\<close>

inductive registry_step ::
    "'d datastore \<Rightarrow> lib \<Rightarrow> json_codec \<Rightarrow> 'd registry \<Rightarrow> 'd registry \<Rightarrow> bool"
  for D :: "'d datastore" and L J where
  step_register: "\<not> pi_deleted info \<Longrightarrow> registry_step D L J r (snd (register D L J info r))"
| step_update: "register_or_update D L J now p addrs ad publisher r = Inr (e, r') \<Longrightarrow>
    registry_step D L J r r'"
| step_import: "import_loop D L J ps new r = Inr (new', r') \<Longrightarrow> registry_step D L J r r'"
| step_remove: "peer_valid p \<Longrightarrow> registry_step D L J r (snd (sync_remove_provider D L p r))"
| step_discover: "registry_step D L J r (snd (discover_provider now p sp r))"
| step_finish: "sp \<in> discoveries_in_progress r \<Longrightarrow> now \<noteq> zero_time \<Longrightarrow>
    (\<And>ai. result = Inr ai \<Longrightarrow> peer_valid (ai_id ai)) \<Longrightarrow>
    registry_step D L J r (snd (finish_discover D L J now sp result r))"
| step_cleanup: "registry_step D L J r (cleanup now r)"
| step_poll: "registry_step D L J r (poll_providers D L now poll overrides order r)"
| step_policy: "registry_step D L J r (snd (set_policy L cfg r))"
| step_allow: "registry_step D L J r (snd (allow_peer p r))"
| step_block: "registry_step D L J r (snd (block_peer p r))"
| step_sequence: "registry_step D L J r (snd (check_sequence now p seq r))"
| step_send: "length (rg_sync_chan r) < sync_chan_cap \<Longrightarrow>
    registry_step D L J r (r\<lparr>rg_sync_chan := rg_sync_chan r @ [i]\<rparr>)"
| step_receive: "receive_sync r = Some (i, r') \<Longrightarrow> registry_step D L J r r'"

inductive registry_run ::
    "'d datastore \<Rightarrow> lib \<Rightarrow> json_codec \<Rightarrow> 'd registry \<Rightarrow> 'd registry \<Rightarrow> bool"
  for D :: "'d datastore" and L J where
  run_refl: "registry_run D L J r r"
| run_step: "registry_run D L J r s \<Longrightarrow> registry_step D L J s t \<Longrightarrow> registry_run D L J r t"

lemma policy_step_frames [simp]:
  "rg_providers (snd (set_policy L cfg r)) = rg_providers r"
  "rg_providers (snd (allow_peer p r)) = rg_providers r"
  "rg_providers (snd (block_peer p r)) = rg_providers r"
  "rg_providers (snd (check_sequence now p seq r)) = rg_providers r"
  "rg_dstore (snd (set_policy L cfg r)) = rg_dstore r"
  "rg_dstore (snd (allow_peer p r)) = rg_dstore r"
  "rg_dstore (snd (block_peer p r)) = rg_dstore r"
  "rg_dstore (snd (check_sequence now p seq r)) = rg_dstore r"
  by (simp_all add: set_policy_def allow_peer_def block_peer_def check_sequence_def
      split: sum.splits prod.splits)

lemma inv_policy_steps:
  assumes "registry_inv r"
  shows "registry_inv (snd (set_policy L cfg r))" "registry_inv (snd (allow_peer p r))"
    "registry_inv (snd (block_peer p r))" "registry_inv (snd (check_sequence now p seq r))"
proof -
  have chan: "length (rg_sync_chan r) \<le> sync_chan_cap"
    using assms by (simp add: registry_inv_def)
  show "registry_inv (snd (set_policy L cfg r))"
    by (rule registry_inv_cong [OF _ _ _ _ assms])
       (use chan in \<open>auto simp: set_policy_def split: sum.splits\<close>)
  show "registry_inv (snd (allow_peer p r))"
    by (rule registry_inv_cong [OF _ _ _ _ assms])
       (use chan in \<open>auto simp: allow_peer_def split: prod.splits\<close>)
  show "registry_inv (snd (block_peer p r))"
    by (rule registry_inv_cong [OF _ _ _ _ assms])
       (use chan in \<open>auto simp: block_peer_def split: prod.splits\<close>)
  show "registry_inv (snd (check_sequence now p seq r))"
    by (rule registry_inv_cong [OF _ _ _ _ assms])
       (use chan in \<open>auto simp: check_sequence_def split: prod.splits\<close>)
qed

lemma inv_channel_steps:
  "registry_inv r \<Longrightarrow> length (rg_sync_chan r) < sync_chan_cap \<Longrightarrow>
     registry_inv (r\<lparr>rg_sync_chan := rg_sync_chan r @ [i]\<rparr>)"
  "registry_inv r \<Longrightarrow> receive_sync r = Some (i, r') \<Longrightarrow> registry_inv r'"
  by (auto simp: registry_inv_def discoveries_in_progress_def receive_sync_def split: list.splits)

lemma registry_step_inv: "registry_step D L J r s \<Longrightarrow> registry_inv r \<Longrightarrow> registry_inv s"
proof (induction rule: registry_step.induct)
  case (step_finish sp r now result)
  then show ?case by (blast intro: inv_finish_discover)
qed (auto intro: inv_register inv_register_or_update inv_import_loop inv_sync_remove inv_discover
      inv_cleanup inv_poll_providers inv_policy_steps inv_channel_steps)

section \<open>The mirror in the datastore\<close>

text \<open>What of a provider info survives being written and read back: all but the transient fields.\<close>

definition persisted_view :: "provider_info \<Rightarrow> provider_info" where
  "persisted_view info =
     info\<lparr>pi_last_contact := zero_time, pi_deleted := False, pi_inactive := False\<rparr>"

lemma marshal_roundtrip:
  assumes "lib_laws L" and "codec_inverts J"
  shows "\<exists>b. marshal_json L J info = Inr b \<and> unmarshal_json L J b = Inr (persisted_view info)"
proof -
  obtain b where "js_marshal J
       \<lparr>ps_addr_info = pi_addr_info info, ps_discovery_addr = pi_discovery_addr info,
        ps_last_ad = pi_last_ad info, ps_last_ad_time = pi_last_ad_time info,
        ps_publisher = pi_publisher info,
        ps_publisher_addr = (case pi_publisher_addr info of None \<Rightarrow> []
          | Some a \<Rightarrow> lib_multiaddr_string L a)\<rparr> = Inr b"
    and "js_unmarshal J b = Inr
       \<lparr>ps_addr_info = pi_addr_info info, ps_discovery_addr = pi_discovery_addr info,
        ps_last_ad = pi_last_ad info, ps_last_ad_time = pi_last_ad_time info,
        ps_publisher = pi_publisher info,
        ps_publisher_addr = (case pi_publisher_addr info of None \<Rightarrow> []
          | Some a \<Rightarrow> lib_multiaddr_string L a)\<rparr>"
    using assms(2) unfolding codec_inverts_def by blast
  then show ?thesis
    by (cases info)
       (auto simp: marshal_json_def unmarshal_json_def new_provider_info_def persisted_view_def
          lib_lawsD(3,4) [OF assms(1)] Let_def split: option.splits)
qed

lemma path_join_elem:
  assumes "path_elem e"
  shows "path_join [provider_key_path, e] = ''/registry/pinfo/'' @ e"
proof -
  have "split_on CHR ''/'' (''/registry/pinfo/'' @ e) = [[], ''registry'', ''pinfo'', e]"
    using assms by (simp add: split_on_no_sep path_elem_def)
  then show ?thesis
    using assms
    by (simp add: path_join_def provider_key_path_def path_clean_def Let_def path_elem_def)
qed

lemma path_clean_key:
  assumes "path_elem e"
  shows "path_clean (''/registry/pinfo/'' @ e) = ''/registry/pinfo/'' @ e"
proof -
  have "split_on CHR ''/'' (''/registry/pinfo/'' @ e) = [[], ''registry'', ''pinfo'', e]"
    using assms by (simp add: split_on_no_sep path_elem_def)
  then show ?thesis
    using assms by (simp add: path_clean_def Let_def path_elem_def)
qed

lemma peer_id_to_ds_key_eq:
  "lib_laws L \<Longrightarrow> peer_valid p \<Longrightarrow>
     peer_id_to_ds_key L p = ''/registry/pinfo/'' @ lib_peer_string L p"
  using path_clean_key [of "lib_peer_string L p"]
  by (simp add: peer_id_to_ds_key_def path_join_elem lib_lawsD(2,8))

lemma peer_id_to_ds_key_inj:
  "lib_laws L \<Longrightarrow> peer_valid p \<Longrightarrow> peer_valid q \<Longrightarrow>
     peer_id_to_ds_key L p = peer_id_to_ds_key L q \<longleftrightarrow> p = q"
  by (simp add: peer_id_to_ds_key_eq lib_peer_string_inj)

lemma peer_id_of_ds_key:
  assumes "lib_laws L" and "peer_valid p"
  shows "lib_peer_decode L (path_base (peer_id_to_ds_key L p)) = Inr p"
  using assms path_base_elem [of "lib_peer_string L p" "''/registry/pinfo''"]
  by (simp add: peer_id_to_ds_key_eq lib_lawsD(1,2))

definition mirrored :: "'d datastore \<Rightarrow> lib \<Rightarrow> json_codec \<Rightarrow> 'd registry \<Rightarrow> bool" where
  "mirrored D L J r \<longleftrightarrow>
     (\<forall>d. rg_dstore r = Some d \<longrightarrow> (\<forall>p. peer_valid p \<longrightarrow>
        (case rg_providers r p of
           None \<Rightarrow> ds_get D d (peer_id_to_ds_key L p) = NotFound
         | Some info \<Rightarrow> \<exists>b. ds_get D d (peer_id_to_ds_key L p) = Found b \<and>
             unmarshal_json L J b = Inr (persisted_view info))))"

text \<open>The environment in which the datastore can be relied on.\<close>

definition storage_ok :: "'d datastore \<Rightarrow> lib \<Rightarrow> json_codec \<Rightarrow> bool" where
  "storage_ok D L J \<longleftrightarrow> datastore_laws D \<and> datastore_reliable D \<and> lib_laws L \<and> codec_inverts J"

lemma storage_okD:
  assumes "storage_ok D L J"
  shows "datastore_laws D" "datastore_reliable D" "lib_laws L" "codec_inverts J"
  using assms by (simp_all add: storage_ok_def)

lemma mirrored_cong:
  "rg_providers r' = rg_providers r \<Longrightarrow> rg_dstore r' = rg_dstore r \<Longrightarrow>
     mirrored D L J r \<Longrightarrow> mirrored D L J r'"
  by (simp add: mirrored_def)

lemma mirrored_transient:
  assumes "mirrored D L J r" "rg_providers r p = Some info"
    and "persisted_view info' = persisted_view info"
  shows "mirrored D L J (r\<lparr>rg_providers := (rg_providers r)(p \<mapsto> info')\<rparr>)"
  unfolding mirrored_def
proof (intro allI impI)
  fix d q
  assume "rg_dstore (r\<lparr>rg_providers := (rg_providers r)(p \<mapsto> info')\<rparr>) = Some d" "peer_valid q"
  then have "case rg_providers r q of
           None \<Rightarrow> ds_get D d (peer_id_to_ds_key L q) = NotFound
         | Some info \<Rightarrow> \<exists>b. ds_get D d (peer_id_to_ds_key L q) = Found b \<and>
             unmarshal_json L J b = Inr (persisted_view info)"
    using assms(1) unfolding mirrored_def by simp
  then show "case rg_providers (r\<lparr>rg_providers := (rg_providers r)(p \<mapsto> info')\<rparr>) q of
           None \<Rightarrow> ds_get D d (peer_id_to_ds_key L q) = NotFound
         | Some info \<Rightarrow> \<exists>b. ds_get D d (peer_id_to_ds_key L q) = Found b \<and>
             unmarshal_json L J b = Inr (persisted_view info)"
    using assms(2,3) by (cases "q = p") auto
qed

lemma sync_register_stored:
  assumes ok: "storage_ok D L J" and d: "rg_dstore r = Some d"
  shows "\<exists>d' b. rg_dstore (snd (sync_register D L J info r)) = Some d' \<and>
     ds_get D d' = (ds_get D d)(peer_id_to_ds_key L (pi_id info) := Found b) \<and>
     unmarshal_json L J b = Inr (persisted_view info)"
proof -
  note laws = storage_okD [OF ok]
  obtain b where b: "marshal_json L J info = Inr b"
    "unmarshal_json L J b = Inr (persisted_view info)"
    using marshal_roundtrip laws by blast
  let ?k = "peer_id_to_ds_key L (pi_id info)"
  let ?d' = "snd (ds_sync D (snd (ds_put D d ?k b)) ?k)"
  have "ds_get D ?d' = (ds_get D d)(?k := Found b)"
    by (simp add: ds_sync_get ds_put_get laws reliable_ops(1) [OF laws(2)])
  moreover have "rg_dstore (snd (sync_register D L J info r)) = Some ?d'"
    using d b reliable_ops(1,3) [OF laws(2)]
    by (auto simp: sync_register_def sync_persist_provider_def ds_key_def Let_def
        split: option.splits prod.splits dest: arg_cong [where f = fst])
  ultimately show ?thesis using b(2) by blast
qed

lemma sync_register_succeeds:
  assumes "storage_ok D L J"
  shows "fst (sync_register D L J info r) = None"
proof -
  note laws = storage_okD [OF assms]
  obtain b where "marshal_json L J info = Inr b" using marshal_roundtrip laws by blast
  then show ?thesis
    using reliable_ops(1,3) [OF laws(2)]
    by (auto simp: sync_register_def sync_persist_provider_def Let_def
        split: option.splits prod.splits dest: arg_cong [where f = fst])
qed

lemma mirrored_sync_register:
  assumes ok: "storage_ok D L J" and m: "mirrored D L J r" and valid: "peer_valid (pi_id info)"
  shows "mirrored D L J (snd (sync_register D L J info r))"
  unfolding mirrored_def
proof (intro allI impI)
  fix d' q
  assume d': "rg_dstore (snd (sync_register D L J info r)) = Some d'" and q: "peer_valid q"
  have "rg_dstore r \<noteq> None"
  proof
    assume "rg_dstore r = None"
    then have "rg_dstore (snd (sync_register D L J info r)) = None"
      by (simp add: sync_register_def sync_persist_provider_def Let_def)
    with d' show False by simp
  qed
  then obtain d where d: "rg_dstore r = Some d" by blast
  obtain b where get: "ds_get D d' = (ds_get D d)(peer_id_to_ds_key L (pi_id info) := Found b)"
    and b: "unmarshal_json L J b = Inr (persisted_view info)"
    using sync_register_stored [OF ok d, of info] d' by auto
  have key: "peer_id_to_ds_key L q = peer_id_to_ds_key L (pi_id info) \<longleftrightarrow> q = pi_id info"
    by (rule peer_id_to_ds_key_inj [OF storage_okD(3) [OF ok] q valid])
  show "case rg_providers (snd (sync_register D L J info r)) q of
           None \<Rightarrow> ds_get D d' (peer_id_to_ds_key L q) = NotFound
         | Some info \<Rightarrow> \<exists>b. ds_get D d' (peer_id_to_ds_key L q) = Found b \<and>
             unmarshal_json L J b = Inr (persisted_view info)"
    using m d q b key unfolding mirrored_def
    by (cases "q = pi_id info") (auto simp: get split: option.splits)
qed

lemma mirrored_sync_remove:
  assumes ok: "storage_ok D L J" and m: "mirrored D L J r" and valid: "peer_valid p"
  shows "mirrored D L J (snd (sync_remove_provider D L p r))"
proof (cases "rg_dstore r")
  case None
  then show ?thesis by (simp add: sync_remove_provider_def mirrored_def Let_def)
next
  case (Some d)
  note laws = storage_okD [OF ok]
  let ?k = "peer_id_to_ds_key L p"
  let ?d' = "snd (ds_sync D (snd (ds_delete D d ?k)) ?k)"
  have get: "ds_get D ?d' = (ds_get D d)(?k := NotFound)"
    by (simp add: ds_sync_get ds_delete_get laws reliable_ops(2) [OF laws(2)])
  have "rg_dstore (snd (sync_remove_provider D L p r)) = Some ?d'"
    using Some reliable_ops(2,3) [OF laws(2)]
    by (auto simp: sync_remove_provider_def Let_def
        split: option.splits prod.splits dest: arg_cong [where f = fst])
  moreover have "peer_id_to_ds_key L q = ?k \<longleftrightarrow> q = p" if "peer_valid q" for q
    using that valid by (rule peer_id_to_ds_key_inj [OF laws(3)])
  ultimately show ?thesis
    using m Some unfolding mirrored_def by (auto simp: get split: option.splits)
qed

lemma mirrored_register:
  assumes "storage_ok D L J" "mirrored D L J r"
  shows "mirrored D L J (snd (register D L J info r))"
  using assms by (auto simp: register_state register_check_None intro!: mirrored_sync_register)

lemma mirrored_register_or_update:
  assumes ok: "storage_ok D L J" and m: "mirrored D L J r" and inv: "registry_inv r"
    and res: "register_or_update D L J now p addrs ad publisher r = Inr (e, r')"
  shows "mirrored D L J r'"
proof -
  from res obtain info full where
    up: "update_publisher p publisher (lookup_provider r p) = Inr (info, full)" and
    r': "(e, r') = (if full then register D L J (updated_info L now addrs ad info) r
            else sync_register D L J (updated_info L now addrs ad info) r)"
    by (rule register_or_update_Inr)
  show ?thesis
  proof (cases full)
    case True
    then have "r' = snd (register D L J (updated_info L now addrs ad info) r)"
      using r' by (metis snd_conv)
    then show ?thesis using mirrored_register [OF ok m] by simp
  next
    case False
    then have "r' = snd (sync_register D L J (updated_info L now addrs ad info) r)"
      using r' by (metis snd_conv)
    moreover have "peer_valid (pi_id (updated_info L now addrs ad info))"
      using updated_info_ok [OF inv, of p publisher info] up False by (simp add: info_ok_def)
    ultimately show ?thesis using mirrored_sync_register [OF ok m] by simp
  qed
qed

lemma mirrored_import_loop:
  assumes ok: "storage_ok D L J"
  shows "mirrored D L J r \<Longrightarrow> import_loop D L J ps new r = Inr (new', r') \<Longrightarrow> mirrored D L J r'"
proof (induction ps arbitrary: new r)
  case (Cons x ps)
  show ?case
  proof (cases x)
    case None
    with Cons.prems show ?thesis by simp
  next
    case (Some p)
    show ?thesis
    proof (cases "is_registered r (ai_id (rm_addr_info p))")
      case True
      with Some Cons show ?thesis by simp
    next
      case False
      with Some Cons.prems(2) obtain info where info: "import_info p = Inr info"
        by (auto simp: go_bind_eq_Inr)
      have "mirrored D L J (snd (register D L J info r))"
        using mirrored_register [OF ok] Cons.prems(1) by blast
      with Cons Some False info show ?thesis
        by (auto split: prod.splits option.splits)
    qed
  qed
qed simp

lemma mirrored_try_send: "mirrored D L J r \<Longrightarrow> mirrored D L J (try_send i r)"
  by (erule mirrored_cong [rotated 2]) simp_all

lemma mirrored_poll_provider:
  assumes ok: "storage_ok D L J" and m: "mirrored D L J (snd pr)" and inv: "registry_inv (snd pr)"
  shows "mirrored D L J (snd (poll_provider D L now overrides p pr))"
proof (cases pr)
  case (Pair poll r)
  show ?thesis
  proof (cases "rg_providers r p")
    case None
    with Pair m show ?thesis by simp
  next
    case (Some info)
    have "peer_valid p"
      using registry_invD [OF inv] Some Pair by (auto simp: info_ok_def)
    then have "mirrored D L J (poll_effect D L now pol p info act r)" for pol act
      using m Pair Some ok
      by (cases act)
         (auto simp: poll_effect_def persisted_view_def
            intro!: mirrored_try_send mirrored_sync_remove
              mirrored_transient [OF _ Some])
    then show ?thesis using Pair Some by (simp add: poll_provider_Some)
  qed
qed

lemma mirrored_poll_providers:
  assumes "storage_ok D L J" "mirrored D L J r" "registry_inv r"
  shows "mirrored D L J (poll_providers D L now poll overrides order r)"
proof -
  have "mirrored D L J (snd (fold (poll_provider D L now overrides) order (poll, r))) \<and>
        registry_inv (snd (fold (poll_provider D L now overrides) order (poll, r)))"
    by (rule fold_invariant_on [where P = "\<lambda>pr. mirrored D L J (snd pr) \<and> registry_inv (snd pr)"])
       (use assms in \<open>auto intro: mirrored_poll_provider inv_poll_provider\<close>)
  then show ?thesis by (simp add: poll_providers_def)
qed

lemma mirrored_finish_discover:
  assumes ok: "storage_ok D L J" and m: "mirrored D L J r"
    and result: "\<And>ai. result = Inr ai \<Longrightarrow> peer_valid (ai_id ai)"
  shows "mirrored D L J (snd (finish_discover D L J now sp result r))"
proof -
  define r1 where "r1 = r\<lparr>rg_discover_times := (rg_discover_times r)(sp \<mapsto> now)\<rparr>"
  have m1: "mirrored D L J r1"
    using m by (rule mirrored_cong [rotated 2]) (simp_all add: r1_def)
  show ?thesis
  proof (cases result)
    case (Inl e)
    with m1 show ?thesis
      by (simp add: finish_discover_def r1_def [symmetric] mirrored_def)
  next
    case (Inr ai)
    define info where "info = (new_provider_info ai)\<lparr>pi_discovery_addr := sp\<rparr>"
    have "mirrored D L J (snd (sync_register D L J info r1))"
      using mirrored_sync_register [OF ok m1] result [OF Inr]
      by (simp add: info_def new_provider_info_def)
    then show ?thesis
      by (simp add: finish_discover_def Inr info_def r1_def [symmetric] Let_def case_prod_beta
          mirrored_def)
  qed
qed

lemma discover_frame [simp]:
  "rg_providers (snd (discover_provider now p sp r)) = rg_providers r"
  "rg_dstore (snd (discover_provider now p sp r)) = rg_dstore r"
  by (simp_all add: discover_provider_def sync_start_discover_def split: option.splits)

lemma registry_step_mirrored:
  assumes "registry_step D L J r s" and "storage_ok D L J" "registry_inv r" "mirrored D L J r"
  shows "mirrored D L J s"
  using assms
proof (induction rule: registry_step.induct)
  case (step_receive r i r')
  then have "rg_providers r' = rg_providers r" "rg_dstore r' = rg_dstore r"
    by (auto simp: receive_sync_def split: list.splits)
  then show ?case using step_receive mirrored_cong by blast
next
  case (step_cleanup r now)
  then show ?case by (simp add: mirrored_def cleanup_def)
next
  case (step_send r i)
  then show ?case by (simp add: mirrored_def)
qed (auto intro: mirrored_register mirrored_register_or_update mirrored_import_loop
      mirrored_sync_remove mirrored_poll_providers mirrored_finish_discover
      elim: mirrored_cong [rotated 2])

lemma registry_run_inv_mirrored:
  "registry_run D L J r s \<Longrightarrow> storage_ok D L J \<Longrightarrow> registry_inv r \<Longrightarrow> mirrored D L J r \<Longrightarrow>
     registry_inv s \<and> mirrored D L J s"
  by (induction rule: registry_run.induct) (auto intro: registry_step_inv registry_step_mirrored)

section \<open>Restarting from the datastore\<close>

lemma default_publisher_addr_loaded:
  assumes "info_ok info"
  shows "(if peer_id_validate (pi_publisher (persisted_view info)) = None \<and>
            pi_publisher_addr (persisted_view info) = None \<and>
            pi_publisher (persisted_view info) = pi_id (persisted_view info)
          then go_bind (first_elem (pi_addrs (persisted_view info)))
                 (\<lambda>a. Inr ((persisted_view info)\<lparr>pi_publisher_addr := Some a\<rparr>))
          else Inr (persisted_view info)) =
         Inr (default_publisher_addr (persisted_view info))"
  using assms
  by (auto simp: default_publisher_addr_def persisted_view_def info_ok_def split: list.splits)

lemma load_loop_stored:
  assumes L: "lib_laws L"
    and stored: "\<And>p. p \<in> set order \<Longrightarrow> peer_valid p \<and> info_ok (info p) \<and>
      unmarshal_json L J (b p) = Inr (persisted_view (info p))"
    and "distinct order"
  shows "\<exists>r'. load_loop L J (map (\<lambda>p. Inr (peer_id_to_ds_key L p, b p)) order) n r =
       Inr (Inr (n + length (filter (policy_allowed (rg_policy r)) order), r')) \<and>
     rg_policy r' = rg_policy r \<and>
     rg_providers r' = (\<lambda>p. if p \<in> set order \<and> policy_allowed (rg_policy r) p
       then Some (default_publisher_addr (persisted_view (info p))) else rg_providers r p)"
  using stored \<open>distinct order\<close>
proof (induction order arbitrary: n r)
  case Nil
  then show ?case by simp
next
  case (Cons p order)
  have p: "peer_valid p" "info_ok (info p)" "unmarshal_json L J (b p) = Inr (persisted_view (info p))"
    using Cons.prems(1) by auto
  have key: "lib_peer_decode L (path_base (peer_id_to_ds_key L p)) = Inr p"
    by (rule peer_id_of_ds_key [OF L p(1)])
  note IH = Cons.IH [OF Cons.prems(1)]
  show ?case
  proof (cases "policy_allowed (rg_policy r) p")
    case False
    then show ?thesis
      using IH [of n r] Cons.prems(2) key by (auto simp: fun_eq_iff)
  next
    case True
    define r1 where "r1 = r\<lparr>rg_providers := (rg_providers r)
      (p \<mapsto> default_publisher_addr (persisted_view (info p)))\<rparr>"
    have "load_loop L J (map (\<lambda>p. Inr (peer_id_to_ds_key L p, b p)) (p # order)) n r =
      load_loop L J (map (\<lambda>p. Inr (peer_id_to_ds_key L p, b p)) order) (n + 1) r1"
      using True key p(3) default_publisher_addr_loaded [OF p(2)] by (simp add: r1_def)
    then show ?thesis
      using IH [of "n + 1" r1] Cons.prems(2) True by (auto simp: fun_eq_iff r1_def)
  qed
qed

section \<open>The empty registry\<close>

text \<open>An empty registry, and a policy that admits everyone.\<close>

definition start_registry :: "'d option \<Rightarrow> registry_policy \<Rightarrow> 'd registry" where
  "start_registry d pol =
     \<lparr>rg_policy = pol, rg_providers = Map.empty, rg_sequences = new_sequences 0,
      rg_discover_times = Map.empty, rg_discover_wait = 0, rg_rediscover_wait = 300,
      rg_sync_chan = [], rg_dstore = d\<rparr>"

lemma start_registry_simps [simp]:
  "rg_policy (start_registry d pol) = pol" "rg_providers (start_registry d pol) = Map.empty"
  "rg_dstore (start_registry d pol) = d"
  by (simp_all add: start_registry_def)

lemma start_registry_inv: "registry_inv (start_registry d pol)"
  by (simp add: start_registry_def registry_inv_def discoveries_in_progress_def)

definition open_policy :: registry_policy where
  "open_policy = \<lparr>rp_allow = \<lparr>pol_value = True, pol_except = {||}\<rparr>,
                  rp_publish = \<lparr>pol_value = True, pol_except = {||}\<rparr>\<rparr>"

end
