(* ===== verification/Registry_Properties.thy ===== *)
theory Registry_Properties
  imports Registry_Correct
begin

text \<open>
  The properties of the registry: what every run of its actions keeps, what a restart restores,
  and what registration, update, polling, discovery and import do on their branches.
\<close>

text \<open>C11: In every run of the registry's actions, in any order and with any clock readings and
iteration orders: each provider stays stored under its own valid ID, none in the map is marked
deleted, one that has a publisher has an address, the wait group equals the number of
discoveries in progress, and the sync channel never exceeds its capacity.\<close>

theorem registry_run_keeps_invariant:
  assumes "registry_run D L J r s" and "registry_inv r"
  shows "registry_inv s"
  using assms by (induction rule: registry_run.induct) (auto intro: registry_step_inv)

theorem registry_run_keeps_invariant_witness:
  "registry_inv (snd (discover_provider 7 ''p'' ''f01'' (start_registry None open_policy)) ::
     (string \<times> bytes) list registry)"
  by (rule registry_run_keeps_invariant [OF run_step [OF run_refl step_discover] start_registry_inv])

text \<open>The registries on which the theorems below are applied.\<close>

definition example_info :: provider_info where
  "example_info = (new_provider_info \<lparr>ai_id = ''p1'', ai_addrs = [Multiaddr ''a1'']\<rparr>)
     \<lparr>pi_publisher := ''p1'', pi_last_ad := ''ad1''\<rparr>"

definition example_registry :: "(string \<times> bytes) list registry" where
  "example_registry =
     snd (register alist_ds hex_lib plain_json example_info (start_registry (Some []) open_policy))"

lemma example_provider [simp]: "rg_providers example_registry = [''p1'' \<mapsto> example_info]"
  by (simp add: example_registry_def register_def register_check_def example_info_def
      new_provider_info_def start_registry_def peer_id_validate_def open_policy_def
      policy_allowed_def policy_eval_def split: option.splits)

lemma example_run: "registry_run alist_ds hex_lib plain_json
    (start_registry (Some []) open_policy) example_registry"
  unfolding example_registry_def
  by (rule run_step [OF run_refl step_register]) (simp add: example_info_def new_provider_info_def)

lemma example_storage_ok: "storage_ok alist_ds hex_lib plain_json"
  by (simp add: storage_ok_def alist_ds_laws alist_ds_reliable hex_lib_laws plain_json_inverts)

definition example_bytes :: bytes where
  "example_bytes = projr (marshal_json hex_lib plain_json example_info)"

lemma example_dstore:
  "rg_dstore example_registry = Some [(peer_id_to_ds_key hex_lib ''p1'', example_bytes)]"
  by (simp add: example_registry_def register_def register_check_def example_info_def
      new_provider_info_def start_registry_def peer_id_validate_def open_policy_def
      policy_allowed_def policy_eval_def sync_register_def sync_persist_provider_def alist_ds_def
      ds_key_def marshal_json_def plain_json_def Let_def example_bytes_def split: option.splits)

lemma example_query: "ds_query alist_ds [(peer_id_to_ds_key hex_lib ''p1'', b)] provider_key_path =
    Inr [Inr (peer_id_to_ds_key hex_lib ''p1'', b)]"
  by (simp add: alist_ds_def peer_id_to_ds_key_eq hex_lib_laws peer_valid_def provider_key_path_def)

text \<open>C12: Restart. Whatever actions led to a registry, if the datastore is reliable and its
query returns the stored entries, loading from it into an empty registry restores exactly the
providers that the new policy allows, each with everything but its transient fields (last
contact, inactive), with a provider's own first address as the publisher address where none was
stored; loading does not panic and counts the providers it restored.\<close>

theorem registry_restart_restores:
  assumes run: "registry_run D L J (start_registry (Some d0) pol) r" and ok: "storage_ok D L J"
    and fresh: "\<And>p. peer_valid p \<Longrightarrow> ds_get D d0 (peer_id_to_ds_key L p) = NotFound"
    and d: "rg_dstore r = Some d"
    and order: "distinct order" "set order = dom (rg_providers r)"
    and entries: "\<And>p. p \<in> set order \<Longrightarrow> ds_get D d (peer_id_to_ds_key L p) = Found (b p)"
    and qry: "ds_query D d provider_key_path = Inr (map (\<lambda>p. Inr (peer_id_to_ds_key L p, b p)) order)"
  shows "\<exists>r'. load_persisted_providers D L J (start_registry (Some d) pol') =
       Inr (Inr (length (filter (policy_allowed pol') order), r')) \<and>
     rg_providers r' = (\<lambda>p. if policy_allowed pol' p
       then map_option (\<lambda>i. default_publisher_addr (persisted_view i)) (rg_providers r p) else None)"
proof -
  have "mirrored D L J (start_registry (Some d0) pol)"
    using fresh by (simp add: mirrored_def)
  then have inv: "registry_inv r" and m: "mirrored D L J r"
    using registry_run_inv_mirrored [OF run ok start_registry_inv] by blast+
  define info where "info = (\<lambda>p. the (rg_providers r p))"
  have known: "rg_providers r p = Some (info p)" if "p \<in> set order" for p
    using that order(2) by (auto simp: info_def)
  have stored: "peer_valid p \<and> info_ok (info p) \<and>
      unmarshal_json L J (b p) = Inr (persisted_view (info p))" if "p \<in> set order" for p
  proof -
    have valid: "pi_id (info p) = p" "info_ok (info p)"
      using registry_invD [OF inv known [OF that]] by blast+
    then have "peer_valid p" by (simp add: info_ok_def)
    then show ?thesis
      using m d known [OF that] entries [OF that] valid(2) unfolding mirrored_def by auto
  qed
  obtain r' where load: "load_loop L J (map (\<lambda>p. Inr (peer_id_to_ds_key L p, b p)) order) 0
      (start_registry (Some d) pol') =
      Inr (Inr (length (filter (policy_allowed pol') order), r'))"
    and r': "rg_providers r' = (\<lambda>p. if p \<in> set order \<and> policy_allowed pol' p
       then Some (default_publisher_addr (persisted_view (info p))) else None)"
    using load_loop_stored [OF storage_okD(3) [OF ok] stored order(1), of 0
        "start_registry (Some d) pol'", unfolded start_registry_simps add_0]
    by blast
  have "rg_providers r' = (\<lambda>p. if policy_allowed pol' p
       then map_option (\<lambda>i. default_publisher_addr (persisted_view i)) (rg_providers r p) else None)"
    unfolding r' using order(2) by (auto simp: fun_eq_iff domIff info_def)
  then show ?thesis
    using load qry by (auto simp: load_persisted_providers_def)
qed

theorem registry_restart_restores_witness:
  "\<exists>r'. load_persisted_providers alist_ds hex_lib plain_json
           (start_registry (rg_dstore example_registry) open_policy) = Inr (Inr (1, r')) \<and>
     rg_providers r' ''p1'' = Some (example_info\<lparr>pi_publisher_addr := Some (Multiaddr ''a1'')\<rparr>)"
proof -
  have "\<exists>r'. load_persisted_providers alist_ds hex_lib plain_json
      (start_registry (Some [(peer_id_to_ds_key hex_lib ''p1'', example_bytes)]) open_policy) =
        Inr (Inr (length (filter (policy_allowed open_policy) [''p1'']), r')) \<and>
     rg_providers r' = (\<lambda>p. if policy_allowed open_policy p
       then map_option (\<lambda>i. default_publisher_addr (persisted_view i))
              (rg_providers example_registry p) else None)"
    by (rule registry_restart_restores [OF example_run example_storage_ok])
       (simp_all add: example_dstore example_query, simp_all add: alist_ds_def)
  then show ?thesis
    by (auto simp: example_dstore open_policy_def policy_allowed_def policy_eval_def
        persisted_view_def default_publisher_addr_def example_info_def new_provider_info_def
        peer_id_validate_def peer_valid_def)
qed

text \<open>\<open>RegisterOrUpdate\<close> panics exactly when the publisher's ID changes and the new
publisher comes without an address, or when one of the provider addresses does not parse; both
come from outside the indexer.\<close>

theorem register_or_update_panics_iff:
  "isl (register_or_update D L J now p addrs ad publisher r) \<longleftrightarrow>
     (\<exists>i. rg_providers r p = Some i \<and> \<not> pi_inactive i \<and> peer_valid (ai_id publisher) \<and>
          ai_id publisher \<noteq> pi_publisher i \<and> ai_addrs publisher = []) \<or>
     (\<exists>s\<in>set addrs. isl (lib_new_multiaddr L s))"
  by (simp add: register_or_update_isl update_publisher_panics lookup_provider_Some conj_assoc)

text \<open>A successful \<open>RegisterOrUpdate\<close> stores the provider as active, with the given
addresses or else the ones it had, the given advertisement or else the last one, the given
publisher or else the one it had, and the time of the call as last contact; it changes no other
provider and not the policy.\<close>

theorem register_or_update_stores:
  assumes "register_or_update D L J now p addrs ad publisher r = Inr (None, r')"
  shows "\<exists>info. rg_providers r' = (rg_providers r)(p \<mapsto> info) \<and> rg_policy r' = rg_policy r \<and>
     pi_id info = p \<and> \<not> pi_inactive info \<and> pi_last_contact info = now \<and>
     pi_addrs info = (if addrs \<noteq> [] then map (\<lambda>s. projr (lib_new_multiaddr L s)) addrs
       else (case lookup_provider r p of None \<Rightarrow> [] | Some i \<Rightarrow> pi_addrs i)) \<and>
     pi_last_ad info = (if ad \<noteq> cid_undef then ad
       else (case lookup_provider r p of None \<Rightarrow> cid_undef | Some i \<Rightarrow> pi_last_ad i)) \<and>
     pi_publisher info = (if peer_valid (ai_id publisher) then ai_id publisher
       else (case lookup_provider r p of None \<Rightarrow> [] | Some i \<Rightarrow> pi_publisher i))"
proof -
  from assms obtain info full where
    up: "update_publisher p publisher (lookup_provider r p) = Inr (info, full)" and
    res: "(None, r') = (if full then register D L J (updated_info L now addrs ad info) r
            else sync_register D L J (updated_info L now addrs ad info) r)"
    by (rule register_or_update_Inr)
  have "r' = snd (sync_register D L J (updated_info L now addrs ad info) r)"
  proof (cases full)
    case True
    then have reg: "register D L J (updated_info L now addrs ad info) r = (None, r')"
      using res by simp
    then have "register_check (updated_info L now addrs ad info) r = None"
      using register_result [of D L J "updated_info L now addrs ad info" r]
      by (auto split: option.splits)
    with reg show ?thesis by (simp add: register_def)
  next
    case False
    with res show ?thesis by (metis snd_conv)
  qed
  then show ?thesis
    using update_publisher_Inr(1,3-6) [OF up]
    by (intro exI [of _ "updated_info L now addrs ad info"]) (auto split: option.splits)
qed

theorem register_or_update_stores_witness:
  "rg_providers (snd (projr (register_or_update alist_ds hex_lib plain_json 9 ''p1'' [] ''ad2''
       \<lparr>ai_id = [], ai_addrs = []\<rparr> example_registry))) ''p1'' \<noteq> None"
proof -
  define res where "res = register_or_update alist_ds hex_lib plain_json 9 ''p1'' [] ''ad2''
       \<lparr>ai_id = [], ai_addrs = []\<rparr> example_registry"
  have found: "lookup_provider example_registry ''p1'' = Some example_info"
    by (simp add: lookup_provider_Some example_info_def new_provider_info_def)
  have "res = Inr (None, snd (projr res))"
    using sync_register_succeeds [OF example_storage_ok]
    by (simp add: res_def register_or_update_def found update_publisher_def peer_id_validate_def
        peer_valid_def Let_def prod_eq_iff)
  from register_or_update_stores [OF this [unfolded res_def]] show ?thesis by auto
qed

text \<open>An update of a provider that polling has marked inactive starts from nothing: without
addresses in the update it is refused, although the registry still holds the provider's
addresses.\<close>

theorem update_of_inactive_provider_refused:
  assumes "rg_providers r p = Some i" and "pi_inactive i" and "pi_addrs i \<noteq> []"
  shows "register_or_update D L J now p [] ad publisher r =
           Inr (Some (ErrMsg ''missing provider address''), r)"
proof -
  have "lookup_provider r p = None"
    using assms by (simp add: lookup_provider_def provider_inactive_def)
  then obtain info where up: "update_publisher p publisher (lookup_provider r p) = Inr (info, True)"
    by (cases "ai_addrs publisher") (auto simp: update_publisher_def Let_def)
  have "pi_addrs (updated_info L now [] ad info) = []"
    using update_publisher_Inr(4) [OF up] \<open>lookup_provider r p = None\<close> by simp
  then have chk: "register_check (updated_info L now [] ad info) r =
      Some (ErrMsg ''missing provider address'')"
    by (simp add: register_check_def)
  have "register_or_update D L J now p [] ad publisher r =
      Inr (register D L J (updated_info L now [] ad info) r)"
    using up by (simp add: register_or_update_def updated_info_def Let_def)
  then show ?thesis by (simp add: register_def chk)
qed

theorem update_of_inactive_provider_refused_witness:
  "register_or_update alist_ds hex_lib plain_json 9 ''p1'' [] ''ad2'' \<lparr>ai_id = [], ai_addrs = []\<rparr>
     (example_registry\<lparr>rg_providers := [''p1'' \<mapsto> example_info\<lparr>pi_inactive := True\<rparr>]\<rparr>) =
   Inr (Some (ErrMsg ''missing provider address''),
     example_registry\<lparr>rg_providers := [''p1'' \<mapsto> example_info\<lparr>pi_inactive := True\<rparr>]\<rparr>)"
  by (rule update_of_inactive_provider_refused [where i = "example_info\<lparr>pi_inactive := True\<rparr>"])
     (simp_all add: example_info_def new_provider_info_def)

section \<open>Admission\<close>

definition admitted :: "registry_policy \<Rightarrow> peer_id \<Rightarrow> provider_info \<Rightarrow> bool" where
  "admitted pol p info \<longleftrightarrow> pi_id info = p \<and> policy_allowed pol p \<and>
     (peer_valid (pi_publisher info) \<and> pi_publisher info \<noteq> p \<longrightarrow>
        policy_allowed pol (pi_publisher info) \<and> policy_publish_allowed pol (pi_publisher info) p)"

text \<open>From \<open>r\<close> to \<open>r'\<close> only admitted providers are added.\<close>

definition adds_admitted :: "'d registry \<Rightarrow> 'd registry \<Rightarrow> bool" where
  "adds_admitted r r' \<longleftrightarrow>
     (\<forall>p info. rg_providers r p = None \<and> rg_providers r' p = Some info \<longrightarrow>
        admitted (rg_policy r) p info)"

lemma adds_admittedI:
  "(\<And>p info. rg_providers r p = None \<Longrightarrow> rg_providers r' p = Some info \<Longrightarrow>
      admitted (rg_policy r) p info) \<Longrightarrow> adds_admitted r r'"
  by (simp add: adds_admitted_def)

lemma adds_none: "dom (rg_providers r') \<subseteq> dom (rg_providers r) \<Longrightarrow> adds_admitted r r'"
  by (auto simp: adds_admitted_def dom_def)

lemma adds_register: "adds_admitted r (snd (register D L J info r))"
  by (auto simp: adds_admitted_def register_state register_check_None admitted_def split: if_splits)

lemma adds_trans:
  assumes "adds_admitted r s" "adds_admitted s t" "rg_policy s = rg_policy r"
    and "rg_providers s \<subseteq>\<^sub>m rg_providers t"
  shows "adds_admitted r t"
proof (rule adds_admittedI)
  fix p info
  assume none: "rg_providers r p = None" and some: "rg_providers t p = Some info"
  show "admitted (rg_policy r) p info"
  proof (cases "rg_providers s p")
    case None
    then show ?thesis using assms(2,3) some by (simp add: adds_admitted_def)
  next
    case (Some i)
    then have "i = info" using assms(4) some by (auto simp: map_le_def dom_def)
    then show ?thesis using assms(1) none Some by (simp add: adds_admitted_def)
  qed
qed

lemma import_info_id: "import_info q = Inr info \<Longrightarrow> pi_id info = ai_id (rm_addr_info q)"
  by (auto simp: import_info_def Let_def new_provider_info_def go_bind_eq_Inr
      split: option.splits if_splits)

lemma register_fresh_extends:
  "rg_providers r (pi_id info) = None \<Longrightarrow>
     rg_providers r \<subseteq>\<^sub>m rg_providers (snd (register D L J info r))"
  by (auto simp: register_state map_le_def)

lemma register_policy [simp]: "rg_policy (snd (register D L J info r)) = rg_policy r"
  by (simp add: register_state)

lemma import_loop_admits:
  "import_loop D L J ps new r = Inr (new', r') \<Longrightarrow>
     rg_policy r' = rg_policy r \<and> rg_providers r \<subseteq>\<^sub>m rg_providers r' \<and> adds_admitted r r'"
proof (induction ps arbitrary: new r)
  case Nil
  then show ?case by (simp add: adds_none)
next
  case (Cons x ps)
  show ?case
  proof (cases x)
    case None
    with Cons.prems show ?thesis by simp
  next
    case (Some q)
    show ?thesis
    proof (cases "is_registered r (ai_id (rm_addr_info q))")
      case True
      with Some Cons show ?thesis by simp
    next
      case False
      with Some Cons.prems obtain info where info: "import_info q = Inr info"
        by (auto simp: go_bind_eq_Inr)
      define r1 where "r1 = snd (register D L J info r)"
      obtain new1 where "import_loop D L J ps new1 r1 = Inr (new', r')"
        using Cons.prems Some False info
        by (cases "register D L J info r") (auto simp: r1_def split: option.splits)
      note IH = Cons.IH [OF this]
      have "rg_providers r \<subseteq>\<^sub>m rg_providers r1"
        using False import_info_id [OF info]
        by (auto simp: r1_def is_registered_def intro!: register_fresh_extends)
      moreover have "adds_admitted r r1" by (simp add: r1_def adds_register)
      moreover have "rg_policy r1 = rg_policy r" by (simp add: r1_def)
      ultimately show ?thesis
        using IH adds_trans [of r r1 r'] map_le_trans [of "rg_providers r"] by metis
    qed
  qed
qed

lemma adds_register_or_update:
  assumes "register_or_update D L J now p addrs ad publisher r = Inr (e, r')"
  shows "adds_admitted r r'"
proof -
  from assms obtain info full where
    up: "update_publisher p publisher (lookup_provider r p) = Inr (info, full)" and
    res: "(e, r') = (if full then register D L J (updated_info L now addrs ad info) r
            else sync_register D L J (updated_info L now addrs ad info) r)"
    by (rule register_or_update_Inr)
  show ?thesis
  proof (cases full)
    case True
    then have "r' = snd (register D L J (updated_info L now addrs ad info) r)"
      using res by (metis snd_conv)
    then show ?thesis by (simp add: adds_register)
  next
    case False
    then obtain i where "rg_providers r p = Some i"
      using update_publisher_Inr(7) [OF up] by (auto simp: lookup_provider_Some)
    moreover have "r' = snd (sync_register D L J (updated_info L now addrs ad info) r)"
      using res False by (metis snd_conv)
    ultimately show ?thesis
      using update_publisher_Inr(1) [OF up] by (intro adds_none) auto
  qed
qed

lemma poll_provider_dom:
  "dom (rg_providers (snd (poll_provider D L now overrides p pr))) \<subseteq> dom (rg_providers (snd pr))"
proof (cases pr)
  case (Pair poll r)
  show ?thesis
  proof (cases "rg_providers r p")
    case (Some info)
    then have "dom (rg_providers (poll_effect D L now pol p info act r)) \<subseteq> dom (rg_providers r)"
      for pol act by (cases act) (auto simp: poll_effect_def)
    then show ?thesis using Pair Some by (simp add: poll_provider_Some)
  qed (simp add: Pair)
qed

lemma poll_providers_dom:
  "dom (rg_providers (poll_providers D L now poll overrides order r)) \<subseteq> dom (rg_providers r)"
proof -
  have "dom (rg_providers (snd (fold (poll_provider D L now overrides) order (poll, r)))) \<subseteq>
    dom (rg_providers r)"
    by (rule fold_invariant_on [where P = "\<lambda>pr. dom (rg_providers (snd pr)) \<subseteq> dom (rg_providers r)"])
       (use poll_provider_dom in \<open>auto dest!: subsetD [OF poll_provider_dom]\<close>)
  then show ?thesis by (simp add: poll_providers_def)
qed



section \<open>Polling\<close>

text \<open>What a round does to one provider, as a function on what the map holds for it.\<close>

definition polled_info :: "gotime \<Rightarrow> polling \<Rightarrow> provider_info \<Rightarrow> provider_info option" where
  "polled_info now poll info =
     (case poll_decision now poll info of
        PollStart \<Rightarrow> Some (info\<lparr>pi_last_contact := now - poll_interval poll\<rparr>)
      | PollInactive \<Rightarrow> Some (info\<lparr>pi_inactive := True\<rparr>)
      | PollRemove \<Rightarrow> None
      | _ \<Rightarrow> Some info)"

definition effective_polling :: "(peer_id \<rightharpoonup> polling) \<Rightarrow> polling \<Rightarrow> peer_id \<Rightarrow> polling" where
  "effective_polling overrides poll p =
     (case overrides p of Some ov \<Rightarrow> ov | None \<Rightarrow> poll)"

lemma poll_decision_no_publisher:
  "\<not> peer_valid (pi_publisher info) \<Longrightarrow> poll_decision now poll info = PollSkip"
  by (simp add: poll_decision_def)

lemma poll_effect_providers:
  assumes "rg_providers r p = Some info"
  shows "rg_providers (poll_effect D L now poll p info (poll_decision now poll info) r) =
    (rg_providers r)(p := polled_info now poll info)"
  using assms
  by (cases "poll_decision now poll info") (auto simp: poll_effect_def polled_info_def)

lemma poll_fold_providers:
  assumes "distinct order"
    and total: "overrides = Map.empty \<and> cur = poll \<or>
      (\<forall>p\<in>set order. \<forall>info. rg_providers r p = Some info \<longrightarrow> peer_valid (pi_publisher info) \<longrightarrow>
         overrides p \<noteq> None)"
  shows "rg_providers (snd (fold (poll_provider D L now overrides) order (cur, r))) =
    (\<lambda>p. if p \<in> set order
      then Option.bind (rg_providers r p) (polled_info now (effective_polling overrides poll p))
      else rg_providers r p)"
  using assms
proof (induction order arbitrary: cur r)
  case Nil
  then show ?case by (simp add: fun_eq_iff)
next
  case (Cons p order)
  show ?case
  proof (cases "rg_providers r p")
    case None
    have "rg_providers (snd (fold (poll_provider D L now overrides) order (cur, r))) =
      (\<lambda>p. if p \<in> set order
        then Option.bind (rg_providers r p) (polled_info now (effective_polling overrides poll p))
        else rg_providers r p)"
      by (rule Cons.IH) (use Cons.prems in auto)
    then show ?thesis using None by (auto simp: fun_eq_iff)
  next
    case (Some info)
    define new where "new = next_poll overrides p info cur"
    define r1 where "r1 = poll_effect D L now new p info (poll_decision now new info) r"
    have eff: "polled_info now new info = polled_info now (effective_polling overrides poll p) info"
    proof (cases "peer_valid (pi_publisher info)")
      case True
      then have "new = effective_polling overrides poll p"
        using Cons.prems(2) Some by (auto simp: new_def next_poll_def effective_polling_def)
      then show ?thesis by simp
    qed (simp add: polled_info_def poll_decision_no_publisher)
    have r1: "rg_providers r1 = (rg_providers r)
        (p := polled_info now (effective_polling overrides poll p) info)"
      unfolding r1_def eff [symmetric] by (rule poll_effect_providers [OF Some])
    have step: "fold (poll_provider D L now overrides) (p # order) (cur, r) =
        fold (poll_provider D L now overrides) order (new, r1)"
      by (simp add: poll_provider_Some Some new_def r1_def)
    have total: "overrides = Map.empty \<and> new = poll \<or>
      (\<forall>p\<in>set order. \<forall>info. rg_providers r1 p = Some info \<longrightarrow> peer_valid (pi_publisher info) \<longrightarrow>
         overrides p \<noteq> None)"
      using Cons.prems(1,2) by (auto simp: new_def next_poll_def r1)
    have "rg_providers (snd (fold (poll_provider D L now overrides) order (new, r1))) =
      (\<lambda>p. if p \<in> set order
        then Option.bind (rg_providers r1 p) (polled_info now (effective_polling overrides poll p))
        else rg_providers r1 p)"
      by (rule Cons.IH [OF _ total]) (use Cons.prems(1) total in auto)
    then show ?thesis
      using Some Cons.prems(1) step by (auto simp: fun_eq_iff r1)
  qed
qed

text \<open>A polling round treats every provider by itself, whatever the order the map is ranged
over: each is left alone, given a contact time, marked inactive or removed by its own last
contact and its own polling settings. This holds when there are no override settings, or when
every provider with a publisher has one.\<close>

theorem poll_providers_independent:
  assumes "distinct order" and "set order = dom (rg_providers r)"
    and "overrides = Map.empty \<or>
      (\<forall>p info. rg_providers r p = Some info \<longrightarrow> peer_valid (pi_publisher info) \<longrightarrow> overrides p \<noteq> None)"
  shows "rg_providers (poll_providers D L now poll overrides order r) p =
    Option.bind (rg_providers r p) (polled_info now (effective_polling overrides poll p))"
proof -
  have "overrides = Map.empty \<and> poll = poll \<or>
      (\<forall>p\<in>set order. \<forall>info. rg_providers r p = Some info \<longrightarrow> peer_valid (pi_publisher info) \<longrightarrow>
         overrides p \<noteq> None)"
    using assms(3) by auto
  from poll_fold_providers [OF assms(1) this, of D L now] show ?thesis
    using assms(2) by (auto simp: poll_providers_def domIff)
qed

theorem poll_providers_independent_witness:
  "rg_providers (poll_providers alist_ds hex_lib 100
       \<lparr>poll_interval = 10, poll_retry_after = 5, poll_stop_after = 1000\<rparr> Map.empty [''p1'']
       (example_registry\<lparr>rg_providers := [''p1'' \<mapsto> example_info\<lparr>pi_last_contact := 50\<rparr>]\<rparr>)) ''p1'' =
   Some (example_info\<lparr>pi_last_contact := 50, pi_inactive := True\<rparr>)"
  by (subst poll_providers_independent)
     (simp_all add: polled_info_def poll_decision_def effective_polling_def example_info_def
        new_provider_info_def peer_valid_def)

text \<open>Two providers last heard of at time 100; only the first has override settings.\<close>

definition leak_info :: "peer_id \<Rightarrow> provider_info" where
  "leak_info p = (new_provider_info \<lparr>ai_id = p, ai_addrs = [Multiaddr ''a'']\<rparr>)
     \<lparr>pi_publisher := p, pi_last_contact := 100\<rparr>"

definition leak_registry :: "(string \<times> bytes) list registry" where
  "leak_registry = (start_registry None open_policy)
     \<lparr>rg_providers := [''p1'' \<mapsto> leak_info ''p1'', ''p2'' \<mapsto> leak_info ''p2'']\<rparr>"

text \<open>With override settings for some providers only, a round is not independent of the
order: the loop assigns the override to the variable holding the general settings, so it also
applies to the providers visited later. Here the provider without an override is removed from
the registry when it is visited after the one that has it, and kept when it is visited first.\<close>

theorem poll_override_leaks:
  "let poll = \<lparr>poll_interval = 1000, poll_retry_after = 10, poll_stop_after = 1000\<rparr>;
       overrides = [''p1'' \<mapsto> \<lparr>poll_interval = 10, poll_retry_after = 10, poll_stop_after = 20\<rparr>];
       run = (\<lambda>order. poll_providers alist_ds hex_lib 200 poll overrides order leak_registry)
   in rg_providers (run [''p1'', ''p2'']) ''p2'' = None \<and>
      rg_providers (run [''p2'', ''p1'']) ''p2'' = Some (leak_info ''p2'')"
  by (simp add: Let_def poll_providers_def poll_provider_def leak_registry_def leak_info_def
      new_provider_info_def peer_id_validate_def peer_valid_def)

text \<open>When a round gives a provider up while the sync channel is full, the provider leaves
the registry but its deletion notice is dropped: the channel is as it was, so the ingester is
not told to remove the provider's content.\<close>

theorem poll_removal_notice_dropped:
  assumes "rg_providers r p = Some info"
    and "poll_decision now (next_poll overrides p info poll) info = PollRemove"
    and "length (rg_sync_chan r) = sync_chan_cap"
  shows "rg_providers (snd (poll_provider D L now overrides p (poll, r))) p = None \<and>
     rg_sync_chan (snd (poll_provider D L now overrides p (poll, r))) = rg_sync_chan r"
  using assms by (simp add: poll_provider_Some poll_effect_def) (simp add: try_send_def)

theorem poll_removal_notice_dropped_witness:
  "rg_sync_chan (snd (poll_provider alist_ds hex_lib 200 Map.empty ''p1''
     (\<lparr>poll_interval = 10, poll_retry_after = 10, poll_stop_after = 20\<rparr>,
      leak_registry\<lparr>rg_sync_chan := [leak_info ''p2'']\<rparr>))) = [leak_info ''p2'']"
  using poll_removal_notice_dropped [of "leak_registry\<lparr>rg_sync_chan := [leak_info ''p2'']\<rparr>" "''p1''"
      "leak_info ''p1''" 200 Map.empty
      "\<lparr>poll_interval = 10, poll_retry_after = 10, poll_stop_after = 20\<rparr>" alist_ds hex_lib]
  by (simp add: leak_registry_def leak_info_def new_provider_info_def poll_decision_def
      next_poll_def peer_valid_def sync_chan_cap_def)

section \<open>Discovery\<close>

lemma register_times [simp]:
  "rg_discover_times (snd (register D L J info r)) = rg_discover_times r"
  by (simp add: register_state)

lemma register_or_update_times:
  assumes "register_or_update D L J now p addrs ad publisher r = Inr (e, r')"
  shows "rg_discover_times r' = rg_discover_times r"
  using assms
proof (rule register_or_update_Inr)
  fix info full
  assume "(e, r') = (if full then register D L J (updated_info L now addrs ad info) r
            else sync_register D L J (updated_info L now addrs ad info) r)"
  then show ?thesis by (metis register_times sync_register_frame(4) snd_conv)
qed

lemma import_loop_times:
  "import_loop D L J ps new r = Inr (new', r') \<Longrightarrow> rg_discover_times r' = rg_discover_times r"
proof (induction ps arbitrary: new r)
  case (Cons x ps)
  show ?case
  proof (cases x)
    case None
    with Cons.prems show ?thesis by simp
  next
    case (Some p)
    show ?thesis
    proof (cases "is_registered r (ai_id (rm_addr_info p))")
      case False
      with Some Cons.prems obtain info where info: "import_info p = Inr info"
        by (auto simp: go_bind_eq_Inr)
      obtain new1 where
        "import_loop D L J ps new1 (snd (register D L J info r)) = Inr (new', r')"
        using Cons.prems Some False info
        by (cases "register D L J info r") (auto split: option.splits)
      from Cons.IH [OF this] show ?thesis by simp
    qed (use Some Cons in simp)
  qed
qed simp

lemma poll_provider_times:
  "rg_discover_times (snd (poll_provider D L now overrides p pr)) = rg_discover_times (snd pr)"
proof (cases pr)
  case (Pair poll r)
  show ?thesis
  proof (cases "rg_providers r p")
    case (Some info)
    have "rg_discover_times (poll_effect D L now pol p info act r) = rg_discover_times r" for pol act
      by (cases act) (simp_all add: poll_effect_def)
    then show ?thesis using Pair Some by (simp add: poll_provider_Some)
  qed (simp add: Pair)
qed

lemma poll_providers_times:
  "rg_discover_times (poll_providers D L now poll overrides order r) = rg_discover_times r"
  unfolding poll_providers_def
  by (rule fold_invariant_on [where P = "\<lambda>pr. rg_discover_times (snd pr) = rg_discover_times r"])
     (simp_all add: poll_provider_times)

lemma policy_times [simp]:
  "rg_discover_times (snd (set_policy L cfg r)) = rg_discover_times r"
  "rg_discover_times (snd (allow_peer p r)) = rg_discover_times r"
  "rg_discover_times (snd (block_peer p r)) = rg_discover_times r"
  "rg_discover_times (snd (check_sequence now p seq r)) = rg_discover_times r"
  by (simp_all add: set_policy_def allow_peer_def block_peer_def check_sequence_def
      split: sum.splits prod.splits)

lemma receive_times: "receive_sync r = Some (i, r') \<Longrightarrow> rg_discover_times r' = rg_discover_times r"
  by (auto simp: receive_sync_def split: list.splits)

lemma finish_discover_times:
  "rg_discover_times (snd (finish_discover D L J now sp result r)) =
     (rg_discover_times r)(sp \<mapsto> now)"
  by (simp add: finish_discover_def Let_def case_prod_beta split: sum.splits)

lemma discover_times_progress:
  "sp \<in> discoveries_in_progress r \<Longrightarrow>
     sp \<in> discoveries_in_progress (snd (discover_provider now p sp' r))"
  by (auto simp: discover_provider_def sync_start_discover_def discoveries_in_progress_def
      split: option.splits)

text \<open>A discovery in progress for an address excludes a second one: while it is in
progress, asking for that address is refused with the in-progress error and changes nothing, and
no action of the registry but finishing that very discovery ends it.\<close>

theorem discovery_exclusive:
  assumes "sp \<in> discoveries_in_progress r"
  shows "snd (discover_provider now p sp r) = r \<and>
     (policy_allowed (rg_policy r) p \<longrightarrow>
        fst (discover_provider now p sp r) = Some err_in_progress) \<and>
     (registry_step D L J r s \<longrightarrow> sp \<in> discoveries_in_progress s \<or>
        (\<exists>now result. s = snd (finish_discover D L J now sp result r)))"
proof (intro conjI impI)
  show "snd (discover_provider now p sp r) = r"
    "policy_allowed (rg_policy r) p \<Longrightarrow> fst (discover_provider now p sp r) = Some err_in_progress"
    using assms by (simp_all add: discover_provider_def sync_start_discover_def
        sync_need_discover_def discoveries_in_progress_def)
next
  assume "registry_step D L J r s"
  then show "sp \<in> discoveries_in_progress s \<or>
        (\<exists>now result. s = snd (finish_discover D L J now sp result r))"
    using assms
  proof (induction rule: registry_step.induct)
    case (step_finish sp' r now result)
    show ?case
    proof (cases "sp' = sp")
      case False
      then show ?thesis
        using step_finish by (simp add: discoveries_in_progress_def finish_discover_times)
    qed blast
  qed (auto simp: discover_times_progress, auto simp: discoveries_in_progress_def
      poll_providers_times cleanup_def
      dest: register_or_update_times import_loop_times receive_times)
qed

theorem discovery_exclusive_witness:
  "fst (discover_provider 8 ''q'' ''f01''
     (snd (discover_provider 7 ''p'' ''f01''
        (start_registry None open_policy :: (string \<times> bytes) list registry)))) = Some err_in_progress"
  using discovery_exclusive [of "''f01''" "snd (discover_provider 7 ''p'' ''f01''
      (start_registry None open_policy :: (string \<times> bytes) list registry))" 8 "''q''"]
  by (simp add: discoveries_in_progress_def discover_provider_def sync_start_discover_def
      sync_need_discover_def start_registry_def open_policy_def policy_allowed_def policy_eval_def)

section \<open>Import\<close>

lemma import_loop_new:
  assumes ok: "storage_ok D L J"
  shows "import_loop D L J ps new r = Inr (new', r') \<Longrightarrow>
     \<exists>added. new' = new @ added \<and> distinct (map pi_id added) \<and>
       (\<forall>info\<in>set added. rg_providers r (pi_id info) = None) \<and>
       rg_providers r' = (\<lambda>p. case find (\<lambda>i. pi_id i = p) added of
          Some info \<Rightarrow> Some info | None \<Rightarrow> rg_providers r p)"
proof (induction ps arbitrary: new r)
  case Nil
  then show ?case by (intro exI [of _ "[]"]) (simp add: fun_eq_iff)
next
  case (Cons x ps)
  show ?case
  proof (cases x)
    case None
    with Cons.prems show ?thesis by simp
  next
    case (Some q)
    show ?thesis
    proof (cases "is_registered r (ai_id (rm_addr_info q))")
      case True
      with Some Cons show ?thesis by simp
    next
      case False
      with Some Cons.prems obtain info where info: "import_info q = Inr info"
        by (auto simp: go_bind_eq_Inr)
      have fresh: "rg_providers r (pi_id info) = None"
        using False import_info_id [OF info] by (simp add: is_registered_def)
      show ?thesis
      proof (cases "register_check info r")
        case (Some e)
        then have "import_loop D L J ps new r = Inr (new', r')"
          using Cons.prems \<open>x = _\<close> False info by (simp add: register_def)
        then show ?thesis by (rule Cons.IH)
      next
        case None
        define r1 where "r1 = snd (sync_register D L J info r)"
        have "register D L J info r = (None, r1)"
          using None sync_register_succeeds [OF ok, of info r]
          by (simp add: register_def r1_def prod_eq_iff)
        then have "import_loop D L J ps (new @ [info]) r1 = Inr (new', r')"
          using Cons.prems \<open>x = _\<close> False info by simp
        from Cons.IH [OF this] obtain added where
          added: "new' = (new @ [info]) @ added" "distinct (map pi_id added)"
            "\<forall>i\<in>set added. rg_providers r1 (pi_id i) = None"
            "rg_providers r' = (\<lambda>p. case find (\<lambda>i. pi_id i = p) added of
               Some info \<Rightarrow> Some info | None \<Rightarrow> rg_providers r1 p)" by blast
        have r1: "rg_providers r1 = (rg_providers r)(pi_id info \<mapsto> info)" by (simp add: r1_def)
        have other: "\<forall>i\<in>set added. pi_id i \<noteq> pi_id info \<and> rg_providers r (pi_id i) = None"
          using added(3) r1 by (auto split: if_splits)
        have none: "find (\<lambda>i. pi_id i = pi_id info) added = None"
          using other by (auto simp: find_None_iff)
        show ?thesis
          by (intro exI [of _ "info # added"])
             (use added other fresh r1 none in \<open>auto simp: fun_eq_iff split: option.splits\<close>)
      qed
    qed
  qed
qed

text \<open>Importing the providers of another indexer, with a reliable datastore, keeps every
provider the registry has exactly as it is, adds each new one once, answers how many it added,
and hands exactly those to the sync channel.\<close>

theorem import_providers_adds:
  assumes "storage_ok D L J"
    and "import_providers D L J (Inr ps) r = Inr (answer, new, r')"
  shows "answer = Inr (length new) \<and> distinct (map pi_id new) \<and> rg_providers r \<subseteq>\<^sub>m rg_providers r' \<and>
     pi_id ` set new = dom (rg_providers r') - dom (rg_providers r) \<and>
     (\<forall>info\<in>set new. rg_providers r' (pi_id info) = Some info)"
proof -
  have answer: "answer = Inr (length new)" and "import_loop D L J ps [] r = Inr (new, r')"
    using assms(2) by (auto simp: import_providers_def go_bind_eq_Inr)
  with import_loop_new [OF assms(1)] have new: "distinct (map pi_id new)"
    "\<forall>info\<in>set new. rg_providers r (pi_id info) = None"
    "rg_providers r' = (\<lambda>p. case find (\<lambda>i. pi_id i = p) new of
       Some info \<Rightarrow> Some info | None \<Rightarrow> rg_providers r p)" by fastforce+
  have old: "find (\<lambda>i. pi_id i = p) new = None" if "rg_providers r p \<noteq> None" for p
    using new(2) that by (auto simp: find_None_iff)
  have stored: "find (\<lambda>i. pi_id i = pi_id info) new = Some info" if "info \<in> set new" for info
    using that new(1) by (induction new) (auto simp: image_iff)
  have known: "\<exists>info\<in>set new. pi_id info = p"
    if "rg_providers r' p \<noteq> None" "rg_providers r p = None" for p
    using that new(3) by (auto simp: find_Some_iff split: option.splits dest: nth_mem)
  have "rg_providers r \<subseteq>\<^sub>m rg_providers r'"
    using old new(3) by (auto simp: map_le_def dom_def)
  moreover have in_new: "\<forall>info\<in>set new. rg_providers r' (pi_id info) = Some info"
    using stored new(3) by simp
  moreover have "pi_id ` set new = dom (rg_providers r') - dom (rg_providers r)"
  proof (intro subset_antisym subsetI)
    show "p \<in> dom (rg_providers r') - dom (rg_providers r)" if "p \<in> pi_id ` set new" for p
      using that in_new new(2) by auto
    show "p \<in> pi_id ` set new" if "p \<in> dom (rg_providers r') - dom (rg_providers r)" for p
      using that known [of p] by auto
  qed
  ultimately show ?thesis using answer new(1) by simp
qed

theorem import_providers_adds_witness:
  "pi_id ` set (fst (snd (projr (import_providers alist_ds hex_lib plain_json
       (Inr [Some \<lparr>rm_addr_info = \<lparr>ai_id = ''p1'', ai_addrs = [Multiaddr ''x'']\<rparr>, rm_publisher = None\<rparr>,
             Some \<lparr>rm_addr_info = \<lparr>ai_id = ''p2'', ai_addrs = [Multiaddr ''y'']\<rparr>, rm_publisher = None\<rparr>])
       example_registry)))) = {''p2''}"
proof -
  define ps where "ps =
    [Some \<lparr>rm_addr_info = \<lparr>ai_id = ''p1'', ai_addrs = [Multiaddr ''x'']\<rparr>, rm_publisher = None\<rparr>,
     Some \<lparr>rm_addr_info = \<lparr>ai_id = ''p2'', ai_addrs = [Multiaddr ''y'']\<rparr>, rm_publisher = None\<rparr>]"
  define info where "info = (new_provider_info \<lparr>ai_id = ''p2'', ai_addrs = [Multiaddr ''y'']\<rparr>)
     \<lparr>pi_publisher := ''p2'', pi_publisher_addr := Some (Multiaddr ''y'')\<rparr>"
  have policy: "rg_policy example_registry = open_policy"
    by (simp add: example_registry_def)
  have register: "register alist_ds hex_lib plain_json info example_registry =
      (None, snd (register alist_ds hex_lib plain_json info example_registry))"
    using sync_register_succeeds [OF example_storage_ok, of info example_registry]
    by (auto simp: register_result register_check_def info_def new_provider_info_def policy
        peer_valid_def open_policy_def policy_allowed_def policy_eval_def prod_eq_iff
        split: option.splits)
  have self: "import_info \<lparr>rm_addr_info = \<lparr>ai_id = ''p2'', ai_addrs = [Multiaddr ''y'']\<rparr>,
      rm_publisher = None\<rparr> = Inr info"
    by (simp add: import_info_def info_def new_provider_info_def)
  have res: "import_providers alist_ds hex_lib plain_json (Inr ps) example_registry =
      Inr (Inr (length [info]), [info],
        snd (register alist_ds hex_lib plain_json info example_registry))"
    using register by (cases "register alist_ds hex_lib plain_json info example_registry")
      (simp add: import_providers_def ps_def is_registered_def self)
  from import_providers_adds [OF example_storage_ok this] show ?thesis
    using res unfolding ps_def by (auto simp: info_def new_provider_info_def)
qed

end
