(* ===== verification/Ingest_Store.thy ===== *)
theory Ingest_Store
  imports Registry_Correct
begin

text \<open>
  The ingester's records in the datastore (\<^verbatim>\<open>internal/ingest/ingest.go\<close>): which
  advertisements were processed and the latest one processed of each publisher. The datastore
  state is passed explicitly; \<open>D\<close> and \<open>L\<close> are the datastore and the codecs.
\<close>

section \<open>Keys\<close>

definition sync_prefix :: string where
  "sync_prefix = ''/sync/''"

definition ad_processed_prefix :: string where
  "ad_processed_prefix = ''/adProcessed/''"

definition processed_key :: "lib \<Rightarrow> cid \<Rightarrow> string" where
  "processed_key L c = lib_new_key L (ad_processed_prefix @ lib_cid_string L c)"

definition sync_key :: "lib \<Rightarrow> peer_id \<Rightarrow> string" where
  "sync_key L p = lib_new_key L (sync_prefix @ lib_peer_string L p)"

definition block_key :: "lib \<Rightarrow> cid \<Rightarrow> string" where
  "block_key L c = lib_new_key L (lib_cid_string L c)"

section \<open>Operations\<close>

definition mark_ad_unprocessed ::
    "'d datastore \<Rightarrow> lib \<Rightarrow> cid \<Rightarrow> 'd \<Rightarrow> go_error option \<times> 'd" where
  "mark_ad_unprocessed D L c d =
     (let (e, d') = ds_put D d (processed_key L c) [CHR 0x00]
      in (map_option ErrMsg e, d'))"

text \<open>A stored value that is empty makes the read of its first byte panic.\<close>

definition ad_already_processed :: "'d datastore \<Rightarrow> lib \<Rightarrow> cid \<Rightarrow> 'd \<Rightarrow> bool go" where
  "ad_already_processed D L c d =
     (case ds_get D d (processed_key L c) of
        GetFailed e \<Rightarrow> Inr False
      | NotFound \<Rightarrow> Inr False
      | Found v \<Rightarrow> go_bind (first_elem v) (\<lambda>b. Inr (b = CHR 0x01)))"

definition mark_ad_processed ::
    "'d datastore \<Rightarrow> lib \<Rightarrow> peer_id \<Rightarrow> cid \<Rightarrow> 'd \<Rightarrow> go_error option \<times> 'd" where
  "mark_ad_processed D L publisher c d =
     (case ds_put D d (processed_key L c) [CHR 0x01] of
        (Some e, d1) \<Rightarrow> (Some (ErrMsg e), d1)
      | (None, d1) \<Rightarrow>
          let d2 = snd (ds_delete D d1 (block_key L c));
              (e, d3) = ds_put D d2 (sync_key L publisher) (lib_cid_bytes L c)
          in (map_option ErrMsg e, d3))"

definition get_latest_sync :: "'d datastore \<Rightarrow> lib \<Rightarrow> peer_id \<Rightarrow> 'd \<Rightarrow> go_error + cid" where
  "get_latest_sync D L publisher d =
     (case ds_get D d (sync_key L publisher) of
        NotFound \<Rightarrow> Inr cid_undef
      | GetFailed e \<Rightarrow> Inl (ErrMsg e)
      | Found b \<Rightarrow> map_sum ErrMsg id (lib_cid_from_bytes L b))"

text \<open>The handler that go-legs keeps for the publisher is also removed; that is not the datastore's.\<close>

definition remove_publisher ::
    "'d datastore \<Rightarrow> lib \<Rightarrow> peer_id \<Rightarrow> 'd \<Rightarrow> go_error option \<times> 'd" where
  "remove_publisher D L publisher d =
     (if peer_id_validate publisher \<noteq> None then (None, d)
      else
        (case ds_delete D d (sync_key L publisher) of
           (Some e, d') \<Rightarrow>
             (Some (ErrMsg (''could not remove latest sync for publisher '' @
                lib_peer_string L publisher @ '': '' @ e)), d')
         | (None, d') \<Rightarrow> (None, d')))"

section \<open>The keys are distinct\<close>

lemma path_clean_two:
  assumes "path_elem a" and "path_elem e"
  shows "path_clean (CHR ''/'' # a @ CHR ''/'' # e) = CHR ''/'' # a @ CHR ''/'' # e"
proof -
  have "split_on CHR ''/'' (CHR ''/'' # a @ CHR ''/'' # e) = [[], a, e]"
    using assms by (simp add: split_on_no_sep split_on_append path_elem_def)
  then show ?thesis
    using assms by (simp add: path_clean_def Let_def path_elem_def)
qed

lemma path_clean_one:
  assumes "path_elem e"
  shows "path_clean (CHR ''/'' # e) = CHR ''/'' # e"
proof -
  have "split_on CHR ''/'' (CHR ''/'' # e) = [[], e]"
    using assms by (simp add: split_on_no_sep path_elem_def)
  then show ?thesis
    using assms by (simp add: path_clean_def Let_def path_elem_def)
qed

lemma path_elem_names: "path_elem ''adProcessed''" "path_elem ''sync''"
  by (simp_all add: path_elem_def)

lemma processed_key_eq: "lib_laws L \<Longrightarrow> processed_key L c = ''/adProcessed/'' @ lib_cid_string L c"
  using path_clean_two [OF path_elem_names(1) lib_lawsD(5)]
  by (simp add: processed_key_def ad_processed_prefix_def lib_lawsD(8))

lemma sync_key_eq:
  "lib_laws L \<Longrightarrow> peer_valid p \<Longrightarrow> sync_key L p = ''/sync/'' @ lib_peer_string L p"
  using path_clean_two [OF path_elem_names(2) lib_lawsD(2)]
  by (simp add: sync_key_def sync_prefix_def lib_lawsD(8))

lemma block_key_eq: "lib_laws L \<Longrightarrow> block_key L c = CHR ''/'' # lib_cid_string L c"
  using path_clean_one [OF lib_lawsD(5), of L c] lib_lawsD(5) [of L c]
  by (cases "lib_cid_string L c") (auto simp: block_key_def lib_lawsD(8) path_elem_def)

lemma cid_string_inj: "lib_laws L \<Longrightarrow> lib_cid_string L c = lib_cid_string L c' \<longleftrightarrow> c = c'"
  using lib_lawsD(6) by (auto dest: injD)

lemma prefixed_neq_cid:
  assumes "lib_laws L"
  shows "a @ CHR ''/'' # s \<noteq> lib_cid_string L c"
proof
  assume "a @ CHR ''/'' # s = lib_cid_string L c"
  then have "CHR ''/'' \<in> set (lib_cid_string L c)"
    by (metis in_set_conv_decomp)
  then show False using lib_lawsD(5) [OF assms, of c] by (simp add: path_elem_def)
qed

lemma key_eqs:
  assumes "lib_laws L"
  shows "processed_key L c = processed_key L c' \<longleftrightarrow> c = c'"
    and "block_key L c = block_key L c' \<longleftrightarrow> c = c'"
    and "peer_valid p \<Longrightarrow> peer_valid q \<Longrightarrow> sync_key L p = sync_key L q \<longleftrightarrow> p = q"
  using lib_peer_string_inj [OF assms]
  by (simp_all add: processed_key_eq block_key_eq sync_key_eq assms cid_string_inj)

lemma key_neqs:
  assumes "lib_laws L"
  shows "processed_key L c \<noteq> block_key L c'"
    and "peer_valid p \<Longrightarrow> processed_key L c \<noteq> sync_key L p"
    and "peer_valid p \<Longrightarrow> sync_key L p \<noteq> block_key L c"
    and "peer_valid p \<Longrightarrow> peer_id_to_ds_key L p \<noteq> processed_key L c"
    and "peer_valid p \<Longrightarrow> peer_valid q \<Longrightarrow> peer_id_to_ds_key L p \<noteq> sync_key L q"
    and "peer_valid p \<Longrightarrow> peer_id_to_ds_key L p \<noteq> block_key L c"
  using prefixed_neq_cid [OF assms, of "''adProcessed''" "lib_cid_string L c" c']
    prefixed_neq_cid [OF assms, of "''sync''" "lib_peer_string L p" c]
    prefixed_neq_cid [OF assms, of "''registry''" "''pinfo/'' @ lib_peer_string L p" c]
  by (simp_all add: processed_key_eq block_key_eq sync_key_eq peer_id_to_ds_key_eq assms)

lemmas key_simps = key_eqs key_neqs key_neqs [symmetric]

section \<open>What the records say afterwards\<close>

text \<open>The processed marks as a predicate, and a datastore in which every mark is well formed.\<close>

definition processed :: "'d datastore \<Rightarrow> lib \<Rightarrow> 'd \<Rightarrow> cid \<Rightarrow> bool" where
  "processed D L d c \<longleftrightarrow> ad_already_processed D L c d = Inr True"

definition marks_ok :: "'d datastore \<Rightarrow> lib \<Rightarrow> 'd \<Rightarrow> bool" where
  "marks_ok D L d \<longleftrightarrow> (\<forall>c. \<not> isl (ad_already_processed D L c d))"

lemma marks_ok_processed:
  "marks_ok D L d \<Longrightarrow> ad_already_processed D L c d = Inr (processed D L d c)"
  by (cases "ad_already_processed D L c d") (auto simp: marks_ok_def processed_def isl_def)

lemma mark_ad_processed_get:
  assumes "datastore_laws D" and "datastore_reliable D"
  shows "fst (mark_ad_processed D L p c d) = None"
    and "ds_get D (snd (mark_ad_processed D L p c d)) =
      (ds_get D d)(processed_key L c := Found [CHR 0x01], block_key L c := NotFound,
         sync_key L p := Found (lib_cid_bytes L c))"
proof -
  obtain d1 where d1: "ds_put D d (processed_key L c) [CHR 0x01] = (None, d1)"
    using reliable_ops(1) [OF assms(2)] by (metis prod.collapse)
  define d2 where "d2 = snd (ds_delete D d1 (block_key L c))"
  obtain d3 where d3: "ds_put D d2 (sync_key L p) (lib_cid_bytes L c) = (None, d3)"
    using reliable_ops(1) [OF assms(2)] by (metis prod.collapse)
  have "mark_ad_processed D L p c d = (None, d3)"
    by (simp add: mark_ad_processed_def d1 d3 d2_def [symmetric] Let_def)
  moreover have "ds_get D d1 = (ds_get D d)(processed_key L c := Found [CHR 0x01])"
    using ds_put_get [OF assms(1), of d "processed_key L c" "[CHR 0x01]"] d1 by simp
  moreover have "ds_get D d2 = (ds_get D d1)(block_key L c := NotFound)"
    using ds_delete_get [OF assms(1), of d1 "block_key L c"] reliable_ops(2) [OF assms(2)]
    by (simp add: d2_def)
  moreover have "ds_get D d3 = (ds_get D d2)(sync_key L p := Found (lib_cid_bytes L c))"
    using ds_put_get [OF assms(1), of d2 "sync_key L p" "lib_cid_bytes L c"] d3 by simp
  ultimately show "fst (mark_ad_processed D L p c d) = None"
    "ds_get D (snd (mark_ad_processed D L p c d)) =
      (ds_get D d)(processed_key L c := Found [CHR 0x01], block_key L c := NotFound,
         sync_key L p := Found (lib_cid_bytes L c))" by simp_all
qed

lemma mark_ad_unprocessed_get:
  assumes "datastore_laws D" and "datastore_reliable D"
  shows "ds_get D (snd (mark_ad_unprocessed D L c d)) =
    (ds_get D d)(processed_key L c := Found [CHR 0x00])"
  using ds_put_get [OF assms(1), of d "processed_key L c" "[CHR 0x00]"]
    reliable_ops(1) [OF assms(2)]
  by (simp add: mark_ad_unprocessed_def case_prod_beta Let_def)

lemma processed_after_mark:
  assumes "datastore_laws D" "datastore_reliable D" "lib_laws L" "peer_valid p"
  shows "processed D L (snd (mark_ad_processed D L p c d)) c' \<longleftrightarrow> c' = c \<or> processed D L d c'"
  by (auto simp: processed_def ad_already_processed_def mark_ad_processed_get assms key_simps)

lemma marks_ok_after_mark:
  assumes "datastore_laws D" "datastore_reliable D" "lib_laws L" "peer_valid p"
  shows "marks_ok D L d \<Longrightarrow> marks_ok D L (snd (mark_ad_processed D L p c d))"
  by (auto simp: marks_ok_def ad_already_processed_def mark_ad_processed_get assms key_simps)

lemma latest_sync_after_mark:
  assumes "datastore_laws D" "datastore_reliable D" "lib_laws L" "peer_valid p" "peer_valid q"
    and "c \<noteq> cid_undef"
  shows "get_latest_sync D L q (snd (mark_ad_processed D L p c d)) =
    (if q = p then Inr c else get_latest_sync D L q d)"
  by (auto simp: get_latest_sync_def mark_ad_processed_get assms key_simps lib_lawsD(7))

section \<open>Properties\<close>

text \<open>Marking an advertisement as processed makes it, and no other, newly processed; makes
it the latest sync of its publisher and leaves those of other publishers alone; deletes its
block from the datastore and no other block; and leaves the registry's records alone.\<close>

theorem mark_processed_behaviour:
  assumes "datastore_laws D" "datastore_reliable D" "lib_laws L" "peer_valid p" "c \<noteq> cid_undef"
    and "snd (mark_ad_processed D L p c d) = d'"
  shows "ad_already_processed D L c' d' = (if c' = c then Inr True else ad_already_processed D L c' d) \<and>
     (peer_valid q \<longrightarrow>
        get_latest_sync D L q d' = (if q = p then Inr c else get_latest_sync D L q d)) \<and>
     ds_get D d' (block_key L c') = (if c' = c then NotFound else ds_get D d (block_key L c')) \<and>
     (peer_valid q \<longrightarrow> ds_get D d' (peer_id_to_ds_key L q) = ds_get D d (peer_id_to_ds_key L q))"
  using latest_sync_after_mark [OF assms(1-4) _ assms(5), of q d]
  by (auto simp: ad_already_processed_def mark_ad_processed_get assms(1-5) assms(6) [symmetric] key_simps)

theorem mark_processed_behaviour_witness:
  "ad_already_processed alist_ds hex_lib ''c'' (snd (mark_ad_processed alist_ds hex_lib ''p'' ''c'' [])) =
     Inr True"
  using mark_processed_behaviour [OF alist_ds_laws alist_ds_reliable hex_lib_laws, of "''p''" "''c''"
      "[]" _ "''c''"]
  by (simp add: peer_valid_def)

end
