(* ===== verification/Schema.thy ===== *)
theory Schema
  imports Externals
begin

text \<open>
  \<^verbatim>\<open>api/v0/ingest/schema\<close>: advertisements and entry chunks, how they are read from IPLD nodes,
  and the signature of an advertisement. The IPLD library (\<open>N\<close>) and the cryptographic library
  (\<open>K\<close>) are arguments. An IPLD link is the CID it holds, or \<open>None\<close> for a nil link; asserting the
  type of a nil link panics.
\<close>

section \<open>Types\<close>

record advertisement =
  ad_previous :: "cid option"
  ad_provider :: string
  ad_addresses :: "string list"
  ad_signature :: bytes
  ad_entries :: "cid option"
  ad_context :: bytes
  ad_metadata :: bytes
  ad_is_rm :: bool

record entry_chunk =
  ch_entries :: "multihash list"
  ch_next :: "cid option"

definition max_context_id_len :: nat where
  "max_context_id_len = 64"

definition max_metadata_len :: nat where
  "max_metadata_len = 1024"

definition advertisement_validate :: "advertisement \<Rightarrow> go_error option" where
  "advertisement_validate a =
     (if length (ad_context a) > max_context_id_len then Some (ErrMsg ''context id too long'')
      else if length (ad_metadata a) > max_metadata_len then Some (ErrMsg ''metadata too long'')
      else None)"

text \<open>The type assertion \<^verbatim>\<open>link.(cidlink.Link).Cid\<close>.\<close>

definition link_cid :: "cid option \<Rightarrow> cid go" where
  "link_cid l = (case l of None \<Rightarrow> Inl NilDereference | Some c \<Rightarrow> Inr c)"

lemma link_cid_simps [simp]:
  "link_cid None = Inl NilDereference" "link_cid (Some c) = Inr c"
  by (simp_all add: link_cid_def)

text \<open>
  The link that stands for no entries: the raw CID of the first 16 bytes of the SHA-256 digest of
  nothing.
\<close>

definition no_entries :: cid where
  "no_entries =
    [CHR 0x01, CHR 0x55, CHR 0x12, CHR 0x10, CHR 0xE3, CHR 0xB0, CHR 0xC4, CHR 0x42, CHR 0x98, CHR 0xFC,
     CHR 0x1C, CHR 0x14, CHR 0x9A, CHR 0xFB, CHR 0xF4, CHR 0xC8, CHR 0x99, CHR 0x6F, CHR 0xB9, CHR 0x24]"

lemma no_entries_neq_undef [simp]: "no_entries \<noteq> cid_undef"
  by (simp add: no_entries_def)

section \<open>Nodes\<close>

text \<open>
  What the code uses of go-ipld-prime: the decoder of a codec, the prototype of a node,
  converting a node to another prototype, unwrapping a node of the right prototype (\<open>None\<close> when it
  does not hold such a value), and looking up a field. The names of the prototypes are the
  code's; \<open>'h\<close> is the type of a HAMT root.
\<close>

datatype prototype = AnyPrototype | AdvertisementPrototype | EntryChunkPrototype | HashMapRootPrototype

record ('n, 'h) ipld =
  ip_codec :: "cid \<Rightarrow> nat"
  ip_decoder :: "nat \<Rightarrow> string + (prototype \<Rightarrow> bytes \<Rightarrow> string + 'n)"
  ip_prototype :: "'n \<Rightarrow> prototype"
  ip_assign :: "prototype \<Rightarrow> 'n \<Rightarrow> string + 'n"
  ip_unwrap_ad :: "'n \<Rightarrow> advertisement option"
  ip_unwrap_chunk :: "'n \<Rightarrow> entry_chunk option"
  ip_unwrap_hamt :: "'n \<Rightarrow> 'h option"
  ip_lookup :: "'n \<Rightarrow> string \<Rightarrow> bool"

definition as_prototype :: "('n, 'h) ipld \<Rightarrow> prototype \<Rightarrow> 'n \<Rightarrow> go_error + 'n" where
  "as_prototype N p node =
     (if ip_prototype N node \<noteq> p then
        (case ip_assign N p node of
           Inl e \<Rightarrow> Inl (ErrMsg (''faild to convert node prototype: '' @ e))
         | Inr n \<Rightarrow> Inr n)
      else Inr node)"

definition unwrap_advertisement :: "('n, 'h) ipld \<Rightarrow> 'n \<Rightarrow> go_error + advertisement" where
  "unwrap_advertisement N node =
     (case as_prototype N AdvertisementPrototype node of
        Inl e \<Rightarrow> Inl e
      | Inr n \<Rightarrow>
          (case ip_unwrap_ad N n of
             None \<Rightarrow> Inl (ErrMsg ''unwrapped node does not match schema.Advertisement'')
           | Some ad \<Rightarrow> Inr ad))"

definition unwrap_entry_chunk :: "('n, 'h) ipld \<Rightarrow> 'n \<Rightarrow> go_error + entry_chunk" where
  "unwrap_entry_chunk N node =
     (case as_prototype N EntryChunkPrototype node of
        Inl e \<Rightarrow> Inl e
      | Inr n \<Rightarrow>
          (case ip_unwrap_chunk N n of
             None \<Rightarrow> Inl (ErrMsg ''unwrapped node does not match schema.EntryChunk'')
           | Some ch \<Rightarrow> Inr ch))"

text \<open>
  Values that a panic carries, and the error that a recovered one becomes. Wrapping a value as a node is the
  library's; it may panic.
\<close>

datatype panic_value = Panic_String string | Panic_Error go_error | Panic_Other string

fun to_error :: "panic_value \<Rightarrow> go_error" where
  "to_error (Panic_String x) = ErrMsg x"
| "to_error (Panic_Error e) = e"
| "to_error (Panic_Other v) = ErrMsg (''unknown panic: '' @ v)"

definition ad_to_node :: "(advertisement \<Rightarrow> panic_value + 'n) \<Rightarrow> advertisement \<Rightarrow> go_error + 'n" where
  "ad_to_node wrap ad = map_sum to_error id (wrap ad)"

definition chunk_to_node :: "(entry_chunk \<Rightarrow> panic_value + 'n) \<Rightarrow> entry_chunk \<Rightarrow> go_error + 'n" where
  "chunk_to_node wrap ch = map_sum to_error id (wrap ch)"

lemma ad_node_roundtrip:
  assumes "\<And>n. wrap ad = Inr n \<Longrightarrow> ip_unwrap_ad N n = Some ad \<and> ip_prototype N n = AdvertisementPrototype"
    and "ad_to_node wrap ad = Inr n"
  shows "unwrap_advertisement N n = Inr ad"
  using assms by (cases "wrap ad") (auto simp: ad_to_node_def unwrap_advertisement_def as_prototype_def)

lemma chunk_node_roundtrip:
  assumes "\<And>n. wrap ch = Inr n \<Longrightarrow> ip_unwrap_chunk N n = Some ch \<and> ip_prototype N n = EntryChunkPrototype"
    and "chunk_to_node wrap ch = Inr n"
  shows "unwrap_entry_chunk N n = Inr ch"
  using assms by (cases "wrap ch") (auto simp: chunk_to_node_def unwrap_entry_chunk_def as_prototype_def)

section \<open>Signatures\<close>

text \<open>
  What the code uses of the cryptographic libraries: the SHA-256 multihash of a payload, the
  encoding of bytes as if they were such a digest, sealing a record into an envelope with a
  private key, marshalling an envelope, consuming an envelope for a domain (it answers the
  payload and the public key), and the peer ID of a public key.
\<close>

record ('k, 'e, 'p) crypto =
  cr_sum :: "bytes \<Rightarrow> string + bytes"
  cr_encode :: "bytes \<Rightarrow> string + bytes"
  cr_seal :: "'k \<Rightarrow> string \<Rightarrow> bytes \<Rightarrow> bytes \<Rightarrow> string + 'e"
  cr_marshal :: "'e \<Rightarrow> string + bytes"
  cr_consume :: "string \<Rightarrow> bytes \<Rightarrow> string + bytes \<times> 'p"
  cr_peer_id :: "'p \<Rightarrow> string + peer_id"

definition ad_signature_codec :: string where
  "ad_signature_codec = ''/indexer/ingest/adSignature''"

definition ad_signature_domain :: string where
  "ad_signature_domain = ''indexer''"

text \<open>The bytes the signature is computed over, written one after the other.\<close>

definition signature_bytes :: "lib \<Rightarrow> advertisement \<Rightarrow> bytes go" where
  "signature_bytes L ad =
     go_bind (case ad_previous ad of None \<Rightarrow> Inr cid_undef | Some c \<Rightarrow> Inr c) (\<lambda>prev.
     go_bind (link_cid (ad_entries ad)) (\<lambda>ent.
       Inr (lib_cid_bytes L prev @ lib_cid_bytes L ent @ ad_provider ad @ concat (ad_addresses ad) @
            ad_metadata ad @ (if ad_is_rm ad then [char_of (1 :: nat)] else [char_of (0 :: nat)]))))"

definition signature_payload ::
    "lib \<Rightarrow> ('k, 'e, 'p) crypto \<Rightarrow> advertisement \<Rightarrow> bool \<Rightarrow> (go_error + bytes) go" where
  "signature_payload L K ad old_format =
     go_bind (signature_bytes L ad) (\<lambda>buf.
       Inr (map_sum ErrMsg id (if old_format then cr_encode K buf else cr_sum K buf)))"

definition sign_advertisement ::
    "lib \<Rightarrow> ('k, 'e, 'p) crypto \<Rightarrow> 'k \<Rightarrow> advertisement \<Rightarrow> (go_error + advertisement) go" where
  "sign_advertisement L K key ad =
     go_bind (signature_payload L K ad False) (\<lambda>res. Inr
       (case res of
          Inl e \<Rightarrow> Inl e
        | Inr adv_id \<Rightarrow>
            (case cr_seal K key ad_signature_domain ad_signature_codec adv_id of
               Inl e \<Rightarrow> Inl (ErrMsg e)
             | Inr envelope \<Rightarrow>
                 (case cr_marshal K envelope of
                    Inl e \<Rightarrow> Inl (ErrMsg e)
                  | Inr sig \<Rightarrow> Inr (ad\<lparr>ad_signature := sig\<rparr>)))))"

definition sig_size :: nat where
  "sig_size = 34"

definition verify_signature ::
    "lib \<Rightarrow> ('k, 'e, 'p) crypto \<Rightarrow> advertisement \<Rightarrow> (go_error + peer_id) go" where
  "verify_signature L K ad =
     (case cr_consume K ad_signature_domain (ad_signature ad) of
        Inl e \<Rightarrow> Inr (Inl (ErrMsg e))
      | Inr (rec_id, pub) \<Rightarrow>
          go_bind (signature_payload L K ad (length rec_id \<noteq> sig_size)) (\<lambda>res. Inr
            (case res of
               Inl e \<Rightarrow> Inl e
             | Inr gen_id \<Rightarrow>
                 if gen_id \<noteq> rec_id then Inl (ErrMsg ''invalid signature'')
                 else (case cr_peer_id K pub of
                         Inl e \<Rightarrow> Inl (ErrMsg (''cannot convert public key to peer ID: '' @ e))
                       | Inr p \<Rightarrow> Inr p))))"

text \<open>
  What the libraries document: consuming a sealed and marshalled envelope in the same domain
  gives the payload and the public key of the sealing key back; a SHA-256 multihash has 34
  bytes. \<open>pub\<close> is the public key of a private key.
\<close>

definition crypto_laws :: "('k, 'e, 'p) crypto \<Rightarrow> ('k \<Rightarrow> 'p) \<Rightarrow> bool" where
  "crypto_laws K pub \<longleftrightarrow>
     (\<forall>k d c payload e sig. cr_seal K k d c payload = Inr e \<longrightarrow> cr_marshal K e = Inr sig \<longrightarrow>
        cr_consume K d sig = Inr (payload, pub k)) \<and>
     (\<forall>b h. cr_sum K b = Inr h \<longrightarrow> length h = sig_size)"

text \<open>No two of the inputs considered have the same digest or the same old encoding.\<close>

definition collision_free :: "('k, 'e, 'p) crypto \<Rightarrow> bool" where
  "collision_free K \<longleftrightarrow>
     (\<forall>a b h. cr_sum K a = Inr h \<longrightarrow> cr_sum K b = Inr h \<longrightarrow> a = b) \<and>
     (\<forall>a b h. cr_encode K a = Inr h \<longrightarrow> cr_encode K b = Inr h \<longrightarrow> a = b)"

lemma crypto_lawsD:
  assumes "crypto_laws K pub"
  shows "cr_seal K k d c payload = Inr e \<Longrightarrow> cr_marshal K e = Inr sig \<Longrightarrow>
      cr_consume K d sig = Inr (payload, pub k)"
    and "cr_sum K b = Inr h \<Longrightarrow> length h = sig_size"
  using assms unfolding crypto_laws_def by blast+

lemma case_sum_eq_Inr:
  "(case x of Inl e \<Rightarrow> Inl (f e) | Inr y \<Rightarrow> g y) = Inr z \<longleftrightarrow> (\<exists>y. x = Inr y \<and> g y = Inr z)"
  by (cases x) auto

lemma if_Inl_eq_Inr: "(if c then Inl e else y) = Inr z \<longleftrightarrow> \<not> c \<and> y = Inr z"
  by simp

lemma signature_bytes_signature [simp]:
  "signature_bytes L (ad\<lparr>ad_signature := s\<rparr>) = signature_bytes L ad"
  by (simp add: signature_bytes_def)

lemma signature_payload_signature [simp]:
  "signature_payload L K (ad\<lparr>ad_signature := s\<rparr>) old = signature_payload L K ad old"
  by (simp add: signature_payload_def)

lemma signature_payload_eq_Inr:
  "signature_payload L K ad old = Inr (Inr h) \<longleftrightarrow>
     (\<exists>b. signature_bytes L ad = Inr b \<and> (if old then cr_encode K b else cr_sum K b) = Inr h)"
  by (auto simp: signature_payload_def go_bind_eq_Inr map_sum_eq_Inr)

lemma verify_signature_eq_Inr:
  "verify_signature L K ad = Inr (Inr p) \<longleftrightarrow>
     (\<exists>h pub. cr_consume K ad_signature_domain (ad_signature ad) = Inr (h, pub) \<and>
        signature_payload L K ad (length h \<noteq> sig_size) = Inr (Inr h) \<and> cr_peer_id K pub = Inr p)"
proof (cases "cr_consume K ad_signature_domain (ad_signature ad)")
  case (Inr x)
  then show ?thesis
    by (cases x) (auto simp: verify_signature_def go_bind_eq_Inr case_sum_eq_Inr if_Inl_eq_Inr)
qed (simp add: verify_signature_def)

section \<open>An instance\<close>

text \<open>
  A library in which a key is its own public key and peer ID: a digest is the payload with its
  length made 34 where it is shorter, and an envelope is the key, a separator and the payload.
  It is only used to apply the theorems.
\<close>

definition toy_crypto :: "(char, char \<times> bytes, char) crypto" where
  "toy_crypto =
     \<lparr>cr_sum = (\<lambda>b. if length b \<le> 34 then Inr (b @ replicate (34 - length b) CHR ''.'')
                    else Inr (take 34 b)),
      cr_encode = (\<lambda>b. Inr (CHR ''!'' # b)),
      cr_seal = (\<lambda>k d c p. Inr (k, p)), cr_marshal = (\<lambda>(k, p). Inr (k # p)),
      cr_consume = (\<lambda>d s. case s of [] \<Rightarrow> Inl ''empty'' | k # p \<Rightarrow> Inr (p, k)),
      cr_peer_id = (\<lambda>k. Inr [k])\<rparr>"

lemma toy_crypto_laws: "crypto_laws toy_crypto id"
  by (auto simp: crypto_laws_def toy_crypto_def sig_size_def split: if_splits)

definition example_ad :: advertisement where
  "example_ad =
     \<lparr>ad_previous = None, ad_provider = ''p1'', ad_addresses = [''/ab''], ad_signature = [],
      ad_entries = Some ''e'', ad_context = ''ctx'', ad_metadata = ''m'', ad_is_rm = False\<rparr>"

text \<open>The same library with digests that are the payload itself, so that none collide.\<close>

definition long_crypto :: "(char, char \<times> bytes, char) crypto" where
  "long_crypto = toy_crypto\<lparr>cr_sum := Inr\<rparr>"

lemma long_crypto_collision_free: "collision_free long_crypto"
  by (simp add: collision_free_def long_crypto_def toy_crypto_def)

definition old_signed_ad :: advertisement where
  "old_signed_ad = example_ad\<lparr>ad_signature := CHR ''k'' # CHR ''!'' # ''ep1/abm'' @ [char_of (0 :: nat)]\<rparr>"

lemma old_signed_verifies: "verify_signature hex_lib long_crypto old_signed_ad = Inr (Inr ''k'')"
  by (simp add: verify_signature_def signature_payload_def signature_bytes_def example_ad_def
      old_signed_ad_def long_crypto_def toy_crypto_def hex_lib_def sig_size_def)

lemma example_signed:
  "sign_advertisement hex_lib toy_crypto CHR ''k'' example_ad =
     Inr (Inr (example_ad\<lparr>ad_signature := CHR ''k'' # ''ep1/abm'' @ [char_of (0 :: nat)] @
       replicate 26 CHR ''.''\<rparr>))"
  by (simp add: sign_advertisement_def signature_payload_def signature_bytes_def example_ad_def
      toy_crypto_def hex_lib_def)

section \<open>Properties\<close>

text \<open>C34: An advertisement that was signed verifies, and the signer that verification reports is
the peer of the signing key, whatever signature the advertisement carried before.\<close>

theorem sign_then_verify:
  assumes "crypto_laws K pub" and "cr_peer_id K (pub key) = Inr p"
    and "sign_advertisement L K key ad = Inr (Inr ad')"
  shows "verify_signature L K ad' = Inr (Inr p) \<and> (\<exists>sig. ad' = ad\<lparr>ad_signature := sig\<rparr>)"
proof -
  from assms(3) obtain h e sig where
    h: "signature_payload L K ad False = Inr (Inr h)" and
    e: "cr_seal K key ad_signature_domain ad_signature_codec h = Inr e" and
    sig: "cr_marshal K e = Inr sig" and ad': "ad' = ad\<lparr>ad_signature := sig\<rparr>"
    by (auto simp: sign_advertisement_def go_bind_eq_Inr case_sum_eq_Inr)
  have "length h = sig_size"
    using h crypto_lawsD(2) [OF assms(1)] by (auto simp: signature_payload_eq_Inr)
  then have "verify_signature L K ad' = Inr (Inr p)"
    using crypto_lawsD(1) [OF assms(1) e sig] h assms(2)
    by (auto simp: verify_signature_eq_Inr ad')
  with ad' show ?thesis by blast
qed

theorem sign_then_verify_witness:
  "verify_signature hex_lib toy_crypto (example_ad\<lparr>ad_signature :=
     CHR ''k'' # ''ep1/abm'' @ [char_of (0 :: nat)] @ replicate 26 CHR ''.''\<rparr>) = Inr (Inr ''k'')"
  using sign_then_verify [OF toy_crypto_laws _ example_signed, of "''k''"]
  by (simp add: toy_crypto_def)

text \<open>A signature binds what is signed: if the same signature verifies on two
advertisements and digests do not collide, the two have the same signed bytes, and the same
signer.\<close>

theorem signature_binds_bytes:
  assumes "collision_free K" and "ad_signature ad = ad_signature ad'"
    and "verify_signature L K ad = Inr (Inr p)" and "verify_signature L K ad' = Inr (Inr q)"
  shows "signature_bytes L ad = signature_bytes L ad' \<and> p = q"
  using assms
  by (auto simp: verify_signature_eq_Inr signature_payload_eq_Inr collision_free_def split: if_splits)

theorem signature_binds_bytes_witness:
  "signature_bytes hex_lib old_signed_ad =
     signature_bytes hex_lib (old_signed_ad\<lparr>ad_context := ''other''\<rparr>)"
proof -
  have "verify_signature hex_lib long_crypto (old_signed_ad\<lparr>ad_context := ''other''\<rparr>) =
      Inr (Inr ''k'')"
    using old_signed_verifies
    by (simp add: verify_signature_eq_Inr signature_payload_def signature_bytes_def)
  from signature_binds_bytes [OF long_crypto_collision_free _ old_signed_verifies this]
  show ?thesis by simp
qed

text \<open>What is signed leaves the context ID out, and joins the provider, the addresses and the
metadata without separators: a valid signature stays valid when the context ID is replaced, and
when text is moved from the end of the last address to the start of the metadata.\<close>

theorem signature_does_not_bind_context_or_boundaries:
  assumes "verify_signature L K ad = Inr (Inr p)" and "ad_addresses ad = as @ [a @ b]"
  shows "verify_signature L K (ad\<lparr>ad_context := c\<rparr>) = Inr (Inr p) \<and>
    verify_signature L K (ad\<lparr>ad_addresses := as @ [a], ad_metadata := b @ ad_metadata ad\<rparr>) =
      Inr (Inr p)"
proof -
  have "signature_payload L K (ad\<lparr>ad_context := c\<rparr>) = signature_payload L K ad"
    "signature_payload L K (ad\<lparr>ad_addresses := as @ [a], ad_metadata := b @ ad_metadata ad\<rparr>) =
      signature_payload L K ad"
    using assms(2) by (simp_all add: fun_eq_iff signature_payload_def signature_bytes_def)
  then show ?thesis using assms(1) by (simp add: verify_signature_eq_Inr)
qed

theorem signature_does_not_bind_context_or_boundaries_witness:
  "verify_signature hex_lib long_crypto (old_signed_ad\<lparr>ad_context := ''other''\<rparr>) = Inr (Inr ''k'') \<and>
   verify_signature hex_lib long_crypto
     (old_signed_ad\<lparr>ad_addresses := [] @ [''/a''], ad_metadata := ''b'' @ ad_metadata old_signed_ad\<rparr>) =
     Inr (Inr ''k'')"
  by (rule signature_does_not_bind_context_or_boundaries [OF old_signed_verifies])
     (simp add: old_signed_ad_def example_ad_def)

end
