(* ===== verification/Ingest_Ad.thy ===== *)
theory Ingest_Ad
  imports Ingest_Store Schema
begin

text \<open>
  Ingesting one advertisement (\<^verbatim>\<open>internal/ingest/linksystem.go\<close>): the link system that
  verifies what is stored, the loaders, \<open>ingestAd\<close> with its two kinds of entries, and the
  batched indexing of multihashes.

  go-legs is the argument \<open>sync\<close>: it fetches blocks from a publisher, calls the hook of the
  request on each CID it received, and answers the last CID or an error. The state it threads is
  the ingester with the variables that the hooks capture.
\<close>

section \<open>Errors\<close>

datatype ad_ingest_state =
  IndexerErr | DecodingErr | MalformedErr | RegisterProviderErr | SyncEntriesErr |
  ContentNotFound | EntryChunkErr

type_synonym ad_ingest_error = "ad_ingest_state \<times> go_error"

fun ad_ingest_state_name :: "ad_ingest_state \<Rightarrow> string" where
  "ad_ingest_state_name IndexerErr = ''indexerErr''"
| "ad_ingest_state_name DecodingErr = ''decodingErr''"
| "ad_ingest_state_name MalformedErr = ''malformedErr''"
| "ad_ingest_state_name RegisterProviderErr = ''registerErr''"
| "ad_ingest_state_name SyncEntriesErr = ''syncEntriesErr''"
| "ad_ingest_state_name ContentNotFound = ''contentNotFound''"
| "ad_ingest_state_name EntryChunkErr = ''ingestEntryChunkErr''"

definition ad_ingest_error_string :: "ad_ingest_error \<Rightarrow> string" where
  "ad_ingest_error_string e = ad_ingest_state_name (fst e) @ '': '' @ error_string (snd e)"

section \<open>State and environment\<close>

record ('d, 'i) ingester =
  in_ds :: 'd
  in_indexer :: 'i
  in_reg :: "'d registry"
  in_batch_size :: "32 word"

text \<open>
  The variables of \<open>ingestAd\<close> that its hooks write: the errors of entry chunks and the CIDs of
  HAMT nodes.
\<close>

record ('d, 'i) ad_scope =
  sc_ing :: "('d, 'i) ingester"
  sc_errs :: "go_error list"
  sc_hamt :: "cid list"

datatype recursion_limit = LimitNone | LimitDepth int

datatype selector =
  SelOne | SelAll | SelEntries recursion_limit | SelAds recursion_limit "cid option"

datatype hook_action = FailSync go_error | SetNextSyncCid cid | NoAction

record 's sync_request =
  rq_peer :: peer_id
  rq_cid :: cid
  rq_sel :: "selector option"
  rq_addr :: "multiaddr option"
  rq_hook :: "(cid \<Rightarrow> 's \<Rightarrow> hook_action \<times> 's) option"
  rq_segment :: "int option"
  rq_update_latest :: bool

type_synonym 's legs_sync = "'s sync_request \<Rightarrow> 's \<Rightarrow> (string + cid) \<times> 's"

definition sync_one :: "peer_id \<Rightarrow> cid \<Rightarrow> 's sync_request" where
  "sync_one p c =
     \<lparr>rq_peer = p, rq_cid = c, rq_sel = Some SelOne, rq_addr = None, rq_hook = None,
      rq_segment = None, rq_update_latest = False\<rparr>"

text \<open>
  What \<open>ingestAd\<close> uses of its surroundings: the libraries, the peer stores of the subscriber and
  of the host, the check of a multihash, and the HAMT: the links of its root to child nodes and
  the iteration over its keys with the link system's reader.
\<close>

datatype hamt_item = IterError string | NotString string | HamtKey multihash

record ('d, 'i, 'n, 'h) env =
  en_ds :: "'d datastore"
  en_lib :: lib
  en_json :: json_codec
  en_indexer :: "'i indexer"
  en_ipld :: "('n, 'h) ipld"
  en_http_peers :: "(peer_id \<Rightarrow> addr_info) option"
  en_host_peers :: "(peer_id \<Rightarrow> addr_info) option"
  en_mh_ok :: "multihash \<Rightarrow> bool"
  en_hamt_links :: "'h \<Rightarrow> cid option list"
  en_hamt_iter :: "'h \<Rightarrow> (cid \<Rightarrow> string + bytes) \<Rightarrow> hamt_item list"
  en_entries_limit :: recursion_limit

section \<open>Loading nodes\<close>

definition decode_ipld_node ::
    "('n, 'h) ipld \<Rightarrow> nat \<Rightarrow> bytes \<Rightarrow> prototype \<Rightarrow> go_error + 'n" where
  "decode_ipld_node N codec b p =
     (case ip_decoder N codec of
        Inl e \<Rightarrow> Inl (ErrMsg e)
      | Inr decoder \<Rightarrow> map_sum ErrMsg id (decoder p b))"

definition load_node :: "('d, 'i, 'n, 'h) env \<Rightarrow> cid \<Rightarrow> prototype \<Rightarrow> 'd \<Rightarrow> go_error + 'n" where
  "load_node E c p d =
     (case ds_get (en_ds E) d (block_key (en_lib E) c) of
        Found v \<Rightarrow> decode_ipld_node (en_ipld E) (ip_codec (en_ipld E) c) v p
      | NotFound \<Rightarrow>
          Inl (ErrMsg (''cannot fetch the node from datastore: '' @ ''datastore: key not found''))
      | GetFailed e \<Rightarrow> Inl (ErrMsg (''cannot fetch the node from datastore: '' @ e)))"

definition load_ad :: "('d, 'i, 'n, 'h) env \<Rightarrow> cid \<Rightarrow> 'd \<Rightarrow> go_error + advertisement" where
  "load_ad E c d =
     (case load_node E c AdvertisementPrototype d of
        Inl e \<Rightarrow> Inl (ErrMsg (''cannot decode ipld node: '' @ error_string e))
      | Inr n \<Rightarrow>
          (case unwrap_advertisement (en_ipld E) n of
             Inl e \<Rightarrow> Inl (ErrMsg (''cannot decode advertisement: '' @ error_string e))
           | Inr ad \<Rightarrow> Inr ad))"

definition load_entry_chunk :: "('d, 'i, 'n, 'h) env \<Rightarrow> cid \<Rightarrow> 'd \<Rightarrow> go_error + entry_chunk" where
  "load_entry_chunk E c d =
     (case load_node E c EntryChunkPrototype d of
        Inl e \<Rightarrow> Inl (ErrMsg (''failed to decode ipldNode: '' @ error_string e))
      | Inr n \<Rightarrow> unwrap_entry_chunk (en_ipld E) n)"

definition load_hamt :: "('d, 'i, 'n, 'h) env \<Rightarrow> cid \<Rightarrow> 'd \<Rightarrow> go_error + 'h" where
  "load_hamt E c d =
     (case load_node E c HashMapRootPrototype d of
        Inl e \<Rightarrow> Inl (ErrMsg (''failed to decode ipldNode: '' @ error_string e))
      | Inr n \<Rightarrow>
          (case ip_unwrap_hamt (en_ipld E) n of
             None \<Rightarrow> Inl (ErrMsg ''cannot unwrap node as hamt.HashMapRoot'')
           | Some h \<Rightarrow> Inr h))"

definition is_advertisement :: "('n, 'h) ipld \<Rightarrow> 'n \<Rightarrow> bool" where
  "is_advertisement N n = ip_lookup N n ''Signature''"

definition is_hamt :: "('n, 'h) ipld \<Rightarrow> 'n \<Rightarrow> bool" where
  "is_hamt N n = ip_lookup N n ''hamt''"

section \<open>The link system\<close>

definition err_bad_advert :: go_error where
  "err_bad_advert = ErrMsg ''bad advertisement''"

definition err_invalid_advert_signature :: go_error where
  "err_invalid_advert_signature = ErrMsg ''invalid advertisement signature''"

definition read_opener :: "('d, 'i, 'n, 'h) env \<Rightarrow> 'd \<Rightarrow> cid \<Rightarrow> string + bytes" where
  "read_opener E d c =
     (case ds_get (en_ds E) d (block_key (en_lib E) c) of
        Found v \<Rightarrow> Inr v
      | NotFound \<Rightarrow> Inl ''datastore: key not found''
      | GetFailed e \<Rightarrow> Inl e)"

definition verify_advertisement ::
    "('d, 'i, 'n, 'h) env \<Rightarrow> ('k, 'e, 'p) crypto \<Rightarrow> 'd registry \<Rightarrow> 'n \<Rightarrow> (go_error + peer_id) go" where
  "verify_advertisement E K r n =
     (case unwrap_advertisement (en_ipld E) n of
        Inl e \<Rightarrow> Inr (Inl err_bad_advert)
      | Inr ad \<Rightarrow>
          go_bind (verify_signature (en_lib E) K ad) (\<lambda>res. Inr
            (case res of
               Inl e \<Rightarrow> Inl err_invalid_advert_signature
             | Inr signer \<Rightarrow>
                 (case lib_peer_decode (en_lib E) (ad_provider ad) of
                    Inl e \<Rightarrow> Inl err_bad_advert
                  | Inr prov \<Rightarrow>
                      if signer \<noteq> prov \<and> \<not> publish_allowed r signer prov
                      then Inl err_invalid_advert_signature
                      else Inr prov))))"

text \<open>The committer that the link system's writer returns, given the bytes written.\<close>

definition write_committer ::
    "('d, 'i, 'n, 'h) env \<Rightarrow> ('k, 'e, 'p) crypto \<Rightarrow> 'd registry \<Rightarrow> cid \<Rightarrow> bytes \<Rightarrow> 'd \<Rightarrow>
       (go_error option \<times> 'd) go" where
  "write_committer E K r c buf d =
     (case decode_ipld_node (en_ipld E) (ip_codec (en_ipld E) c) buf AnyPrototype of
        Inl e \<Rightarrow> Inr (Some (ErrMsg ''bad ipld data''), d)
      | Inr n \<Rightarrow>
          go_bind (if is_advertisement (en_ipld E) n
                   then go_bind (verify_advertisement E K r n)
                          (\<lambda>res. Inr (case res of Inl e \<Rightarrow> Some e | Inr p \<Rightarrow> None))
                   else Inr None) (\<lambda>err. Inr
            (case err of
               Some e \<Rightarrow> (Some e, d)
             | None \<Rightarrow>
                 (let (e, d') = ds_put (en_ds E) d (block_key (en_lib E) c) buf
                  in (map_option ErrMsg e, d')))))"

section \<open>Indexing multihashes\<close>

definition get_ad_data :: "lib \<Rightarrow> advertisement \<Rightarrow> go_error + index_value \<times> bool" where
  "get_ad_data L ad =
     (case lib_peer_decode L (ad_provider ad) of
        Inl e \<Rightarrow> Inl (ErrMsg e)
      | Inr p \<Rightarrow>
          Inr (\<lparr>iv_provider = p, iv_context = ad_context ad, iv_metadata = ad_metadata ad\<rparr>, ad_is_rm ad))"

definition store_batch ::
    "'i indexer \<Rightarrow> index_value \<Rightarrow> multihash list \<Rightarrow> bool \<Rightarrow> 'i \<Rightarrow> go_error option \<times> 'i" where
  "store_batch X v batch is_rm i =
     (if is_rm then
        (case ix_remove X i v batch of
           (Some e, i') \<Rightarrow> (Some (ErrMsg (''cannot remove multihashes from indexer: '' @ e)), i')
         | (None, i') \<Rightarrow> (None, i'))
      else
        (case ix_put X i v batch of
           (Some e, i') \<Rightarrow> (Some (ErrMsg (''cannot put multihashes into indexer: '' @ e)), i')
         | (None, i') \<Rightarrow> (None, i')))"

text \<open>
  The batches are stored one after the other by a goroutine that takes them from an unbuffered
  channel and stops at the first error, which the sender gets at its next send or at the end; so
  the outcome is that of storing them in order up to the first error. A slice of capacity zero
  holds one element when it is first full.
\<close>

definition batch_cap :: "32 word \<Rightarrow> nat" where
  "batch_cap n = max 1 (unat n)"

fun index_batches ::
    "'i indexer \<Rightarrow> (multihash \<Rightarrow> bool) \<Rightarrow> index_value \<Rightarrow> bool \<Rightarrow> nat \<Rightarrow> multihash list \<Rightarrow> multihash list \<Rightarrow>
       'i \<Rightarrow> go_error option \<times> 'i" where
  "index_batches X ok v is_rm cap batch [] i =
     (if batch \<noteq> [] then store_batch X v batch is_rm i else (None, i))"
| "index_batches X ok v is_rm cap batch (m # mhs) i =
     (if \<not> ok m then index_batches X ok v is_rm cap batch mhs i
      else if length (batch @ [m]) = cap then
        (case store_batch X v (batch @ [m]) is_rm i of
           (Some e, i') \<Rightarrow> (Some e, i')
         | (None, i') \<Rightarrow> index_batches X ok v is_rm cap [] mhs i')
      else index_batches X ok v is_rm cap (batch @ [m]) mhs i)"

definition index_ad_multihashes ::
    "('d, 'i, 'n, 'h) env \<Rightarrow> advertisement \<Rightarrow> multihash list \<Rightarrow> ('d, 'i) ingester \<Rightarrow>
       go_error option \<times> ('d, 'i) ingester" where
  "index_ad_multihashes E ad mhs s =
     (case get_ad_data (en_lib E) ad of
        Inl e \<Rightarrow> (Some e, s)
      | Inr (v, is_rm) \<Rightarrow>
          (let (e, i) = index_batches (en_indexer E) (en_mh_ok E) v is_rm
                          (batch_cap (in_batch_size s)) [] mhs (in_indexer s)
           in (e, s\<lparr>in_indexer := i\<rparr>)))"

text \<open>The chunk's block is deleted from the datastore whether or not indexing it succeeded.\<close>

definition delete_block :: "('d, 'i, 'n, 'h) env \<Rightarrow> cid \<Rightarrow> ('d, 'i) ingester \<Rightarrow> ('d, 'i) ingester" where
  "delete_block E c s = s\<lparr>in_ds := snd (ds_delete (en_ds E) (in_ds s) (block_key (en_lib E) c))\<rparr>"

definition ingest_entry_chunk ::
    "('d, 'i, 'n, 'h) env \<Rightarrow> advertisement \<Rightarrow> cid \<Rightarrow> entry_chunk \<Rightarrow> ('d, 'i) ingester \<Rightarrow>
       go_error option \<times> ('d, 'i) ingester" where
  "ingest_entry_chunk E ad c chunk s =
     (let (e, s') = index_ad_multihashes E ad (ch_entries chunk) s
      in (map_option (\<lambda>e. ErrMsg (''failed processing entries for advertisement: '' @ error_string e)) e,
          delete_block E c s'))"

section \<open>Chains of entry chunks\<close>

definition add_err :: "go_error \<Rightarrow> ('d, 'i) ad_scope \<Rightarrow> ('d, 'i) ad_scope" where
  "add_err e sc = sc\<lparr>sc_errs := sc_errs sc @ [e]\<rparr>"

text \<open>The block hook: each further chunk is loaded and ingested as it is received.\<close>

definition chunk_hook ::
    "('d, 'i, 'n, 'h) env \<Rightarrow> advertisement \<Rightarrow> cid \<Rightarrow> ('d, 'i) ad_scope \<Rightarrow>
       hook_action \<times> ('d, 'i) ad_scope" where
  "chunk_hook E ad c sc =
     (case load_entry_chunk E c (in_ds (sc_ing sc)) of
        Inl e \<Rightarrow> (FailSync e, add_err e sc)
      | Inr chunk \<Rightarrow>
          (case ingest_entry_chunk E ad c chunk (sc_ing sc) of
             (Some e, s') \<Rightarrow> (FailSync e, add_err e (sc\<lparr>sc_ing := s'\<rparr>))
           | (None, s') \<Rightarrow>
               ((case ch_next chunk of Some n \<Rightarrow> SetNextSyncCid n | None \<Rightarrow> SetNextSyncCid cid_undef),
                sc\<lparr>sc_ing := s'\<rparr>)))"

definition contains :: "string \<Rightarrow> string \<Rightarrow> bool" where
  "contains s sub = list_ex (\<lambda>n. take (length sub) (drop n s) = sub) [0..<Suc (length s)]"

definition sync_entries_error :: "string \<Rightarrow> ad_ingest_error" where
  "sync_entries_error e =
     (if contains e ''datatransfer failed: content not found''
      then (ContentNotFound, ErrMsg (''failed to sync entries: '' @ e))
      else (SyncEntriesErr, ErrMsg (''failed to sync entries: '' @ e)))"

definition first_chunk ::
    "('d, 'i, 'n, 'h) env \<Rightarrow> advertisement \<Rightarrow> cid \<Rightarrow> ('d, 'i) ad_scope \<Rightarrow>
       entry_chunk option \<times> ('d, 'i) ad_scope" where
  "first_chunk E ad c sc =
     (case load_entry_chunk E c (in_ds (sc_ing sc)) of
        Inl e \<Rightarrow> (None, add_err e sc)
      | Inr chunk \<Rightarrow>
          (case ingest_entry_chunk E ad c chunk (sc_ing sc) of
             (Some e, s') \<Rightarrow> (Some chunk, add_err e (sc\<lparr>sc_ing := s'\<rparr>))
           | (None, s') \<Rightarrow> (Some chunk, sc\<lparr>sc_ing := s'\<rparr>)))"

definition ingest_chunk_chain ::
    "('d, 'i, 'n, 'h) env \<Rightarrow> ('d, 'i) ad_scope legs_sync \<Rightarrow> peer_id \<Rightarrow> advertisement \<Rightarrow> cid \<Rightarrow>
       ('d, 'i) ad_scope \<Rightarrow> ad_ingest_error option \<times> ('d, 'i) ad_scope" where
  "ingest_chunk_chain E sync publisher ad c sc =
     (let (chunk, sc) = first_chunk E ad c sc
      in case chunk of
           None \<Rightarrow> (None, sc)
         | Some ch \<Rightarrow>
             (case ch_next ch of
                None \<Rightarrow> (None, sc)
              | Some next \<Rightarrow>
                  (case sync \<lparr>rq_peer = publisher, rq_cid = next,
                              rq_sel = Some (SelEntries (en_entries_limit E)), rq_addr = None,
                              rq_hook = Some (chunk_hook E ad), rq_segment = None,
                              rq_update_latest = False\<rparr> sc of
                     (Inl e, sc) \<Rightarrow> (Some (sync_entries_error e), sc)
                   | (Inr _, sc) \<Rightarrow> (None, sc))))"

section \<open>HAMT entries\<close>

definition gather_hook :: "cid \<Rightarrow> ('d, 'i) ad_scope \<Rightarrow> hook_action \<times> ('d, 'i) ad_scope" where
  "gather_hook c sc = (NoAction, sc\<lparr>sc_hamt := sc_hamt sc @ [c]\<rparr>)"

fun sync_hamt_links ::
    "('d, 'i) ad_scope legs_sync \<Rightarrow> peer_id \<Rightarrow> cid option list \<Rightarrow> ('d, 'i) ad_scope \<Rightarrow>
       ad_ingest_error option \<times> ('d, 'i) ad_scope" where
  "sync_hamt_links sync publisher [] sc = (None, sc)"
| "sync_hamt_links sync publisher (None # es) sc = sync_hamt_links sync publisher es sc"
| "sync_hamt_links sync publisher (Some c # es) sc =
     (case sync \<lparr>rq_peer = publisher, rq_cid = c, rq_sel = Some SelAll, rq_addr = None,
                 rq_hook = Some gather_hook, rq_segment = Some (-1), rq_update_latest = False\<rparr> sc of
        (Inl e, sc) \<Rightarrow>
          (Some (SyncEntriesErr, ErrMsg (''failed to sync remaining HAMT: '' @ e)), sc)
      | (Inr _, sc) \<Rightarrow> sync_hamt_links sync publisher es sc)"

definition hamt_index_error :: "go_error \<Rightarrow> ad_ingest_error" where
  "hamt_index_error e = (IndexerErr, ErrMsg (''failed to index content from HAMT: '' @ error_string e))"

fun index_hamt_items ::
    "('d, 'i, 'n, 'h) env \<Rightarrow> advertisement \<Rightarrow> multihash list \<Rightarrow> hamt_item list \<Rightarrow> ('d, 'i) ingester \<Rightarrow>
       ad_ingest_error option \<times> ('d, 'i) ingester" where
  "index_hamt_items E ad mhs [] s =
     (if mhs \<noteq> [] then
        (case index_ad_multihashes E ad mhs s of
           (Some e, s') \<Rightarrow> (Some (hamt_index_error e), s')
         | (None, s') \<Rightarrow> (None, s'))
      else (None, s))"
| "index_hamt_items E ad mhs (IterError e # items) s =
     (Some (IndexerErr, ErrMsg (''faild to iterate through HAMT: '' @ e)), s)"
| "index_hamt_items E ad mhs (NotString e # items) s =
     (Some (MalformedErr, ErrMsg (''HAMT key must be of type string: '' @ e)), s)"
| "index_hamt_items E ad mhs (HamtKey m # items) s =
     (if length (mhs @ [m]) \<ge> unat (in_batch_size s) then
        (case index_ad_multihashes E ad (mhs @ [m]) s of
           (Some e, s') \<Rightarrow> (Some (hamt_index_error e), s')
         | (None, s') \<Rightarrow> index_hamt_items E ad [] items s')
      else index_hamt_items E ad (mhs @ [m]) items s)"

definition delete_hamt_nodes ::
    "('d, 'i, 'n, 'h) env \<Rightarrow> ('d, 'i) ad_scope \<Rightarrow> ('d, 'i) ad_scope" where
  "delete_hamt_nodes E sc = sc\<lparr>sc_ing := fold (delete_block E) (sc_hamt sc) (sc_ing sc)\<rparr>"

definition ingest_hamt ::
    "('d, 'i, 'n, 'h) env \<Rightarrow> ('d, 'i) ad_scope legs_sync \<Rightarrow> peer_id \<Rightarrow> advertisement \<Rightarrow> cid \<Rightarrow>
       ('d, 'i) ad_scope \<Rightarrow> ad_ingest_error option \<times> ('d, 'i) ad_scope" where
  "ingest_hamt E sync publisher ad c sc =
     (let sc = sc\<lparr>sc_hamt := [c]\<rparr>;
          (e, sc) = (case load_hamt E c (in_ds (sc_ing sc)) of
             Inl e \<Rightarrow>
               (Some (IndexerErr, ErrMsg (''failed to load entries as HAMT root node: '' @ error_string e)), sc)
           | Inr hn \<Rightarrow>
               (case sync_hamt_links sync publisher (en_hamt_links E hn) sc of
                  (Some e, sc) \<Rightarrow> (Some e, sc)
                | (None, sc) \<Rightarrow>
                    (let (e, s) = index_hamt_items E ad []
                           (en_hamt_iter E hn (read_opener E (in_ds (sc_ing sc)))) (sc_ing sc)
                     in (e, sc\<lparr>sc_ing := s\<rparr>))))
      in (e, delete_hamt_nodes E sc))"

section \<open>One advertisement\<close>

definition publisher_info :: "('d, 'i, 'n, 'h) env \<Rightarrow> peer_id \<Rightarrow> addr_info" where
  "publisher_info E publisher =
     (let pub = (case en_http_peers E of
                   Some store \<Rightarrow> store publisher
                 | None \<Rightarrow> \<lparr>ai_id = [], ai_addrs = []\<rparr>)
      in if ai_addrs pub = [] then
           (case en_host_peers E of Some store \<Rightarrow> store publisher | None \<Rightarrow> pub)
         else pub)"

definition show_errors :: "go_error list \<Rightarrow> string" where
  "show_errors es = ''['' @ join_with '' '' (map error_string es) @ '']''"

text \<open>The entries of an advertisement that has some, whose first block is synced and loaded first.\<close>

definition ingest_entries ::
    "('d, 'i, 'n, 'h) env \<Rightarrow> ('d, 'i) ad_scope legs_sync \<Rightarrow> peer_id \<Rightarrow> advertisement \<Rightarrow> cid \<Rightarrow>
       ('d, 'i) ingester \<Rightarrow> ad_ingest_error option \<times> ('d, 'i) ingester" where
  "ingest_entries E sync publisher ad entries s =
     (case sync (sync_one publisher entries) \<lparr>sc_ing = s, sc_errs = [], sc_hamt = []\<rparr> of
        (Inl e, sc) \<Rightarrow>
          (Some (SyncEntriesErr,
             ErrMsg (''failed to sync first entry while checking entries type: '' @ e)), sc_ing sc)
      | (Inr first, sc) \<Rightarrow>
          (case load_node E first AnyPrototype (in_ds (sc_ing sc)) of
             Inl e \<Rightarrow>
               (Some (IndexerErr, ErrMsg (''failed to load first entry after sync: '' @ error_string e)),
                sc_ing sc)
           | Inr node \<Rightarrow>
               (let (e, sc) =
                  (if is_hamt (en_ipld E) node then ingest_hamt E sync publisher ad first sc
                   else ingest_chunk_chain E sync publisher ad first sc)
                in case e of
                     Some e \<Rightarrow> (Some e, sc_ing sc)
                   | None \<Rightarrow>
                       if sc_errs sc \<noteq> [] then
                         (Some (EntryChunkErr,
                            ErrMsg (''failed to ingest entry chunks: '' @ show_errors (sc_errs sc))), sc_ing sc)
                       else (None, sc_ing sc))))"

definition ad_value :: "peer_id \<Rightarrow> advertisement \<Rightarrow> index_value" where
  "ad_value p ad = \<lparr>iv_provider = p, iv_context = ad_context ad, iv_metadata = ad_metadata ad\<rparr>"

definition ingest_ad ::
    "('d, 'i, 'n, 'h) env \<Rightarrow> ('d, 'i) ad_scope legs_sync \<Rightarrow> gotime \<Rightarrow> peer_id \<Rightarrow> cid \<Rightarrow> advertisement \<Rightarrow>
       ('d, 'i) ingester \<Rightarrow> (ad_ingest_error option \<times> ('d, 'i) ingester) go" where
  "ingest_ad E sync now publisher ad_cid ad s =
     (case lib_peer_decode (en_lib E) (ad_provider ad) of
        Inl e \<Rightarrow> Inr (Some (DecodingErr, ErrMsg (''failed to read provider id: '' @ e)), s)
      | Inr prov \<Rightarrow>
          go_bind (register_or_update (en_ds E) (en_lib E) (en_json E) now prov (ad_addresses ad) ad_cid
                     (publisher_info E publisher) (in_reg s)) (\<lambda>(err, r).
            let s = s\<lparr>in_reg := r\<rparr> in
            case err of
              Some e \<Rightarrow>
                Inr (Some (RegisterProviderErr,
                  ErrMsg (''could not register/update provider info: '' @ error_string e)), s)
            | None \<Rightarrow>
                if ad_is_rm ad then
                  (let (e, i) = ix_remove_context (en_indexer E) (in_indexer s) prov (ad_context ad)
                   in Inr (map_option (\<lambda>e. (IndexerErr,
                        ErrMsg (''failed to remove provider context: '' @ e))) e, s\<lparr>in_indexer := i\<rparr>))
                else if ad_entries ad = Some no_entries then
                  (let (e, i) = ix_put (en_indexer E) (in_indexer s) (ad_value prov ad) []
                   in Inr (map_option (\<lambda>e. (IndexerErr,
                        ErrMsg (''failed to update metadata: '' @ e))) e, s\<lparr>in_indexer := i\<rparr>))
                else
                  go_bind (link_cid (ad_entries ad)) (\<lambda>entries. Inr
                    (if entries = cid_undef then
                       (Some (MalformedErr, ErrMsg ''advertisement entries link is undefined''), s)
                     else ingest_entries E sync publisher ad entries s))))"

section \<open>What batching amounts to\<close>

lemma contents_put_put:
  "contents_put v ys (contents_put v xs c) = contents_put v (xs @ ys) c"
  by (auto simp: contents_put_def)

lemma contents_remove_remove:
  "contents_remove v ys (contents_remove v xs c) = contents_remove v (xs @ ys) c"
  by (cases c) (auto simp: contents_remove_def)

text \<open>The contents after storing (or removing) some multihashes in batches: nothing happens for none.\<close>

definition stored :: "bool \<Rightarrow> index_value \<Rightarrow> multihash list \<Rightarrow> contents \<Rightarrow> contents" where
  "stored is_rm v ms c =
     (if ms = [] then c else if is_rm then contents_remove v ms c else contents_put v ms c)"

lemma stored_Nil [simp]: "stored is_rm v [] c = c"
  by (simp add: stored_def)

lemma stored_append: "stored is_rm v ys (stored is_rm v xs c) = stored is_rm v (xs @ ys) c"
  by (simp add: stored_def contents_put_put contents_remove_remove)

lemma store_batch_contents:
  assumes "indexer_laws X absv" and "store_batch X v ms is_rm i = (None, i')" and "ms \<noteq> []"
  shows "absv i' = stored is_rm v ms (absv i)"
  using assms unfolding indexer_laws_def
  by (auto simp: store_batch_def stored_def split: prod.splits option.splits if_splits)
    (metis fst_conv snd_conv)+

lemma index_batches_contents:
  assumes "indexer_laws X absv"
  shows "index_batches X ok v is_rm cap batch mhs i = (None, i') \<Longrightarrow>
    absv i' = stored is_rm v (batch @ filter ok mhs) (absv i)"
proof (induction mhs arbitrary: batch i)
  case Nil
  then show ?case
    using store_batch_contents [OF assms] by (auto split: if_splits)
next
  case (Cons m mhs)
  show ?case
  proof (cases "ok m \<and> length (batch @ [m]) = cap")
    case True
    then obtain i1 where i1: "store_batch X v (batch @ [m]) is_rm i = (None, i1)"
      and rest: "index_batches X ok v is_rm cap [] mhs i1 = (None, i')"
      using Cons.prems by (auto split: prod.splits option.splits)
    have "absv i1 = stored is_rm v (batch @ [m]) (absv i)"
      by (rule store_batch_contents [OF assms i1]) simp
    then show ?thesis using Cons.IH [OF rest] True by (simp add: stored_append)
  next
    case False
    then show ?thesis using Cons by (auto split: if_splits)
  qed
qed

lemma index_ad_multihashes_contents:
  assumes "indexer_laws (en_indexer E) absv"
    and "index_ad_multihashes E ad mhs s = (None, s')"
  shows "\<exists>p. lib_peer_decode (en_lib E) (ad_provider ad) = Inr p \<and>
     absv (in_indexer s') =
       (let good = filter (en_mh_ok E) mhs
        in if good = [] then absv (in_indexer s)
           else if ad_is_rm ad then contents_remove (ad_value p ad) good (absv (in_indexer s))
           else contents_put (ad_value p ad) good (absv (in_indexer s))) \<and>
     s' = s\<lparr>in_indexer := in_indexer s'\<rparr>"
proof (cases "lib_peer_decode (en_lib E) (ad_provider ad)")
  case (Inl e)
  with assms(2) show ?thesis by (simp add: index_ad_multihashes_def get_ad_data_def)
next
  case (Inr p)
  then obtain i where i: "index_batches (en_indexer E) (en_mh_ok E) (ad_value p ad) (ad_is_rm ad)
      (batch_cap (in_batch_size s)) [] mhs (in_indexer s) = (None, i)" and s': "s' = s\<lparr>in_indexer := i\<rparr>"
    using assms(2)
    by (auto simp: index_ad_multihashes_def get_ad_data_def ad_value_def split: prod.splits)
  show ?thesis
    using index_batches_contents [OF assms(1) i] Inr s' by (simp add: stored_def Let_def)
qed

section \<open>Ingesting the entries\<close>

text \<open>
  What go-legs promises of a sync: the state it returns is reached from the one it was given by
  storing blocks in the datastore and by calls of the request's hook.
\<close>

definition store_block ::
    "('d, 'i, 'n, 'h) env \<Rightarrow> cid \<Rightarrow> bytes \<Rightarrow> ('d, 'i) ad_scope \<Rightarrow> ('d, 'i) ad_scope" where
  "store_block E c b sc =
     sc\<lparr>sc_ing := (sc_ing sc)
       \<lparr>in_ds := snd (ds_put (en_ds E) (in_ds (sc_ing sc)) (block_key (en_lib E) c) b)\<rparr>\<rparr>"

inductive sync_steps ::
    "('d, 'i, 'n, 'h) env \<Rightarrow> (cid \<Rightarrow> ('d, 'i) ad_scope \<Rightarrow> hook_action \<times> ('d, 'i) ad_scope) option \<Rightarrow>
       ('d, 'i) ad_scope \<Rightarrow> ('d, 'i) ad_scope \<Rightarrow> bool"
  for E hook sc where
  sync_none: "sync_steps E hook sc sc"
| sync_store: "sync_steps E hook sc sc' \<Longrightarrow> sync_steps E hook sc (store_block E c b sc')"
| sync_hook: "sync_steps E hook sc sc' \<Longrightarrow> hook = Some h \<Longrightarrow>
    sync_steps E hook sc (snd (h c sc'))"

definition legs_laws :: "('d, 'i, 'n, 'h) env \<Rightarrow> ('d, 'i) ad_scope legs_sync \<Rightarrow> bool" where
  "legs_laws E sync \<longleftrightarrow> (\<forall>rq sc. sync_steps E (rq_hook rq) sc (snd (sync rq sc)))"

lemma legs_lawsD: "legs_laws E sync \<Longrightarrow> sync rq sc = (res, sc') \<Longrightarrow> sync_steps E (rq_hook rq) sc sc'"
  unfolding legs_laws_def by (metis snd_conv)

lemma sync_steps_invariant:
  assumes "sync_steps E hook sc sc'" and "P sc"
    and "\<And>c b sc. P sc \<Longrightarrow> P (store_block E c b sc)"
    and "\<And>h c sc. hook = Some h \<Longrightarrow> P sc \<Longrightarrow> P (snd (h c sc))"
  shows "P sc'"
  using assms(1) by induction (use assms(2-4) in auto)

text \<open>
  The invariant of ingesting entries: the registry and the batch size stay, and as long as no
  chunk failed, the contents are those at the start with some decodable multihashes stored.
\<close>

definition entries_inv ::
    "('d, 'i, 'n, 'h) env \<Rightarrow> ('i \<Rightarrow> contents) \<Rightarrow> advertisement \<Rightarrow> peer_id \<Rightarrow> ('d, 'i) ingester \<Rightarrow>
       ('d, 'i) ad_scope \<Rightarrow> bool" where
  "entries_inv E absv ad p s sc \<longleftrightarrow>
     in_reg (sc_ing sc) = in_reg s \<and> in_batch_size (sc_ing sc) = in_batch_size s \<and>
     (sc_errs sc = [] \<longrightarrow> (\<exists>ms. (\<forall>m\<in>set ms. en_mh_ok E m) \<and>
        absv (in_indexer (sc_ing sc)) = stored (ad_is_rm ad) (ad_value p ad) ms (absv (in_indexer s))))"

lemma index_ad_multihashes_frame:
  assumes "index_ad_multihashes E ad mhs s = (e, s')"
  shows "in_reg s' = in_reg s" "in_batch_size s' = in_batch_size s" "in_ds s' = in_ds s"
  using assms by (auto simp: index_ad_multihashes_def split: sum.splits prod.splits)

lemma delete_block_frame [simp]:
  "in_reg (delete_block E c s) = in_reg s" "in_batch_size (delete_block E c s) = in_batch_size s"
  "in_indexer (delete_block E c s) = in_indexer s"
  by (simp_all add: delete_block_def)

lemma entries_inv_start:
  "entries_inv E absv ad p s \<lparr>sc_ing = s, sc_errs = [], sc_hamt = []\<rparr>"
  by (auto simp: entries_inv_def intro: exI [of _ "[]"])

lemma entries_inv_store_block:
  "entries_inv E absv ad p s sc \<Longrightarrow> entries_inv E absv ad p s (store_block E c b sc)"
  by (simp add: entries_inv_def store_block_def)

lemma entries_inv_add_err:
  "in_reg (sc_ing sc) = in_reg s \<Longrightarrow> in_batch_size (sc_ing sc) = in_batch_size s \<Longrightarrow>
     entries_inv E absv ad p s (add_err e sc)"
  by (simp add: entries_inv_def add_err_def)

definition ad_env :: "('d, 'i, 'n, 'h) env \<Rightarrow> ('i \<Rightarrow> contents) \<Rightarrow> advertisement \<Rightarrow> peer_id \<Rightarrow> bool" where
  "ad_env E absv ad p \<longleftrightarrow>
     indexer_laws (en_indexer E) absv \<and> lib_peer_decode (en_lib E) (ad_provider ad) = Inr p"

lemma entries_inv_index:
  assumes env: "ad_env E absv ad p" and inv: "entries_inv E absv ad p s sc"
    and "index_ad_multihashes E ad mhs (sc_ing sc) = (None, s')"
  shows "entries_inv E absv ad p s (sc\<lparr>sc_ing := s'\<rparr>)"
proof -
  have idx: "absv (in_indexer s') =
      stored (ad_is_rm ad) (ad_value p ad) (filter (en_mh_ok E) mhs) (absv (in_indexer (sc_ing sc)))"
    using index_ad_multihashes_contents [of E absv ad mhs "sc_ing sc" s'] env assms(3)
    by (auto simp: stored_def Let_def ad_env_def)
  have "\<exists>ms'. (\<forall>m\<in>set ms'. en_mh_ok E m) \<and> absv (in_indexer s') =
      stored (ad_is_rm ad) (ad_value p ad) ms' (absv (in_indexer s))" if no_err: "sc_errs sc = []"
  proof -
    obtain ms where "\<forall>m\<in>set ms. en_mh_ok E m" "absv (in_indexer (sc_ing sc)) =
        stored (ad_is_rm ad) (ad_value p ad) ms (absv (in_indexer s))"
      using inv no_err by (auto simp: entries_inv_def)
    with idx show ?thesis
      by (intro exI [of _ "ms @ filter (en_mh_ok E) mhs"]) (auto simp: stored_append)
  qed
  then show ?thesis
    using inv index_ad_multihashes_frame [OF assms(3)] by (simp add: entries_inv_def)
qed

lemma entries_inv_chunk:
  assumes env: "ad_env E absv ad p" and inv: "entries_inv E absv ad p s sc"
    and "ingest_entry_chunk E ad c chunk (sc_ing sc) = (e, s')"
  shows "case e of None \<Rightarrow> entries_inv E absv ad p s (sc\<lparr>sc_ing := s'\<rparr>)
    | Some e \<Rightarrow> entries_inv E absv ad p s (add_err e' (sc\<lparr>sc_ing := s'\<rparr>))"
proof -
  obtain e1 s1 where idx: "index_ad_multihashes E ad (ch_entries chunk) (sc_ing sc) = (e1, s1)"
    by (cases "index_ad_multihashes E ad (ch_entries chunk) (sc_ing sc)")
  then have s': "s' = delete_block E c s1" and e: "e = None \<longleftrightarrow> e1 = None"
    using assms(3) by (auto simp: ingest_entry_chunk_def)
  have frame: "in_reg s' = in_reg s" "in_batch_size s' = in_batch_size s"
    using inv index_ad_multihashes_frame [OF idx] by (simp_all add: s' entries_inv_def)
  show ?thesis
  proof (cases e)
    case None
    then have "entries_inv E absv ad p s (sc\<lparr>sc_ing := s1\<rparr>)"
      using entries_inv_index [OF env inv] idx e by simp
    then show ?thesis using None by (simp add: s' entries_inv_def)
  next
    case (Some x)
    then show ?thesis using frame by (simp add: entries_inv_add_err)
  qed
qed

lemma entries_inv_load_failed:
  "entries_inv E absv ad p s sc \<Longrightarrow> entries_inv E absv ad p s (add_err e sc)"
  by (rule entries_inv_add_err) (simp_all add: entries_inv_def)

lemma entries_inv_chunk_hook:
  assumes "ad_env E absv ad p" and "entries_inv E absv ad p s sc"
  shows "entries_inv E absv ad p s (snd (chunk_hook E ad c sc))"
proof (cases "load_entry_chunk E c (in_ds (sc_ing sc))")
  case (Inl e)
  then show ?thesis using entries_inv_load_failed [OF assms(2)] by (simp add: chunk_hook_def)
next
  case (Inr chunk)
  obtain e s' where "ingest_entry_chunk E ad c chunk (sc_ing sc) = (e, s')"
    by (cases "ingest_entry_chunk E ad c chunk (sc_ing sc)")
  then show ?thesis
    using entries_inv_chunk [OF assms] Inr by (cases e) (fastforce simp: chunk_hook_def)+
qed

lemma entries_inv_first_chunk:
  assumes "ad_env E absv ad p" and "entries_inv E absv ad p s sc"
  shows "entries_inv E absv ad p s (snd (first_chunk E ad c sc))"
proof (cases "load_entry_chunk E c (in_ds (sc_ing sc))")
  case (Inl e)
  then show ?thesis using entries_inv_load_failed [OF assms(2)] by (simp add: first_chunk_def)
next
  case (Inr chunk)
  obtain e s' where "ingest_entry_chunk E ad c chunk (sc_ing sc) = (e, s')"
    by (cases "ingest_entry_chunk E ad c chunk (sc_ing sc)")
  then show ?thesis
    using entries_inv_chunk [OF assms] Inr by (cases e) (fastforce simp: first_chunk_def)+
qed

lemma entries_inv_sync:
  assumes "legs_laws E sync" and "sync rq sc = (res, sc')" and "entries_inv E absv ad p s sc"
    and "\<And>h c sc. rq_hook rq = Some h \<Longrightarrow> entries_inv E absv ad p s sc \<Longrightarrow>
      entries_inv E absv ad p s (snd (h c sc))"
  shows "entries_inv E absv ad p s sc'"
  by (rule sync_steps_invariant [OF legs_lawsD [OF assms(1,2)]])
     (use assms(3,4) entries_inv_store_block in auto)

lemma entries_inv_chunk_chain:
  assumes env: "ad_env E absv ad p" and sync: "legs_laws E sync" and inv: "entries_inv E absv ad p s sc"
  shows "entries_inv E absv ad p s (snd (ingest_chunk_chain E sync publisher ad c sc))"
proof -
  obtain chunk sc1 where first: "first_chunk E ad c sc = (chunk, sc1)"
    by (cases "first_chunk E ad c sc")
  have inv1: "entries_inv E absv ad p s sc1"
    using entries_inv_first_chunk [OF env inv, of c] first by simp
  show ?thesis
  proof (cases "\<exists>ch next. chunk = Some ch \<and> ch_next ch = Some next")
    case False
    then show ?thesis
      using inv1 first by (cases chunk) (auto simp: ingest_chunk_chain_def split: option.splits)
  next
    case True
    then obtain ch "next" where ch: "chunk = Some ch" "ch_next ch = Some next" by blast
    define rq where "rq = \<lparr>rq_peer = publisher, rq_cid = next,
        rq_sel = Some (SelEntries (en_entries_limit E)), rq_addr = None,
        rq_hook = Some (chunk_hook E ad), rq_segment = None, rq_update_latest = False\<rparr>"
    obtain res sc2 where res: "sync rq sc1 = (res, sc2)" by (cases "sync rq sc1")
    have "entries_inv E absv ad p s sc2"
      by (rule entries_inv_sync [OF sync res inv1])
         (use entries_inv_chunk_hook [OF env] in \<open>auto simp: rq_def\<close>)
    then show ?thesis
      using res first ch
      by (auto simp: ingest_chunk_chain_def rq_def [symmetric] split: sum.splits)
  qed
qed

lemma entries_inv_hamt_links:
  assumes sync: "legs_laws E sync"
  shows "entries_inv E absv ad p s sc \<Longrightarrow>
     entries_inv E absv ad p s (snd (sync_hamt_links sync publisher links sc))"
proof (induction links arbitrary: sc)
  case (Cons l links)
  show ?case
  proof (cases l)
    case None
    with Cons show ?thesis by simp
  next
    case (Some c)
    obtain res sc1 where res: "sync \<lparr>rq_peer = publisher, rq_cid = c, rq_sel = Some SelAll,
        rq_addr = None, rq_hook = Some gather_hook, rq_segment = Some (-1),
        rq_update_latest = False\<rparr> sc = (res, sc1)"
      by (metis surj_pair)
    have "entries_inv E absv ad p s sc1"
      by (rule entries_inv_sync [OF sync res Cons.prems]) (auto simp: gather_hook_def entries_inv_def)
    then show ?thesis
      using Cons.IH [of sc1] res Some by (cases res) simp_all
  qed
qed simp

lemma index_hamt_items_frame:
  "index_hamt_items E ad mhs items s = (e, s') \<Longrightarrow>
     in_reg s' = in_reg s \<and> in_batch_size s' = in_batch_size s"
proof (induction items arbitrary: mhs s)
  case Nil
  then show ?case
    by (auto split: if_splits prod.splits option.splits dest: index_ad_multihashes_frame)
next
  case (Cons item items)
  show ?case
  proof (cases item)
    case (HamtKey m)
    obtain e1 s1 where idx: "index_ad_multihashes E ad (mhs @ [m]) s = (e1, s1)"
      by (cases "index_ad_multihashes E ad (mhs @ [m]) s")
    show ?thesis
      using Cons.prems HamtKey idx index_ad_multihashes_frame [OF idx]
        Cons.IH [of "[]" s1] Cons.IH [of "mhs @ [m]" s]
      by (auto split: if_splits option.splits)
  qed (use Cons.prems in auto)
qed

lemma entries_inv_hamt_items:
  assumes env: "ad_env E absv ad p"
  shows "entries_inv E absv ad p s sc \<Longrightarrow>
     index_hamt_items E ad mhs items (sc_ing sc) = (None, s') \<Longrightarrow>
     entries_inv E absv ad p s (sc\<lparr>sc_ing := s'\<rparr>)"
proof (induction items arbitrary: mhs sc)
  case Nil
  then show ?case
    using entries_inv_index [OF env Nil(1)]
    by (auto split: if_splits prod.splits option.splits)
next
  case (Cons item items)
  show ?case
  proof (cases item)
    case (HamtKey m)
    show ?thesis
    proof (cases "length (mhs @ [m]) \<ge> unat (in_batch_size (sc_ing sc))")
      case True
      then obtain s1 where idx: "index_ad_multihashes E ad (mhs @ [m]) (sc_ing sc) = (None, s1)"
        and rest: "index_hamt_items E ad [] items s1 = (None, s')"
        using Cons.prems(2) HamtKey by (auto split: prod.splits option.splits)
      have "entries_inv E absv ad p s ((sc\<lparr>sc_ing := s1\<rparr>)\<lparr>sc_ing := s'\<rparr>)"
        using Cons.IH [OF entries_inv_index [OF env Cons.prems(1) idx], of "[]"] rest by simp
      then show ?thesis by simp
    next
      case False
      then show ?thesis using Cons HamtKey by auto
    qed
  qed (use Cons.prems in auto)
qed

lemma fold_delete_block_frame:
  "in_reg (fold (delete_block E) cs s) = in_reg s"
  "in_batch_size (fold (delete_block E) cs s) = in_batch_size s"
  "in_indexer (fold (delete_block E) cs s) = in_indexer s"
  by (induction cs arbitrary: s) simp_all

lemma entries_inv_hamt:
  assumes env: "ad_env E absv ad p" and sync: "legs_laws E sync"
    and inv: "entries_inv E absv ad p s sc"
    and "ingest_hamt E sync publisher ad c sc = (None, sc')"
  shows "entries_inv E absv ad p s sc'"
proof -
  define sc1 where "sc1 = sc\<lparr>sc_hamt := [c]\<rparr>"
  have inv1: "entries_inv E absv ad p s sc1" using inv by (simp add: sc1_def entries_inv_def)
  obtain hn where hn: "load_hamt E c (in_ds (sc_ing sc)) = Inr hn"
    using assms(4) by (cases "load_hamt E c (in_ds (sc_ing sc))") (auto simp: ingest_hamt_def Let_def)
  obtain e2 sc2 where links: "sync_hamt_links sync publisher (en_hamt_links E hn) sc1 = (e2, sc2)"
    by (cases "sync_hamt_links sync publisher (en_hamt_links E hn) sc1")
  have none: "e2 = None"
    using assms(4) hn links by (cases e2) (auto simp: ingest_hamt_def Let_def sc1_def)
  obtain e3 s3 where items: "index_hamt_items E ad []
      (en_hamt_iter E hn (read_opener E (in_ds (sc_ing sc2)))) (sc_ing sc2) = (e3, s3)"
    by (metis surj_pair)
  have e3: "e3 = None" and sc': "sc' = delete_hamt_nodes E (sc2\<lparr>sc_ing := s3\<rparr>)"
    using assms(4) hn links none items by (auto simp: ingest_hamt_def Let_def sc1_def)
  have "entries_inv E absv ad p s sc2"
    using entries_inv_hamt_links [OF sync inv1, of publisher "en_hamt_links E hn"] links by simp
  then have "entries_inv E absv ad p s (sc2\<lparr>sc_ing := s3\<rparr>)"
    using entries_inv_hamt_items [OF env] items e3 by simp
  then show ?thesis
    by (simp add: sc' delete_hamt_nodes_def entries_inv_def fold_delete_block_frame)
qed

lemma ingest_entries_success:
  assumes env: "ad_env E absv ad p" and sync: "legs_laws E sync"
    and res: "ingest_entries E sync publisher ad entries s = (None, s')"
  shows "in_reg s' = in_reg s \<and> in_batch_size s' = in_batch_size s \<and>
    (\<exists>ms. (\<forall>m\<in>set ms. en_mh_ok E m) \<and>
      absv (in_indexer s') = stored (ad_is_rm ad) (ad_value p ad) ms (absv (in_indexer s)))"
proof -
  obtain first sc1 where first: "sync (sync_one publisher entries)
      \<lparr>sc_ing = s, sc_errs = [], sc_hamt = []\<rparr> = (Inr first, sc1)"
    using res
    by (cases "sync (sync_one publisher entries) \<lparr>sc_ing = s, sc_errs = [], sc_hamt = []\<rparr>")
       (auto simp: ingest_entries_def split: sum.splits)
  then obtain node where node: "load_node E first AnyPrototype (in_ds (sc_ing sc1)) = Inr node"
    using res by (auto simp: ingest_entries_def split: sum.splits)
  obtain e2 sc2 where inner: "(if is_hamt (en_ipld E) node
      then ingest_hamt E sync publisher ad first sc1
      else ingest_chunk_chain E sync publisher ad first sc1) = (e2, sc2)" by (metis surj_pair)
  have e2: "e2 = None" "sc_errs sc2 = []" "s' = sc_ing sc2"
    using res first node inner by (auto simp: ingest_entries_def split: option.splits if_splits)
  have inv1: "entries_inv E absv ad p s sc1"
    by (rule entries_inv_sync [OF sync first entries_inv_start]) (simp add: sync_one_def)
  have "entries_inv E absv ad p s sc2"
  proof (cases "is_hamt (en_ipld E) node")
    case True
    then show ?thesis using entries_inv_hamt [OF env sync inv1] inner e2 by simp
  next
    case False
    then show ?thesis
      using entries_inv_chunk_chain [OF env sync inv1, of publisher first] inner by simp
  qed
  then show ?thesis using e2 by (simp add: entries_inv_def)
qed

section \<open>The effect of one advertisement\<close>

text \<open>
  What ingesting an advertisement of provider \<open>p\<close> does to the contents of the indexer, given the
  multihashes of its entries that decode.
\<close>

definition ad_effect :: "peer_id \<Rightarrow> advertisement \<Rightarrow> multihash list \<Rightarrow> contents \<Rightarrow> contents" where
  "ad_effect p ad ms c =
     (if ad_is_rm ad then contents_remove_context (p, ad_context ad) c
      else if ad_entries ad = Some no_entries then contents_put (ad_value p ad) [] c
      else stored False (ad_value p ad) ms c)"

lemma ingest_ad_success:
  assumes laws: "indexer_laws (en_indexer E) absv" and sync: "legs_laws E sync"
    and res: "ingest_ad E sync now publisher ad_cid ad s = Inr (None, s')"
  shows "\<exists>p ms. lib_peer_decode (en_lib E) (ad_provider ad) = Inr p \<and> (\<forall>m\<in>set ms. en_mh_ok E m) \<and>
     absv (in_indexer s') = ad_effect p ad ms (absv (in_indexer s)) \<and>
     in_batch_size s' = in_batch_size s \<and>
     register_or_update (en_ds E) (en_lib E) (en_json E) now p (ad_addresses ad) ad_cid
       (publisher_info E publisher) (in_reg s) = Inr (None, in_reg s')"
proof -
  obtain p where p: "lib_peer_decode (en_lib E) (ad_provider ad) = Inr p"
    using res by (auto simp: ingest_ad_def split: sum.splits)
  obtain r where r: "register_or_update (en_ds E) (en_lib E) (en_json E) now p (ad_addresses ad) ad_cid
       (publisher_info E publisher) (in_reg s) = Inr (None, r)"
    using res p by (auto simp: ingest_ad_def go_bind_eq_Inr Let_def split: option.splits)
  define s1 where "s1 = s\<lparr>in_reg := r\<rparr>"
  have s1: "in_indexer s1 = in_indexer s" "in_reg s1 = r" "in_batch_size s1 = in_batch_size s"
    by (simp_all add: s1_def)
  show ?thesis
  proof (cases "ad_is_rm ad")
    case True
    then obtain i where "ix_remove_context (en_indexer E) (in_indexer s) p (ad_context ad) = (None, i)"
      and "s' = s1\<lparr>in_indexer := i\<rparr>"
      using res p r by (auto simp: ingest_ad_def Let_def s1_def split: prod.splits)
    moreover have "absv i = contents_remove_context (p, ad_context ad) (absv (in_indexer s))"
      using laws calculation(1) unfolding indexer_laws_def by (metis fst_conv snd_conv)
    ultimately show ?thesis
      using p r True by (auto simp: ad_effect_def s1 intro: exI [of _ "[]"])
  next
    case not_rm: False
    show ?thesis
    proof (cases "ad_entries ad = Some no_entries")
      case True
      then obtain i where "ix_put (en_indexer E) (in_indexer s) (ad_value p ad) [] = (None, i)"
        and "s' = s1\<lparr>in_indexer := i\<rparr>"
        using res p r not_rm by (auto simp: ingest_ad_def Let_def s1_def split: prod.splits)
      moreover have "absv i = contents_put (ad_value p ad) [] (absv (in_indexer s))"
        using laws calculation(1) unfolding indexer_laws_def by (metis fst_conv snd_conv)
      ultimately show ?thesis
        using p r True not_rm by (auto simp: ad_effect_def s1 intro: exI [of _ "[]"])
    next
      case False
      then obtain entries where "ingest_entries E sync publisher ad entries s1 = (None, s')"
        using res p r not_rm
        by (auto simp: ingest_ad_def Let_def s1_def go_bind_eq_Inr split: if_splits)
      moreover have "ad_env E absv ad p" using laws p by (simp add: ad_env_def)
      ultimately obtain ms where
        "\<forall>m\<in>set ms. en_mh_ok E m" "in_reg s' = r" "in_batch_size s' = in_batch_size s"
        "absv (in_indexer s') = stored (ad_is_rm ad) (ad_value p ad) ms (absv (in_indexer s))"
        using ingest_entries_success [OF _ sync] s1 by metis
      then show ?thesis
        using p r not_rm False by (auto simp: ad_effect_def)
    qed
  qed
qed

end
