(* ===== verification/Ingest_Worker.thy ===== *)
theory Ingest_Worker
  imports Ingest_Ad
begin

text \<open>
  How synced advertisements reach the index (\<^verbatim>\<open>internal/ingest/ingest.go\<close>): \<open>runIngestStep\<close>
  groups them by provider and stages them, a worker takes a provider's assignment, filters it and
  ingests it from the oldest advertisement to the newest, and each outcome is sent as an event.

  The channel of events and the queue of the workers are lists in sending order; the counters are
  the metrics the worker records.
\<close>

section \<open>State\<close>

record ad_info =
  inf_cid :: cid
  inf_ad :: advertisement

record assignment =
  as_ads :: "ad_info list"
  as_publisher :: peer_id
  as_provider :: peer_id

record ad_event =
  ev_publisher :: peer_id
  ev_head :: cid
  ev_ad :: cid
  ev_err :: "ad_ingest_error option"

text \<open>
  The staging cell of a provider is absent until the provider is first staged, and then holds an
  assignment or none. \<open>ws_busy\<close> are the provider's channels of capacity one, with whether they hold
  an element.
\<close>

record ('d, 'i) workers =
  ws_ing :: "('d, 'i) ingester"
  ws_staging :: "peer_id \<rightharpoonup> assignment option"
  ws_busy :: "peer_id \<rightharpoonup> bool"
  ws_queue :: "peer_id list"
  ws_events :: "ad_event list"
  ws_success :: nat
  ws_skipped :: nat
  ws_load_errors :: nat

section \<open>Staging\<close>

fun group_ads ::
    "('d, 'i, 'n, 'h) env \<Rightarrow> 'd \<Rightarrow> cid list \<Rightarrow> nat \<Rightarrow> (peer_id \<rightharpoonup> ad_info list) \<Rightarrow>
       (nat \<times> (peer_id \<rightharpoonup> ad_info list)) go" where
  "group_ads E d [] errs g = Inr (errs, g)"
| "group_ads E d (c # cs) errs g =
     go_bind (ad_already_processed (en_ds E) (en_lib E) c d) (\<lambda>done.
       if done then Inr (errs, g)
       else
         (case load_ad E c d of
            Inl e \<Rightarrow> group_ads E d cs (errs + 1) g
          | Inr ad \<Rightarrow>
              (case lib_peer_decode (en_lib E) (ad_provider ad) of
                 Inl e \<Rightarrow> group_ads E d cs errs g
               | Inr p \<Rightarrow>
                   group_ads E d cs errs
                     (g(p \<mapsto> (case g p of None \<Rightarrow> [] | Some xs \<Rightarrow> xs) @
                            [\<lparr>inf_cid = c, inf_ad = ad\<rparr>])))))"

definition stage :: "peer_id \<Rightarrow> ad_info list \<Rightarrow> peer_id \<Rightarrow> ('d, 'i) workers \<Rightarrow> ('d, 'i) workers" where
  "stage publisher ads p ws =
     (let old = ws_staging ws p;
          ws = ws\<lparr>ws_busy := (case ws_busy ws p of
                     None \<Rightarrow> (ws_busy ws)(p \<mapsto> False) | Some _ \<Rightarrow> ws_busy ws),
                 ws_staging := (ws_staging ws)
                   (p \<mapsto> Some \<lparr>as_ads = ads, as_publisher = publisher, as_provider = p\<rparr>)\<rparr>
      in case old of
           Some (Some _) \<Rightarrow> ws
         | _ \<Rightarrow> ws\<lparr>ws_queue := ws_queue ws @ [p]\<rparr>)"

fun stage_all ::
    "peer_id \<Rightarrow> (peer_id \<rightharpoonup> ad_info list) \<Rightarrow> peer_id list \<Rightarrow> ('d, 'i) workers \<Rightarrow> ('d, 'i) workers" where
  "stage_all publisher g [] ws = ws"
| "stage_all publisher g (p # ps) ws =
     stage_all publisher g ps (case g p of None \<Rightarrow> ws | Some ads \<Rightarrow> stage publisher ads p ws)"

text \<open>\<open>order\<close> is the order in which the map of groups is ranged over.\<close>

definition run_ingest_step ::
    "('d, 'i, 'n, 'h) env \<Rightarrow> peer_id list \<Rightarrow> peer_id \<Rightarrow> cid list \<Rightarrow> ('d, 'i) workers \<Rightarrow>
       ('d, 'i) workers go" where
  "run_ingest_step E order publisher cids ws =
     go_bind (group_ads E (in_ds (ws_ing ws)) cids 0 Map.empty) (\<lambda>(errs, g).
       Inr (stage_all publisher g order (ws\<lparr>ws_load_errors := ws_load_errors ws + errs\<rparr>)))"

section \<open>The worker\<close>

text \<open>
  The first pass, from the newest advertisement to the oldest: how many to process, and the stack
  of the indices to skip with its top (\<open>-1\<close> when there is none).
\<close>

fun scan_ads ::
    "(cid \<Rightarrow> bool go) \<Rightarrow> nat \<Rightarrow> bytes set \<Rightarrow> int list \<Rightarrow> int \<Rightarrow> ad_info list \<Rightarrow>
       (nat \<times> int list \<times> int) go" where
  "scan_ads done i rm skips skip [] = Inr (i, skips, skip)"
| "scan_ads done i rm skips skip (ai # ais) =
     go_bind (done (inf_cid ai)) (\<lambda>b.
       if b then Inr (i, skips, skip)
       else if ad_context (inf_ad ai) \<in> rm then
         scan_ads done (i + 1) rm (skips @ [skip]) (int i) ais
       else if ad_is_rm (inf_ad ai) then
         scan_ads done (i + 1) (insert (ad_context (inf_ad ai)) rm) skips skip ais
       else scan_ads done (i + 1) rm skips skip ais)"

definition permanent_error :: "ad_ingest_error \<Rightarrow> bool" where
  "permanent_error e \<longleftrightarrow> fst e \<in> {DecodingErr, MalformedErr, EntryChunkErr, ContentNotFound}"

definition send_event :: "ad_event \<Rightarrow> ('d, 'i) workers \<Rightarrow> ('d, 'i) workers" where
  "send_event ev ws = ws\<lparr>ws_events := ws_events ws @ [ev]\<rparr>"

definition ad_event_of :: "assignment \<Rightarrow> ad_info \<Rightarrow> ad_ingest_error option \<Rightarrow> ad_event" where
  "ad_event_of a ai err =
     \<lparr>ev_publisher = as_publisher a, ev_head = inf_cid (as_ads a ! 0), ev_ad = inf_cid ai, ev_err = err\<rparr>"

text \<open>A failure to mark is only logged.\<close>

definition finish_ad ::
    "('d, 'i, 'n, 'h) env \<Rightarrow> assignment \<Rightarrow> ad_info \<Rightarrow> ('d, 'i) workers \<Rightarrow> ('d, 'i) workers" where
  "finish_ad E a ai ws =
     (let ing = ws_ing ws;
          d = snd (mark_ad_processed (en_ds E) (en_lib E) (as_publisher a) (inf_cid ai) (in_ds ing))
      in send_event (ad_event_of a ai None) (ws\<lparr>ws_ing := ing\<lparr>in_ds := d\<rparr>\<rparr>))"

text \<open>The second component says whether to go on to the next newer advertisement.\<close>

definition work_one ::
    "('d, 'i, 'n, 'h) env \<Rightarrow> ('d, 'i) ad_scope legs_sync \<Rightarrow> gotime \<Rightarrow> assignment \<Rightarrow> ad_info \<Rightarrow>
       ('d, 'i) workers \<Rightarrow> (('d, 'i) workers \<times> bool) go" where
  "work_one E sync now a ai ws =
     go_bind (ingest_ad E sync now (as_publisher a) (inf_cid ai) (inf_ad ai) (ws_ing ws)) (\<lambda>(err, ing).
       let ws = ws\<lparr>ws_ing := ing\<rparr>
       in Inr (case err of
            None \<Rightarrow> (finish_ad E a ai (ws\<lparr>ws_success := ws_success ws + 1\<rparr>), True)
          | Some e \<Rightarrow>
              if permanent_error e then
                (finish_ad E a ai (ws\<lparr>ws_skipped := ws_skipped ws + 1\<rparr>), True)
              else (send_event (ad_event_of a ai (Some e)) ws, False)))"

text \<open>
  The second pass: \<open>n\<close> advertisements are left, the next is the one at index \<open>n - 1\<close>. Popping from
  the empty stack would panic. \<open>nows\<close> gives the clock reading for each.
\<close>

fun work_ads ::
    "('d, 'i, 'n, 'h) env \<Rightarrow> ('d, 'i) ad_scope legs_sync \<Rightarrow> (nat \<Rightarrow> gotime) \<Rightarrow> assignment \<Rightarrow> nat \<Rightarrow>
       int list \<Rightarrow> int \<Rightarrow> ('d, 'i) workers \<Rightarrow> ('d, 'i) workers go" where
  "work_ads E sync nows a 0 skips skip ws = Inr ws"
| "work_ads E sync nows a (Suc i) skips skip ws =
     (if int i = skip then
        (if skips = [] then Inl IndexOutOfRange
         else work_ads E sync nows a i (butlast skips) (last skips) (finish_ad E a (as_ads a ! i) ws))
      else
        go_bind (work_one E sync (nows i) a (as_ads a ! i) ws) (\<lambda>(ws, go_on).
          if go_on then work_ads E sync nows a i skips skip ws else Inr ws))"

definition ingest_worker_logic ::
    "('d, 'i, 'n, 'h) env \<Rightarrow> ('d, 'i) ad_scope legs_sync \<Rightarrow> (nat \<Rightarrow> gotime) \<Rightarrow> peer_id \<Rightarrow>
       ('d, 'i) workers \<Rightarrow> ('d, 'i) workers go" where
  "ingest_worker_logic E sync nows p ws =
     (case ws_staging ws p of
        None \<Rightarrow> Inl NilDereference
      | Some None \<Rightarrow> Inr ws
      | Some (Some a) \<Rightarrow>
          let ws = ws\<lparr>ws_staging := (ws_staging ws)(p \<mapsto> None)\<rparr>;
              done = (\<lambda>c. ad_already_processed (en_ds E) (en_lib E) c (in_ds (ws_ing ws)))
          in go_bind (scan_ads done 0 {} [] (-1) (as_ads a)) (\<lambda>(n, skips, skip).
             go_bind (first_elem (as_ads a)) (\<lambda>head.
               work_ads E sync nows a n skips skip ws)))"

end
