(* ===== verification/Ingest_Worker_Correct.thy ===== *)
theory Ingest_Worker_Correct
  imports Ingest_Worker
begin

text \<open>
  Why a worker's run is right: the stack of indices to skip is the set of advertisements whose
  context a newer one removes; skipping them leaves the index as if all had been ingested; and
  the marks always cover a suffix of the chain, the oldest advertisements.
\<close>

section \<open>The scan\<close>

text \<open>Which advertisements a newer removal makes irrelevant: a list of flags, newest first.\<close>

fun skip_flags :: "bytes set \<Rightarrow> ad_info list \<Rightarrow> bool list" where
  "skip_flags rm [] = []"
| "skip_flags rm (ai # ais) =
     (if ad_context (inf_ad ai) \<in> rm then True # skip_flags rm ais
      else False # skip_flags
        (if ad_is_rm (inf_ad ai) then insert (ad_context (inf_ad ai)) rm else rm) ais)"

lemma length_skip_flags [simp]: "length (skip_flags rm ais) = length ais"
  by (induction rm ais rule: skip_flags.induct) auto

text \<open>The indices of the flags that are set, the first flag having index \<open>i\<close>.\<close>

fun flag_indices :: "nat \<Rightarrow> bool list \<Rightarrow> int list" where
  "flag_indices i [] = []"
| "flag_indices i (b # bs) = (if b then int i # flag_indices (i + 1) bs else flag_indices (i + 1) bs)"

lemma flag_indices_append:
  "flag_indices i (xs @ ys) = flag_indices i xs @ flag_indices (i + length xs) ys"
  by (induction xs arbitrary: i) auto

lemma flag_indices_bounds:
  "k \<in> set (flag_indices i bs) \<Longrightarrow> int i \<le> k \<and> k < int i + int (length bs)"
  by (induction bs arbitrary: i) (auto split: if_splits, fastforce+)

text \<open>The advertisements before the first processed one.\<close>

definition fresh_ads :: "(cid \<Rightarrow> bool) \<Rightarrow> ad_info list \<Rightarrow> ad_info list" where
  "fresh_ads done ads = takeWhile (\<lambda>ai. \<not> done (inf_cid ai)) ads"

lemma scan_ads_spec:
  "scan_ads (\<lambda>c. Inr (done c)) i rm skips skip ads =
     (let fl = flag_indices i (skip_flags rm (fresh_ads done ads)); st = (skips @ [skip]) @ fl
      in Inr (i + length (fresh_ads done ads), butlast st, last st))"
proof (induction ads arbitrary: i rm skips skip)
  case Nil
  then show ?case by (simp add: fresh_ads_def)
next
  case (Cons ai ads)
  show ?case
  proof (cases "done (inf_cid ai)")
    case True
    then show ?thesis by (simp add: fresh_ads_def)
  next
    case False
    then show ?thesis
      using Cons.IH [of "i + 1" rm "skips @ [skip]" "int i"]
        Cons.IH [of "i + 1" "insert (ad_context (inf_ad ai)) rm" skips skip]
        Cons.IH [of "i + 1" rm skips skip]
      by (simp add: fresh_ads_def Let_def)
  qed
qed

section \<open>The second pass without the stack\<close>

fun work_flags ::
    "('d, 'i, 'n, 'h) env \<Rightarrow> ('d, 'i) ad_scope legs_sync \<Rightarrow> (nat \<Rightarrow> gotime) \<Rightarrow> assignment \<Rightarrow> bool list \<Rightarrow>
       nat \<Rightarrow> ('d, 'i) workers \<Rightarrow> ('d, 'i) workers go" where
  "work_flags E sync nows a fl 0 ws = Inr ws"
| "work_flags E sync nows a fl (Suc i) ws =
     (if fl ! i then work_flags E sync nows a fl i (finish_ad E a (as_ads a ! i) ws)
      else
        go_bind (work_one E sync (nows i) a (as_ads a ! i) ws) (\<lambda>(ws, go_on).
          if go_on then work_flags E sync nows a fl i ws else Inr ws))"

lemma work_ads_flags:
  assumes "n \<le> length fl" and "skips @ [skip] = -1 # flag_indices 0 (take n fl)"
  shows "work_ads E sync nows a n skips skip ws = work_flags E sync nows a fl n ws"
  using assms
proof (induction n arbitrary: skips skip ws)
  case 0
  then show ?case by simp
next
  case (Suc i)
  have tk: "take (Suc i) fl = take i fl @ [fl ! i]"
    using Suc.prems(1) by (simp add: take_Suc_conv_app_nth)
  have st: "flag_indices 0 (take (Suc i) fl) =
      flag_indices 0 (take i fl) @ (if fl ! i then [int i] else [])"
    using Suc.prems(1) by (simp add: tk flag_indices_append)
  show ?case
  proof (cases "fl ! i")
    case True
    then have eq: "skips @ [skip] = (-1 # flag_indices 0 (take i fl)) @ [int i]"
      using Suc.prems(2) st by simp
    then have "skip = int i" and skips: "skips = -1 # flag_indices 0 (take i fl)"
      by (simp_all only: append1_eq_conv)
    moreover have "butlast skips @ [last skips] = -1 # flag_indices 0 (take i fl)"
      using skips by (metis append_butlast_last_id list.distinct(1))
    ultimately show ?thesis
      using True Suc.IH [of "butlast skips" "last skips"] Suc.prems(1) by simp
  next
    case False
    then have same: "skips @ [skip] = -1 # flag_indices 0 (take i fl)"
      using Suc.prems(2) st by simp
    have "skip = last (-1 # flag_indices 0 (take i fl))"
      using same by (metis last_snoc)
    then have "skip \<noteq> int i"
      using flag_indices_bounds [of "int i" 0 "take i fl"]
      by (auto split: if_splits dest: last_in_set)
    then show ?thesis
      using False Suc.IH [OF _ same] Suc.prems(1) by (simp cong: if_cong)
  qed
qed

text \<open>A run of the worker, as the pass over the fresh advertisements.\<close>

lemma worker_logic_flags:
  assumes "ws_staging ws p = Some (Some a)" and "as_ads a \<noteq> []"
    and ok: "\<And>c. ad_already_processed (en_ds E) (en_lib E) c (in_ds (ws_ing ws)) = Inr (done c)"
  shows "ingest_worker_logic E sync nows p ws =
    work_flags E sync nows a (skip_flags {} (fresh_ads done (as_ads a)))
      (length (fresh_ads done (as_ads a))) (ws\<lparr>ws_staging := (ws_staging ws)(p \<mapsto> None)\<rparr>)"
proof -
  define fl where "fl = skip_flags {} (fresh_ads done (as_ads a))"
  have scan: "scan_ads (\<lambda>c. Inr (done c)) 0 {} [] (-1) (as_ads a) =
      Inr (length (fresh_ads done (as_ads a)), butlast (-1 # flag_indices 0 fl),
        last (-1 # flag_indices 0 fl))"
    by (simp add: scan_ads_spec fl_def Let_def)
  have "butlast (-1 # flag_indices 0 fl) @ [last (-1 # flag_indices 0 fl)] = -1 # flag_indices 0 fl"
    by (metis append_butlast_last_id list.distinct(1))
  then have "work_ads E sync nows a (length fl) (butlast (-1 # flag_indices 0 fl))
      (last (-1 # flag_indices 0 fl)) ws' = work_flags E sync nows a fl (length fl) ws'" for ws'
    by (intro work_ads_flags) simp_all
  moreover have "length fl = length (fresh_ads done (as_ads a))" by (simp add: fl_def)
  moreover obtain head where "first_elem (as_ads a) = Inr head"
    using assms(2) by (cases "as_ads a") auto
  ultimately show ?thesis
    using assms(1) ok scan by (simp add: ingest_worker_logic_def Let_def fl_def [symmetric])
qed

section \<open>Skipping leaves the index the same\<close>

text \<open>The contents without what provider \<open>p\<close> has in the contexts \<open>rm\<close>.\<close>

definition without :: "peer_id \<Rightarrow> bytes set \<Rightarrow> contents \<Rightarrow> contents" where
  "without p rm c =
     \<lparr>ct_meta = (\<lambda>k. if fst k = p \<and> snd k \<in> rm then None else ct_meta c k),
      ct_entries = {e \<in> ct_entries c. \<not> (fst (snd e) = p \<and> snd (snd e) \<in> rm)}\<rparr>"

lemma without_empty [simp]: "without p {} c = c"
  by (simp add: without_def)

lemma without_effect_inside:
  "ad_context ad \<in> rm \<Longrightarrow> without p rm (ad_effect p ad ms c) = without p rm c"
  by (auto simp: without_def ad_effect_def stored_def contents_put_def contents_remove_def
      contents_remove_context_def ad_value_def value_key_def fun_eq_iff)

lemma without_effect_outside:
  "ad_context ad \<notin> rm \<Longrightarrow> without p rm (ad_effect p ad ms c) = ad_effect p ad ms (without p rm c)"
  by (cases c) (auto simp: without_def ad_effect_def stored_def contents_put_def contents_remove_def
      contents_remove_context_def ad_value_def value_key_def fun_eq_iff)

lemma without_removal:
  "ad_is_rm ad \<Longrightarrow>
     without p rm (ad_effect p ad ms c) = without p (insert (ad_context ad) rm) c"
  by (auto simp: without_def ad_effect_def contents_remove_context_def fun_eq_iff)

text \<open>All advertisements applied, newest first in the list, and only those not flagged.\<close>

fun apply_ads :: "peer_id \<Rightarrow> (ad_info \<times> multihash list) list \<Rightarrow> contents \<Rightarrow> contents" where
  "apply_ads p [] c = c"
| "apply_ads p ((ai, ms) # as) c = ad_effect p (inf_ad ai) ms (apply_ads p as c)"

fun apply_unflagged ::
    "peer_id \<Rightarrow> bool list \<Rightarrow> (ad_info \<times> multihash list) list \<Rightarrow> contents \<Rightarrow> contents" where
  "apply_unflagged p (b # bs) ((ai, ms) # as) c =
     (if b then apply_unflagged p bs as c
      else ad_effect p (inf_ad ai) ms (apply_unflagged p bs as c))"
| "apply_unflagged p _ _ c = c"

lemma apply_unflagged_without:
  "without p rm (apply_unflagged p (skip_flags rm (map fst as)) as c) =
     without p rm (apply_ads p as c)"
proof (induction as arbitrary: rm)
  case Nil
  then show ?case by simp
next
  case (Cons x as)
  obtain ai ms where x: "x = (ai, ms)" by (cases x)
  let ?ctx = "ad_context (inf_ad ai)"
  show ?case
  proof (cases "?ctx \<in> rm")
    case True
    then show ?thesis using x Cons.IH [of rm] by (simp add: without_effect_inside)
  next
    case out: False
    show ?thesis
    proof (cases "ad_is_rm (inf_ad ai)")
      case True
      then show ?thesis
        using x out Cons.IH [of "insert ?ctx rm"] by (simp add: without_removal)
    next
      case False
      then show ?thesis
        using x out Cons.IH [of rm] by (simp add: without_effect_outside)
    qed
  qed
qed

lemma skipping_is_harmless:
  "apply_unflagged p (skip_flags {} (map fst as)) as c = apply_ads p as c"
  using apply_unflagged_without [of p "{}" as c] by simp

section \<open>What ingesting an advertisement does to the datastore\<close>

text \<open>A predicate on the datastore that putting and deleting blocks keeps.\<close>

definition block_closed :: "('d, 'i, 'n, 'h) env \<Rightarrow> ('d \<Rightarrow> bool) \<Rightarrow> bool" where
  "block_closed E Q \<longleftrightarrow>
     (\<forall>d c b. Q d \<longrightarrow> Q (snd (ds_put (en_ds E) d (block_key (en_lib E) c) b))) \<and>
     (\<forall>d c. Q d \<longrightarrow> Q (snd (ds_delete (en_ds E) d (block_key (en_lib E) c))))"

lemma block_closedD:
  assumes "block_closed E Q"
  shows "Q (in_ds (sc_ing sc)) \<Longrightarrow> Q (in_ds (sc_ing (store_block E c b sc)))"
    and "Q (in_ds s) \<Longrightarrow> Q (in_ds (delete_block E c s))"
  using assms by (simp_all add: block_closed_def store_block_def delete_block_def)

lemma closed_chunk:
  assumes "block_closed E Q" and "Q (in_ds s)"
  shows "Q (in_ds (snd (ingest_entry_chunk E ad c chunk s)))"
  using assms block_closedD(2) index_ad_multihashes_frame(3)
  by (fastforce simp: ingest_entry_chunk_def split: prod.splits)

lemma closed_chunk_hook:
  assumes "block_closed E Q" and "Q (in_ds (sc_ing sc))"
  shows "Q (in_ds (sc_ing (snd (chunk_hook E ad c sc))))"
proof (cases "load_entry_chunk E c (in_ds (sc_ing sc))")
  case (Inr chunk)
  then show ?thesis
    using closed_chunk [OF assms(1), of "sc_ing sc" ad c chunk] assms(2)
    by (auto simp: chunk_hook_def add_err_def split: prod.splits option.splits)
qed (use assms(2) in \<open>simp add: chunk_hook_def add_err_def\<close>)

lemma closed_first_chunk:
  assumes "block_closed E Q" and "Q (in_ds (sc_ing sc))"
  shows "Q (in_ds (sc_ing (snd (first_chunk E ad c sc))))"
proof (cases "load_entry_chunk E c (in_ds (sc_ing sc))")
  case (Inr chunk)
  then show ?thesis
    using closed_chunk [OF assms(1), of "sc_ing sc" ad c chunk] assms(2)
    by (auto simp: first_chunk_def add_err_def split: prod.splits option.splits)
qed (use assms(2) in \<open>simp add: first_chunk_def add_err_def\<close>)

lemma closed_sync:
  assumes "block_closed E Q" and "legs_laws E sync" and "sync rq sc = (res, sc')"
    and "Q (in_ds (sc_ing sc))"
    and "\<And>h c sc. rq_hook rq = Some h \<Longrightarrow> Q (in_ds (sc_ing sc)) \<Longrightarrow> Q (in_ds (sc_ing (snd (h c sc))))"
  shows "Q (in_ds (sc_ing sc'))"
  by (rule sync_steps_invariant [OF legs_lawsD [OF assms(2,3)],
        where P = "\<lambda>sc. Q (in_ds (sc_ing sc))"])
     (use assms(4,5) block_closedD(1) [OF assms(1)] in auto)

lemma closed_chunk_chain:
  assumes cl: "block_closed E Q" and sync: "legs_laws E sync" and "Q (in_ds (sc_ing sc))"
  shows "Q (in_ds (sc_ing (snd (ingest_chunk_chain E sync publisher ad c sc))))"
proof -
  obtain chunk sc1 where first: "first_chunk E ad c sc = (chunk, sc1)" by (metis surj_pair)
  have q1: "Q (in_ds (sc_ing sc1))"
    using closed_first_chunk [OF cl assms(3), of ad c] first by simp
  show ?thesis
  proof (cases "\<exists>ch next. chunk = Some ch \<and> ch_next ch = Some next")
    case False
    then show ?thesis
      using q1 first by (cases chunk) (auto simp: ingest_chunk_chain_def split: option.splits)
  next
    case True
    then obtain ch "next" where ch: "chunk = Some ch" "ch_next ch = Some next" by blast
    obtain res sc2 where res: "sync \<lparr>rq_peer = publisher, rq_cid = next,
        rq_sel = Some (SelEntries (en_entries_limit E)), rq_addr = None,
        rq_hook = Some (chunk_hook E ad), rq_segment = None, rq_update_latest = False\<rparr> sc1 =
        (res, sc2)" by (metis surj_pair)
    have "Q (in_ds (sc_ing sc2))"
      by (rule closed_sync [OF cl sync res q1]) (use closed_chunk_hook [OF cl] in auto)
    then show ?thesis
      using res first ch by (auto simp: ingest_chunk_chain_def split: sum.splits)
  qed
qed

lemma closed_hamt_links:
  assumes cl: "block_closed E Q" and sync: "legs_laws E sync"
  shows "Q (in_ds (sc_ing sc)) \<Longrightarrow>
     Q (in_ds (sc_ing (snd (sync_hamt_links sync publisher links sc))))"
proof (induction links arbitrary: sc)
  case (Cons l links)
  show ?case
  proof (cases l)
    case None
    with Cons show ?thesis by simp
  next
    case (Some c)
    obtain res sc1 where res: "sync \<lparr>rq_peer = publisher, rq_cid = c, rq_sel = Some SelAll,
        rq_addr = None, rq_hook = Some gather_hook, rq_segment = Some (-1),
        rq_update_latest = False\<rparr> sc = (res, sc1)"
      by (metis surj_pair)
    have "Q (in_ds (sc_ing sc1))"
      by (rule closed_sync [OF cl sync res Cons.prems]) (auto simp: gather_hook_def)
    then show ?thesis using Cons.IH [of sc1] res Some by (cases res) simp_all
  qed
qed simp

lemma index_hamt_items_ds: "in_ds (snd (index_hamt_items E ad mhs items s)) = in_ds s"
proof (induction items arbitrary: mhs s)
  case Nil
  then show ?case
    using index_ad_multihashes_frame(3) by (fastforce split: prod.splits option.splits)
next
  case (Cons item items)
  show ?case
  proof (cases item)
    case (HamtKey m)
    obtain e1 s1 where idx: "index_ad_multihashes E ad (mhs @ [m]) s = (e1, s1)" by (metis surj_pair)
    show ?thesis
      using Cons.IH [of "[]" s1] Cons.IH [of "mhs @ [m]" s] HamtKey idx
        index_ad_multihashes_frame(3) [OF idx]
      by (auto split: option.splits)
  qed simp_all
qed

lemma closed_delete_blocks:
  "block_closed E Q \<Longrightarrow> Q (in_ds s) \<Longrightarrow> Q (in_ds (fold (delete_block E) cs s))"
  by (induction cs arbitrary: s) (simp_all add: block_closedD(2))

lemma closed_hamt:
  assumes cl: "block_closed E Q" and sync: "legs_laws E sync" and "Q (in_ds (sc_ing sc))"
  shows "Q (in_ds (sc_ing (snd (ingest_hamt E sync publisher ad c sc))))"
proof (cases "load_hamt E c (in_ds (sc_ing sc))")
  case (Inl e)
  then show ?thesis
    using block_closedD(2) [OF cl] assms(3)
    by (simp add: ingest_hamt_def Let_def delete_hamt_nodes_def)
next
  case (Inr hn)
  obtain e2 sc2 where links: "sync_hamt_links sync publisher (en_hamt_links E hn) (sc\<lparr>sc_hamt := [c]\<rparr>) =
      (e2, sc2)" by (metis surj_pair)
  have q2: "Q (in_ds (sc_ing sc2))"
    using closed_hamt_links [OF cl sync, of "sc\<lparr>sc_hamt := [c]\<rparr>" publisher "en_hamt_links E hn"]
      links assms(3) by simp
  obtain e3 s3 where items: "index_hamt_items E ad []
      (en_hamt_iter E hn (read_opener E (in_ds (sc_ing sc2)))) (sc_ing sc2) = (e3, s3)"
    by (metis surj_pair)
  have "in_ds s3 = in_ds (sc_ing sc2)"
    using index_hamt_items_ds [of E ad "[]" _ "sc_ing sc2"] items by (metis snd_conv)
  then show ?thesis
    using Inr links items q2 closed_delete_blocks [OF cl]
    by (cases e2) (simp_all add: ingest_hamt_def Let_def delete_hamt_nodes_def)
qed

lemma closed_ingest_entries:
  assumes cl: "block_closed E Q" and sync: "legs_laws E sync" and "Q (in_ds s)"
  shows "Q (in_ds (snd (ingest_entries E sync publisher ad entries s)))"
proof -
  obtain res sc1 where first: "sync (sync_one publisher entries)
      \<lparr>sc_ing = s, sc_errs = [], sc_hamt = []\<rparr> = (res, sc1)" by (metis surj_pair)
  have q1: "Q (in_ds (sc_ing sc1))"
    by (rule closed_sync [OF cl sync first]) (use assms(3) in \<open>simp_all add: sync_one_def\<close>)
  show ?thesis
  proof (cases res)
    case (Inl e)
    with first q1 show ?thesis by (simp add: ingest_entries_def)
  next
    case (Inr c)
    show ?thesis
    proof (cases "load_node E c AnyPrototype (in_ds (sc_ing sc1))")
      case (Inl e)
      with first q1 Inr show ?thesis by (simp add: ingest_entries_def)
    next
      case node: (Inr n)
      obtain e2 sc2 where inner: "(if is_hamt (en_ipld E) n
          then ingest_hamt E sync publisher ad c sc1
          else ingest_chunk_chain E sync publisher ad c sc1) = (e2, sc2)" by (metis surj_pair)
      have "Q (in_ds (sc_ing sc2))"
        using closed_hamt [OF cl sync q1, of publisher ad c]
          closed_chunk_chain [OF cl sync q1, of publisher ad c] inner
        by (auto split: if_splits)
      then show ?thesis
        using first Inr node inner by (auto simp: ingest_entries_def split: option.splits)
    qed
  qed
qed

lemma closed_ingest_ad:
  assumes cl: "block_closed E Q" and sync: "legs_laws E sync" and "Q (in_ds s)"
    and res: "ingest_ad E sync now publisher c ad s = Inr (e, s')"
  shows "Q (in_ds s')"
proof (cases "lib_peer_decode (en_lib E) (ad_provider ad)")
  case (Inl x)
  with res assms(3) show ?thesis by (auto simp: ingest_ad_def)
next
  case (Inr p)
  then obtain err r where
    upd: "register_or_update (en_ds E) (en_lib E) (en_json E) now p (ad_addresses ad) c
      (publisher_info E publisher) (in_reg s) = Inr (err, r)"
    using res by (auto simp: ingest_ad_def go_bind_eq_Inr)
  show ?thesis
  proof (cases "err = None \<and> \<not> ad_is_rm ad \<and> ad_entries ad \<noteq> Some no_entries")
    case False
    then show ?thesis
      using res Inr upd assms(3)
      by (auto simp: ingest_ad_def Let_def split: prod.splits option.splits if_splits)
  next
    case True
    then obtain entries where "ad_entries ad = Some entries"
      using res Inr upd by (cases "ad_entries ad") (auto simp: ingest_ad_def Let_def)
    then show ?thesis
      using res Inr upd True assms(3)
        closed_ingest_entries [OF cl sync, of "s\<lparr>in_reg := r\<rparr>" publisher ad entries]
      by (auto simp: ingest_ad_def Let_def split: if_splits)
  qed
qed

section \<open>A run of the worker\<close>

definition worker_env ::
    "('d, 'i, 'n, 'h) env \<Rightarrow> ('i \<Rightarrow> contents) \<Rightarrow> ('d, 'i) ad_scope legs_sync \<Rightarrow> bool" where
  "worker_env E absv sync \<longleftrightarrow>
     indexer_laws (en_indexer E) absv \<and> legs_laws E sync \<and> datastore_laws (en_ds E) \<and>
     datastore_reliable (en_ds E) \<and> lib_laws (en_lib E)"

lemma worker_envD:
  assumes "worker_env E absv sync"
  shows "indexer_laws (en_indexer E) absv" "legs_laws E sync" "datastore_laws (en_ds E)"
    "datastore_reliable (en_ds E)" "lib_laws (en_lib E)"
  using assms by (simp_all add: worker_env_def)

text \<open>What the datastore says: the marks and the latest syncs.\<close>

definition records ::
    "('d, 'i, 'n, 'h) env \<Rightarrow> (cid \<Rightarrow> bool) \<Rightarrow> (peer_id \<Rightarrow> go_error + cid) \<Rightarrow> 'd \<Rightarrow> bool" where
  "records E done latest d \<longleftrightarrow>
     (\<forall>c. ad_already_processed (en_ds E) (en_lib E) c d = Inr (done c)) \<and>
     (\<forall>q. peer_valid q \<longrightarrow> get_latest_sync (en_ds E) (en_lib E) q d = latest q)"

lemma records_block_closed:
  assumes "worker_env E absv sync"
  shows "block_closed E (records E done latest)"
  using worker_envD [OF assms]
  by (auto simp: block_closed_def records_def ad_already_processed_def get_latest_sync_def
      ds_put_get ds_delete_get reliable_ops key_simps)

lemma records_mark:
  assumes "worker_env E absv sync" "peer_valid q" "c \<noteq> cid_undef" "records E done latest d"
  shows "records E (done(c := True)) (latest(q := Inr c))
    (snd (mark_ad_processed (en_ds E) (en_lib E) q c d))"
proof -
  note laws = worker_envD [OF assms(1)]
  have "ad_already_processed (en_ds E) (en_lib E) c'
      (snd (mark_ad_processed (en_ds E) (en_lib E) q c d)) = Inr ((done(c := True)) c')" for c'
    using assms(4) key_simps [OF laws(5)] assms(2)
    by (auto simp: records_def ad_already_processed_def mark_ad_processed_get laws)
  moreover have "get_latest_sync (en_ds E) (en_lib E) p
      (snd (mark_ad_processed (en_ds E) (en_lib E) q c d)) = (latest(q := Inr c)) p"
    if "peer_valid p" for p
    using latest_sync_after_mark [OF laws(3,4,5) assms(2) that assms(3)] assms(4) that
    by (simp add: records_def)
  ultimately show ?thesis by (simp add: records_def)
qed

text \<open>
  What is known of the multihashes of an advertisement that is ingested: at least that they decode, and
  possibly which they are.
\<close>

definition decodable :: "('d, 'i, 'n, 'h) env \<Rightarrow> ad_info \<Rightarrow> multihash list \<Rightarrow> bool" where
  "decodable E ai ms \<longleftrightarrow> (\<forall>m\<in>set ms. en_mh_ok E m)"

definition ingests_as ::
    "('d, 'i, 'n, 'h) env \<Rightarrow> ('i \<Rightarrow> contents) \<Rightarrow> ('d, 'i) ad_scope legs_sync \<Rightarrow>
       (ad_info \<Rightarrow> multihash list \<Rightarrow> bool) \<Rightarrow> bool" where
  "ingests_as E absv sync Q \<longleftrightarrow>
     (\<forall>now publisher ai p s s'. ingest_ad E sync now publisher (inf_cid ai) (inf_ad ai) s = Inr (None, s') \<longrightarrow>
        lib_peer_decode (en_lib E) (ad_provider (inf_ad ai)) = Inr p \<longrightarrow>
        (\<exists>ms. Q ai ms \<and> absv (in_indexer s') = ad_effect p (inf_ad ai) ms (absv (in_indexer s))))"

lemma ingests_decodable:
  assumes "worker_env E absv sync"
  shows "ingests_as E absv sync (decodable E)"
  unfolding ingests_as_def decodable_def
  using ingest_ad_success [OF worker_envD(1,2) [OF assms]] by fastforce

lemma finish_ad_frame [simp]:
  "ws_skipped (finish_ad E a ai ws) = ws_skipped ws"
  "ws_success (finish_ad E a ai ws) = ws_success ws"
  "ws_staging (finish_ad E a ai ws) = ws_staging ws"
  "ws_queue (finish_ad E a ai ws) = ws_queue ws"
  "ws_busy (finish_ad E a ai ws) = ws_busy ws"
  "ws_events (finish_ad E a ai ws) = ws_events ws @ [ad_event_of a ai None]"
  "in_indexer (ws_ing (finish_ad E a ai ws)) = in_indexer (ws_ing ws)"
  "in_reg (ws_ing (finish_ad E a ai ws)) = in_reg (ws_ing ws)"
  by (simp_all add: finish_ad_def send_event_def Let_def)

lemma finish_ad_records:
  assumes "worker_env E absv sync" "peer_valid (as_publisher a)" "inf_cid ai \<noteq> cid_undef"
    and "records E done latest (in_ds (ws_ing ws))"
  shows "records E (done(inf_cid ai := True)) (latest(as_publisher a := Inr (inf_cid ai)))
    (in_ds (ws_ing (finish_ad E a ai ws)))"
  using records_mark [OF assms] by (simp add: finish_ad_def send_event_def Let_def)

text \<open>One advertisement is finished, after it was ingested or given up, or the worker stops at it.\<close>

lemma work_one_cases:
  assumes "work_one E sync now a ai ws = Inr (ws', go_on)"
  obtains (finished) err ing ws0 where
      "ingest_ad E sync now (as_publisher a) (inf_cid ai) (inf_ad ai) (ws_ing ws) = Inr (err, ing)"
      "go_on" "ws' = finish_ad E a ai ws0" "ws_ing ws0 = ing" "ws_staging ws0 = ws_staging ws"
      "ws_events ws0 = ws_events ws" "ws_skipped ws \<le> ws_skipped ws0" "ws_skipped ws0 = ws_skipped ws \<longrightarrow> err = None"
    | (stopped) e ing where
      "ingest_ad E sync now (as_publisher a) (inf_cid ai) (inf_ad ai) (ws_ing ws) = Inr (Some e, ing)"
      "\<not> go_on" "\<not> permanent_error e" "ws' = send_event (ad_event_of a ai (Some e)) (ws\<lparr>ws_ing := ing\<rparr>)"
proof -
  obtain err ing where ad: "ingest_ad E sync now (as_publisher a) (inf_cid ai) (inf_ad ai) (ws_ing ws) = Inr (err, ing)"
    using assms by (auto simp: work_one_def go_bind_eq_Inr)
  show thesis
  proof (cases err)
    case None
    then show thesis
      using assms ad finished [OF ad, of "ws\<lparr>ws_ing := ing, ws_success := ws_success ws + 1\<rparr>"]
      by (simp add: work_one_def Let_def)
  next
    case (Some e)
    then show thesis
      using assms ad finished [OF ad, of "ws\<lparr>ws_ing := ing, ws_skipped := ws_skipped ws + 1\<rparr>"] stopped [of e ing]
      by (cases "permanent_error e") (simp_all add: work_one_def Let_def)
  qed
qed

lemma work_one_ok:
  assumes env: "worker_env E absv sync" and pub: "peer_valid (as_publisher a)"
    and cid: "inf_cid ai \<noteq> cid_undef"
    and prov: "lib_peer_decode (en_lib E) (ad_provider (inf_ad ai)) = Inr p"
    and rec: "records E done latest (in_ds (ws_ing ws))" and known: "ingests_as E absv sync Q"
    and res: "work_one E sync now a ai ws = Inr (ws', go_on)"
  shows "ws_skipped ws \<le> ws_skipped ws'" and "ws_staging ws' = ws_staging ws"
    and "go_on \<Longrightarrow> records E (done(inf_cid ai := True)) (latest(as_publisher a := Inr (inf_cid ai)))
      (in_ds (ws_ing ws'))"
    and "go_on \<Longrightarrow> ws_events ws' = ws_events ws @ [ad_event_of a ai None]"
    and "\<not> go_on \<Longrightarrow> records E done latest (in_ds (ws_ing ws'))"
    and "\<not> go_on \<Longrightarrow> \<exists>e. \<not> permanent_error e \<and>
      ws_events ws' = ws_events ws @ [ad_event_of a ai (Some e)]"
    and "go_on \<Longrightarrow> ws_skipped ws' = ws_skipped ws \<Longrightarrow> \<exists>ms. Q ai ms \<and>
      absv (in_indexer (ws_ing ws')) = ad_effect p (inf_ad ai) ms (absv (in_indexer (ws_ing ws)))"
proof -
  note kept = closed_ingest_ad [OF records_block_closed [OF env] worker_envD(2) [OF env] rec]
  show "ws_skipped ws \<le> ws_skipped ws'" "ws_staging ws' = ws_staging ws"
    by (cases rule: work_one_cases [OF res]; simp add: send_event_def)+
  show "ws_events ws' = ws_events ws @ [ad_event_of a ai None]" if "go_on"
    using that by (cases rule: work_one_cases [OF res]) simp_all
  show "records E (done(inf_cid ai := True)) (latest(as_publisher a := Inr (inf_cid ai)))
      (in_ds (ws_ing ws'))" if "go_on"
    using that finish_ad_records [OF env pub cid] kept by (cases rule: work_one_cases [OF res]) simp_all
  show "records E done latest (in_ds (ws_ing ws'))" if "\<not> go_on"
    using that kept by (cases rule: work_one_cases [OF res]) (simp_all add: send_event_def)
  show "\<exists>e. \<not> permanent_error e \<and> ws_events ws' = ws_events ws @ [ad_event_of a ai (Some e)]" if "\<not> go_on"
    using that by (cases rule: work_one_cases [OF res]) (auto simp: send_event_def)
  show "\<exists>ms. Q ai ms \<and>
      absv (in_indexer (ws_ing ws')) = ad_effect p (inf_ad ai) ms (absv (in_indexer (ws_ing ws)))"
    if "go_on" and "ws_skipped ws' = ws_skipped ws"
  proof (cases rule: work_one_cases [OF res, case_names finished stopped])
    case (finished err ing ws0)
    then have "err = None" using that by simp
    with finished known prov show ?thesis unfolding ingests_as_def by auto
  qed (use that in simp)
qed

text \<open>
  What is known after processing the advertisements of index below \<open>n\<close>, from the oldest: those of
  index at least \<open>k\<close> are done; \<open>k\<close> is 0 unless the one of index \<open>k - 1\<close> failed.
\<close>

definition outcome_events :: "assignment \<Rightarrow> ad_info list \<Rightarrow> nat \<Rightarrow> ad_event list \<Rightarrow> bool" where
  "outcome_events a ads k evs \<longleftrightarrow>
     (if k = 0 then evs = map (\<lambda>ai. ad_event_of a ai None) (rev ads)
      else \<exists>e. \<not> permanent_error e \<and>
        evs = map (\<lambda>ai. ad_event_of a ai None) (rev (drop k ads)) @
              [ad_event_of a (ads ! (k - 1)) (Some e)])"

lemma apply_unflagged_snoc:
  "length bs = length as \<Longrightarrow> apply_unflagged p (bs @ [b]) (as @ [x]) c =
     apply_unflagged p bs as (apply_unflagged p [b] [x] c)"
  by (induction bs as rule: list_induct2) (auto split: prod.splits)

text \<open>
  The outcome of the pass over the first \<open>n\<close> advertisements: \<open>k\<close> of them are left undone. \<open>Q\<close> is what
  is known of the multihashes of those that are not flagged.
\<close>

definition pass_outcome ::
    "('d, 'i, 'n, 'h) env \<Rightarrow> ('i \<Rightarrow> contents) \<Rightarrow> (ad_info \<Rightarrow> multihash list \<Rightarrow> bool) \<Rightarrow> assignment \<Rightarrow> peer_id \<Rightarrow>
       bool list \<Rightarrow> ad_info list \<Rightarrow> (cid \<Rightarrow> bool) \<Rightarrow> (peer_id \<Rightarrow> go_error + cid) \<Rightarrow> ('d, 'i) workers \<Rightarrow> ('d, 'i) workers \<Rightarrow> nat \<Rightarrow> bool" where
  "pass_outcome E absv Q a p fl ads done latest ws ws' k \<longleftrightarrow>
     k \<le> length ads \<and> ws_skipped ws \<le> ws_skipped ws' \<and> ws_staging ws' = ws_staging ws \<and>
     records E (\<lambda>c. done c \<or> c \<in> inf_cid ` set (drop k ads))
       (if k < length ads then latest(as_publisher a := Inr (inf_cid (ads ! k))) else latest)
       (in_ds (ws_ing ws')) \<and>
     (\<exists>evs. ws_events ws' = ws_events ws @ evs \<and> outcome_events a ads k evs) \<and>
     (k = 0 \<and> ws_skipped ws' = ws_skipped ws \<longrightarrow>
        (\<exists>mss. length mss = length ads \<and> (\<forall>i<length ads. \<not> fl ! i \<longrightarrow> Q (ads ! i) (mss ! i)) \<and>
           absv (in_indexer (ws_ing ws')) =
             apply_unflagged p fl (zip ads mss) (absv (in_indexer (ws_ing ws)))))"

lemma records_cong:
  "records E done latest d \<Longrightarrow> (\<And>c. done c = done' c) \<Longrightarrow> records E done' latest d"
  by (simp add: records_def)

lemma outcome_events_snoc:
  assumes "outcome_events a ads k evs" and "k \<le> length ads"
  shows "outcome_events a (ads @ [ai]) k (ad_event_of a ai None # evs)"
proof (cases "k = 0")
  case False
  then have "(ads @ [ai]) ! (k - 1) = ads ! (k - 1)" using assms(2) by (simp add: nth_append)
  then show ?thesis using assms False by (auto simp: outcome_events_def)
qed (use assms in \<open>simp add: outcome_events_def\<close>)

text \<open>Adding the oldest advertisement, done first, to the outcome of the newer ones.\<close>

lemma outcome_records_snoc:
  assumes "k \<le> length ads"
    and "records E (\<lambda>c. (done(inf_cid ai := True)) c \<or> c \<in> inf_cid ` set (drop k ads))
      (if k < length ads then latest(q := Inr (inf_cid ai), q := Inr (inf_cid (ads ! k))) else latest(q := Inr (inf_cid ai))) d"
  shows "records E (\<lambda>c. done c \<or> c \<in> inf_cid ` set (drop k (ads @ [ai])))
      (if k < length (ads @ [ai]) then latest(q := Inr (inf_cid ((ads @ [ai]) ! k))) else latest) d"
  using assms by (cases "k < length ads") (auto simp: nth_append elim!: records_cong)

lemma outcome_contents_snoc:
  assumes "length fl = length ads" and "\<not> b \<longrightarrow> Q ai ms" and "c1 = apply_unflagged p [b] [(ai, ms)] c"
    and "length mss = length ads" and "\<forall>i<length ads. \<not> fl ! i \<longrightarrow> Q (ads ! i) (mss ! i)"
  shows "length (mss @ [ms]) = length (ads @ [ai])"
    and "\<forall>i<length (ads @ [ai]). \<not> (fl @ [b]) ! i \<longrightarrow> Q ((ads @ [ai]) ! i) ((mss @ [ms]) ! i)"
    and "apply_unflagged p fl (zip ads mss) c1 = apply_unflagged p (fl @ [b]) (zip (ads @ [ai]) (mss @ [ms])) c"
proof -
  show "\<forall>i<length (ads @ [ai]). \<not> (fl @ [b]) ! i \<longrightarrow> Q ((ads @ [ai]) ! i) ((mss @ [ms]) ! i)"
    using assms by (simp add: nth_append less_Suc_eq)
qed (use assms apply_unflagged_snoc [of fl "zip ads mss" p b "(ai, ms)" c] in simp_all)

lemma pass_outcome_snoc:
  assumes rest: "pass_outcome E absv Q a p fl ads (done(inf_cid ai := True))
      (latest(as_publisher a := Inr (inf_cid ai))) ws1 ws' k"
    and len: "length fl = length ads"
    and ev: "ws_events ws1 = ws_events ws @ [ad_event_of a ai None]"
    and st: "ws_staging ws1 = ws_staging ws" and sk: "ws_skipped ws \<le> ws_skipped ws1"
    and eff: "ws_skipped ws1 = ws_skipped ws \<Longrightarrow> \<exists>ms. (\<not> b \<longrightarrow> Q ai ms) \<and>
      absv (in_indexer (ws_ing ws1)) = apply_unflagged p [b] [(ai, ms)] (absv (in_indexer (ws_ing ws)))"
  shows "pass_outcome E absv Q a p (fl @ [b]) (ads @ [ai]) done latest ws ws' k"
proof -
  note r = rest [unfolded pass_outcome_def]
  have k: "k \<le> length ads" using r by blast
  obtain evs where evs: "ws_events ws' = ws_events ws1 @ evs" "outcome_events a ads k evs"
    using r by blast
  have events: "\<exists>evs. ws_events ws' = ws_events ws @ evs \<and> outcome_events a (ads @ [ai]) k evs"
    using evs ev outcome_events_snoc [OF evs(2) k]
    by (intro exI [of _ "ad_event_of a ai None # evs"]) simp
  have contents: "\<exists>mss. length mss = length (ads @ [ai]) \<and>
      (\<forall>i<length (ads @ [ai]). \<not> (fl @ [b]) ! i \<longrightarrow> Q ((ads @ [ai]) ! i) (mss ! i)) \<and>
      absv (in_indexer (ws_ing ws')) =
        apply_unflagged p (fl @ [b]) (zip (ads @ [ai]) mss) (absv (in_indexer (ws_ing ws)))"
    if "k = 0" "ws_skipped ws' = ws_skipped ws"
  proof -
    have skips: "k = 0" "ws_skipped ws1 = ws_skipped ws" "ws_skipped ws' = ws_skipped ws1" using r sk that by auto
    obtain ms where ms: "\<not> b \<longrightarrow> Q ai ms"
      "absv (in_indexer (ws_ing ws1)) = apply_unflagged p [b] [(ai, ms)] (absv (in_indexer (ws_ing ws)))"
      using eff [OF skips(2)] by blast
    obtain mss where mss: "length mss = length ads" "\<forall>i<length ads. \<not> fl ! i \<longrightarrow> Q (ads ! i) (mss ! i)"
      "absv (in_indexer (ws_ing ws')) = apply_unflagged p fl (zip ads mss) (absv (in_indexer (ws_ing ws1)))"
      using r skips(1,3) by auto
    show ?thesis
      using outcome_contents_snoc [OF len ms mss(1,2)] mss(3) by (intro exI [of _ "mss @ [ms]"]) simp
  qed
  have "ws_skipped ws \<le> ws_skipped ws'" using r sk by linarith
  moreover have "ws_staging ws' = ws_staging ws" using r st by simp
  moreover have "records E (\<lambda>c. done c \<or> c \<in> inf_cid ` set (drop k (ads @ [ai])))
      (if k < length (ads @ [ai]) then latest(as_publisher a := Inr (inf_cid ((ads @ [ai]) ! k))) else latest)
      (in_ds (ws_ing ws'))"
    by (rule outcome_records_snoc) (use r in simp_all)
  moreover have "k \<le> length (ads @ [ai])" using k by simp
  ultimately show ?thesis unfolding pass_outcome_def using events contents by blast
qed

lemma work_flags_outcome:
  assumes env: "worker_env E absv sync" and pub: "peer_valid (as_publisher a)"
    and cids: "\<And>ai. ai \<in> set (as_ads a) \<Longrightarrow> inf_cid ai \<noteq> cid_undef"
    and prov: "\<And>ai. ai \<in> set (take n (as_ads a)) \<Longrightarrow>
      lib_peer_decode (en_lib E) (ad_provider (inf_ad ai)) = Inr p"
    and "n \<le> length (as_ads a)" "n \<le> length fl"
    and "records E done latest (in_ds (ws_ing ws))"
    and "work_flags E sync nows a fl n ws = Inr ws'" and known: "ingests_as E absv sync Q"
  shows "\<exists>k. pass_outcome E absv Q a p (take n fl) (take n (as_ads a)) done latest ws ws' k"
  using assms(4-8)
proof (induction n arbitrary: ws "done" latest)
  case 0
  then show ?case
    by (intro exI [of _ 0]) (auto simp: pass_outcome_def outcome_events_def)
next
  case (Suc i)
  define ai where "ai = as_ads a ! i"
  have i: "i < length (as_ads a)" "i < length fl" using Suc.prems(2,3) by simp_all
  have ads: "take (Suc i) (as_ads a) = take i (as_ads a) @ [ai]" and flags: "take (Suc i) fl = take i fl @ [fl ! i]"
    using i by (simp_all add: take_Suc_conv_app_nth ai_def)
  have cid: "inf_cid ai \<noteq> cid_undef" using i by (intro cids) (simp add: ai_def)
  have prov_ai: "lib_peer_decode (en_lib E) (ad_provider (inf_ad ai)) = Inr p"
    and provs: "\<And>ai. ai \<in> set (take i (as_ads a)) \<Longrightarrow> lib_peer_decode (en_lib E) (ad_provider (inf_ad ai)) = Inr p"
    using Suc.prems(1) ads by simp_all
  have newer: "\<exists>k. pass_outcome E absv Q a p (take (Suc i) fl) (take (Suc i) (as_ads a)) done latest ws ws' k"
    if "records E (done(inf_cid ai := True)) (latest(as_publisher a := Inr (inf_cid ai))) (in_ds (ws_ing ws1))"
      and "work_flags E sync nows a fl i ws1 = Inr ws'" and "ws_events ws1 = ws_events ws @ [ad_event_of a ai None]"
      and "ws_staging ws1 = ws_staging ws" and "ws_skipped ws \<le> ws_skipped ws1"
      and "ws_skipped ws1 = ws_skipped ws \<Longrightarrow> \<exists>ms. (\<not> fl ! i \<longrightarrow> Q ai ms) \<and>
        absv (in_indexer (ws_ing ws1)) = apply_unflagged p [fl ! i] [(ai, ms)] (absv (in_indexer (ws_ing ws)))" for ws1
  proof -
    note new = that
    obtain k where "pass_outcome E absv Q a p (take i fl) (take i (as_ads a)) (done(inf_cid ai := True))
        (latest(as_publisher a := Inr (inf_cid ai))) ws1 ws' k"
      using Suc.IH [OF provs _ _ new(1,2)] i by fastforce
    from pass_outcome_snoc [OF this _ new(3-6)] show ?thesis unfolding ads flags using i by auto
  qed
  show ?case
  proof (cases "fl ! i")
    case True
    then show ?thesis
      using Suc.prems(5) finish_ad_records [OF env pub cid Suc.prems(4)]
      by (intro newer [of "finish_ad E a ai ws"]) (auto simp: ai_def intro!: exI [of _ "[]"])
  next
    case False
    then obtain ws1 go_on where one: "work_one E sync (nows i) a ai ws = Inr (ws1, go_on)"
      and rest: "(if go_on then work_flags E sync nows a fl i ws1 else Inr ws1) = Inr ws'"
      using Suc.prems(5) by (auto simp: go_bind_eq_Inr ai_def)
    note ok = work_one_ok [OF env pub cid prov_ai Suc.prems(4) known one]
    show ?thesis
    proof (cases "go_on")
      case True
      then show ?thesis using rest ok False by (intro newer [of ws1]) auto
    next
      case stop: False
      then obtain e where e: "\<not> permanent_error e" "ws_events ws1 = ws_events ws @ [ad_event_of a ai (Some e)]"
        using ok(6) by blast
      then have "outcome_events a (take (Suc i) (as_ads a)) (Suc i) [ad_event_of a ai (Some e)]"
        using i by (cases e) (auto simp: outcome_events_def ai_def)
      then have "pass_outcome E absv Q a p (take (Suc i) fl) (take (Suc i) (as_ads a)) done latest ws ws' (Suc i)"
        using ok(1,2,5) stop e(2) i rest by (auto simp: pass_outcome_def)
      then show ?thesis by blast
    qed
  qed
qed

end
