(* ===== verification/Ingest_Ad_Properties.thy ===== *)
theory Ingest_Ad_Properties
  imports Ingest_Ad
begin

text \<open>
  The properties of ingesting one advertisement, with a concrete environment on which they are
  applied: IPLD blocks that a table decodes, and a publisher that serves blocks from a table.
\<close>

section \<open>A concrete environment\<close>

datatype table_node = AdNode advertisement | ChunkNode entry_chunk | HamtNode "multihash list"

definition table_ipld :: "(bytes \<rightharpoonup> table_node) \<Rightarrow> (table_node, multihash list) ipld" where
  "table_ipld T =
     \<lparr>ip_codec = (\<lambda>c. 0),
      ip_decoder = (\<lambda>_. Inr (\<lambda>p b. case T b of None \<Rightarrow> Inl ''bad block'' | Some n \<Rightarrow> Inr n)),
      ip_prototype = (\<lambda>n. case n of AdNode _ \<Rightarrow> AdvertisementPrototype
        | ChunkNode _ \<Rightarrow> EntryChunkPrototype | HamtNode _ \<Rightarrow> HashMapRootPrototype),
      ip_assign = (\<lambda>p n. Inl ''wrong prototype''),
      ip_unwrap_ad = (\<lambda>n. case n of AdNode ad \<Rightarrow> Some ad | _ \<Rightarrow> None),
      ip_unwrap_chunk = (\<lambda>n. case n of ChunkNode ch \<Rightarrow> Some ch | _ \<Rightarrow> None),
      ip_unwrap_hamt = (\<lambda>n. case n of HamtNode ms \<Rightarrow> Some ms | _ \<Rightarrow> None),
      ip_lookup = (\<lambda>n f. case n of AdNode _ \<Rightarrow> f = ''Signature'' | ChunkNode _ \<Rightarrow> False
        | HamtNode _ \<Rightarrow> f = ''hamt'')\<rparr>"

definition table_env ::
    "'i indexer \<Rightarrow> (bytes \<rightharpoonup> table_node) \<Rightarrow>
       ((string \<times> bytes) list, 'i, table_node, multihash list) env" where
  "table_env X T =
     \<lparr>en_ds = alist_ds, en_lib = hex_lib, en_json = plain_json, en_indexer = X,
      en_ipld = table_ipld T, en_http_peers = None, en_host_peers = None,
      en_mh_ok = (\<lambda>m. m \<noteq> ''bad''), en_hamt_links = (\<lambda>_. []),
      en_hamt_iter = (\<lambda>ms _. map HamtKey ms), en_entries_limit = LimitNone\<rparr>"

text \<open>A sync that takes the blocks from a table and follows the CIDs that the hook sets.\<close>

fun serve_chain ::
    "('d, 'i, 'n, 'h) env \<Rightarrow> (cid \<rightharpoonup> bytes) \<Rightarrow> nat \<Rightarrow>
       (cid \<Rightarrow> ('d, 'i) ad_scope \<Rightarrow> hook_action \<times> ('d, 'i) ad_scope) \<Rightarrow> cid \<Rightarrow> ('d, 'i) ad_scope \<Rightarrow>
       (string + cid) \<times> ('d, 'i) ad_scope" where
  "serve_chain E blocks 0 h c sc = (Inl ''too deep'', sc)"
| "serve_chain E blocks (Suc n) h c sc =
     (case blocks c of
        None \<Rightarrow> (Inl ''datatransfer failed: content not found'', sc)
      | Some b \<Rightarrow>
          (case h c (store_block E c b sc) of
             (FailSync e, sc') \<Rightarrow> (Inl (error_string e), sc')
           | (SetNextSyncCid c', sc') \<Rightarrow>
               if c' = cid_undef then (Inr c, sc') else serve_chain E blocks n h c' sc'
           | (NoAction, sc') \<Rightarrow> (Inr c, sc')))"

definition table_sync ::
    "('d, 'i, 'n, 'h) env \<Rightarrow> (cid \<rightharpoonup> bytes) \<Rightarrow> ('d, 'i) ad_scope legs_sync" where
  "table_sync E blocks rq sc =
     (case rq_hook rq of
        None \<Rightarrow>
          (case blocks (rq_cid rq) of
             None \<Rightarrow> (Inl ''datatransfer failed: content not found'', sc)
           | Some b \<Rightarrow> (Inr (rq_cid rq), store_block E (rq_cid rq) b sc))
      | Some h \<Rightarrow> serve_chain E blocks 100 h (rq_cid rq) sc)"

lemma serve_chain_steps:
  "sync_steps E (Some h) sc0 sc \<Longrightarrow> sync_steps E (Some h) sc0 (snd (serve_chain E blocks n h c sc))"
proof (induction n arbitrary: c sc)
  case (Suc n)
  show ?case
  proof (cases "blocks c")
    case (Some b)
    obtain a sc' where h: "h c (store_block E c b sc) = (a, sc')" by (metis surj_pair)
    have "sync_steps E (Some h) sc0 sc'"
      using sync_hook [OF sync_store [OF Suc.prems, of c b] refl, of c] h by simp
    then show ?thesis using Suc.IH Some h by (cases a) auto
  qed (use Suc.prems in simp)
qed simp

lemma table_sync_laws: "legs_laws E (table_sync E blocks)"
  unfolding legs_laws_def table_sync_def
  by (auto intro: sync_steps.intros serve_chain_steps split: option.splits)

text \<open>An indexer that refuses every put.\<close>

definition full_indexer :: "contents indexer" where
  "full_indexer = plain_indexer\<lparr>ix_put := (\<lambda>c v mhs. (Some ''disk full'', c))\<rparr>"

definition empty_contents :: contents where
  "empty_contents = \<lparr>ct_meta = Map.empty, ct_entries = {}\<rparr>"

definition fresh_ingester :: "registry_policy \<Rightarrow> ((string \<times> bytes) list, contents) ingester" where
  "fresh_ingester pol =
     \<lparr>in_ds = [], in_indexer = empty_contents, in_reg = start_registry (Some []) pol,
      in_batch_size = 2\<rparr>"

text \<open>
  A provider \<open>p1\<close> (as the library prints it) with one advertisement whose entries are two chunks.
\<close>

definition chain_ad :: advertisement where
  "chain_ad =
     \<lparr>ad_previous = None, ad_provider = hex_string ''p1'', ad_addresses = [hex_string ''a1''],
      ad_signature = [], ad_entries = Some ''c1'', ad_context = ''ctx'', ad_metadata = ''m'',
      ad_is_rm = False\<rparr>"

definition chain_table :: "bytes \<rightharpoonup> table_node" where
  "chain_table =
     [''b1'' \<mapsto> ChunkNode \<lparr>ch_entries = [''x'', ''bad'', ''y'', ''z''], ch_next = Some ''c2''\<rparr>,
      ''b2'' \<mapsto> ChunkNode \<lparr>ch_entries = [''w''], ch_next = None\<rparr>]"

definition chain_blocks :: "cid \<rightharpoonup> bytes" where
  "chain_blocks = [''c1'' \<mapsto> ''b1'', ''c2'' \<mapsto> ''b2'']"

section \<open>The link system's writer\<close>

text \<open>C13: What a sync stores. When the link system's writer commits a block, it is put into
the datastore under its own CID, and it decodes; if it is an advertisement, its signature
verifies and the signer is the provider named in it or a publisher that the policy allows to
publish for that provider. When the writer answers an error, the datastore is as before, unless
it is the put itself that failed.\<close>

theorem write_committer_verifies:
  assumes "write_committer E K r c buf d = Inr (err, d')"
  shows "case err of
      None \<Rightarrow> \<exists>node. decode_ipld_node (en_ipld E) (ip_codec (en_ipld E) c) buf AnyPrototype = Inr node \<and>
        d' = snd (ds_put (en_ds E) d (block_key (en_lib E) c) buf) \<and>
        (if is_advertisement (en_ipld E) node then
           \<exists>ad signer prov. unwrap_advertisement (en_ipld E) node = Inr ad \<and>
             verify_signature (en_lib E) K ad = Inr (Inr signer) \<and>
             lib_peer_decode (en_lib E) (ad_provider ad) = Inr prov \<and>
             (signer = prov \<or> publish_allowed r signer prov)
         else True)
    | Some e \<Rightarrow> d' = d \<or> fst (ds_put (en_ds E) d (block_key (en_lib E) c) buf) \<noteq> None"
proof (cases "decode_ipld_node (en_ipld E) (ip_codec (en_ipld E) c) buf AnyPrototype")
  case (Inl e)
  with assms show ?thesis by (auto simp: write_committer_def)
next
  case (Inr n)
  have put: "(case ds_put (en_ds E) d (block_key (en_lib E) c) buf of
      (e, d') \<Rightarrow> (map_option ErrMsg e, d')) = (err, d') \<Longrightarrow>
      d' = snd (ds_put (en_ds E) d (block_key (en_lib E) c) buf) \<and>
      (err \<noteq> None \<longrightarrow> fst (ds_put (en_ds E) d (block_key (en_lib E) c) buf) \<noteq> None)"
    by (auto split: prod.splits)
  show ?thesis
  proof (cases "is_advertisement (en_ipld E) n")
    case False
    then show ?thesis
      using assms Inr put by (auto simp: write_committer_def split: option.splits)
  next
    case True
    obtain res where res: "verify_advertisement E K r n = Inr res"
      using assms Inr True
      by (cases "verify_advertisement E K r n") (auto simp: write_committer_def)
    have commit: "(case res of
          Inl e \<Rightarrow> (Some e, d)
        | Inr p \<Rightarrow> (case ds_put (en_ds E) d (block_key (en_lib E) c) buf of
            (e, d') \<Rightarrow> (map_option ErrMsg e, d'))) = (err, d')"
      using assms Inr True res by (cases res) (simp_all add: write_committer_def Let_def)
    show ?thesis
    proof (cases res)
      case (Inl e)
      then show ?thesis using commit by auto
    next
      case (Inr prov)
      then obtain ad signer where "unwrap_advertisement (en_ipld E) n = Inr ad"
        "verify_signature (en_lib E) K ad = Inr (Inr signer)"
        "lib_peer_decode (en_lib E) (ad_provider ad) = Inr prov"
        "signer = prov \<or> publish_allowed r signer prov"
        using res
        by (cases "unwrap_advertisement (en_ipld E) n")
           (auto simp: verify_advertisement_def go_bind_eq_Inr case_sum_eq_Inr if_Inl_eq_Inr)
      then show ?thesis
        using commit Inr put \<open>decode_ipld_node _ _ _ _ = _\<close> by (auto split: option.splits)
    qed
  qed
qed

theorem write_committer_verifies_witness:
  "\<exists>node. decode_ipld_node (table_ipld chain_table) 0 ''b1'' AnyPrototype = Inr node \<and>
     \<not> is_advertisement (table_ipld chain_table) node"
proof -
  have run: "write_committer (table_env plain_indexer chain_table) toy_crypto
      (start_registry None open_policy) ''c1'' ''b1'' [] =
    Inr (None, [(block_key hex_lib ''c1'', ''b1'')])"
    by (simp add: write_committer_def table_env_def table_ipld_def decode_ipld_node_def
        chain_table_def is_advertisement_def alist_ds_def)
  from write_committer_verifies [OF run] show ?thesis
    by (auto simp: table_env_def table_ipld_def decode_ipld_node_def chain_table_def
        is_advertisement_def)
qed

section \<open>Batching\<close>

text \<open>C14: Batching is transparent: when indexing the multihashes of an advertisement succeeds,
the contents of the indexer are as if the multihashes that decode had been put (or removed) in
one call, whatever the batch size; when none decodes, nothing is stored at all, not even the
metadata.\<close>

theorem index_ad_multihashes_one_put:
  assumes "indexer_laws (en_indexer E) absv"
    and "index_ad_multihashes E ad mhs s = (None, s')"
  shows "\<exists>p. lib_peer_decode (en_lib E) (ad_provider ad) = Inr p \<and>
     absv (in_indexer s') =
       (let good = filter (en_mh_ok E) mhs
        in if good = [] then absv (in_indexer s)
           else if ad_is_rm ad then contents_remove (ad_value p ad) good (absv (in_indexer s))
           else contents_put (ad_value p ad) good (absv (in_indexer s))) \<and>
     s' = s\<lparr>in_indexer := in_indexer s'\<rparr>"
  using assms by (rule index_ad_multihashes_contents)

theorem index_ad_multihashes_one_put_witness:
  "in_indexer (snd (index_ad_multihashes (table_env plain_indexer chain_table) chain_ad
       [''x'', ''bad'', ''y'', ''z''] (fresh_ingester open_policy))) =
     contents_put (ad_value ''p1'' chain_ad) [''x'', ''y'', ''z''] empty_contents"
proof -
  have laws: "indexer_laws (en_indexer (table_env plain_indexer chain_table)) id"
    using plain_indexer_laws by (simp add: table_env_def)
  define run where "run = index_ad_multihashes (table_env plain_indexer chain_table) chain_ad
       [''x'', ''bad'', ''y'', ''z''] (fresh_ingester open_policy)"
  have "fst run = None" unfolding run_def by code_simp
  then have "run = (None, snd run)" by (simp add: prod_eq_iff)
  from index_ad_multihashes_one_put [OF laws this [unfolded run_def]] show ?thesis
    by (auto simp: table_env_def hex_lib_def chain_ad_def fresh_ingester_def run_def)
qed

text \<open>An indexer that only records the batches it is given.\<close>

definition recording_indexer :: "multihash list list indexer" where
  "recording_indexer =
     \<lparr>ix_get = (\<lambda>i m. Inr None), ix_put = (\<lambda>i v ms. (None, i @ [ms])),
      ix_remove = (\<lambda>i v ms. (None, i @ [ms])), ix_remove_context = (\<lambda>i p c. (None, i)),
      ix_size = (\<lambda>i. Inr 0)\<rparr>"

lemma store_batch_recording [simp]:
  "store_batch recording_indexer v ms is_rm i = (None, i @ [ms])"
  by (simp add: store_batch_def recording_indexer_def)

text \<open>C36: Every batch that reaches the indexer is full, except that the last may be shorter but
not empty; none is longer than the configured size, and together, in order, they are the
multihashes that decode.\<close>

theorem index_batches_bounds:
  assumes "length batch < cap"
  shows "\<exists>bs. index_batches recording_indexer ok v is_rm cap batch mhs i = (None, i @ bs) \<and>
     concat bs = batch @ filter ok mhs \<and> (\<forall>b\<in>set (butlast bs). length b = cap) \<and>
     (\<forall>b\<in>set bs. b \<noteq> [] \<and> length b \<le> cap)"
  using assms
proof (induction mhs arbitrary: batch i)
  case Nil
  then show ?case by (cases "batch = []") auto
next
  case (Cons m mhs)
  show ?case
  proof (cases "ok m \<and> length (batch @ [m]) = cap")
    case True
    then obtain bs where
      bs: "index_batches recording_indexer ok v is_rm cap [] mhs (i @ [batch @ [m]]) =
          (None, (i @ [batch @ [m]]) @ bs)" "concat bs = filter ok mhs"
        "\<forall>b\<in>set (butlast bs). length b = cap" "\<forall>b\<in>set bs. b \<noteq> [] \<and> length b \<le> cap"
      using Cons.IH [of "[]" "i @ [batch @ [m]]"] Cons.prems by auto
    then show ?thesis
      using True by (intro exI [of _ "(batch @ [m]) # bs"]) auto
  next
    case False
    then show ?thesis
      using Cons.IH [of "if ok m then batch @ [m] else batch" i] Cons.prems by auto
  qed
qed

theorem index_batches_bounds_witness:
  "index_batches recording_indexer (\<lambda>m. m \<noteq> ''bad'')
     \<lparr>iv_provider = ''p1'', iv_context = ''c1'', iv_metadata = ''m1''\<rparr> False 2 [] [''a'', ''bad'', ''b'', ''c''] [] =
     (None, [[''a'', ''b''], [''c'']])"
  using index_batches_bounds [of "[]" 2 "\<lambda>m. m \<noteq> ''bad''"
    "\<lparr>iv_provider = ''p1'', iv_context = ''c1'', iv_metadata = ''m1''\<rparr>" False "[''a'', ''bad'', ''b'', ''c'']" "[]"]
  by simp

section \<open>One advertisement\<close>

lemma go_success: "\<not> isl x \<Longrightarrow> fst (projr x) = None \<Longrightarrow> x = Inr (None, snd (projr x))"
  by (cases x) (auto simp: prod_eq_iff)


definition chain_run :: "(ad_ingest_error option \<times> ((string \<times> bytes) list, contents) ingester) go" where
  "chain_run = ingest_ad (table_env plain_indexer chain_table)
     (table_sync (table_env plain_indexer chain_table) chain_blocks) 5 ''pub'' ''ad1'' chain_ad
     (fresh_ingester open_policy)"

lemma chain_run_ok: "\<not> isl chain_run \<and> fst (projr chain_run) = None"
  by code_simp


text \<open>The policy decides before anything is fetched or indexed: an advertisement of a provider
that the registry does not know and the policy does not allow is answered with a registration
error, and the indexer, the datastore and the registry stay as they were.\<close>

theorem ingest_ad_refused:
  assumes "lib_peer_decode (en_lib E) (ad_provider ad) = Inr p"
    and "lookup_provider (in_reg s) p = None" and "\<not> policy_allowed (rg_policy (in_reg s)) p"
    and "ingest_ad E sync now publisher ad_cid ad s = Inr (err, s')"
  shows "(\<exists>e. err = Some (RegisterProviderErr, e)) \<and> s' = s"
proof -
  from assms(1,4) obtain e r where
    upd: "register_or_update (en_ds E) (en_lib E) (en_json E) now p (ad_addresses ad) ad_cid
      (publisher_info E publisher) (in_reg s) = Inr (e, r)"
    by (auto simp: ingest_ad_def go_bind_eq_Inr split: sum.splits)
  then obtain info full where
    info: "update_publisher p (publisher_info E publisher) (lookup_provider (in_reg s) p) =
        Inr (info, full)" and
    res: "(e, r) = (if full
        then register (en_ds E) (en_lib E) (en_json E)
               (updated_info (en_lib E) now (ad_addresses ad) ad_cid info) (in_reg s)
        else sync_register (en_ds E) (en_lib E) (en_json E)
               (updated_info (en_lib E) now (ad_addresses ad) ad_cid info) (in_reg s))"
    by (rule register_or_update_Inr)
  have full and id: "pi_id (updated_info (en_lib E) now (ad_addresses ad) ad_cid info) = p"
    using update_publisher_Inr(1,7) [OF info] assms(2) by auto
  have "register_check (updated_info (en_lib E) now (ad_addresses ad) ad_cid info) (in_reg s) \<noteq> None"
    using assms(3) id by (simp add: register_check_None)
  then have "e \<noteq> None \<and> r = in_reg s"
    using res \<open>full\<close> by (auto simp: register_def split: option.splits)
  then show ?thesis
    using assms(1,4) upd by (auto simp: ingest_ad_def Let_def)
qed

definition closed_policy :: registry_policy where
  "closed_policy = \<lparr>rp_allow = \<lparr>pol_value = False, pol_except = {||}\<rparr>,
                  rp_publish = \<lparr>pol_value = False, pol_except = {||}\<rparr>\<rparr>"

theorem ingest_ad_refused_witness:
  "snd (projr (ingest_ad (table_env plain_indexer chain_table)
     (table_sync (table_env plain_indexer chain_table) chain_blocks) 5 ''pub'' ''ad1'' chain_ad
     (fresh_ingester closed_policy))) = fresh_ingester closed_policy"
proof -
  define run where "run = ingest_ad (table_env plain_indexer chain_table)
     (table_sync (table_env plain_indexer chain_table) chain_blocks) 5 ''pub'' ''ad1'' chain_ad
     (fresh_ingester closed_policy)"
  have "\<not> isl run" unfolding run_def by code_simp
  then have "run = Inr (fst (projr run), snd (projr run))" by (simp add: sum.collapse(2))
  from ingest_ad_refused [OF _ _ _ this [unfolded run_def], of "''p1''"] show ?thesis
    by (simp add: table_env_def hex_lib_def chain_ad_def fresh_ingester_def closed_policy_def
        start_registry_def lookup_provider_def policy_allowed_def policy_eval_def run_def)
qed

end
