(* ===== verification/Ingest_Worker_Properties.thy ===== *)
theory Ingest_Worker_Properties
  imports Ingest_Worker_Correct Ingest_Ad_Properties
begin

text \<open>
  The properties of the ingest worker, and what becomes of an advertisement whose content the
  indexer could not store.
\<close>

section \<open>Skipping and marking\<close>

lemma apply_unflagged_cong:
  assumes "length mss = length ads" "length mss' = length ads" "length fl = length ads"
    and "\<And>i. i < length ads \<Longrightarrow> \<not> fl ! i \<Longrightarrow> mss' ! i = mss ! i"
  shows "apply_unflagged p fl (zip ads mss) c = apply_unflagged p fl (zip ads mss') c"
  using assms
proof (induction ads arbitrary: mss mss' fl)
  case Nil
  then show ?case by simp
next
  case (Cons a ads)
  from Cons.prems obtain m ms m' ms' b bs where eq: "mss = m # ms" "mss' = m' # ms'" "fl = b # bs"
    by (metis length_Suc_conv list.size(4))
  have tails: "ms' ! i = ms ! i" if "i < length ads" "\<not> bs ! i" for i
    using Cons.prems(4) [of "Suc i"] that eq by simp
  have "apply_unflagged p bs (zip ads ms) c = apply_unflagged p bs (zip ads ms') c"
    by (rule Cons.IH) (use Cons.prems(1-3) eq tails in auto)
  moreover have "\<not> b \<Longrightarrow> m' = m" using Cons.prems(4) [of 0] eq by simp
  ultimately show ?case by (simp add: eq)
qed

text \<open>What a run of the worker is given: an assignment of one provider, and the records.\<close>

definition assignment_ok ::
    "('d, 'i, 'n, 'h) env \<Rightarrow> peer_id \<Rightarrow> assignment \<Rightarrow> bool" where
  "assignment_ok E p a \<longleftrightarrow> as_ads a \<noteq> [] \<and> peer_valid (as_publisher a) \<and>
     (\<forall>ai\<in>set (as_ads a). inf_cid ai \<noteq> cid_undef \<and>
        lib_peer_decode (en_lib E) (ad_provider (inf_ad ai)) = Inr p)"

lemma worker_outcome:
  assumes env: "worker_env E absv sync" and st: "ws_staging ws p = Some (Some a)"
    and ok: "assignment_ok E p a" and rec: "records E done latest (in_ds (ws_ing ws))"
    and run: "ingest_worker_logic E sync nows p ws = Inr ws'" and known: "ingests_as E absv sync Q"
  shows "\<exists>k. pass_outcome E absv Q a p (skip_flags {} (fresh_ads done (as_ads a)))
    (fresh_ads done (as_ads a)) done latest (ws\<lparr>ws_staging := (ws_staging ws)(p \<mapsto> None)\<rparr>) ws' k"
proof -
  let ?fresh = "fresh_ads done (as_ads a)"
  let ?ws = "ws\<lparr>ws_staging := (ws_staging ws)(p \<mapsto> None)\<rparr>"
  have prefix: "take (length ?fresh) (as_ads a) = ?fresh"
    unfolding fresh_ads_def by (metis takeWhile_eq_take)
  have "ingest_worker_logic E sync nows p ws =
      work_flags E sync nows a (skip_flags {} ?fresh) (length ?fresh) ?ws"
    by (rule worker_logic_flags [OF st]) (use ok rec in \<open>simp_all add: assignment_ok_def records_def\<close>)
  with run have "work_flags E sync nows a (skip_flags {} ?fresh) (length ?fresh) ?ws = Inr ws'" by simp
  moreover have "length ?fresh \<le> length (as_ads a)"
    unfolding fresh_ads_def by (rule length_takeWhile_le)
  moreover have "records E done latest (in_ds (ws_ing ?ws))" using rec by simp
  moreover have "peer_valid (as_publisher a)"
    "\<And>ai. ai \<in> set (as_ads a) \<Longrightarrow> inf_cid ai \<noteq> cid_undef"
    "\<And>ai. ai \<in> set (take (length ?fresh) (as_ads a)) \<Longrightarrow>
      lib_peer_decode (en_lib E) (ad_provider (inf_ad ai)) = Inr p"
    using ok by (auto simp: assignment_ok_def dest: in_set_takeD)
  ultimately have "\<exists>k. pass_outcome E absv Q a p (take (length ?fresh) (skip_flags {} ?fresh))
      (take (length ?fresh) (as_ads a)) done latest ?ws ws' k"
    by (intro work_flags_outcome [OF env _ _ _ _ _ _ _ known, where nows = nows]) simp_all
  then show ?thesis by (simp add: prefix)
qed

text \<open>
  An assignment of three advertisements: the newest removes the context of the second, the oldest
  sets the metadata of another context.
\<close>

definition removal_ad :: advertisement where
  "removal_ad = chain_ad\<lparr>ad_entries := Some no_entries, ad_is_rm := True\<rparr>"

definition metadata_ad :: advertisement where
  "metadata_ad = chain_ad\<lparr>ad_entries := Some no_entries, ad_context := ''other''\<rparr>"

definition example_assignment :: assignment where
  "example_assignment =
     \<lparr>as_ads = [\<lparr>inf_cid = ''ad3'', inf_ad = removal_ad\<rparr>, \<lparr>inf_cid = ''ad2'', inf_ad = chain_ad\<rparr>,
                \<lparr>inf_cid = ''ad1'', inf_ad = metadata_ad\<rparr>],
      as_publisher = ''pub'', as_provider = ''p1''\<rparr>"

definition example_workers :: "assignment \<Rightarrow> ((string \<times> bytes) list, contents) workers" where
  "example_workers a =
     \<lparr>ws_ing = fresh_ingester open_policy, ws_staging = [''p1'' \<mapsto> Some a],
      ws_busy = [''p1'' \<mapsto> True], ws_queue = [], ws_events = [], ws_success = 0, ws_skipped = 0,
      ws_load_errors = 0\<rparr>"

definition example_worker_run :: "((string \<times> bytes) list, contents) workers go" where
  "example_worker_run =
     ingest_worker_logic (table_env plain_indexer chain_table)
       (table_sync (table_env plain_indexer chain_table) chain_blocks) (\<lambda>_. 5) ''p1''
       (example_workers example_assignment)"

lemma example_worker_run_ok: "\<not> isl example_worker_run \<and> ws_skipped (projr example_worker_run) = 0"
  by code_simp

lemma example_worker_events:
  "map ev_err (ws_events (projr example_worker_run)) = [None, None, None]"
  by code_simp

lemma example_worker_env:
  "worker_env (table_env plain_indexer T) id (table_sync (table_env plain_indexer T) blocks)"
  using plain_indexer_laws alist_ds_laws alist_ds_reliable hex_lib_laws table_sync_laws
  by (simp add: worker_env_def table_env_def)

lemma example_assignment_ok: "assignment_ok (table_env plain_indexer T) ''p1'' example_assignment"
  by (simp add: assignment_ok_def example_assignment_def removal_ad_def metadata_ad_def chain_ad_def
      table_env_def hex_lib_def peer_valid_def)

lemma example_records:
  "records (table_env plain_indexer T) (\<lambda>_. False) (\<lambda>_. Inr cid_undef)
     (in_ds (ws_ing (example_workers a)))"
  by (simp add: records_def example_workers_def fresh_ingester_def table_env_def alist_ds_def
      ad_already_processed_def get_latest_sync_def)

lemma example_worker_run_eq: "example_worker_run = Inr (projr example_worker_run)"
  using example_worker_run_ok by (simp add: sum.collapse(2))

text \<open>
  A run that ends without an error: the index is as if the advertisements had been ingested one by one, with what
  is known of the multihashes of those that were not skipped.
\<close>

lemma worker_applies:
  assumes "worker_env E absv sync" and "ws_staging ws p = Some (Some a)" and "assignment_ok E p a"
    and "records E done latest (in_ds (ws_ing ws))"
    and "ingest_worker_logic E sync nows p ws = Inr ws'" and "ingests_as E absv sync Q"
    and "ws_skipped ws' = ws_skipped ws" and "\<forall>ev\<in>set (ws_events ws'). ev_err ev = None"
    and "fresh_ads done (as_ads a) = fresh"
  shows "\<exists>mss. length mss = length fresh \<and>
    (\<forall>i<length fresh. \<not> skip_flags {} fresh ! i \<longrightarrow> Q (fresh ! i) (mss ! i)) \<and>
    (\<forall>mss'. length mss' = length fresh \<longrightarrow> (\<forall>i<length fresh. \<not> skip_flags {} fresh ! i \<longrightarrow> mss' ! i = mss ! i) \<longrightarrow>
      absv (in_indexer (ws_ing ws')) = apply_ads p (zip fresh mss') (absv (in_indexer (ws_ing ws))))"
proof -
  obtain k where k: "pass_outcome E absv Q a p (skip_flags {} fresh) fresh done latest
      (ws\<lparr>ws_staging := (ws_staging ws)(p \<mapsto> None)\<rparr>) ws' k"
    using worker_outcome [OF assms(1-6)] assms(9) by blast
  have "k = 0"
    using k assms(8) by (auto simp: pass_outcome_def outcome_events_def ad_event_of_def split: if_splits)
  then obtain mss where mss: "length mss = length fresh"
    "\<forall>i<length fresh. \<not> skip_flags {} fresh ! i \<longrightarrow> Q (fresh ! i) (mss ! i)"
    "absv (in_indexer (ws_ing ws')) =
      apply_unflagged p (skip_flags {} fresh) (zip fresh mss) (absv (in_indexer (ws_ing ws)))"
    using k assms(7) by (auto simp: pass_outcome_def)
  have "absv (in_indexer (ws_ing ws')) = apply_ads p (zip fresh mss') (absv (in_indexer (ws_ing ws)))"
    if "length mss' = length fresh"
      and "\<forall>i<length fresh. \<not> skip_flags {} fresh ! i \<longrightarrow> mss' ! i = mss ! i" for mss'
  proof -
    have "apply_unflagged p (skip_flags {} fresh) (zip fresh mss) (absv (in_indexer (ws_ing ws))) =
        apply_unflagged p (skip_flags {} fresh) (zip fresh mss') (absv (in_indexer (ws_ing ws)))"
      by (rule apply_unflagged_cong) (use mss that in auto)
    then show ?thesis
      using skipping_is_harmless [of p "zip fresh mss'"] that(1) mss(3) by simp
  qed
  with mss(1,2) show ?thesis by blast
qed



text \<open>C3: The marks cover the oldest advertisements. However a run ends, some number \<open>k\<close> of the
newest unprocessed advertisements is left: exactly the older ones become processed, so an
advertisement is never marked before one that is older; the latest sync of the publisher is the
newest one processed; events say so in order, one per advertisement, and if \<open>k\<close> is not 0 the last
event carries the error of the advertisement the worker stopped at.\<close>

theorem worker_marks_oldest:
  assumes "worker_env E absv sync" and "ws_staging ws p = Some (Some a)" and "assignment_ok E p a"
    and "records E done latest (in_ds (ws_ing ws))"
    and "ingest_worker_logic E sync nows p ws = Inr ws'"
    and "fresh_ads done (as_ads a) = fresh"
  shows "\<exists>k\<le>length fresh.
    (\<forall>c. ad_already_processed (en_ds E) (en_lib E) c (in_ds (ws_ing ws')) =
       Inr (done c \<or> c \<in> inf_cid ` set (drop k fresh))) \<and>
    get_latest_sync (en_ds E) (en_lib E) (as_publisher a) (in_ds (ws_ing ws')) =
      (if k < length fresh then Inr (inf_cid (fresh ! k)) else latest (as_publisher a)) \<and>
    (\<exists>evs. ws_events ws' = ws_events ws @ evs \<and>
       (if k = 0 then evs = map (\<lambda>ai. ad_event_of a ai None) (rev fresh)
        else \<exists>e. \<not> permanent_error e \<and>
          evs = map (\<lambda>ai. ad_event_of a ai None) (rev (drop k fresh)) @
                [ad_event_of a (fresh ! (k - 1)) (Some e)]))"
proof -
  obtain k where k: "pass_outcome E absv (decodable E) a p (skip_flags {} fresh) fresh done latest
      (ws\<lparr>ws_staging := (ws_staging ws)(p \<mapsto> None)\<rparr>) ws' k"
    using worker_outcome [OF assms(1-5) ingests_decodable [OF assms(1)]] assms(6) by blast
  have "peer_valid (as_publisher a)" using assms(3) by (simp add: assignment_ok_def)
  then show ?thesis
    using k by (intro exI [of _ k]) (auto simp: pass_outcome_def records_def outcome_events_def)
qed

theorem worker_marks_oldest_witness:
  "\<exists>k\<le>3. get_latest_sync alist_ds hex_lib ''pub'' (in_ds (ws_ing (projr example_worker_run))) =
     (if k < 3 then Inr (inf_cid (as_ads example_assignment ! k)) else Inr cid_undef)"
proof -
  have fresh: "fresh_ads (\<lambda>_. False) (as_ads example_assignment) = as_ads example_assignment"
    by (simp add: fresh_ads_def)
  have st: "ws_staging (example_workers example_assignment) ''p1'' = Some (Some example_assignment)"
    by (simp add: example_workers_def)
  have three: "length (as_ads example_assignment) = 3" "as_publisher example_assignment = ''pub''"
    by (simp_all add: example_assignment_def)
  have env: "en_ds (table_env plain_indexer chain_table) = alist_ds"
    "en_lib (table_env plain_indexer chain_table) = hex_lib" by (simp_all add: table_env_def)
  show ?thesis
    using worker_marks_oldest [OF example_worker_env st example_assignment_ok example_records
        example_worker_run_eq [unfolded example_worker_run_def] fresh]
    unfolding example_worker_run_def three env by blast
qed

section \<open>Content the indexer could not store\<close>

text \<open>An indexer that refuses to put one multihash.\<close>

definition refusing_indexer :: "multihash \<Rightarrow> contents indexer" where
  "refusing_indexer m = plain_indexer\<lparr>ix_put := (\<lambda>c v mhs.
     if m \<in> set mhs then (Some ''disk full'', c) else (None, contents_put v mhs c))\<rparr>"

definition refused_run :: "multihash \<Rightarrow> ((string \<times> bytes) list, contents) workers go" where
  "refused_run m =
     ingest_worker_logic (table_env (refusing_indexer m) chain_table)
       (table_sync (table_env (refusing_indexer m) chain_table) chain_blocks) (\<lambda>_. 5) ''p1''
       (example_workers
          \<lparr>as_ads = [\<lparr>inf_cid = ''ad1'', inf_ad = chain_ad\<rparr>], as_publisher = ''pub'', as_provider = ''p1''\<rparr>)"

text \<open>A failure of the index is not always retried. When the indexer cannot store a multihash
of the first entry chunk, the failure counts as a permanent fault of the advertisement: it is
marked as processed, so its content is never indexed, and the event reports no error. When the
same happens in a later chunk, the advertisement stays unprocessed and the event carries the
error.\<close>

theorem first_chunk_failure_loses_content:
  "(let ws = projr (refused_run ''x'')
    in ad_already_processed alist_ds hex_lib ''ad1'' (in_ds (ws_ing ws)) = Inr True \<and>
       map ev_err (ws_events ws) = [None] \<and> ws_skipped ws = 1 \<and>
       (''x'', ''p1'', ''ctx'') \<notin> ct_entries (in_indexer (ws_ing ws))) \<and>
   (let ws = projr (refused_run ''w'')
    in ad_already_processed alist_ds hex_lib ''ad1'' (in_ds (ws_ing ws)) = Inr False \<and>
       map (map_option fst \<circ> ev_err) (ws_events ws) = [Some SyncEntriesErr])"
  by code_simp

end
