(* ===== verification/Ingest_Pool.thy ===== *)
theory Ingest_Pool
  imports Ingest_Worker Ingest_Ad_Properties
begin

text \<open>
  The pool of ingest workers as a state machine (\<open>ingestWorker\<close> and \<open>Announce\<close> of
  \<^verbatim>\<open>internal/ingest/ingest.go\<close>): workers take providers from the queue, hold the provider's
  channel while they ingest, and direct announces try to hold it too. The steps are those between
  which the goroutines can interleave.
\<close>

section \<open>The steps\<close>

text \<open>
  What a goroutine is doing for a provider: it has taken it from the queue, it holds its channel,
  it has swapped out the assignment, or it is announcing.
\<close>

datatype phase = Waiting | Holding | Running | Announcing

record ('d, 'i) pool =
  pl_ws :: "('d, 'i) workers"
  pl_jobs :: "(peer_id \<times> phase) list"

definition set_busy :: "peer_id \<Rightarrow> bool \<Rightarrow> ('d, 'i) workers \<Rightarrow> ('d, 'i) workers" where
  "set_busy p b ws = ws\<lparr>ws_busy := (ws_busy ws)(p \<mapsto> b)\<rparr>"

definition swap_out :: "peer_id \<Rightarrow> ('d, 'i) workers \<Rightarrow> ('d, 'i) workers" where
  "swap_out p ws = ws\<lparr>ws_staging := (ws_staging ws)(p \<mapsto> None)\<rparr>"

text \<open>Ingesting changes neither the staging cells, nor the queue, nor the channels.\<close>

definition same_control :: "('d, 'i) workers \<Rightarrow> ('d, 'i) workers \<Rightarrow> bool" where
  "same_control ws ws' \<longleftrightarrow> ws_staging ws' = ws_staging ws \<and> ws_queue ws' = ws_queue ws \<and>
     ws_busy ws' = ws_busy ws"

inductive pool_step :: "('d, 'i, 'n, 'h) env \<Rightarrow> ('d, 'i) pool \<Rightarrow> ('d, 'i) pool \<Rightarrow> bool" for E where
  pool_stage: "run_ingest_step E order publisher cids (pl_ws s) = Inr ws' \<Longrightarrow> distinct order \<Longrightarrow>
    pool_step E s (s\<lparr>pl_ws := ws'\<rparr>)"
| pool_take: "ws_queue (pl_ws s) = p # q \<Longrightarrow>
    pool_step E s (s\<lparr>pl_ws := (pl_ws s)\<lparr>ws_queue := q\<rparr>, pl_jobs := (p, Waiting) # pl_jobs s\<rparr>)"
| pool_acquire: "pl_jobs s = js @ (p, Waiting) # ks \<Longrightarrow> ws_busy (pl_ws s) p = Some False \<Longrightarrow>
    pool_step E s (s\<lparr>pl_ws := set_busy p True (pl_ws s), pl_jobs := js @ (p, Holding) # ks\<rparr>)"
| pool_swap: "pl_jobs s = js @ (p, Holding) # ks \<Longrightarrow>
    pool_step E s (s\<lparr>pl_ws := swap_out p (pl_ws s), pl_jobs := js @ (p, Running) # ks\<rparr>)"
| pool_ingest: "(p, Running) \<in> set (pl_jobs s) \<Longrightarrow> same_control (pl_ws s) ws' \<Longrightarrow>
    pool_step E s (s\<lparr>pl_ws := ws'\<rparr>)"
| pool_release: "pl_jobs s = js @ (p, Running) # ks \<Longrightarrow>
    pool_step E s (s\<lparr>pl_ws := set_busy p False (pl_ws s), pl_jobs := js @ ks\<rparr>)"
| pool_announce: "ws_busy (pl_ws s) p \<noteq> Some True \<Longrightarrow>
    pool_step E s (s\<lparr>pl_ws := set_busy p True (pl_ws s), pl_jobs := (p, Announcing) # pl_jobs s\<rparr>)"
| pool_announced: "pl_jobs s = js @ (p, Announcing) # ks \<Longrightarrow>
    pool_step E s (s\<lparr>pl_ws := set_busy p False (pl_ws s), pl_jobs := js @ ks\<rparr>)"

inductive pool_run :: "('d, 'i, 'n, 'h) env \<Rightarrow> ('d, 'i) pool \<Rightarrow> ('d, 'i) pool \<Rightarrow> bool" for E s where
  pool_run_refl: "pool_run E s s"
| pool_run_step: "pool_run E s t \<Longrightarrow> pool_step E t u \<Longrightarrow> pool_run E s u"

text \<open>The step of ingesting is what the worker's logic does after swapping out the assignment.\<close>

lemma finish_ad_control: "same_control ws (finish_ad E a ai ws)"
  by (simp add: same_control_def finish_ad_def send_event_def Let_def)

lemma work_one_control:
  assumes "work_one E sync now a ai ws = Inr (ws', b)"
  shows "same_control ws ws'"
proof -
  obtain err ing where "ingest_ad E sync now (as_publisher a) (inf_cid ai) (inf_ad ai) (ws_ing ws) =
      Inr (err, ing)"
    using assms by (auto simp: work_one_def go_bind_eq_Inr)
  then show ?thesis
    using assms
    by (cases err)
       (auto simp: work_one_def Let_def same_control_def finish_ad_def send_event_def
          split: if_splits)
qed

lemma work_ads_control:
  "work_ads E sync nows a n skips skip ws = Inr ws' \<Longrightarrow> same_control ws ws'"
proof (induction n arbitrary: skips skip ws)
  case 0
  then show ?case by (simp add: same_control_def)
next
  case (Suc i)
  have trans: "same_control x z" if "same_control x y" "same_control y z"
    for x y z :: "('a, 'b) workers"
    using that by (simp add: same_control_def)
  show ?case
  proof (cases "int i = skip")
    case True
    then have "same_control (finish_ad E a (as_ads a ! i) ws) ws'"
      using Suc by (auto split: if_splits)
    then show ?thesis using finish_ad_control trans by blast
  next
    case False
    then obtain ws1 b where one: "work_one E sync (nows i) a (as_ads a ! i) ws = Inr (ws1, b)"
      and rest: "(if b then work_ads E sync nows a i skips skip ws1 else Inr ws1) = Inr ws'"
      using Suc.prems by (auto simp: go_bind_eq_Inr)
    have "same_control ws ws1" by (rule work_one_control [OF one])
    moreover have "same_control ws1 ws'"
      using rest Suc.IH by (cases b) (auto simp: same_control_def)
    ultimately show ?thesis by (rule trans)
  qed
qed

lemma worker_logic_control:
  assumes "ingest_worker_logic E sync nows p ws = Inr ws'"
  shows "same_control (swap_out p ws) ws'"
proof -
  obtain x where st: "ws_staging ws p = Some x"
    using assms by (cases "ws_staging ws p") (auto simp: ingest_worker_logic_def)
  show ?thesis
  proof (cases x)
    case None
    then have "(ws_staging ws)(p \<mapsto> None) = ws_staging ws" using st by (auto simp: fun_eq_iff)
    then show ?thesis
      using assms st None by (simp add: ingest_worker_logic_def same_control_def swap_out_def)
  next
    case (Some a)
    then show ?thesis
      using assms st work_ads_control
      by (fastforce simp: ingest_worker_logic_def Let_def go_bind_eq_Inr swap_out_def)
  qed
qed

section \<open>The invariant\<close>

fun count_jobs :: "phase set \<Rightarrow> peer_id \<Rightarrow> (peer_id \<times> phase) list \<Rightarrow> nat" where
  "count_jobs ph p [] = 0"
| "count_jobs ph p ((q, f) # js) = (if q = p \<and> f \<in> ph then 1 else 0) + count_jobs ph p js"

lemma count_jobs_append [simp]:
  "count_jobs ph p (js @ ks) = count_jobs ph p js + count_jobs ph p ks"
  by (induction ph p js rule: count_jobs.induct) auto

definition pending :: "('d, 'i) workers \<Rightarrow> peer_id \<Rightarrow> bool" where
  "pending ws p \<longleftrightarrow> (\<exists>a. ws_staging ws p = Some (Some a))"

text \<open>
  A provider's channel is held by exactly the jobs that are entitled to it, of which there is at
  most one; a provider with a staged assignment is in the queue or with a worker that has not yet
  swapped it out, exactly once, and otherwise in neither; and a worker finds the provider's
  channel and staging cell.
\<close>

definition pool_inv_at :: "('d, 'i) pool \<Rightarrow> peer_id \<Rightarrow> bool" where
  "pool_inv_at s p \<longleftrightarrow>
     count_jobs {Holding, Running, Announcing} p (pl_jobs s) =
       (if ws_busy (pl_ws s) p = Some True then 1 else 0) \<and>
     count_list (ws_queue (pl_ws s)) p + count_jobs {Waiting, Holding} p (pl_jobs s) =
       (if pending (pl_ws s) p then 1 else 0) \<and>
     (pending (pl_ws s) p \<longrightarrow> ws_busy (pl_ws s) p \<noteq> None)"

definition pool_inv :: "('d, 'i) pool \<Rightarrow> bool" where
  "pool_inv s \<longleftrightarrow> (\<forall>p. pool_inv_at s p)"

definition stage_one ::
    "peer_id \<Rightarrow> (peer_id \<rightharpoonup> ad_info list) \<Rightarrow> peer_id \<Rightarrow> ('d, 'i) workers \<Rightarrow> ('d, 'i) workers" where
  "stage_one publisher g q ws = (case g q of None \<Rightarrow> ws | Some ads \<Rightarrow> stage publisher ads q ws)"

lemma stage_one_control:
  "pending (stage_one publisher g q ws) p \<longleftrightarrow> pending ws p \<or> (p = q \<and> g q \<noteq> None)"
  "count_list (ws_queue (stage_one publisher g q ws)) p = count_list (ws_queue ws) p +
     (if p = q \<and> g q \<noteq> None \<and> \<not> pending ws q then 1 else 0)"
  "ws_busy (stage_one publisher g q ws) p =
     (if p = q \<and> g q \<noteq> None \<and> ws_busy ws q = None then Some False else ws_busy ws p)"
  by (auto simp: stage_one_def stage_def pending_def Let_def split: option.splits)

lemma stage_all_step:
  "stage_all publisher g (q # order) ws = stage_all publisher g order (stage_one publisher g q ws)"
  by (simp add: stage_one_def)

lemma stage_all_control:
  assumes "distinct order"
  shows "(pending (stage_all publisher g order ws) p \<longleftrightarrow>
      pending ws p \<or> (p \<in> set order \<and> g p \<noteq> None)) \<and>
    count_list (ws_queue (stage_all publisher g order ws)) p = count_list (ws_queue ws) p +
      (if p \<in> set order \<and> g p \<noteq> None \<and> \<not> pending ws p then 1 else 0) \<and>
    ws_busy (stage_all publisher g order ws) p =
      (if p \<in> set order \<and> g p \<noteq> None \<and> ws_busy ws p = None then Some False else ws_busy ws p)"
  using assms
proof (induction order arbitrary: ws)
  case Nil
  then show ?case by simp
next
  case (Cons q order)
  have "q \<notin> set order" "distinct order" using Cons.prems by simp_all
  then show ?case
    unfolding stage_all_step
    using Cons.IH [of "stage_one publisher g q ws"]
      stage_one_control [where publisher = publisher and g = g and q = q and ws = ws and p = p]
    by (cases "p = q") auto
qed

lemmas stage_all_controls = stage_all_control [THEN conjunct1]
  stage_all_control [THEN conjunct2, THEN conjunct1] stage_all_control [THEN conjunct2, THEN conjunct2]

lemma pool_inv_stage:
  assumes inv: "pool_inv s" and "run_ingest_step E order publisher cids (pl_ws s) = Inr ws'"
    and dist: "distinct order"
  shows "pool_inv (s\<lparr>pl_ws := ws'\<rparr>)"
proof -
  obtain errs g where ws': "ws' = stage_all publisher g order
      ((pl_ws s)\<lparr>ws_load_errors := ws_load_errors (pl_ws s) + errs\<rparr>)"
    using assms(2) by (auto simp: run_ingest_step_def go_bind_eq_Inr)
  have same: "pending (w\<lparr>ws_load_errors := n\<rparr>) p = pending w p" for w :: "('a, 'b) workers" and n p
    by (simp add: pending_def)
  have "pool_inv_at (s\<lparr>pl_ws := ws'\<rparr>) p" if "pool_inv_at s p" for p
  proof (cases "p \<in> set order \<and> g p \<noteq> None")
    case True
    then show ?thesis
      using that by (cases "pending (pl_ws s) p")
        (auto simp: pool_inv_at_def ws' stage_all_controls [OF dist] same)
  next
    case False
    then have "pending ws' p = pending (pl_ws s) p"
      "count_list (ws_queue ws') p = count_list (ws_queue (pl_ws s)) p"
      "ws_busy ws' p = ws_busy (pl_ws s) p"
      by (simp_all only: ws' stage_all_controls [OF dist] same) auto
    then show ?thesis using that by (simp add: pool_inv_at_def)
  qed
  then show ?thesis using inv by (simp add: pool_inv_def)
qed

lemma pool_step_inv_at: "pool_step E s t \<Longrightarrow> pool_inv_at s p \<Longrightarrow> pool_inv s \<Longrightarrow> pool_inv_at t p"
proof (induction rule: pool_step.induct)
  case (pool_stage order publisher cids s ws')
  then have "pool_inv (s\<lparr>pl_ws := ws'\<rparr>)" by (intro pool_inv_stage)
  then show ?case by (simp add: pool_inv_def)
next
  case (pool_take s q qs)
  then show ?case by (cases "p = q") (simp_all add: pool_inv_at_def pending_def)
next
  case (pool_acquire s js q ks)
  then show ?case
    by (cases "p = q") (auto simp: pool_inv_at_def set_busy_def pending_def split: if_splits)
next
  case (pool_swap s js q ks)
  then show ?case
    by (cases "p = q") (auto simp: pool_inv_at_def swap_out_def pending_def split: if_splits)
next
  case (pool_ingest q s ws')
  then show ?case by (simp add: pool_inv_at_def same_control_def pending_def)
next
  case (pool_release s js q ks)
  then show ?case
    by (cases "p = q") (auto simp: pool_inv_at_def set_busy_def pending_def split: if_splits)
next
  case (pool_announce s q)
  then show ?case
    by (cases "p = q") (auto simp: pool_inv_at_def set_busy_def pending_def split: if_splits)
next
  case (pool_announced s js q ks)
  then show ?case
    by (cases "p = q") (auto simp: pool_inv_at_def set_busy_def pending_def split: if_splits)
qed

lemma pool_run_inv: "pool_run E s t \<Longrightarrow> pool_inv s \<Longrightarrow> pool_inv t"
  by (induction rule: pool_run.induct) (auto simp: pool_inv_def intro: pool_step_inv_at)

section \<open>Properties\<close>

text \<open>C5: In every interleaving of syncs, workers and announces, for each provider: at most one
goroutine at a time ingests or announces, namely the one for which the channel is full; and an
assignment that has been staged and not yet taken is scheduled exactly once, in the queue or
with a worker that is about to take it, so that it is neither lost nor ingested by two workers.\<close>

theorem pool_exclusive_and_scheduled:
  assumes "pool_run E s t" and "pl_jobs s = []" and "ws_queue (pl_ws s) = []"
    and "ws_busy (pl_ws s) = Map.empty" and "ws_staging (pl_ws s) = Map.empty"
  shows "count_jobs {Holding, Running, Announcing} p (pl_jobs t) =
       (if ws_busy (pl_ws t) p = Some True then 1 else 0) \<and>
     count_list (ws_queue (pl_ws t)) p + count_jobs {Waiting, Holding} p (pl_jobs t) =
       (if \<exists>a. ws_staging (pl_ws t) p = Some (Some a) then 1 else 0)"
proof -
  have "pool_inv s" using assms(2-5) by (simp add: pool_inv_def pool_inv_at_def pending_def)
  then have "pool_inv t" by (rule pool_run_inv [OF assms(1)])
  then show ?thesis by (simp add: pool_inv_def pool_inv_at_def pending_def)
qed

definition idle_pool :: "((string \<times> bytes) list, contents) pool" where
  "idle_pool =
     \<lparr>pl_ws = \<lparr>ws_ing = fresh_ingester open_policy, ws_staging = Map.empty, ws_busy = Map.empty,
        ws_queue = [], ws_events = [], ws_success = 0, ws_skipped = 0, ws_load_errors = 0\<rparr>,
      pl_jobs = []\<rparr>"

definition announcing_pool :: "((string \<times> bytes) list, contents) pool" where
  "announcing_pool = idle_pool
     \<lparr>pl_ws := set_busy ''p'' True (pl_ws idle_pool), pl_jobs := (''p'', Announcing) # pl_jobs idle_pool\<rparr>"

theorem pool_exclusive_and_scheduled_witness:
  "count_jobs {Holding, Running, Announcing} ''p'' (pl_jobs announcing_pool) = 1"
proof -
  have "pool_step (table_env plain_indexer chain_table) idle_pool announcing_pool"
    unfolding announcing_pool_def by (rule pool_announce) (simp add: idle_pool_def)
  then have run: "pool_run (table_env plain_indexer chain_table) idle_pool announcing_pool"
    by (rule pool_run_step [OF pool_run_refl])
  have "count_jobs {Holding, Running, Announcing} ''p'' (pl_jobs announcing_pool) =
      (if ws_busy (pl_ws announcing_pool) ''p'' = Some True then 1 else 0)"
    by (rule pool_exclusive_and_scheduled [OF run, THEN conjunct1]) (simp_all add: idle_pool_def)
  then show ?thesis by (simp add: announcing_pool_def set_busy_def)
qed

end
