(* ===== verification/Ingest_Events.thy ===== *)
theory Ingest_Events
  imports Ingest_Worker "HOL-Library.AList"
begin

text \<open>
  Who is told that an advertisement was processed (\<open>onAdProcessed\<close>, its cancel function and
  \<open>distributeEvents\<close> of \<^verbatim>\<open>internal/ingest/ingest.go\<close>): the lists of channels per publisher, and
  the goroutines around them as a state machine. A channel is a number; it holds at most one
  event.
\<close>

section \<open>The lists of channels\<close>

type_synonym chan = nat

text \<open>\<open>outEventsChans\<close>: nil, or a map from publishers to channels.\<close>

type_synonym chan_map = "(peer_id \<times> chan list) list option"

definition add_chan :: "peer_id \<Rightarrow> chan \<Rightarrow> chan_map \<Rightarrow> chan_map" where
  "add_chan p ch m =
     (case m of
        None \<Rightarrow> Some [(p, [ch])]
      | Some al \<Rightarrow>
          Some (AList.update p ((case map_of al p of None \<Rightarrow> [] | Some cs \<Rightarrow> cs) @ [ch]) al))"

definition chans_of :: "chan_map \<Rightarrow> peer_id \<Rightarrow> chan list" where
  "chans_of m p =
     (case m of None \<Rightarrow> [] | Some al \<Rightarrow> (case map_of al p of None \<Rightarrow> [] | Some cs \<Rightarrow> cs))"

text \<open>The first occurrence is overwritten with the last channel, which is cut off.\<close>

definition swap_remove :: "chan \<Rightarrow> chan list \<Rightarrow> chan list" where
  "swap_remove ch cs = butlast (cs[length (takeWhile (\<lambda>c. c \<noteq> ch) cs) := last cs])"

text \<open>
  The cancel function: the new map, and whether the channel is closed. It is not closed when it is
  the publisher's only channel.
\<close>

definition cancel_chan :: "peer_id \<Rightarrow> chan \<Rightarrow> chan_map \<Rightarrow> chan_map \<times> bool" where
  "cancel_chan p ch m =
     (case m of
        None \<Rightarrow> (m, False)
      | Some al \<Rightarrow>
          (case map_of al p of
             None \<Rightarrow> (m, False)
           | Some cs \<Rightarrow>
               if ch \<notin> set cs then (m, False)
               else if length cs = 1 then
                 (if length al = 1 then None else Some (AList.delete p al), False)
               else (Some (AList.update p (swap_remove ch cs) al), True)))"

lemma set_swap_remove:
  assumes "distinct cs" and "ch \<in> set cs"
  shows "set (swap_remove ch cs) = set cs - {ch}" and "distinct (swap_remove ch cs)"
proof -
  obtain xs ys where cs: "cs = xs @ ch # ys" and "ch \<notin> set xs"
    using assms(2) by (meson split_list_first)
  have i: "length (takeWhile (\<lambda>c. c \<noteq> ch) cs) = length xs"
    using \<open>ch \<notin> set xs\<close> by (auto simp: cs takeWhile_append)
  have eq: "swap_remove ch cs = (if ys = [] then xs else xs @ last ys # butlast ys)"
    by (simp add: swap_remove_def i) (auto simp: cs butlast_append)
  have "set (swap_remove ch cs) = set cs - {ch} \<and> distinct (swap_remove ch cs)"
  proof (cases ys rule: rev_cases)
    case Nil
    then show ?thesis using assms(1) unfolding eq by (auto simp: cs)
  next
    case (snoc zs z)
    then show ?thesis using assms(1) unfolding eq by (auto simp: cs)
  qed
  then show "set (swap_remove ch cs) = set cs - {ch}" "distinct (swap_remove ch cs)" by simp_all
qed

lemma cancel_unlisted: "ch \<notin> set (chans_of m p) \<Longrightarrow> cancel_chan p ch m = (m, False)"
  by (auto simp: cancel_chan_def chans_of_def split: option.splits)

text \<open>
  \<open>Close\<close> closes every channel in turn and forgets them; closing a closed channel panics. The result
  is the set of closed channels and whether one was closed already.
\<close>

definition all_chans :: "chan_map \<Rightarrow> chan list" where
  "all_chans m = (case m of None \<Rightarrow> [] | Some al \<Rightarrow> concat (map snd al))"

definition close_chans :: "chan list \<Rightarrow> chan set \<Rightarrow> chan set \<times> bool" where
  "close_chans cs closed = fold (\<lambda>ch (closed, p). (insert ch closed, p \<or> ch \<in> closed)) cs (closed, False)"

lemma close_chans_fresh:
  assumes "distinct cs" and "set cs \<inter> closed = {}"
  shows "close_chans cs closed = (closed \<union> set cs, False)"
proof -
  have "fold (\<lambda>ch (closed, p). (insert ch closed, p \<or> ch \<in> closed)) cs (closed, b) = (closed \<union> set cs, b)" for b
    using assms by (induction cs arbitrary: closed) auto
  then show ?thesis by (simp add: close_chans_def)
qed

lemma all_chans_listed:
  assumes "\<And>al. m = Some al \<Longrightarrow> distinct (map fst al)"
  shows "set (all_chans m) = (\<Union>p. set (chans_of m p))"
    and "(\<And>p. distinct (chans_of m p)) \<Longrightarrow>
      (\<And>p q ch. ch \<in> set (chans_of m p) \<Longrightarrow> ch \<in> set (chans_of m q) \<Longrightarrow> p = q) \<Longrightarrow> distinct (all_chans m)"
proof -
  have keys: "\<And>al. m = Some al \<Longrightarrow> distinct (map fst al)" by (rule assms)
  have mem: "cs = chans_of m p" if "m = Some al" "(p, cs) \<in> set al" for al p cs
    using that keys by (simp add: chans_of_def)
  have listed: "\<exists>al. m = Some al \<and> (p, chans_of m p) \<in> set al" if "chans_of m p \<noteq> []" for p
    using that by (auto simp: chans_of_def split: option.splits dest: map_of_SomeD)
  show "set (all_chans m) = (\<Union>p. set (chans_of m p))"
  proof (cases m)
    case None
    then show ?thesis by (simp add: all_chans_def chans_of_def)
  next
    case (Some al)
    have "ch \<in> (\<Union>p. set (chans_of m p))" if "ch \<in> set (all_chans m)" for ch
      using that mem [OF Some] by (fastforce simp: all_chans_def Some)
    moreover have "ch \<in> set (all_chans m)" if ch: "ch \<in> set (chans_of m p)" for ch p
    proof -
      obtain al' where "m = Some al'" "(p, chans_of m p) \<in> set al'"
        using listed [of p] ch by (metis empty_iff empty_set)
      then show ?thesis using ch by (force simp: all_chans_def)
    qed
    ultimately show ?thesis by blast
  qed
  assume dist: "\<And>p. distinct (chans_of m p)"
    and owner: "\<And>p q ch. ch \<in> set (chans_of m p) \<Longrightarrow> ch \<in> set (chans_of m q) \<Longrightarrow> p = q"
  show "distinct (all_chans m)"
  proof (cases m)
    case (Some al)
    have "distinct (concat (map snd xs))" if "distinct (map fst xs)" "set xs \<subseteq> set al" for xs
      using that
    proof (induction xs)
      case (Cons x xs)
      obtain p cs where x: "x = (p, cs)" by (cases x)
      have cs: "cs = chans_of m p" using mem [OF Some, of p cs] Cons(3) x by simp
      have "set cs \<inter> set ds = {}" if "(q, ds) \<in> set xs" for q ds
      proof -
        have "q \<noteq> p" "(q, ds) \<in> set al" using Cons(2,3) that x by (auto simp: rev_image_eqI)
        then have "q \<noteq> p" "ds = chans_of m q" using mem [OF Some] by simp_all
        then show ?thesis using owner [of _ p q] cs by blast
      qed
      then have "set cs \<inter> set (concat (map snd xs)) = {}" unfolding disjoint_iff by auto
      then show ?case using Cons x cs dist by simp
    qed simp
    then show ?thesis using keys [OF Some] by (simp add: all_chans_def Some)
  qed (simp add: all_chans_def)
qed

section \<open>The goroutines\<close>

datatype sub_phase = Reading | Cancelling

record ev_sys =
  es_chans :: chan_map
  es_buf :: "chan \<Rightarrow> ad_event list"
  es_closed :: "chan set"
  es_next :: chan
  es_locked :: bool
  es_in :: "ad_event list"
  es_dist :: "(ad_event \<times> chan list) option"
  es_subs :: "chan \<rightharpoonup> peer_id \<times> sub_phase"
  es_panicked :: bool

text \<open>
  The distributor takes an event, locks, sends it to each channel of the publisher (waiting until
  the channel has room) and unlocks. A subscriber adds its channel under the lock, reads from it,
  and when it is done cancels under the lock. Closing the ingester closes all channels under the lock.
  Sending on a closed channel panics, and so does closing it.
\<close>

inductive ev_step :: "ev_sys \<Rightarrow> ev_sys \<Rightarrow> bool" where
  ev_arrive: "es_in s = [] \<Longrightarrow> ev_step s (s\<lparr>es_in := [ev]\<rparr>)"
| ev_lock: "es_in s = ev # evs \<Longrightarrow> es_dist s = None \<Longrightarrow> \<not> es_locked s \<Longrightarrow>
    ev_step s (s\<lparr>es_in := evs, es_locked := True,
      es_dist := Some (ev, chans_of (es_chans s) (ev_publisher ev))\<rparr>)"
| ev_send: "es_dist s = Some (ev, ch # cs) \<Longrightarrow> es_buf s ch = [] \<Longrightarrow>
    ev_step s (s\<lparr>es_buf := (es_buf s)(ch := [ev]), es_dist := Some (ev, cs),
      es_panicked := es_panicked s \<or> ch \<in> es_closed s\<rparr>)"
| ev_unlock: "es_dist s = Some (ev, []) \<Longrightarrow>
    ev_step s (s\<lparr>es_dist := None, es_locked := False\<rparr>)"
| ev_subscribe: "\<not> es_locked s \<Longrightarrow>
    ev_step s (s\<lparr>es_chans := add_chan p (es_next s) (es_chans s), es_next := es_next s + 1,
      es_subs := (es_subs s)(es_next s \<mapsto> (p, Reading))\<rparr>)"
| ev_read: "es_subs s ch = Some (p, Reading) \<Longrightarrow> es_buf s ch = [ev] \<Longrightarrow>
    ev_step s (s\<lparr>es_buf := (es_buf s)(ch := [])\<rparr>)"
| ev_leave: "es_subs s ch = Some (p, Reading) \<Longrightarrow>
    ev_step s (s\<lparr>es_subs := (es_subs s)(ch \<mapsto> (p, Cancelling))\<rparr>)"
| ev_cancel: "es_subs s ch = Some (p, Cancelling) \<Longrightarrow> \<not> es_locked s \<Longrightarrow>
    cancel_chan p ch (es_chans s) = (m, closes) \<Longrightarrow>
    ev_step s (s\<lparr>es_chans := m, es_closed := (if closes then insert ch (es_closed s) else es_closed s),
      es_subs := (es_subs s)(ch := None), es_panicked := es_panicked s \<or> closes \<and> ch \<in> es_closed s\<rparr>)"
| ev_close: "\<not> es_locked s \<Longrightarrow> close_chans (all_chans (es_chans s)) (es_closed s) = (closed, twice) \<Longrightarrow>
    ev_step s (s\<lparr>es_chans := None, es_closed := closed, es_panicked := es_panicked s \<or> twice\<rparr>)"

inductive ev_run :: "ev_sys \<Rightarrow> ev_sys \<Rightarrow> bool" for s where
  ev_run_refl: "ev_run s s"
| ev_run_step: "ev_run s t \<Longrightarrow> ev_step t u \<Longrightarrow> ev_run s u"

definition ev_start :: ev_sys where
  "ev_start = \<lparr>es_chans = None, es_buf = (\<lambda>_. []), es_closed = {}, es_next = 0, es_locked = False,
     es_in = [], es_dist = None, es_subs = Map.empty, es_panicked = False\<rparr>"

section \<open>The invariant\<close>

text \<open>
  The lists hold exactly the open channels of the subscribers, each once and under its publisher;
  nothing panicked; the distributor has the lock while it sends and its remaining
  channels are listed under the event's publisher.
\<close>

definition ev_inv :: "ev_sys \<Rightarrow> bool" where
  "ev_inv s \<longleftrightarrow>
     (\<forall>p. distinct (chans_of (es_chans s) p)) \<and>
     (\<forall>p ch. ch \<in> set (chans_of (es_chans s) p) \<longleftrightarrow> (\<exists>ph. es_subs s ch = Some (p, ph)) \<and> ch \<notin> es_closed s) \<and>
     (\<forall>ch. es_subs s ch \<noteq> None \<longrightarrow> ch < es_next s) \<and> \<not> es_panicked s \<and>
     (\<forall>ch\<in>es_closed s. ch < es_next s) \<and>
     (es_locked s \<longleftrightarrow> es_dist s \<noteq> None) \<and>
     (\<forall>ev cs. es_dist s = Some (ev, cs) \<longrightarrow> set cs \<subseteq> set (chans_of (es_chans s) (ev_publisher ev))) \<and>
     (\<forall>al. es_chans s = Some al \<longrightarrow> distinct (map fst al))"

lemma chans_of_add:
  "chans_of (add_chan p ch m) q = (if q = p then chans_of m p @ [ch] else chans_of m q)"
  by (cases m) (auto simp: add_chan_def chans_of_def update_conv')

lemma chans_of_cancel:
  assumes "ch \<in> set (chans_of m p)"
    and "\<And>al. m = Some al \<Longrightarrow> distinct (map fst al)"
    and "distinct (chans_of m p)"
  shows "set (chans_of (fst (cancel_chan p ch m)) q) =
      (if q = p then set (chans_of m p) - {ch} else set (chans_of m q))"
    and "distinct (chans_of m q) \<Longrightarrow> distinct (chans_of (fst (cancel_chan p ch m)) q)"
proof -
  obtain al where m: "m = Some al" using assms(1) by (cases m) (auto simp: chans_of_def)
  then obtain cs where cs: "map_of al p = Some cs" "chans_of m p = cs"
    using assms(1) by (cases "map_of al p") (auto simp: chans_of_def)
  have ch: "ch \<in> set cs" "distinct cs" using assms(1,3) cs by simp_all
  have del: "map_of (AList.delete p al) = (map_of al)(p := None)" by (simp add: delete_conv')
  have single: "q = p \<or> map_of al q = None" if "length al = 1"
    using that cs(1) by (cases al) (auto split: if_splits)
  show "set (chans_of (fst (cancel_chan p ch m)) q) =
      (if q = p then set (chans_of m p) - {ch} else set (chans_of m q))"
  proof (cases "length cs = 1")
    case True
    then have "set cs = {ch}" using ch(1) by (cases cs) auto
    then show ?thesis
      using m cs ch True single del by (auto simp: cancel_chan_def chans_of_def)
  next
    case False
    then show ?thesis
      using m cs ch set_swap_remove [OF ch(2,1)]
      by (auto simp: cancel_chan_def chans_of_def update_conv')
  qed
  show "distinct (chans_of (fst (cancel_chan p ch m)) q)" if "distinct (chans_of m q)"
  proof (cases "length cs = 1")
    case True
    then show ?thesis
      using m cs ch that del by (auto simp: cancel_chan_def chans_of_def)
  next
    case False
    then show ?thesis
      using m cs ch that set_swap_remove [OF ch(2,1)]
      by (auto simp: cancel_chan_def chans_of_def update_conv')
  qed
qed

lemma add_chan_keys:
  "(\<forall>al. m = Some al \<longrightarrow> distinct (map fst al)) \<Longrightarrow> add_chan p ch m = Some al \<Longrightarrow> distinct (map fst al)"
  by (cases m) (auto simp: add_chan_def distinct_update)

lemma cancel_chan_keys:
  "(\<forall>al. m = Some al \<longrightarrow> distinct (map fst al)) \<Longrightarrow> fst (cancel_chan p ch m) = Some al \<Longrightarrow>
     distinct (map fst al)"
  by (auto simp: cancel_chan_def distinct_update distinct_delete split: option.splits if_splits)

lemma ev_inv_start: "ev_inv ev_start"
  by (simp add: ev_inv_def ev_start_def chans_of_def)

lemma ev_step_inv: "ev_step s t \<Longrightarrow> ev_inv s \<Longrightarrow> ev_inv t"
proof (induction rule: ev_step.induct)
  case (ev_subscribe s p)
  have new: "es_subs s (es_next s) = None"
    using ev_subscribe unfolding ev_inv_def by (metis less_irrefl)
  have "es_next s \<notin> set (chans_of (es_chans s) q)" for q
    using ev_subscribe new unfolding ev_inv_def by simp
  moreover have "es_next s \<notin> es_closed s"
    using ev_subscribe unfolding ev_inv_def by (metis less_irrefl)
  moreover have "distinct (map fst al)" if "add_chan p (es_next s) (es_chans s) = Some al" for al
    using ev_subscribe that add_chan_keys unfolding ev_inv_def by blast
  ultimately show ?case
    using ev_subscribe new unfolding ev_inv_def
    by (auto simp: chans_of_add less_Suc_eq)
next
  case (ev_cancel s ch p m closes)
  show ?case
  proof (cases "ch \<in> set (chans_of (es_chans s) p)")
    case False
    then have "m = es_chans s" "\<not> closes" using ev_cancel(3) cancel_unlisted by simp_all
    with False ev_cancel show ?thesis by (auto simp: ev_inv_def)
  next
    case listed: True
    have dist: "\<And>q. distinct (chans_of (es_chans s) q)"
      and keys: "\<And>al. es_chans s = Some al \<Longrightarrow> distinct (map fst al)"
      using ev_cancel(4) unfolding ev_inv_def by blast+
    have m: "m = fst (cancel_chan p ch (es_chans s))" using ev_cancel(3) by simp
    have sets: "set (chans_of m q) =
        (if q = p then set (chans_of (es_chans s) p) - {ch} else set (chans_of (es_chans s) q))" for q
      unfolding m by (rule chans_of_cancel(1) [OF listed keys dist])
    have dist': "distinct (chans_of m q)" for q
      unfolding m by (rule chans_of_cancel(2) [OF listed keys dist dist])
    have keys': "distinct (map fst al)" if "m = Some al" for al
      using cancel_chan_keys [of "es_chans s" p ch al] keys that m by simp
    have none: "es_dist s = None" using ev_cancel(2,4) unfolding ev_inv_def by (cases "es_dist s") auto
    have subs: "ch' \<in> set (chans_of m q) \<longleftrightarrow>
        (\<exists>ph. ((es_subs s)(ch := None)) ch' = Some (q, ph)) \<and> ch' \<notin> insert ch (es_closed s)" for q ch'
      using ev_cancel(1,4) unfolding sets ev_inv_def by auto
    have more: "ch < es_next s" "ch \<notin> es_closed s"
      using ev_cancel(1,4) listed unfolding ev_inv_def by blast+
    show ?thesis
      unfolding ev_inv_def
      using subs dist' keys' none more ev_cancel(2,4) by (auto simp: ev_inv_def)
  qed
next
  case (ev_close s closed twice)
  have inv: "ev_inv s" by fact
  note all = all_chans_listed [of "es_chans s"]
  have keys: "\<And>al. es_chans s = Some al \<Longrightarrow> distinct (map fst al)" using inv unfolding ev_inv_def by blast
  have mem: "set (all_chans (es_chans s)) = (\<Union>p. set (chans_of (es_chans s) p))"
    by (rule all(1)) (rule keys)
  have "distinct (all_chans (es_chans s))"
    by (rule all(2) [OF keys]) (use inv in \<open>fastforce simp: ev_inv_def\<close>)+
  moreover have "set (all_chans (es_chans s)) \<inter> es_closed s = {}"
    using inv unfolding mem ev_inv_def by blast
  ultimately have fresh: "distinct (all_chans (es_chans s))" "set (all_chans (es_chans s)) \<inter> es_closed s = {}"
    by simp_all
  have old: "ch < es_next s" if "ch \<in> set (all_chans (es_chans s))" for ch
    using inv that unfolding mem ev_inv_def by blast
  have subs: "ch \<in> es_closed s \<union> set (all_chans (es_chans s))" if "es_subs s ch = Some (p, ph)" for ch p ph
    using inv that unfolding mem ev_inv_def by blast
  have "closed = es_closed s \<union> set (all_chans (es_chans s))" "\<not> twice"
    using close_chans_fresh [OF fresh] ev_close(2) by simp_all
  moreover have "es_dist s = None" using ev_close(1) inv unfolding ev_inv_def by (cases "es_dist s") auto
  moreover have "chans_of None p = []" for p by (simp add: chans_of_def)
  ultimately show ?case using inv old subs unfolding ev_inv_def by fastforce
qed (auto simp: ev_inv_def)

lemma ev_run_inv: "ev_run s t \<Longrightarrow> ev_inv s \<Longrightarrow> ev_inv t"
  by (induction rule: ev_run.induct) (auto intro: ev_step_inv)

section \<open>Properties\<close>

text \<open>C33: In every interleaving of the distributor, subscribers that come and go, and the ingester being
closed, even more than once, nothing panics: no channel is closed twice, and the distributor never
sends on a closed channel. It sends only to subscribers of the event's publisher.\<close>

theorem events_never_sent_on_closed:
  assumes "ev_run ev_start s"
  shows "\<not> es_panicked s \<and>
    (\<forall>ev ch cs. es_dist s = Some (ev, ch # cs) \<longrightarrow>
      ch \<notin> es_closed s \<and> (\<exists>ph. es_subs s ch = Some (ev_publisher ev, ph)))"
proof -
  have "ev_inv s" by (rule ev_run_inv [OF assms ev_inv_start])
  then show ?thesis unfolding ev_inv_def by fastforce
qed

text \<open>A publisher \<open>''p''\<close> with two subscribers and an event about it, being sent.\<close>

definition event_p :: ad_event where
  "event_p = \<lparr>ev_publisher = ''p'', ev_head = ''head'', ev_ad = ''ad'', ev_err = None\<rparr>"

abbreviation sub_one :: ev_sys where
  "sub_one \<equiv> ev_start\<lparr>es_chans := add_chan ''p'' 0 None, es_next := 1,
     es_subs := [0 \<mapsto> (''p'', Reading)], es_in := [event_p]\<rparr>"

lemma sub_one_reached: "ev_run ev_start sub_one"
proof -
  have "ev_run ev_start (ev_start\<lparr>es_chans := add_chan ''p'' 0 None, es_next := 1,
     es_subs := [0 \<mapsto> (''p'', Reading)]\<rparr>)"
    using ev_run_step [OF ev_run_refl ev_subscribe [of ev_start "''p''"]]
    by (simp add: ev_start_def)
  from ev_run_step [OF this ev_arrive [of _ event_p]] show ?thesis
    by (simp add: ev_start_def)
qed

abbreviation sub_sending :: ev_sys where
  "sub_sending \<equiv> sub_one\<lparr>es_in := [], es_locked := True, es_dist := Some (event_p, [0])\<rparr>"

lemma sub_sending_reached: "ev_run ev_start sub_sending"
  using ev_run_step [OF sub_one_reached ev_lock [of _ event_p "[]"]]
  by (simp add: ev_start_def add_chan_def chans_of_def event_p_def)

theorem events_never_sent_on_closed_witness:
  "0 \<notin> es_closed sub_sending \<and> (\<exists>ph. es_subs sub_sending 0 = Some (''p'', ph))"
  using events_never_sent_on_closed [OF sub_sending_reached] by (simp add: event_p_def)

text \<open>C35: The distributor keeps the lock while it waits for room in a channel, and cancelling needs the
lock: when a subscriber stops reading to cancel while its channel is full and the distributor
sends to it, neither ever goes on, whatever else happens - no further event is delivered to anyone and
nobody can subscribe or cancel any more.\<close>

theorem events_deadlock:
  assumes "ev_run s t"
    and "es_locked s" and "es_dist s = Some (ev, ch # cs)" and "es_buf s ch \<noteq> []"
    and "es_subs s ch = Some (p, Cancelling)"
  shows "es_dist t = es_dist s \<and> es_locked t \<and> es_chans t = es_chans s \<and>
    es_subs t ch = Some (p, Cancelling)"
proof -
  have "es_dist t = es_dist s \<and> es_locked t \<and> es_chans t = es_chans s \<and>
      es_subs t ch = Some (p, Cancelling) \<and> es_buf t ch \<noteq> []"
    using assms(1)
  proof (induction rule: ev_run.induct)
    case ev_run_refl
    then show ?case using assms by simp
  next
    case (ev_run_step t u)
    from ev_run_step(2,3) show ?case
      using assms(3) by (cases rule: ev_step.cases) (auto split: if_splits)
  qed
  then show ?thesis by simp
qed

abbreviation sub_full :: ev_sys where
  "sub_full \<equiv> sub_sending\<lparr>es_buf := (\<lambda>_. [])(0 := [event_p]), es_subs := [0 \<mapsto> (''p'', Cancelling)]\<rparr>"

lemma sub_full_reached: "ev_run ev_start sub_full"
proof -
  have sent: "ev_run ev_start (sub_one\<lparr>es_in := [], es_locked := False, es_dist := None,
      es_buf := (\<lambda>_. [])(0 := [event_p])\<rparr>)"
    using ev_run_step [OF ev_run_step [OF sub_sending_reached ev_send [of _ event_p 0 "[]"]]
        ev_unlock [of _ event_p]]
    by (simp add: ev_start_def)
  have again: "ev_run ev_start (sub_sending\<lparr>es_buf := (\<lambda>_. [])(0 := [event_p])\<rparr>)"
    using ev_run_step [OF ev_run_step [OF sent ev_arrive [of _ event_p]] ev_lock [of _ event_p "[]"]]
    by (simp add: ev_start_def add_chan_def chans_of_def event_p_def)
  show ?thesis
    using ev_run_step [OF again ev_leave [of _ 0 "''p''"]] by (simp add: ev_start_def)
qed

theorem events_deadlock_witness:
  "ev_run ev_start sub_full \<and>
   {t. ev_run sub_full t} \<subseteq> {t. es_dist t = Some (event_p, [0]) \<and> es_locked t}"
  using sub_full_reached events_deadlock [of sub_full _ event_p 0 "[]" "''p''"] by auto

end
