(* ===== verification/Coders.thy ===== *)
theory Coders
  imports Prelude
begin

text \<open>
  A concrete encoding of structured values as strings, to instantiate theorems about the wire
  formats, which are otherwise arguments. A coder writes a value so that it can be read back from
  the front of a longer string.
\<close>

record 'a coder =
  co_write :: "'a \<Rightarrow> string"
  co_read :: "string \<Rightarrow> 'a \<times> string"

definition coder_ok :: "'a coder \<Rightarrow> bool" where
  "coder_ok C \<longleftrightarrow> (\<forall>x rest. co_read C (co_write C x @ rest) = (x, rest))"

lemma coder_okD: "coder_ok C \<Longrightarrow> co_read C (co_write C x @ rest) = (x, rest)"
  by (simp add: coder_ok_def)

text \<open>Numbers in unary, closed by a zero.\<close>

definition read_nat :: "string \<Rightarrow> nat \<times> string" where
  "read_nat s = (let n = length (takeWhile (\<lambda>c. c = CHR ''1'') s) in (n, drop (Suc n) s))"

definition nat_coder :: "nat coder" where
  "nat_coder = \<lparr>co_write = (\<lambda>n. replicate n CHR ''1'' @ ''0''), co_read = read_nat\<rparr>"

lemma nat_coder_ok [intro, simp]: "coder_ok nat_coder"
  by (auto simp: coder_ok_def nat_coder_def read_nat_def Let_def takeWhile_append2)

definition string_coder :: "string coder" where
  "string_coder =
     \<lparr>co_write = (\<lambda>s. co_write nat_coder (length s) @ s),
      co_read = (\<lambda>s. let (n, r) = co_read nat_coder s in (take n r, drop n r))\<rparr>"

lemma string_coder_ok [intro, simp]: "coder_ok string_coder"
  using coder_okD [OF nat_coder_ok] by (simp add: coder_ok_def string_coder_def)

definition pair_coder :: "'a coder \<Rightarrow> 'b coder \<Rightarrow> ('a \<times> 'b) coder" where
  "pair_coder A B =
     \<lparr>co_write = (\<lambda>(a, b). co_write A a @ co_write B b),
      co_read = (\<lambda>s. let (a, r) = co_read A s; (b, r) = co_read B r in ((a, b), r))\<rparr>"

lemma pair_coder_ok [intro, simp]: "coder_ok A \<Longrightarrow> coder_ok B \<Longrightarrow> coder_ok (pair_coder A B)"
  by (simp add: coder_ok_def pair_coder_def)

fun read_times :: "(string \<Rightarrow> 'a \<times> string) \<Rightarrow> nat \<Rightarrow> string \<Rightarrow> 'a list \<times> string" where
  "read_times rd 0 s = ([], s)"
| "read_times rd (Suc n) s = (let (x, r) = rd s; (xs, r) = read_times rd n r in (x # xs, r))"

lemma read_times_write:
  "(\<And>x rest. x \<in> set xs \<Longrightarrow> rd (wr x @ rest) = (x, rest)) \<Longrightarrow>
     read_times rd (length xs) (concat (map wr xs) @ rest) = (xs, rest)"
  by (induction xs) simp_all

definition list_coder :: "'a coder \<Rightarrow> 'a list coder" where
  "list_coder A =
     \<lparr>co_write = (\<lambda>xs. co_write nat_coder (length xs) @ concat (map (co_write A) xs)),
      co_read = (\<lambda>s. let (n, r) = co_read nat_coder s in read_times (co_read A) n r)\<rparr>"

lemma list_coder_ok [intro, simp]: "coder_ok A \<Longrightarrow> coder_ok (list_coder A)"
  using coder_okD [OF nat_coder_ok] by (simp add: coder_ok_def list_coder_def read_times_write)

text \<open>A type that is coded as another.\<close>

definition via_coder :: "('a \<Rightarrow> 'b) \<Rightarrow> ('b \<Rightarrow> 'a) \<Rightarrow> 'b coder \<Rightarrow> 'a coder" where
  "via_coder enc dec B =
     \<lparr>co_write = (\<lambda>x. co_write B (enc x)), co_read = (\<lambda>s. case co_read B s of (y, r) \<Rightarrow> (dec y, r))\<rparr>"

lemma via_coder_ok [intro]: "coder_ok B \<Longrightarrow> (\<And>x. dec (enc x) = x) \<Longrightarrow> coder_ok (via_coder enc dec B)"
  by (simp add: coder_ok_def via_coder_def)

definition option_coder :: "'a coder \<Rightarrow> 'a option coder" where
  "option_coder A =
     via_coder (\<lambda>x. case x of None \<Rightarrow> [] | Some y \<Rightarrow> [y])
       (\<lambda>xs. case xs of [] \<Rightarrow> None | y # _ \<Rightarrow> Some y) (list_coder A)"

lemma option_coder_ok [intro, simp]: "coder_ok A \<Longrightarrow> coder_ok (option_coder A)"
  unfolding option_coder_def by (rule via_coder_ok) (auto split: option.splits)

definition int_coder :: "int coder" where
  "int_coder = via_coder (\<lambda>n. if n < 0 then (0, nat (- n)) else (1, nat n))
     (\<lambda>(s, n). if s = (0 :: nat) then - int n else int n) (pair_coder nat_coder nat_coder)"

lemma int_coder_ok [intro, simp]: "coder_ok int_coder"
  unfolding int_coder_def by (rule via_coder_ok) auto

lemma coder_write_inverse: "coder_ok C \<Longrightarrow> fst (co_read C (co_write C x)) = x"
  using coder_okD [of C x "[]"] by simp

end
