(* ===== verification/Json.thy ===== *)
theory Json
  imports Errors Coders "HOL-Library.AList" "HOL-Library.List_Lexorder" "HOL-Library.Char_ord"
begin

text \<open>
  What \<^verbatim>\<open>encoding/json\<close> makes of Go values. A JSON text is a tree here, and the Go types are
  described by codecs that encode a value and decode a tree into a value that is already there:
  fields the tree does not name keep their value. A nil slice, which encodes as null, is not told
  from an empty one; a nil map is. The general facts are that decoding what was encoded gives the
  value back (\<open>codec_laws\<close>) and that decoding keeps values within their type (\<open>codec_types\<close>).
\<close>

section \<open>JSON\<close>

text \<open>\<open>JFloat\<close> is the text of a number that is not an integer literal.\<close>

datatype json =
    JNull
  | JBool bool
  | JNum int
  | JFloat string
  | JStr string
  | JArr "json list"
  | JObj "(string \<times> json) list"

record 'a jcodec =
  jc_enc :: "'a \<Rightarrow> json"
  jc_dec :: "json \<Rightarrow> 'a \<Rightarrow> go_error + 'a"
  jc_valid :: "'a \<Rightarrow> bool"

definition unmarshal_type_error :: "go_error" where
  "unmarshal_type_error = ErrMsg ''json: cannot unmarshal value into Go value''"

text \<open>A null leaves a value of these types as it is.\<close>

definition json_bool :: "bool jcodec" where
  "json_bool =
     \<lparr>jc_enc = JBool,
      jc_dec = (\<lambda>j b. case j of JNull \<Rightarrow> Inr b | JBool c \<Rightarrow> Inr c | _ \<Rightarrow> Inl unmarshal_type_error),
      jc_valid = (\<lambda>_. True)\<rparr>"

definition json_int :: "int jcodec" where
  "json_int =
     \<lparr>jc_enc = JNum,
      jc_dec = (\<lambda>j n. case j of
         JNull \<Rightarrow> Inr n | JNum m \<Rightarrow> if in_int64 m then Inr m else Inl unmarshal_type_error
       | _ \<Rightarrow> Inl unmarshal_type_error),
      jc_valid = in_int64\<rparr>"

definition json_string :: "string jcodec" where
  "json_string =
     \<lparr>jc_enc = JStr,
      jc_dec = (\<lambda>j s. case j of JNull \<Rightarrow> Inr s | JStr t \<Rightarrow> Inr t | _ \<Rightarrow> Inl unmarshal_type_error),
      jc_valid = (\<lambda>_. True)\<rparr>"

text \<open>
  A slice: a null makes it nil. The elements of an array are decoded into the ones that are there
  already, as far as there are any, so that a null keeps the old element.
\<close>

fun json_elems :: "'a jcodec \<Rightarrow> 'a \<Rightarrow> json list \<Rightarrow> 'a list \<Rightarrow> go_error + 'a list" where
  "json_elems C zero [] olds = Inr []"
| "json_elems C zero (j # js) olds =
     (case jc_dec C j (case olds of [] \<Rightarrow> zero | x # _ \<Rightarrow> x) of
        Inl e \<Rightarrow> Inl e
      | Inr x \<Rightarrow> map_sum id (\<lambda>xs. x # xs) (json_elems C zero js (tl olds)))"

definition json_slice :: "'a \<Rightarrow> 'a jcodec \<Rightarrow> 'a list jcodec" where
  "json_slice zero C =
     \<lparr>jc_enc = (\<lambda>xs. JArr (map (jc_enc C) xs)),
      jc_dec = (\<lambda>j olds. case j of
         JNull \<Rightarrow> Inr [] | JArr js \<Rightarrow> json_elems C zero js olds | _ \<Rightarrow> Inl unmarshal_type_error),
      jc_valid = list_all (jc_valid C)\<rparr>"

text \<open>A map from strings to strings: entries are added to the map that is there.\<close>

fun json_entries :: "(string \<times> json) list \<Rightarrow> (string \<times> string) list \<Rightarrow> go_error + (string \<times> string) list" where
  "json_entries [] m = Inr m"
| "json_entries ((k, j) # kvs) m =
     (case jc_dec json_string j [] of
        Inl e \<Rightarrow> Inl e
      | Inr v \<Rightarrow> json_entries kvs (AList.update k v m))"

definition json_string_map :: "(string \<times> string) list option jcodec" where
  "json_string_map =
     \<lparr>jc_enc = (\<lambda>m. case m of None \<Rightarrow> JNull | Some al \<Rightarrow> JObj (map (\<lambda>(k, v). (k, JStr v)) (sort_key fst al))),
      jc_dec = (\<lambda>j m. case j of
         JNull \<Rightarrow> Inr None
       | JObj kvs \<Rightarrow> map_sum id Some (json_entries kvs (case m of None \<Rightarrow> [] | Some al \<Rightarrow> al))
       | _ \<Rightarrow> Inl unmarshal_type_error),
      jc_valid = (\<lambda>m. case m of None \<Rightarrow> True | Some al \<Rightarrow> distinct (map fst al))\<rparr>"

section \<open>Structs\<close>

text \<open>
  A field has a name, an encoding (\<open>None\<close> when it is left out) and a decoder that writes the field
  of a struct.
\<close>

record 's jfield =
  jf_name :: string
  jf_enc :: "'s \<Rightarrow> json option"
  jf_dec :: "json \<Rightarrow> 's \<Rightarrow> go_error + 's"
  jf_valid :: "'s \<Rightarrow> bool"

definition json_field :: "string \<Rightarrow> 'a jcodec \<Rightarrow> ('s \<Rightarrow> 'a) \<Rightarrow> ('a \<Rightarrow> 's \<Rightarrow> 's) \<Rightarrow> 's jfield" where
  "json_field n C get put =
     \<lparr>jf_name = n, jf_enc = (\<lambda>s. Some (jc_enc C (get s))),
      jf_dec = (\<lambda>j s. map_sum id (\<lambda>v. put v s) (jc_dec C j (get s))),
      jf_valid = (\<lambda>s. jc_valid C (get s))\<rparr>"

definition json_omitempty :: "string \<Rightarrow> ('s \<Rightarrow> string) \<Rightarrow> (string \<Rightarrow> 's \<Rightarrow> 's) \<Rightarrow> 's jfield" where
  "json_omitempty n get put =
     (json_field n json_string get put)\<lparr>jf_enc := (\<lambda>s. if get s = [] then None else Some (JStr (get s)))\<rparr>"

text \<open>
  Field names match exactly or else up to case; the Kelvin sign and the long s, as UTF-8, fold to
  k and s.
\<close>

definition lower_char :: "char \<Rightarrow> char" where
  "lower_char c = (if CHR ''A'' \<le> c \<and> c \<le> CHR ''Z'' then char_of (of_char c + 32 :: nat) else c)"

function fold_key :: "string \<Rightarrow> string" where
  "fold_key [] = []"
| "fold_key (c # cs) =
     (if c = CHR 0xE2 \<and> take 2 cs = [CHR 0x84, CHR 0xAA] then CHR ''k'' # fold_key (drop 2 cs)
      else if c = CHR 0xC5 \<and> take 1 cs = [CHR 0xBF] then CHR ''s'' # fold_key (drop 1 cs)
      else lower_char c # fold_key cs)"
  by pat_completeness auto
termination by (relation "measure length") auto

definition find_field :: "'s jfield list \<Rightarrow> string \<Rightarrow> 's jfield option" where
  "find_field fs k =
     (case find (\<lambda>f. jf_name f = k) fs of
        Some f \<Rightarrow> Some f
      | None \<Rightarrow> find (\<lambda>f. fold_key (jf_name f) = fold_key k) fs)"

fun json_members :: "'s jfield list \<Rightarrow> (string \<times> json) list \<Rightarrow> 's \<Rightarrow> go_error + 's" where
  "json_members fs [] s = Inr s"
| "json_members fs ((k, j) # kvs) s =
     (case find_field fs k of
        None \<Rightarrow> json_members fs kvs s
      | Some f \<Rightarrow> (case jf_dec f j s of Inl e \<Rightarrow> Inl e | Inr s' \<Rightarrow> json_members fs kvs s'))"

definition json_struct :: "'s jfield list \<Rightarrow> 's jcodec" where
  "json_struct fs =
     \<lparr>jc_enc = (\<lambda>s. JObj (List.map_filter (\<lambda>f. map_option (Pair (jf_name f)) (jf_enc f s)) fs)),
      jc_dec = (\<lambda>j s. case j of
         JNull \<Rightarrow> Inr s | JObj kvs \<Rightarrow> json_members fs kvs s | _ \<Rightarrow> Inl unmarshal_type_error),
      jc_valid = (\<lambda>s. list_all (\<lambda>f. jf_valid f s) fs)\<rparr>"

section \<open>Decoding what was encoded\<close>

definition jc_overwrites :: "'a jcodec \<Rightarrow> bool" where
  "jc_overwrites C \<longleftrightarrow> (\<forall>x base. jc_valid C x \<longrightarrow> jc_dec C (jc_enc C x) base = Inr x)"

lemma jc_overwritesD: "jc_overwrites C \<Longrightarrow> jc_valid C x \<Longrightarrow> jc_dec C (jc_enc C x) base = Inr x"
  by (simp add: jc_overwrites_def)

named_theorems codec_laws "codecs that overwrite what was there"

lemma json_bool_overwrites [codec_laws]: "jc_overwrites json_bool"
  by (simp add: jc_overwrites_def json_bool_def)

lemma json_int_overwrites [codec_laws]: "jc_overwrites json_int"
  by (simp add: jc_overwrites_def json_int_def)

lemma json_string_valid [simp]: "jc_valid json_string s"
  by (simp add: json_string_def)

lemma json_string_overwrites [codec_laws]: "jc_overwrites json_string"
  by (simp add: jc_overwrites_def json_string_def)

lemma json_elems_encoded:
  "jc_overwrites C \<Longrightarrow> list_all (jc_valid C) xs \<Longrightarrow> json_elems C zero (map (jc_enc C) xs) olds = Inr xs"
  by (induction xs arbitrary: olds) (auto simp: jc_overwritesD split: list.splits)

lemma json_slice_overwrites [codec_laws]: "jc_overwrites C \<Longrightarrow> jc_overwrites (json_slice zero C)"
  unfolding jc_overwrites_def [of "json_slice zero C"] by (simp add: json_slice_def json_elems_encoded)

lemma json_entries_encoded: "json_entries (map (\<lambda>(k, v). (k, JStr v)) al) m = Inr (AList.updates (map fst al) (map snd al) m)"
  by (induction al arbitrary: m) (auto simp: json_string_def)

text \<open>
  The fields of a struct are written one after the other, whatever was there before and whatever
  other fields there are.
\<close>

fun write_fields :: "'s jfield list \<Rightarrow> 's \<Rightarrow> 's \<Rightarrow> go_error + 's" where
  "write_fields [] x s = Inr s"
| "write_fields (f # fs) x s =
     (case jf_enc f x of
        None \<Rightarrow> write_fields fs x s
      | Some j \<Rightarrow> (case jf_dec f j s of Inl e \<Rightarrow> Inl e | Inr s' \<Rightarrow> write_fields fs x s'))"

lemma find_field_distinct:
  "distinct (map jf_name fs) \<Longrightarrow> f \<in> set fs \<Longrightarrow> find_field fs (jf_name f) = Some f"
proof -
  assume *: "distinct (map jf_name fs)" "f \<in> set fs"
  then have "find (\<lambda>g. jf_name g = jf_name f) fs = Some f" by (induction fs) auto
  then show ?thesis by (simp add: find_field_def)
qed

lemma json_members_encoded:
  assumes "distinct (map jf_name fs)" and "set gs \<subseteq> set fs"
  shows "json_members fs (List.map_filter (\<lambda>f. map_option (Pair (jf_name f)) (jf_enc f x)) gs) s = write_fields gs x s"
  using assms(2)
proof (induction gs arbitrary: s)
  case (Cons g gs)
  then show ?case
    using find_field_distinct [OF assms(1), of g]
    by (auto simp: map_filter_simps split: option.splits sum.splits)
qed (simp add: map_filter_simps)

lemma json_struct_encoded:
  "distinct (map jf_name fs) \<Longrightarrow> jc_dec (json_struct fs) (jc_enc (json_struct fs) x) s = write_fields fs x s"
  by (simp add: json_struct_def json_members_encoded)

lemma json_field_written:
  assumes "jc_overwrites C" and "jc_valid C (get x)"
  shows "write_fields (json_field n C get put # fs) x s = write_fields fs x (put (get x) s)"
  using assms by (simp add: json_field_def jc_overwritesD)

lemma json_omitempty_written:
  "write_fields (json_omitempty n get put # fs) x s =
     write_fields fs x (if get x = [] then s else put (get x) s)"
  by (simp add: json_omitempty_def json_field_def json_string_def)

declare write_fields.simps(2) [simp del]

lemma json_struct_valid: "jc_valid (json_struct fs) x \<longleftrightarrow> list_all (\<lambda>f. jf_valid f x) fs"
  by (simp add: json_struct_def)

lemma json_field_names [simp]:
  "jf_name (json_field n C get put) = n" "jf_name (json_omitempty n get' put') = n"
  "jf_valid (json_field n C get put) x = jc_valid C (get x)"
  "jf_valid (json_omitempty n get' put') y"
  by (simp_all add: json_field_def json_omitempty_def json_string_def)

section \<open>Decoding keeps types\<close>

text \<open>Decoding into a value of the type gives a value of the type, whatever the file says.\<close>

definition jc_typed :: "'a jcodec \<Rightarrow> bool" where
  "jc_typed C \<longleftrightarrow> (\<forall>j x y. jc_valid C x \<longrightarrow> jc_dec C j x = Inr y \<longrightarrow> jc_valid C y)"

lemma jc_typedD: "jc_typed C \<Longrightarrow> jc_dec C j x = Inr y \<Longrightarrow> jc_valid C x \<Longrightarrow> jc_valid C y"
  unfolding jc_typed_def by blast

named_theorems codec_types "codecs that keep their type"

lemma json_bool_typed [codec_types]: "jc_typed json_bool"
  by (simp add: jc_typed_def json_bool_def)

lemma json_int_typed [codec_types]: "jc_typed json_int"
  by (auto simp: jc_typed_def json_int_def split: json.splits if_splits)

lemma json_string_typed [codec_types]: "jc_typed json_string"
  by (simp add: jc_typed_def)

lemma json_elems_typed:
  assumes "jc_typed C" and "jc_valid C zero"
  shows "json_elems C zero js olds = Inr xs \<Longrightarrow> list_all (jc_valid C) olds \<Longrightarrow> list_all (jc_valid C) xs"
proof (induction js arbitrary: olds xs)
  case (Cons j js)
  define old where "old = (case olds of [] \<Rightarrow> zero | x # _ \<Rightarrow> x)"
  have old: "jc_valid C old" using Cons.prems(2) assms(2) by (cases olds) (simp_all add: old_def)
  have tl: "list_all (jc_valid C) (tl olds)" using Cons.prems(2) by (cases olds) simp_all
  obtain x ys where x: "jc_dec C j old = Inr x" and ys: "json_elems C zero js (tl olds) = Inr ys" "xs = x # ys"
    using Cons.prems(1) unfolding json_elems.simps old_def [symmetric]
    by (cases "jc_dec C j old"; cases "json_elems C zero js (tl olds)") auto
  show ?case using jc_typedD [OF assms(1) x old] Cons.IH [OF ys(1) tl] ys(2) by simp
qed simp

lemma json_slice_typed [codec_types]: "jc_typed C \<Longrightarrow> jc_valid C zero \<Longrightarrow> jc_typed (json_slice zero C)"
  unfolding jc_typed_def [of "json_slice zero C"]
  by (auto simp: json_slice_def split: json.splits dest: json_elems_typed)

lemma json_entries_distinct:
  "json_entries kvs m = Inr al \<Longrightarrow> distinct (map fst m) \<Longrightarrow> distinct (map fst al)"
  by (induction kvs m rule: json_entries.induct) (auto split: sum.splits simp: distinct_update)

lemma json_string_map_typed [codec_types]: "jc_typed json_string_map"
  by (fastforce simp: jc_typed_def json_string_map_def map_sum_eq_Inr split: json.splits option.splits
      dest: json_entries_distinct)

lemma json_members_typed:
  assumes "\<And>f j s s'. f \<in> set fs \<Longrightarrow> jf_dec f j s = Inr s' \<Longrightarrow> P s \<Longrightarrow> P s'"
  shows "json_members fs kvs s = Inr s' \<Longrightarrow> P s \<Longrightarrow> P s'"
proof (induction kvs arbitrary: s)
  case (Cons kv kvs)
  have found: "f \<in> set fs" if "find_field fs k = Some f" for f k
    using that by (auto simp: find_field_def find_Some_iff split: option.splits)
  from Cons show ?case
    by (cases kv) (auto split: option.splits sum.splits dest: found assms)
qed simp

lemma struct_typed:
  assumes "\<And>f j s s'. f \<in> set fs \<Longrightarrow> jf_dec f j s = Inr s' \<Longrightarrow> list_all (\<lambda>f. jf_valid f s) fs \<Longrightarrow>
    list_all (\<lambda>f. jf_valid f s') fs"
  shows "jc_typed (json_struct fs)"
  using json_members_typed [where P = "\<lambda>s. list_all (\<lambda>f. jf_valid f s) fs", OF assms]
  by (auto simp: jc_typed_def json_struct_def split: json.splits)

lemma json_field_dec:
  "jc_typed C \<Longrightarrow> jc_valid C (get s) \<Longrightarrow> jf_dec (json_field n C get put) j s = Inr s' \<Longrightarrow>
     \<exists>v. s' = put v s \<and> jc_valid C v"
  by (auto simp: json_field_def map_sum_eq_Inr dest: jc_typedD)

lemma json_omitempty_dec:
  "jf_dec (json_omitempty n get put) j s = Inr s' \<Longrightarrow> \<exists>v. s' = put v s"
  by (auto simp: json_field_def json_omitempty_def map_sum_eq_Inr)

section \<open>A concrete text\<close>

text \<open>A coder of JSON trees. The reader's fuel is the length of the text, which bounds the depth.\<close>

fun json_write :: "json \<Rightarrow> string" where
  "json_write JNull = ''n''"
| "json_write (JBool b) = (if b then ''t'' else ''f'')"
| "json_write (JNum i) = ''i'' @ co_write int_coder i"
| "json_write (JFloat s) = ''d'' @ co_write string_coder s"
| "json_write (JStr s) = ''s'' @ co_write string_coder s"
| "json_write (JArr js) = ''a'' @ co_write nat_coder (length js) @ concat (map json_write js)"
| "json_write (JObj kvs) = ''o'' @ co_write nat_coder (length kvs) @
     concat (map (\<lambda>kv. co_write string_coder (fst kv) @ json_write (snd kv)) kvs)"

definition read_member :: "(string \<Rightarrow> json \<times> string) \<Rightarrow> string \<Rightarrow> (string \<times> json) \<times> string" where
  "read_member rd s = (let (k, r) = co_read string_coder s; (j, r) = rd r in ((k, j), r))"

primrec json_read :: "nat \<Rightarrow> string \<Rightarrow> json \<times> string" where
  "json_read 0 s = (JNull, s)"
| "json_read (Suc n) s =
     (let c = hd s; r = tl s
      in if c = CHR ''t'' then (JBool True, r)
         else if c = CHR ''f'' then (JBool False, r)
         else if c = CHR ''i'' then apfst JNum (co_read int_coder r)
         else if c = CHR ''d'' then apfst JFloat (co_read string_coder r)
         else if c = CHR ''s'' then apfst JStr (co_read string_coder r)
         else if c = CHR ''a'' then
           (let (k, r) = co_read nat_coder r in apfst JArr (read_times (json_read n) k r))
         else if c = CHR ''o'' then
           (let (k, r) = co_read nat_coder r in apfst JObj (read_times (read_member (json_read n)) k r))
         else (JNull, r))"

fun json_nodes :: "json \<Rightarrow> nat" where
  "json_nodes (JArr js) = Suc (sum_list (map json_nodes js))"
| "json_nodes (JObj kvs) = Suc (sum_list (map (\<lambda>kv. json_nodes (snd kv)) kvs))"
| "json_nodes _ = 1"

lemma json_nodes_length: "json_nodes j \<le> length (json_write j)"
proof (induction j rule: json_write.induct)
  case (6 js)
  then have "sum_list (map json_nodes js) \<le> length (concat (map json_write js))"
    by (induction js) (auto simp: add_mono)
  then show ?case by simp
next
  case (7 kvs)
  have "sum_list (map (\<lambda>kv. json_nodes (snd kv)) kvs) \<le>
    length (concat (map (\<lambda>kv. co_write string_coder (fst kv) @ json_write (snd kv)) kvs))"
    using 7
  proof (induction kvs)
    case (Cons kv kvs)
    have "json_nodes (snd kv) \<le> length (json_write (snd kv))" by (rule Cons.prems) simp
    moreover have "sum_list (map (\<lambda>kv. json_nodes (snd kv)) kvs) \<le>
      length (concat (map (\<lambda>kv. co_write string_coder (fst kv) @ json_write (snd kv)) kvs))"
      by (rule Cons.IH) (use Cons.prems in simp)
    ultimately show ?case by simp
  qed simp
  then show ?case by simp
qed simp_all

lemma json_read_write: "json_nodes j \<le> n \<Longrightarrow> json_read n (json_write j @ rest) = (j, rest)"
proof (induction n arbitrary: j rest)
  case 0
  then show ?case by (cases j) simp_all
next
  case (Suc n)
  note coders = coder_okD [OF nat_coder_ok] coder_okD [OF string_coder_ok] coder_okD [OF int_coder_ok]
  show ?case
  proof (cases j)
    case (JArr js)
    have "json_nodes x \<le> n" if "x \<in> set js" for x
      using member_le_sum_list [of "json_nodes x" "map json_nodes js"] that Suc.prems JArr by simp
    then show ?thesis using Suc.IH by (simp add: JArr coders read_times_write [where wr = json_write])
  next
    case (JObj kvs)
    have "json_nodes (snd x) \<le> n" if "x \<in> set kvs" for x
      using member_le_sum_list [of "json_nodes (snd x)" "map (\<lambda>kv. json_nodes (snd kv)) kvs"] that Suc.prems JObj
      by force
    then have "read_times (read_member (json_read n)) (length kvs)
        (concat (map (\<lambda>kv. co_write string_coder (fst kv) @ json_write (snd kv)) kvs) @ rest) = (kvs, rest)"
      using Suc.IH by (intro read_times_write) (simp add: read_member_def coders)
    then show ?thesis by (simp add: JObj coders)
  qed (simp_all add: coders)
qed

definition json_coder :: "json coder" where
  "json_coder = \<lparr>co_write = json_write, co_read = (\<lambda>s. json_read (length s) s)\<rparr>"

lemma json_coder_ok [intro, simp]: "coder_ok json_coder"
  using json_nodes_length by (simp add: coder_ok_def json_coder_def json_read_write trans_le_add1)

end
