(* ===== verification/Config.thy ===== *)
theory Config
  imports Json Peer_Policy Externals
begin

text \<open>
  The configuration file (\<^verbatim>\<open>config/*.go\<close>): the settings of every part, their defaults, how
  they are written as JSON, and loading, saving and upgrading the file, with the identity of the
  node. Printing and parsing JSON texts and durations, the file system and go-libp2p are arguments
  (\<open>config_env\<close>).
\<close>

section \<open>The settings\<close>

record identity =
  id_peer_id :: string
  id_priv_key :: string

record listen_addresses =
  la_admin :: string
  la_finder :: string
  la_ingest :: string
  la_p2p_addr :: string
  la_no_resource_manager :: bool

record bootstrap_config =
  bs_peers :: "string list"
  bs_minimum_peers :: int

record datastore_config =
  dc_dir :: string
  dc_type :: string

record polling_config =
  po_provider_id :: string
  po_interval :: duration
  po_retry_after :: duration
  po_stop_after :: duration

record discovery_config =
  dv_lotus_gateway :: string
  dv_policy :: policy_config
  dv_poll_interval :: duration
  dv_poll_retry_after :: duration
  dv_poll_stop_after :: duration
  dv_poll_overrides :: "polling_config list"
  dv_rediscover_wait :: duration
  dv_timeout :: duration

record indexer_config =
  xc_cache_size :: int
  xc_config_check_interval :: duration
  xc_gc_interval :: duration
  xc_shutdown_timeout :: duration
  xc_value_store_dir :: string
  xc_value_store_type :: string

record rate_limit_config =
  rl_apply :: bool
  rl_except :: "string list"
  rl_blocks_per_second :: int
  rl_burst_size :: int

record ingest_config =
  ic_advertisement_depth_limit :: int
  ic_entries_depth_limit :: int
  ic_http_sync_retry_max :: int
  ic_http_sync_retry_wait_max :: duration
  ic_http_sync_retry_wait_min :: duration
  ic_http_sync_timeout :: duration
  ic_ingest_worker_count :: int
  ic_pub_sub_topic :: string
  ic_rate_limit :: rate_limit_config
  ic_resend_direct_announce :: bool
  ic_store_batch_size :: int
  ic_sync_segment_depth_limit :: int
  ic_sync_timeout :: duration

record logging_config =
  lg_level :: string
  lg_loggers :: "(string \<times> string) list option"

record peering_config =
  pr_peers :: "string list"

record config =
  cf_version :: int
  cf_identity :: identity
  cf_addresses :: listen_addresses
  cf_bootstrap :: bootstrap_config
  cf_datastore :: datastore_config
  cf_discovery :: discovery_config
  cf_indexer :: indexer_config
  cf_ingest :: ingest_config
  cf_logging :: logging_config
  cf_peering :: peering_config

section \<open>Defaults\<close>

definition config_version :: int where
  "config_version = 2"

definition new_addresses :: listen_addresses where
  "new_addresses =
     \<lparr>la_admin = ''/ip4/127.0.0.1/tcp/3002'', la_finder = ''/ip4/0.0.0.0/tcp/3000'',
      la_ingest = ''/ip4/0.0.0.0/tcp/3001'', la_p2p_addr = ''/ip4/0.0.0.0/tcp/3003'',
      la_no_resource_manager = False\<rparr>"

definition new_datastore :: datastore_config where
  "new_datastore = \<lparr>dc_dir = ''datastore'', dc_type = ''levelds''\<rparr>"

definition new_policy_config :: policy_config where
  "new_policy_config = \<lparr>pc_allow = True, pc_except = [], pc_publish = True, pc_publish_except = []\<rparr>"

definition new_discovery :: discovery_config where
  "new_discovery =
     \<lparr>dv_lotus_gateway = ''https://api.chain.love'', dv_policy = new_policy_config,
      dv_poll_interval = 24 * hour, dv_poll_retry_after = 5 * hour, dv_poll_stop_after = 7 * 24 * hour,
      dv_poll_overrides = [], dv_rediscover_wait = 5 * minute, dv_timeout = 2 * minute\<rparr>"

definition new_indexer :: indexer_config where
  "new_indexer =
     \<lparr>xc_cache_size = 300000, xc_config_check_interval = 30 * second, xc_gc_interval = 30 * minute,
      xc_shutdown_timeout = 10 * second, xc_value_store_dir = ''valuestore'', xc_value_store_type = ''sth''\<rparr>"

definition new_rate_limit :: rate_limit_config where
  "new_rate_limit = \<lparr>rl_apply = False, rl_except = [], rl_blocks_per_second = 100, rl_burst_size = 500\<rparr>"

definition new_ingest :: ingest_config where
  "new_ingest =
     \<lparr>ic_advertisement_depth_limit = 33554432, ic_entries_depth_limit = 65536, ic_http_sync_retry_max = 4,
      ic_http_sync_retry_wait_max = 30 * second, ic_http_sync_retry_wait_min = second,
      ic_http_sync_timeout = 10 * second, ic_ingest_worker_count = 10,
      ic_pub_sub_topic = ''/indexer/ingest/mainnet'', ic_rate_limit = new_rate_limit,
      ic_resend_direct_announce = False, ic_store_batch_size = 4096, ic_sync_segment_depth_limit = 2000,
      ic_sync_timeout = 2 * hour\<rparr>"

definition new_logging :: logging_config where
  "new_logging =
     \<lparr>lg_level = ''info'',
      lg_loggers = Some [(''basichost'', ''warn''), (''bootstrap'', ''warn''), (''dt_graphsync'', ''warn''),
        (''dt-impl'', ''warn''), (''graphsync'', ''warn'')]\<rparr>"

definition new_peering :: peering_config where
  "new_peering = \<lparr>pr_peers = []\<rparr>"

text \<open>Replacing zero values: what is set is kept.\<close>

definition or_text :: "string \<Rightarrow> string \<Rightarrow> string" where
  "or_text s d = (if s = [] then d else s)"

definition or_int :: "int \<Rightarrow> int \<Rightarrow> int" where
  "or_int n d = (if n = 0 then d else n)"

definition populate_addresses :: "listen_addresses \<Rightarrow> listen_addresses" where
  "populate_addresses c =
     c\<lparr>la_admin := or_text (la_admin c) (la_admin new_addresses),
       la_finder := or_text (la_finder c) (la_finder new_addresses),
       la_ingest := or_text (la_ingest c) (la_ingest new_addresses),
       la_p2p_addr := or_text (la_p2p_addr c) (la_p2p_addr new_addresses)\<rparr>"

definition populate_datastore :: "datastore_config \<Rightarrow> datastore_config" where
  "populate_datastore c =
     c\<lparr>dc_dir := or_text (dc_dir c) (dc_dir new_datastore),
       dc_type := or_text (dc_type c) (dc_type new_datastore)\<rparr>"

definition populate_discovery :: "discovery_config \<Rightarrow> discovery_config" where
  "populate_discovery c =
     c\<lparr>dv_poll_interval := or_int (dv_poll_interval c) (dv_poll_interval new_discovery),
       dv_poll_retry_after := or_int (dv_poll_retry_after c) (dv_poll_retry_after new_discovery),
       dv_poll_stop_after := or_int (dv_poll_stop_after c) (dv_poll_stop_after new_discovery),
       dv_timeout := or_int (dv_timeout c) (dv_timeout new_discovery)\<rparr>"

definition populate_indexer :: "indexer_config \<Rightarrow> indexer_config" where
  "populate_indexer c =
     c\<lparr>xc_cache_size := or_int (xc_cache_size c) (xc_cache_size new_indexer),
       xc_config_check_interval := or_int (xc_config_check_interval c) (xc_config_check_interval new_indexer),
       xc_gc_interval := or_int (xc_gc_interval c) (xc_gc_interval new_indexer),
       xc_shutdown_timeout := or_int (xc_shutdown_timeout c) (xc_shutdown_timeout new_indexer),
       xc_value_store_dir := or_text (xc_value_store_dir c) (xc_value_store_dir new_indexer),
       xc_value_store_type := or_text (xc_value_store_type c) (xc_value_store_type new_indexer)\<rparr>"

definition populate_rate_limit :: "rate_limit_config \<Rightarrow> rate_limit_config" where
  "populate_rate_limit c =
     c\<lparr>rl_burst_size := or_int (rl_burst_size c) (wrap_int64 (5 * rl_blocks_per_second c))\<rparr>"

definition populate_ingest :: "ingest_config \<Rightarrow> ingest_config" where
  "populate_ingest c =
     c\<lparr>ic_advertisement_depth_limit := or_int (ic_advertisement_depth_limit c) (ic_advertisement_depth_limit new_ingest),
       ic_entries_depth_limit := or_int (ic_entries_depth_limit c) (ic_entries_depth_limit new_ingest),
       ic_http_sync_retry_max := or_int (ic_http_sync_retry_max c) (ic_http_sync_retry_max new_ingest),
       ic_http_sync_retry_wait_max := or_int (ic_http_sync_retry_wait_max c) (ic_http_sync_retry_wait_max new_ingest),
       ic_http_sync_retry_wait_min := or_int (ic_http_sync_retry_wait_min c) (ic_http_sync_retry_wait_min new_ingest),
       ic_http_sync_timeout := or_int (ic_http_sync_timeout c) (ic_http_sync_timeout new_ingest),
       ic_ingest_worker_count := or_int (ic_ingest_worker_count c) (ic_ingest_worker_count new_ingest),
       ic_pub_sub_topic := or_text (ic_pub_sub_topic c) (ic_pub_sub_topic new_ingest),
       ic_rate_limit := populate_rate_limit (ic_rate_limit c),
       ic_store_batch_size := or_int (ic_store_batch_size c) (ic_store_batch_size new_ingest),
       ic_sync_segment_depth_limit := or_int (ic_sync_segment_depth_limit c) (ic_sync_segment_depth_limit new_ingest),
       ic_sync_timeout := or_int (ic_sync_timeout c) (ic_sync_timeout new_ingest)\<rparr>"

definition populate_logging :: "logging_config \<Rightarrow> logging_config" where
  "populate_logging c =
     (if lg_level c \<noteq> [] then c
      else \<lparr>lg_level = lg_level new_logging,
            lg_loggers = (case lg_loggers c of
                None \<Rightarrow> lg_loggers new_logging
              | Some al \<Rightarrow> if al = [] then lg_loggers new_logging else Some al)\<rparr>)"

definition populate_unset :: "config \<Rightarrow> config" where
  "populate_unset c =
     c\<lparr>cf_addresses := populate_addresses (cf_addresses c),
       cf_datastore := populate_datastore (cf_datastore c),
       cf_discovery := populate_discovery (cf_discovery c),
       cf_indexer := populate_indexer (cf_indexer c),
       cf_ingest := populate_ingest (cf_ingest c),
       cf_logging := populate_logging (cf_logging c)\<rparr>"

section \<open>What the configuration relies on\<close>

text \<open>
  Files, with the outcome of opening and reading one. The laws are about the canonical name of a
  path: an operation that succeeds does what it says to the file of that name and leaves the other
  files alone, and making directories changes no file.
\<close>

datatype open_result = Opened bytes | NotExist | OpenFailed string

record 'f files =
  fl_read :: "'f \<Rightarrow> string \<Rightarrow> open_result"
  fl_mkdir_all :: "'f \<Rightarrow> string \<Rightarrow> string option \<times> 'f"
  fl_create :: "'f \<Rightarrow> string \<Rightarrow> string option \<times> 'f"
  fl_write :: "'f \<Rightarrow> string \<Rightarrow> bytes \<Rightarrow> string option \<times> 'f"
  fl_rename :: "'f \<Rightarrow> string \<Rightarrow> string \<Rightarrow> string option \<times> 'f"
  fl_key :: "string \<Rightarrow> string"

definition files_laws :: "'f files \<Rightarrow> bool" where
  "files_laws F \<longleftrightarrow>
     (\<forall>f p q. fl_read F (snd (fl_mkdir_all F f p)) q = fl_read F f q) \<and>
     (\<forall>f p q. fl_key F q \<noteq> fl_key F p \<longrightarrow> fl_read F (snd (fl_create F f p)) q = fl_read F f q) \<and>
     (\<forall>f p. fst (fl_create F f p) = None \<longrightarrow> fl_read F (snd (fl_create F f p)) p = Opened []) \<and>
     (\<forall>f p b q. fl_key F q \<noteq> fl_key F p \<longrightarrow> fl_read F (snd (fl_write F f p b)) q = fl_read F f q) \<and>
     (\<forall>f p b. fl_read F f p = Opened [] \<longrightarrow> fst (fl_write F f p b) = None \<longrightarrow>
        fl_read F (snd (fl_write F f p b)) p = Opened b) \<and>
     (\<forall>f p q. fst (fl_rename F f p q) = None \<longrightarrow> fl_read F (snd (fl_rename F f p q)) q = fl_read F f p)"

record 'f config_env =
  ce_files :: "'f files"
  ce_lib :: lib
  ce_print :: "json \<Rightarrow> string"
  ce_parse :: "string \<Rightarrow> go_error + json"
  ce_duration_string :: "duration \<Rightarrow> string"
  ce_parse_duration :: "string \<Rightarrow> go_error + duration"
  ce_getenv :: "string \<Rightarrow> string"
  ce_expand :: "string \<Rightarrow> go_error + string"
  ce_addr_infos :: "multiaddr list \<Rightarrow> go_error + addr_info list"
  ce_p2p_addrs :: "addr_info \<Rightarrow> go_error + multiaddr list"

text \<open>\<^verbatim>\<open>utf8.ValidString\<close>: other strings do not survive being printed as JSON.\<close>

fun utf8_tail :: "nat \<Rightarrow> nat list \<Rightarrow> bool" where
  "utf8_tail 0 ns = True"
| "utf8_tail (Suc k) [] = False"
| "utf8_tail (Suc k) (n # ns) = (0x80 \<le> n \<and> n \<le> 0xBF \<and> utf8_tail k ns)"

definition utf8_extra :: "nat \<Rightarrow> nat option \<Rightarrow> nat option" where
  "utf8_extra n m =
     (if n < 0x80 then Some 0
      else if 0xC2 \<le> n \<and> n \<le> 0xDF then Some 1
      else if n = 0xE0 then (case m of Some k \<Rightarrow> if 0xA0 \<le> k then Some 2 else None | None \<Rightarrow> None)
      else if n = 0xED then (case m of Some k \<Rightarrow> if k \<le> 0x9F then Some 2 else None | None \<Rightarrow> None)
      else if 0xE1 \<le> n \<and> n \<le> 0xEF then Some 2
      else if n = 0xF0 then (case m of Some k \<Rightarrow> if 0x90 \<le> k then Some 3 else None | None \<Rightarrow> None)
      else if n = 0xF4 then (case m of Some k \<Rightarrow> if k \<le> 0x8F then Some 3 else None | None \<Rightarrow> None)
      else if 0xF1 \<le> n \<and> n \<le> 0xF3 then Some 3
      else None)"

function utf8_valid_bytes :: "nat list \<Rightarrow> bool" where
  "utf8_valid_bytes [] = True"
| "utf8_valid_bytes (n # ns) =
     (case utf8_extra n (case ns of [] \<Rightarrow> None | m # _ \<Rightarrow> Some m) of
        None \<Rightarrow> False
      | Some k \<Rightarrow> utf8_tail k ns \<and> utf8_valid_bytes (drop k ns))"
  by pat_completeness auto
termination by (relation "measure length") auto

definition utf8_valid :: "string \<Rightarrow> bool" where
  "utf8_valid s = utf8_valid_bytes (map of_char s)"

fun json_utf8 :: "json \<Rightarrow> bool" where
  "json_utf8 (JStr s) = utf8_valid s"
| "json_utf8 (JArr js) = list_all json_utf8 js"
| "json_utf8 (JObj kvs) = list_all (\<lambda>kv. utf8_valid (fst kv) \<and> json_utf8 (snd kv)) kvs"
| "json_utf8 _ = True"

definition config_env_laws :: "'f config_env \<Rightarrow> bool" where
  "config_env_laws E \<longleftrightarrow> files_laws (ce_files E) \<and>
     (\<forall>j. json_utf8 j \<longrightarrow> ce_parse E (ce_print E j) = Inr j) \<and>
     (\<forall>d. in_int64 d \<longrightarrow> ce_parse_duration E (ce_duration_string E d) = Inr d) \<and>
     (\<forall>s d. ce_parse_duration E s = Inr d \<longrightarrow> in_int64 d)"

section \<open>Codecs of the settings\<close>

definition json_duration :: "'f config_env \<Rightarrow> duration jcodec" where
  "json_duration E =
     \<lparr>jc_enc = (\<lambda>d. JStr (ce_duration_string E d)),
      jc_dec = (\<lambda>j d. case j of
         JNull \<Rightarrow> Inr d | JStr s \<Rightarrow> ce_parse_duration E s | _ \<Rightarrow> Inl unmarshal_type_error),
      jc_valid = in_int64\<rparr>"

abbreviation json_strings :: "string list jcodec" where
  "json_strings \<equiv> json_slice [] json_string"

definition identity_fields :: "identity jfield list" where
  "identity_fields =
     [json_field ''PeerID'' json_string id_peer_id (\<lambda>v s. s\<lparr>id_peer_id := v\<rparr>),
      json_omitempty ''PrivKey'' id_priv_key (\<lambda>v s. s\<lparr>id_priv_key := v\<rparr>)]"

definition addresses_fields :: "listen_addresses jfield list" where
  "addresses_fields =
     [json_field ''Admin'' json_string la_admin (\<lambda>v s. s\<lparr>la_admin := v\<rparr>),
      json_field ''Finder'' json_string la_finder (\<lambda>v s. s\<lparr>la_finder := v\<rparr>),
      json_field ''Ingest'' json_string la_ingest (\<lambda>v s. s\<lparr>la_ingest := v\<rparr>),
      json_field ''P2PAddr'' json_string la_p2p_addr (\<lambda>v s. s\<lparr>la_p2p_addr := v\<rparr>),
      json_field ''NoResourceManager'' json_bool la_no_resource_manager (\<lambda>v s. s\<lparr>la_no_resource_manager := v\<rparr>)]"

definition bootstrap_fields :: "bootstrap_config jfield list" where
  "bootstrap_fields =
     [json_field ''Peers'' json_strings bs_peers (\<lambda>v s. s\<lparr>bs_peers := v\<rparr>),
      json_field ''MinimumPeers'' json_int bs_minimum_peers (\<lambda>v s. s\<lparr>bs_minimum_peers := v\<rparr>)]"

definition datastore_fields :: "datastore_config jfield list" where
  "datastore_fields =
     [json_field ''Dir'' json_string dc_dir (\<lambda>v s. s\<lparr>dc_dir := v\<rparr>),
      json_field ''Type'' json_string dc_type (\<lambda>v s. s\<lparr>dc_type := v\<rparr>)]"

definition policy_fields :: "policy_config jfield list" where
  "policy_fields =
     [json_field ''Allow'' json_bool pc_allow (\<lambda>v s. s\<lparr>pc_allow := v\<rparr>),
      json_field ''Except'' json_strings pc_except (\<lambda>v s. s\<lparr>pc_except := v\<rparr>),
      json_field ''Publish'' json_bool pc_publish (\<lambda>v s. s\<lparr>pc_publish := v\<rparr>),
      json_field ''PublishExcept'' json_strings pc_publish_except (\<lambda>v s. s\<lparr>pc_publish_except := v\<rparr>)]"

definition polling_fields :: "'f config_env \<Rightarrow> polling_config jfield list" where
  "polling_fields E =
     [json_field ''ProviderID'' json_string po_provider_id (\<lambda>v s. s\<lparr>po_provider_id := v\<rparr>),
      json_field ''Interval'' (json_duration E) po_interval (\<lambda>v s. s\<lparr>po_interval := v\<rparr>),
      json_field ''RetryAfter'' (json_duration E) po_retry_after (\<lambda>v s. s\<lparr>po_retry_after := v\<rparr>),
      json_field ''StopAfter'' (json_duration E) po_stop_after (\<lambda>v s. s\<lparr>po_stop_after := v\<rparr>)]"

definition no_polling_config :: polling_config where
  "no_polling_config = \<lparr>po_provider_id = [], po_interval = 0, po_retry_after = 0, po_stop_after = 0\<rparr>"

definition discovery_fields :: "'f config_env \<Rightarrow> discovery_config jfield list" where
  "discovery_fields E =
     [json_field ''LotusGateway'' json_string dv_lotus_gateway (\<lambda>v s. s\<lparr>dv_lotus_gateway := v\<rparr>),
      json_field ''Policy'' (json_struct policy_fields) dv_policy (\<lambda>v s. s\<lparr>dv_policy := v\<rparr>),
      json_field ''PollInterval'' (json_duration E) dv_poll_interval (\<lambda>v s. s\<lparr>dv_poll_interval := v\<rparr>),
      json_field ''PollRetryAfter'' (json_duration E) dv_poll_retry_after (\<lambda>v s. s\<lparr>dv_poll_retry_after := v\<rparr>),
      json_field ''PollStopAfter'' (json_duration E) dv_poll_stop_after (\<lambda>v s. s\<lparr>dv_poll_stop_after := v\<rparr>),
      json_field ''PollOverrides'' (json_slice no_polling_config (json_struct (polling_fields E)))
        dv_poll_overrides (\<lambda>v s. s\<lparr>dv_poll_overrides := v\<rparr>),
      json_field ''RediscoverWait'' (json_duration E) dv_rediscover_wait (\<lambda>v s. s\<lparr>dv_rediscover_wait := v\<rparr>),
      json_field ''Timeout'' (json_duration E) dv_timeout (\<lambda>v s. s\<lparr>dv_timeout := v\<rparr>)]"

definition indexer_fields :: "'f config_env \<Rightarrow> indexer_config jfield list" where
  "indexer_fields E =
     [json_field ''CacheSize'' json_int xc_cache_size (\<lambda>v s. s\<lparr>xc_cache_size := v\<rparr>),
      json_field ''ConfigCheckInterval'' (json_duration E) xc_config_check_interval
        (\<lambda>v s. s\<lparr>xc_config_check_interval := v\<rparr>),
      json_field ''GCInterval'' (json_duration E) xc_gc_interval (\<lambda>v s. s\<lparr>xc_gc_interval := v\<rparr>),
      json_field ''ShutdownTimeout'' (json_duration E) xc_shutdown_timeout (\<lambda>v s. s\<lparr>xc_shutdown_timeout := v\<rparr>),
      json_field ''ValueStoreDir'' json_string xc_value_store_dir (\<lambda>v s. s\<lparr>xc_value_store_dir := v\<rparr>),
      json_field ''ValueStoreType'' json_string xc_value_store_type (\<lambda>v s. s\<lparr>xc_value_store_type := v\<rparr>)]"

definition rate_limit_fields :: "rate_limit_config jfield list" where
  "rate_limit_fields =
     [json_field ''Apply'' json_bool rl_apply (\<lambda>v s. s\<lparr>rl_apply := v\<rparr>),
      json_field ''Except'' json_strings rl_except (\<lambda>v s. s\<lparr>rl_except := v\<rparr>),
      json_field ''BlocksPerSecond'' json_int rl_blocks_per_second (\<lambda>v s. s\<lparr>rl_blocks_per_second := v\<rparr>),
      json_field ''BurstSize'' json_int rl_burst_size (\<lambda>v s. s\<lparr>rl_burst_size := v\<rparr>)]"

definition ingest_fields :: "'f config_env \<Rightarrow> ingest_config jfield list" where
  "ingest_fields E =
     [json_field ''AdvertisementDepthLimit'' json_int ic_advertisement_depth_limit
        (\<lambda>v s. s\<lparr>ic_advertisement_depth_limit := v\<rparr>),
      json_field ''EntriesDepthLimit'' json_int ic_entries_depth_limit (\<lambda>v s. s\<lparr>ic_entries_depth_limit := v\<rparr>),
      json_field ''HttpSyncRetryMax'' json_int ic_http_sync_retry_max (\<lambda>v s. s\<lparr>ic_http_sync_retry_max := v\<rparr>),
      json_field ''HttpSyncRetryWaitMax'' (json_duration E) ic_http_sync_retry_wait_max
        (\<lambda>v s. s\<lparr>ic_http_sync_retry_wait_max := v\<rparr>),
      json_field ''HttpSyncRetryWaitMin'' (json_duration E) ic_http_sync_retry_wait_min
        (\<lambda>v s. s\<lparr>ic_http_sync_retry_wait_min := v\<rparr>),
      json_field ''HttpSyncTimeout'' (json_duration E) ic_http_sync_timeout (\<lambda>v s. s\<lparr>ic_http_sync_timeout := v\<rparr>),
      json_field ''IngestWorkerCount'' json_int ic_ingest_worker_count (\<lambda>v s. s\<lparr>ic_ingest_worker_count := v\<rparr>),
      json_field ''PubSubTopic'' json_string ic_pub_sub_topic (\<lambda>v s. s\<lparr>ic_pub_sub_topic := v\<rparr>),
      json_field ''RateLimit'' (json_struct rate_limit_fields) ic_rate_limit (\<lambda>v s. s\<lparr>ic_rate_limit := v\<rparr>),
      json_field ''ResendDirectAnnounce'' json_bool ic_resend_direct_announce
        (\<lambda>v s. s\<lparr>ic_resend_direct_announce := v\<rparr>),
      json_field ''StoreBatchSize'' json_int ic_store_batch_size (\<lambda>v s. s\<lparr>ic_store_batch_size := v\<rparr>),
      json_field ''SyncSegmentDepthLimit'' json_int ic_sync_segment_depth_limit
        (\<lambda>v s. s\<lparr>ic_sync_segment_depth_limit := v\<rparr>),
      json_field ''SyncTimeout'' (json_duration E) ic_sync_timeout (\<lambda>v s. s\<lparr>ic_sync_timeout := v\<rparr>)]"

definition logging_fields :: "logging_config jfield list" where
  "logging_fields =
     [json_field ''Level'' json_string lg_level (\<lambda>v s. s\<lparr>lg_level := v\<rparr>),
      json_field ''Loggers'' json_string_map lg_loggers (\<lambda>v s. s\<lparr>lg_loggers := v\<rparr>)]"

definition peering_fields :: "peering_config jfield list" where
  "peering_fields = [json_field ''Peers'' json_strings pr_peers (\<lambda>v s. s\<lparr>pr_peers := v\<rparr>)]"

definition config_fields :: "'f config_env \<Rightarrow> config jfield list" where
  "config_fields E =
     [json_field ''Version'' json_int cf_version (\<lambda>v s. s\<lparr>cf_version := v\<rparr>),
      json_field ''Identity'' (json_struct identity_fields) cf_identity (\<lambda>v s. s\<lparr>cf_identity := v\<rparr>),
      json_field ''Addresses'' (json_struct addresses_fields) cf_addresses (\<lambda>v s. s\<lparr>cf_addresses := v\<rparr>),
      json_field ''Bootstrap'' (json_struct bootstrap_fields) cf_bootstrap (\<lambda>v s. s\<lparr>cf_bootstrap := v\<rparr>),
      json_field ''Datastore'' (json_struct datastore_fields) cf_datastore (\<lambda>v s. s\<lparr>cf_datastore := v\<rparr>),
      json_field ''Discovery'' (json_struct (discovery_fields E)) cf_discovery (\<lambda>v s. s\<lparr>cf_discovery := v\<rparr>),
      json_field ''Indexer'' (json_struct (indexer_fields E)) cf_indexer (\<lambda>v s. s\<lparr>cf_indexer := v\<rparr>),
      json_field ''Ingest'' (json_struct (ingest_fields E)) cf_ingest (\<lambda>v s. s\<lparr>cf_ingest := v\<rparr>),
      json_field ''Logging'' (json_struct logging_fields) cf_logging (\<lambda>v s. s\<lparr>cf_logging := v\<rparr>),
      json_field ''Peering'' (json_struct peering_fields) cf_peering (\<lambda>v s. s\<lparr>cf_peering := v\<rparr>)]"

definition config_json :: "'f config_env \<Rightarrow> config jcodec" where
  "config_json E = json_struct (config_fields E)"

section \<open>Paths\<close>

definition default_path_root :: string where
  "default_path_root = ''~/.storetheindex''"

definition env_dir :: string where
  "env_dir = ''STORETHEINDEX_PATH''"

definition path_root :: "'f config_env \<Rightarrow> go_error + string" where
  "path_root E =
     (let dir = ce_getenv E env_dir in if dir \<noteq> [] then Inr dir else ce_expand E default_path_root)"

definition config_path :: "'f config_env \<Rightarrow> string \<Rightarrow> string \<Rightarrow> go_error + string" where
  "config_path E root file =
     (if file \<noteq> [] \<and> hd file = CHR ''/'' then Inr (path_clean file)
      else
        (case (if root = [] then path_root E else Inr root) of
           Inl e \<Rightarrow> Inl e
         | Inr root \<Rightarrow> Inr (path_join [root, file])))"

definition config_filename :: "'f config_env \<Rightarrow> string \<Rightarrow> go_error + string" where
  "config_filename E root = config_path E root ''config''"

text \<open>\<^verbatim>\<open>filepath.Dir\<close>: the path up to and with its last slash, cleaned.\<close>

definition path_dir :: "string \<Rightarrow> string" where
  "path_dir p = path_clean (rev (dropWhile (\<lambda>c. c \<noteq> CHR ''/'') (rev p)))"

section \<open>Peer lists\<close>

fun parse_multiaddrs :: "lib \<Rightarrow> string list \<Rightarrow> go_error + multiaddr list" where
  "parse_multiaddrs L [] = Inr []"
| "parse_multiaddrs L (s # ss) =
     (case lib_new_multiaddr L s of
        Inl t \<Rightarrow> Inl (ErrMsg t)
      | Inr a \<Rightarrow> map_sum id (\<lambda>as. a # as) (parse_multiaddrs L ss))"

definition parse_peers :: "'f config_env \<Rightarrow> string list \<Rightarrow> go_error + addr_info list" where
  "parse_peers E addrs =
     (if addrs = [] then Inr []
      else (case parse_multiaddrs (ce_lib E) addrs of Inl e \<Rightarrow> Inl e | Inr as \<Rightarrow> ce_addr_infos E as))"

fun addrs_to_peers :: "'f config_env \<Rightarrow> addr_info list \<Rightarrow> string list go" where
  "addrs_to_peers E [] = Inr []"
| "addrs_to_peers E (pi # pis) =
     (case ce_p2p_addrs E pi of
        Inl e \<Rightarrow> Inl (ExplicitPanic (error_string e))
      | Inr as \<Rightarrow>
          go_bind (addrs_to_peers E pis) (\<lambda>ps. Inr (map (lib_multiaddr_string (ce_lib E)) as @ ps)))"

definition default_bootstrap_addresses :: "string list" where
  "default_bootstrap_addresses =
     [''/dns4/bootstrap-0.mainnet.filops.net/tcp/1347/p2p/12D3KooWCVe8MmsEMes2FzgTpt9fXtmCY7wrq91GRiaC8PHSCCBj'',
      ''/dns4/bootstrap-1.mainnet.filops.net/tcp/1347/p2p/12D3KooWCwevHg1yLCvktf2nvLu7L9894mcrJR4MsBCcm4syShVc'',
      ''/dns4/bootstrap-2.mainnet.filops.net/tcp/1347/p2p/12D3KooWEWVwHGn2yR36gKLozmb4YjDJGerotAPGxmdWZx2nxMC4'',
      ''/dns4/bootstrap-3.mainnet.filops.net/tcp/1347/p2p/12D3KooWKhgq8c7NQ9iGjbyK7v7phXvG6492HQfiDaGHLHLQjk7R'',
      ''/dns4/bootstrap-4.mainnet.filops.net/tcp/1347/p2p/12D3KooWL6PsFNPhYftrJzGgF5U18hFoaVhfGk7xwzD8yVrHJ3Uc'',
      ''/dns4/bootstrap-5.mainnet.filops.net/tcp/1347/p2p/12D3KooWLFynvDQiUpXoHroV1YxKHhPJgysQGH2k3ZGwtWzR4dFH'',
      ''/dns4/bootstrap-6.mainnet.filops.net/tcp/1347/p2p/12D3KooWP5MwCiqdMETF9ub1P3MbCvQCcfconnYHbWg6sUJcDRQQ'',
      ''/dns4/bootstrap-7.mainnet.filops.net/tcp/1347/p2p/12D3KooWRs3aY1p3juFjPy8gPN95PEQChm2QKGUCAdcDCC4EBMKf'',
      ''/dns4/bootstrap-8.mainnet.filops.net/tcp/1347/p2p/12D3KooWScFR7385LTyR4zU1bYdzSiiAb5rnNABfVahPvVSzyTkR'',
      ''/dns4/lotus-bootstrap.ipfsforce.com/tcp/41778/p2p/12D3KooWGhufNmZHF3sv48aQeS13ng5XVJZ9E6qy2Ms4VzqeUsHk'',
      ''/dns4/bootstrap-0.starpool.in/tcp/12757/p2p/12D3KooWGHpBMeZbestVEWkfdnC9u7p6uFHXL1n7m1ZBqsEmiUzz'',
      ''/dns4/bootstrap-1.starpool.in/tcp/12757/p2p/12D3KooWQZrGH1PxSNZPum99M1zNvjNFM33d1AAu5DcvdHptuU7u'',
      ''/dns4/node.glif.io/tcp/1235/p2p/12D3KooWBF8cpp65hp2u9LK5mh19x67ftAam84z9LsfaquTDSBpt'',
      ''/dns4/bootstrap-0.ipfsmain.cn/tcp/34721/p2p/12D3KooWQnwEGNqcM2nAcPtRR9rAX8Hrg4k9kJLCHoTR5chJfz6d'',
      ''/dns4/bootstrap-1.ipfsmain.cn/tcp/34723/p2p/12D3KooWMKxMkD5DMpSWsW7dBddKxKT7L2GgbNuckz9otxvkvByP'']"

definition default_bootstrap_peers :: "'f config_env \<Rightarrow> string list go" where
  "default_bootstrap_peers E =
     (case parse_peers E default_bootstrap_addresses of
        Inl e \<Rightarrow> Inl (ExplicitPanic (''failed to parse hardcoded bootstrap peers: '' @ error_string e))
      | Inr infos \<Rightarrow> addrs_to_peers E infos)"

definition new_bootstrap :: "'f config_env \<Rightarrow> bootstrap_config go" where
  "new_bootstrap E =
     go_bind (default_bootstrap_peers E) (\<lambda>ps. Inr \<lparr>bs_peers = ps, bs_minimum_peers = 4\<rparr>)"

section \<open>The file\<close>

definition no_identity :: identity where
  "no_identity = \<lparr>id_peer_id = [], id_priv_key = []\<rparr>"

text \<open>The configuration that \<open>Load\<close> decodes the file into; a new configuration has a version and an
identity besides.\<close>

definition initial_config :: "'f config_env \<Rightarrow> config go" where
  "initial_config E =
     go_bind (new_bootstrap E) (\<lambda>bs. Inr
       \<lparr>cf_version = 0, cf_identity = no_identity, cf_addresses = new_addresses, cf_bootstrap = bs,
        cf_datastore = new_datastore, cf_discovery = new_discovery, cf_indexer = new_indexer,
        cf_ingest = new_ingest, cf_logging = new_logging, cf_peering = new_peering\<rparr>)"

definition init_with_identity :: "'f config_env \<Rightarrow> identity \<Rightarrow> config go" where
  "init_with_identity E i =
     go_bind (new_bootstrap E) (\<lambda>bs. Inr
       \<lparr>cf_version = config_version, cf_identity = i, cf_addresses = new_addresses, cf_bootstrap = bs,
        cf_datastore = new_datastore, cf_discovery = new_discovery, cf_indexer = new_indexer,
        cf_ingest = new_ingest, cf_logging = new_logging, cf_peering = \<lparr>pr_peers = []\<rparr>\<rparr>)"

definition err_not_initialized :: go_error where
  "err_not_initialized = ErrMsg ''not initialized''"

definition load_config :: "'f config_env \<Rightarrow> string \<Rightarrow> 'f \<Rightarrow> (go_error + config) go" where
  "load_config E path f =
     (case (if path = [] then config_filename E [] else Inr path) of
        Inl e \<Rightarrow> Inr (Inl e)
      | Inr path \<Rightarrow>
          (case fl_read (ce_files E) f path of
             NotExist \<Rightarrow> Inr (Inl err_not_initialized)
           | OpenFailed t \<Rightarrow> Inr (Inl (ErrMsg t))
           | Opened text \<Rightarrow>
               go_bind (initial_config E) (\<lambda>cfg. Inr
                 (case ce_parse E text of
                    Inl e \<Rightarrow> Inl e
                  | Inr j \<Rightarrow> map_sum id populate_unset (jc_dec (config_json E) j cfg)))))"

definition save_config :: "'f config_env \<Rightarrow> config \<Rightarrow> string \<Rightarrow> 'f \<Rightarrow> go_error option \<times> 'f" where
  "save_config E cfg path f =
     (case (if path = [] then config_filename E [] else Inr path) of
        Inl e \<Rightarrow> (Some e, f)
      | Inr path \<Rightarrow>
          (case fl_mkdir_all (ce_files E) f (path_dir path) of
             (Some t, f) \<Rightarrow> (Some (ErrMsg t), f)
           | (None, f) \<Rightarrow>
               (case fl_create (ce_files E) f path of
                  (Some t, f) \<Rightarrow> (Some (ErrMsg t), f)
                | (None, f) \<Rightarrow>
                    (case fl_write (ce_files E) f path (ce_print E (jc_enc (config_json E) cfg)) of
                       (Some t, f) \<Rightarrow> (Some (ErrMsg t), f)
                     | (None, f) \<Rightarrow> (None, f)))))"

definition backup_name :: "string \<Rightarrow> int \<Rightarrow> string" where
  "backup_name path v = path @ ''.v'' @ show_int v"

text \<open>The configuration in memory has its version set too.\<close>

definition upgrade_config ::
    "'f config_env \<Rightarrow> config \<Rightarrow> string \<Rightarrow> 'f \<Rightarrow> go_error option \<times> config \<times> 'f" where
  "upgrade_config E cfg path f =
     (case fl_rename (ce_files E) f path (backup_name path (cf_version cfg)) of
        (Some t, f) \<Rightarrow> (Some (ErrMsg t), cfg, f)
      | (None, f) \<Rightarrow>
          (let cfg = cfg\<lparr>cf_version := config_version\<rparr>; (e, f) = save_config E cfg path f
           in (e, cfg, f)))"

section \<open>Identities\<close>

text \<open>The cryptographic library, with private and public keys of any type.\<close>

record ('k, 'p) key_lib =
  kl_marshal :: "'k \<Rightarrow> go_error + bytes"
  kl_unmarshal :: "bytes \<Rightarrow> go_error + 'k"
  kl_base64 :: "bytes \<Rightarrow> string"
  kl_unbase64 :: "string \<Rightarrow> go_error + bytes"
  kl_private_id :: "'k \<Rightarrow> go_error + peer_id"
  kl_public_id :: "'p \<Rightarrow> go_error + peer_id"

definition priv_key_env :: string where
  "priv_key_env = ''STORETHEINDEX_PRIV_KEY_PATH''"

definition decode_private_key ::
    "'f config_env \<Rightarrow> ('k, 'p) key_lib \<Rightarrow> 'f \<Rightarrow> identity \<Rightarrow> go_error + 'k" where
  "decode_private_key E K f i =
     (if id_priv_key i \<noteq> [] then
        (case kl_unbase64 K (id_priv_key i) of Inl e \<Rightarrow> Inl e | Inr b \<Rightarrow> kl_unmarshal K b)
      else
        (let path = ce_getenv E priv_key_env
         in if path = [] then
              Inl (ErrMsg (''private key not specified; it must be specified either in config or via '' @
                priv_key_env @ '' env var''))
            else (case fl_read (ce_files E) f path of
                Opened b \<Rightarrow> kl_unmarshal K b
              | NotExist \<Rightarrow> Inl (ErrMsg ''no such file or directory'')
              | OpenFailed t \<Rightarrow> Inl (ErrMsg t))))"

definition decode_identity ::
    "'f config_env \<Rightarrow> ('k, 'p) key_lib \<Rightarrow> 'f \<Rightarrow> identity \<Rightarrow> go_error + peer_id \<times> 'k" where
  "decode_identity E K f i =
     (case decode_private_key E K f i of
        Inl e \<Rightarrow> Inl (ErrWrap ''could not decode private key: '' e)
      | Inr k \<Rightarrow>
          (case kl_private_id K k of
             Inl e \<Rightarrow> Inl (ErrWrap ''could not generate peer ID from private key: '' e)
           | Inr own \<Rightarrow>
               if id_peer_id i = [] then Inr (own, k)
               else
                 (case lib_peer_decode (ce_lib E) (id_peer_id i) of
                    Inl t \<Rightarrow> Inl (ErrWrap ''could not decode peer id: '' (ErrMsg t))
                  | Inr p \<Rightarrow>
                      if p \<noteq> [] \<and> own \<noteq> p then
                        Inl (ErrMsg (''provided peer ID must either match the peer ID generated from private key or be omitted: expected '' @
                          lib_peer_string (ce_lib E) own @ '' but got '' @ lib_peer_string (ce_lib E) p))
                      else Inr (own, k))))"

text \<open>A new identity from the outcome of generating a key pair.\<close>

definition create_identity ::
    "'f config_env \<Rightarrow> ('k, 'p) key_lib \<Rightarrow> go_error + 'k \<times> 'p \<Rightarrow> go_error + identity" where
  "create_identity E K gen =
     (case gen of
        Inl e \<Rightarrow> Inl e
      | Inr (priv, pub) \<Rightarrow>
          (case kl_marshal K priv of
             Inl e \<Rightarrow> Inl e
           | Inr b \<Rightarrow>
               (case kl_public_id K pub of
                  Inl e \<Rightarrow> Inl e
                | Inr p \<Rightarrow> Inr \<lparr>id_peer_id = lib_peer_string (ce_lib E) p, id_priv_key = kl_base64 K b\<rparr>)))"

end
