(* ===== verification/Ingest_Sync.thy ===== *)
theory Ingest_Sync
  imports Ingest_Worker_Properties Config
begin

text \<open>
  The rest of \<^verbatim>\<open>internal/ingest/ingest.go\<close>: the settings of the ingester (batch size, rate
  limit), the block hook that walks chains of advertisements, explicit syncs, automatic syncs of
  providers that the registry reports, and what the subscriber asks the ingester.
\<close>

section \<open>Batch size\<close>

text \<open>The batch size is kept as an unsigned 32-bit integer.\<close>

definition batch_size :: "('d, 'i) ingester \<Rightarrow> int" where
  "batch_size s = uint (in_batch_size s)"

definition set_batch_size :: "int \<Rightarrow> ('d, 'i) ingester \<Rightarrow> ('d, 'i) ingester" where
  "set_batch_size n s = s\<lparr>in_batch_size := word_of_int n\<rparr>"

section \<open>Rate limits\<close>

text \<open>A limit of 0 stands for none; the zero policy is the one Go initialises the field to.\<close>

record rate_settings =
  rt_apply :: peer_policy
  rt_burst :: int
  rt_limit :: int

definition no_rate_settings :: rate_settings where
  "no_rate_settings =
     \<lparr>rt_apply = \<lparr>pol_value = False, pol_except = {||}\<rparr>, rt_burst = 0, rt_limit = 0\<rparr>"

definition config_rate_limit ::
    "(string \<Rightarrow> string + peer_id) \<Rightarrow> rate_limit_config \<Rightarrow> go_error + rate_settings" where
  "config_rate_limit decode cfg =
     (if rl_blocks_per_second cfg = 0 then Inr no_rate_settings
      else if rl_blocks_per_second cfg < 0
      then Inl (ErrMsg ''BlocksPerSecond must be greater than or equal to 0'')
      else if rl_burst_size cfg < 0
      then Inl (ErrMsg ''BurstSize must be greater than or equal to 0'')
      else
        (case new_policy_strings decode (rl_apply cfg) (rl_except cfg) of
           Inl e \<Rightarrow> Inl (ErrMsg (''error setting rate limit for peers: '' @ error_string e))
         | Inr p \<Rightarrow>
             Inr \<lparr>rt_apply = p, rt_burst = rl_burst_size cfg, rt_limit = rl_blocks_per_second cfg\<rparr>))"

definition set_rate_limit ::
    "(string \<Rightarrow> string + peer_id) \<Rightarrow> rate_limit_config \<Rightarrow> rate_settings \<Rightarrow>
       go_error option \<times> rate_settings" where
  "set_rate_limit decode cfg r =
     (case config_rate_limit decode cfg of Inl e \<Rightarrow> (Some e, r) | Inr r' \<Rightarrow> (None, r'))"

lemma decode_peers_Inl:
  "decode_peers decode ss ids = Inl e \<Longrightarrow> \<exists>s\<in>set ss. isl (decode s)"
  by (induction ss arbitrary: ids) (auto split: sum.splits)

lemma decode_peers_mem:
  "decode_peers decode ss ids = Inr ids' \<Longrightarrow>
     p |\<in>| ids' \<longleftrightarrow> Inr p \<in> decode ` set ss \<or> p |\<in>| ids"
  by (induction ss arbitrary: ids) (auto split: sum.splits)

datatype limiter = Unlimited | Limited int int

definition get_rate_limiter :: "rate_settings \<Rightarrow> peer_id \<Rightarrow> limiter" where
  "get_rate_limiter r publisher =
     (if rt_limit r = 0 \<or> \<not> policy_eval (rt_apply r) publisher then Unlimited
      else Limited (rt_limit r) (rt_burst r))"

section \<open>Selectors and the block hook\<close>

definition recursion_limit_of :: "int \<Rightarrow> recursion_limit" where
  "recursion_limit_of depth = (if depth < 1 then LimitNone else LimitDepth depth)"

definition make_limited_depth_selector ::
    "('d, 'i, 'n, 'h) env \<Rightarrow> peer_id \<Rightarrow> int \<Rightarrow> bool \<Rightarrow> 'd \<Rightarrow> go_error + selector" where
  "make_limited_depth_selector E peer depth resync d =
     (if resync then Inr (SelAds (recursion_limit_of depth) None)
      else
        (case get_latest_sync (en_ds E) (en_lib E) peer d of
           Inl e \<Rightarrow> Inl e
         | Inr latest \<Rightarrow>
             Inr (SelAds (recursion_limit_of depth)
               (if latest \<noteq> cid_undef then Some latest else None))))"

definition general_legs_block_hook ::
    "('d, 'i, 'n, 'h) env \<Rightarrow> cid \<Rightarrow> ('d, 'i) ingester \<Rightarrow> hook_action" where
  "general_legs_block_hook E c s =
     (case load_ad E c (in_ds s) of
        Inl e \<Rightarrow> FailSync e
      | Inr ad \<Rightarrow>
          (case ad_previous ad of Some p \<Rightarrow> SetNextSyncCid p | None \<Rightarrow> SetNextSyncCid cid_undef))"

text \<open>A failure to mark is only logged.\<close>

definition resync_hook ::
    "('d, 'i, 'n, 'h) env \<Rightarrow> cid \<Rightarrow> ('d, 'i) ingester \<Rightarrow> hook_action \<times> ('d, 'i) ingester" where
  "resync_hook E c s =
     (let s = s\<lparr>in_ds := snd (mark_ad_unprocessed (en_ds E) (en_lib E) c (in_ds s))\<rparr>
      in (general_legs_block_hook E c s, s))"

text \<open>What go-legs asks before and tells after a sync: the latter is ignored.\<close>

definition sync_handler_get_latest ::
    "('d, 'i, 'n, 'h) env \<Rightarrow> peer_id \<Rightarrow> 'd \<Rightarrow> cid \<times> bool" where
  "sync_handler_get_latest E p d =
     (case get_latest_sync (en_ds E) (en_lib E) p d of
        Inl e \<Rightarrow> (cid_undef, False) | Inr c \<Rightarrow> (c, True))"

definition sync_handler_set_latest :: "peer_id \<Rightarrow> cid \<Rightarrow> ('d, 'i) ingester \<Rightarrow> ('d, 'i) ingester" where
  "sync_handler_set_latest p c s = s"

section \<open>Explicit syncs\<close>

text \<open>
  The events the goroutine reads until its context is cancelled or the ingester closes. \<open>None\<close>: the
  channel of the caller is closed without a CID.
\<close>

fun await_sync :: "cid \<Rightarrow> ad_event list \<Rightarrow> cid option" where
  "await_sync c [] = None"
| "await_sync c (ev # evs) =
     (if ev_ad ev = c \<or> ev_err ev \<noteq> None \<and> ev_head ev = c then Some c else await_sync c evs)"

definition sync_selector ::
    "('d, 'i, 'n, 'h) env \<Rightarrow> peer_id \<Rightarrow> int \<Rightarrow> bool \<Rightarrow> 'd \<Rightarrow> go_error + selector option" where
  "sync_selector E peer depth resync d =
     (if depth \<noteq> 0 \<or> resync
      then map_sum id Some (make_limited_depth_selector E peer depth resync d) else Inr None)"

definition sync_ads_request ::
    "('d, 'i, 'n, 'h) env \<Rightarrow> peer_id \<Rightarrow> multiaddr option \<Rightarrow> selector option \<Rightarrow> bool \<Rightarrow>
       ('d, 'i) ingester sync_request" where
  "sync_ads_request E peer addr sel resync =
     \<lparr>rq_peer = peer, rq_cid = cid_undef, rq_sel = sel, rq_addr = addr,
      rq_hook = (if resync then Some (resync_hook E) else None),
      rq_segment = None, rq_update_latest = True\<rparr>"

definition explicit_sync ::
    "('d, 'i, 'n, 'h) env \<Rightarrow> ('d, 'i) ingester legs_sync \<Rightarrow> peer_id \<Rightarrow> multiaddr option \<Rightarrow> int \<Rightarrow> bool \<Rightarrow>
       ad_event list \<Rightarrow> ('d, 'i) ingester \<Rightarrow> (go_error + cid option) \<times> ('d, 'i) ingester" where
  "explicit_sync E sync peer addr depth resync events s =
     (case peer_id_validate peer of
        Some e \<Rightarrow> (Inl e, s)
      | None \<Rightarrow>
          (case sync_selector E peer depth resync (in_ds s) of
             Inl e \<Rightarrow> (Inr None, s)
           | Inr sel \<Rightarrow>
               (case get_latest_sync (en_ds E) (en_lib E) peer (in_ds s) of
                  Inl e \<Rightarrow> (Inr None, s)
                | Inr latest \<Rightarrow>
                    (case sync (sync_ads_request E peer addr sel resync) s of
                       (Inl e, s') \<Rightarrow> (Inr None, s')
                     | (Inr c, s') \<Rightarrow>
                         if latest = c \<and> \<not> resync then (Inr (Some c), s')
                         else (Inr (await_sync c events), s')))))"

section \<open>Automatic syncs\<close>

text \<open>
  One provider received from the registry's channel: a deleted one has its publisher's records
  removed, any other is synced with its publisher (by a goroutine of its own).
\<close>

definition auto_sync_request :: "provider_info \<Rightarrow> 's sync_request" where
  "auto_sync_request info =
     \<lparr>rq_peer = pi_publisher info, rq_cid = cid_undef, rq_sel = None, rq_addr = pi_publisher_addr info,
      rq_hook = None, rq_segment = None, rq_update_latest = False\<rparr>"

definition auto_sync ::
    "('d, 'i, 'n, 'h) env \<Rightarrow> ('d, 'i) ingester legs_sync \<Rightarrow> provider_info \<Rightarrow> ('d, 'i) ingester \<Rightarrow>
       ('d, 'i) ingester" where
  "auto_sync E sync info s =
     (if provider_deleted info
      then s\<lparr>in_ds := snd (remove_publisher (en_ds E) (en_lib E) (pi_publisher info) (in_ds s))\<rparr>
      else snd (sync (auto_sync_request info) s))"

section \<open>The size of the pool\<close>

text \<open>
  \<open>RunWorkers\<close>: the workers to start, or to stop. Each stop waits for a worker to receive it, so with
  a negative number the last ones would wait for ever; that is \<open>None\<close>.
\<close>

definition run_workers :: "int \<Rightarrow> nat \<Rightarrow> nat option" where
  "run_workers n sz =
     (if int sz < n then Some (nat n) else if n < int sz then (if n < 0 then None else Some (nat n))
      else Some sz)"

section \<open>Properties\<close>

lemma await_sync_append:
  "await_sync c (evs @ evs') = (case await_sync c evs of None \<Rightarrow> await_sync c evs' | Some x \<Rightarrow> Some x)"
  by (induction evs) auto

lemma await_sync_Some: "await_sync c evs = Some c \<or> await_sync c evs = None"
  by (induction evs) auto

text \<open>C37: A sync is told the end. When a sync waits for the head of an assignment that is not yet
processed, the events of the worker's run on that assignment always make it return that head,
whether the worker processed all of the advertisements or stopped at one that failed.\<close>

theorem sync_returns_after_worker:
  assumes "worker_env E absv sync" and "ws_staging ws p = Some (Some a)" and "assignment_ok E p a"
    and "records E done latest (in_ds (ws_ing ws))"
    and "ingest_worker_logic E sync nows p ws = Inr ws'"
    and "\<not> done (inf_cid (hd (as_ads a)))"
  shows "\<exists>evs. ws_events ws' = ws_events ws @ evs \<and>
    await_sync (inf_cid (hd (as_ads a))) (before @ evs) = Some (inf_cid (hd (as_ads a)))"
proof -
  define fresh where "fresh = fresh_ads done (as_ads a)"
  define c where "c = inf_cid (hd (as_ads a))"
  obtain ai ads where ads: "as_ads a = ai # ads" using assms(3) by (cases "as_ads a") (auto simp: assignment_ok_def)
  then obtain rest where fresh: "fresh = ai # rest"
    using assms(6) by (simp add: fresh_def fresh_ads_def)
  obtain k where "pass_outcome E absv (decodable E) a p (skip_flags {} fresh) fresh done latest
      (ws\<lparr>ws_staging := (ws_staging ws)(p \<mapsto> None)\<rparr>) ws' k"
    using worker_outcome [OF assms(1-5) ingests_decodable [OF assms(1)]] unfolding fresh_def by blast
  then obtain evs where evs: "ws_events ws' = ws_events ws @ evs" "outcome_events a fresh k evs"
    by (auto simp: pass_outcome_def)
  have head: "ev_head (ad_event_of a x e) = c" and own: "ev_ad (ad_event_of a ai e) = c" for x e
    by (simp_all add: ad_event_of_def c_def ads)
  have "await_sync c evs = Some c"
  proof (cases "k = 0")
    case True
    then have "evs = map (\<lambda>ai. ad_event_of a ai None) (rev rest) @ [ad_event_of a ai None]"
      using evs(2) by (simp add: outcome_events_def fresh)
    then show ?thesis
      using await_sync_Some [of c "map (\<lambda>ai. ad_event_of a ai None) (rev rest)"]
      by (auto simp: await_sync_append own)
  next
    case False
    then obtain xs x e where "evs = xs @ [ad_event_of a x (Some e)]"
      using evs(2) by (auto simp: outcome_events_def)
    moreover have "ev_err (ad_event_of a x (Some e)) \<noteq> None" by (simp add: ad_event_of_def)
    ultimately show ?thesis
      using await_sync_Some [of c xs] by (auto simp: await_sync_append head)
  qed
  then have "await_sync c (before @ evs) = Some c"
    using await_sync_Some [of c before] by (auto simp: await_sync_append)
  then show ?thesis using evs(1) unfolding c_def by blast
qed

theorem sync_returns_after_worker_witness:
  "\<exists>evs. ws_events (projr example_worker_run) = evs \<and> await_sync ''ad3'' evs = Some ''ad3''"
proof -
  have st: "ws_staging (example_workers example_assignment) ''p1'' = Some (Some example_assignment)"
    by (simp add: example_workers_def)
  have hd: "inf_cid (hd (as_ads example_assignment)) = ''ad3''" by (simp add: example_assignment_def)
  show ?thesis
    using sync_returns_after_worker [OF example_worker_env st example_assignment_ok example_records
        example_worker_run_eq [unfolded example_worker_run_def], of "[]"]
    unfolding example_worker_run_def hd by (simp add: example_workers_def)
qed

text \<open>A resync starts from scratch. After the hook of a resync has seen some blocks, exactly
those among all advertisements are newly unprocessed, so that the next step stages them again;
the latest syncs, the stored advertisements, the registry and the index are as before.\<close>

theorem resync_unmarks_visited:
  assumes "datastore_laws (en_ds E)" "datastore_reliable (en_ds E)" "lib_laws (en_lib E)"
    and "s' = fold (\<lambda>c s. snd (resync_hook E c s)) cs s"
  shows "ad_already_processed (en_ds E) (en_lib E) c (in_ds s') =
      (if c \<in> set cs then Inr False else ad_already_processed (en_ds E) (en_lib E) c (in_ds s)) \<and>
    (peer_valid q \<longrightarrow> get_latest_sync (en_ds E) (en_lib E) q (in_ds s') =
      get_latest_sync (en_ds E) (en_lib E) q (in_ds s)) \<and>
    load_ad E c (in_ds s') = load_ad E c (in_ds s) \<and>
    in_reg s' = in_reg s \<and> in_indexer s' = in_indexer s"
  using assms(4)
proof (induction cs arbitrary: s)
  case Nil
  then show ?case by simp
next
  case (Cons x cs)
  define d where "d = snd (mark_ad_unprocessed (en_ds E) (en_lib E) x (in_ds s))"
  have get: "ds_get (en_ds E) d = (ds_get (en_ds E) (in_ds s))(processed_key (en_lib E) x := Found [CHR 0x00])"
    unfolding d_def by (rule mark_ad_unprocessed_get [OF assms(1,2)])
  have "load_ad E c d = load_ad E c (in_ds s)"
    by (simp add: load_ad_def load_node_def get assms(3) key_simps)
  moreover have "peer_valid q \<Longrightarrow> get_latest_sync (en_ds E) (en_lib E) q d =
      get_latest_sync (en_ds E) (en_lib E) q (in_ds s)"
    by (simp add: get_latest_sync_def get assms(3) key_simps)
  moreover have "ad_already_processed (en_ds E) (en_lib E) c d =
      (if c = x then Inr False else ad_already_processed (en_ds E) (en_lib E) c (in_ds s))"
    by (auto simp: ad_already_processed_def get assms(3) key_simps)
  moreover have "s' = fold (\<lambda>c s. snd (resync_hook E c s)) cs (s\<lparr>in_ds := d\<rparr>)"
    using Cons.prems by (simp add: resync_hook_def Let_def d_def)
  ultimately show ?case using Cons.IH [of "s\<lparr>in_ds := d\<rparr>"] by auto
qed

theorem resync_unmarks_visited_witness:
  "ad_already_processed alist_ds hex_lib ''ad2'' (in_ds (fold
     (\<lambda>c s. snd (resync_hook (table_env plain_indexer chain_table) c s)) [''ad3'', ''ad2'']
     (fresh_ingester open_policy\<lparr>in_ds :=
        snd (mark_ad_processed alist_ds hex_lib ''p'' ''ad2'' [])\<rparr>))) = Inr False"
  using resync_unmarks_visited [of "table_env plain_indexer chain_table", OF _ _ _ refl, of "''ad2''"
      "[''ad3'', ''ad2'']"]
  by (simp add: table_env_def alist_ds_laws alist_ds_reliable hex_lib_laws)

text \<open>A rate limit that the configuration sets applies to a peer exactly as configured: not at
all with 0 blocks per second, else to the peers that the default and its exceptions single out,
with the configured rate and burst. A configuration that is refused leaves the settings alone.\<close>

theorem rate_limit_applies:
  assumes "set_rate_limit decode cfg r = (err, r')"
  shows "(case err of
      Some e \<Rightarrow> r' = r \<and> (rl_blocks_per_second cfg < 0 \<or>
        rl_blocks_per_second cfg > 0 \<and> (rl_burst_size cfg < 0 \<or>
          (\<exists>x\<in>set (rl_except cfg). isl (decode x))))
    | None \<Rightarrow> rl_blocks_per_second cfg \<ge> 0 \<and>
        get_rate_limiter r' p =
          (if rl_blocks_per_second cfg = 0 \<or> (rl_apply cfg \<longleftrightarrow> Inr p \<in> decode ` set (rl_except cfg))
           then Unlimited else Limited (rl_blocks_per_second cfg) (rl_burst_size cfg)))"
proof (cases "rl_blocks_per_second cfg > 0 \<and> rl_burst_size cfg \<ge> 0")
  case False
  consider "rl_blocks_per_second cfg = 0" | "rl_blocks_per_second cfg < 0"
    | "rl_blocks_per_second cfg > 0" "rl_burst_size cfg < 0" using False by linarith
  then show ?thesis
    by cases (use assms in \<open>auto simp: set_rate_limit_def config_rate_limit_def get_rate_limiter_def
        no_rate_settings_def\<close>)
next
  case True
  show ?thesis
  proof (cases "decode_peers decode (rl_except cfg) {||}")
    case (Inl e)
    have "r' = r \<and> err \<noteq> None"
      using assms True Inl by (auto simp: set_rate_limit_def config_rate_limit_def new_policy_strings_def)
    then show ?thesis using True decode_peers_Inl [OF Inl] by auto
  next
    case (Inr ids)
    then show ?thesis
      using assms True decode_peers_mem [OF Inr, of p]
      by (auto simp: set_rate_limit_def config_rate_limit_def new_policy_strings_def
          get_rate_limiter_def policy_eval_def)
  qed
qed

theorem rate_limit_applies_witness:
  "get_rate_limiter (snd (set_rate_limit Inr
     \<lparr>rl_apply = True, rl_except = [''p''], rl_blocks_per_second = 10, rl_burst_size = 50\<rparr>
     no_rate_settings)) ''q'' = Limited 10 50"
  using rate_limit_applies [of Inr "\<lparr>rl_apply = True, rl_except = [''p''], rl_blocks_per_second = 10,
      rl_burst_size = 50\<rparr>" no_rate_settings None _ "''q''"]
  by (simp add: set_rate_limit_def config_rate_limit_def new_policy_strings_def)

end
