(* ===== verification/Ingest_Announce.thy ===== *)
theory Ingest_Announce
  imports Ingest_Worker "HOL-Library.Multiset"
begin

text \<open>
  Direct announces (\<open>Announce\<close> and \<open>handlePendingAnnounce\<close> of
  \<^verbatim>\<open>internal/ingest/ingest.go\<close>) and the workers they compete with for a provider's channel, as
  a state machine. \<open>an_sent\<close> are the announces given to go-legs, in order.
\<close>

section \<open>Operations\<close>

record pending_announce =
  pa_addr_info :: addr_info
  pa_next_cid :: cid

text \<open>
  What a goroutine that holds a provider's channel is doing: giving an announce to go-legs,
  ingesting, or about to release the channel after the pending announce was handled.
\<close>

datatype ann_phase = Calling pending_announce | Ingesting | Handled

record announcer =
  an_busy :: "peer_id \<Rightarrow> bool"
  an_pending :: "peer_id \<rightharpoonup> pending_announce"
  an_jobs :: "(peer_id \<times> ann_phase) list"
  an_sent :: "pending_announce list"

text \<open>An announce that finds the channel full is stored in place of the one stored before.\<close>

definition announce :: "cid \<Rightarrow> addr_info \<Rightarrow> announcer \<Rightarrow> announcer" where
  "announce next_cid info s =
     (let p = ai_id info; a = \<lparr>pa_addr_info = info, pa_next_cid = next_cid\<rparr>
      in if an_busy s p then s\<lparr>an_pending := (an_pending s)(p \<mapsto> a)\<rparr>
         else s\<lparr>an_busy := (an_busy s)(p := True), an_jobs := (p, Calling a) # an_jobs s\<rparr>)"

definition handle_pending_announce :: "peer_id \<Rightarrow> announcer \<Rightarrow> announcer" where
  "handle_pending_announce p s =
     (case an_pending s p of
        None \<Rightarrow> s
      | Some a \<Rightarrow> s\<lparr>an_pending := (an_pending s)(p := None), an_sent := an_sent s @ [a]\<rparr>)"

text \<open>The label of a step is the announce made by it, if any.\<close>

inductive ann_step :: "announcer \<Rightarrow> pending_announce list \<Rightarrow> announcer \<Rightarrow> bool" where
  ann_announce: "ann_step s [\<lparr>pa_addr_info = info, pa_next_cid = c\<rparr>] (announce c info s)"
| ann_called: "an_jobs s = js @ (p, Calling a) # ks \<Longrightarrow>
    ann_step s [] (s\<lparr>an_sent := an_sent s @ [a], an_busy := (an_busy s)(p := False), an_jobs := js @ ks\<rparr>)"
| ann_work: "\<not> an_busy s p \<Longrightarrow>
    ann_step s [] (s\<lparr>an_busy := (an_busy s)(p := True), an_jobs := (p, Ingesting) # an_jobs s\<rparr>)"
| ann_pending: "an_jobs s = js @ (p, Ingesting) # ks \<Longrightarrow>
    ann_step s [] (handle_pending_announce p s\<lparr>an_jobs := js @ (p, Handled) # ks\<rparr>)"
| ann_release: "an_jobs s = js @ (p, Handled) # ks \<Longrightarrow>
    ann_step s [] (s\<lparr>an_busy := (an_busy s)(p := False), an_jobs := js @ ks\<rparr>)"

text \<open>A run with the announces that were made, in order.\<close>

inductive ann_run :: "announcer \<Rightarrow> pending_announce list \<Rightarrow> announcer \<Rightarrow> bool" for s where
  ann_run_refl: "ann_run s [] s"
| ann_run_step: "ann_run s as t \<Longrightarrow> ann_step t bs u \<Longrightarrow> ann_run s (as @ bs) u"

definition ann_start :: announcer where
  "ann_start = \<lparr>an_busy = (\<lambda>_. False), an_pending = Map.empty, an_jobs = [], an_sent = []\<rparr>"

lemmas ann_run_snoc = ann_run_step [where bs = "[]", simplified]

section \<open>Where an announce is\<close>

abbreviation provider_of :: "pending_announce \<Rightarrow> peer_id" where
  "provider_of a \<equiv> ai_id (pa_addr_info a)"

definition last_announce :: "peer_id \<Rightarrow> pending_announce list \<Rightarrow> pending_announce option" where
  "last_announce p as =
     (let xs = filter (\<lambda>a. provider_of a = p) as in if xs = [] then None else Some (last xs))"

definition ann_kept :: "pending_announce list \<Rightarrow> announcer \<Rightarrow> bool" where
  "ann_kept as s \<longleftrightarrow> (\<forall>p a. last_announce p as = Some a \<longrightarrow>
     a \<in> set (an_sent s) \<or> (p, Calling a) \<in> set (an_jobs s) \<or> an_pending s p = Some a)"

definition copies :: "pending_announce \<Rightarrow> announcer \<Rightarrow> nat" where
  "copies a s = count_list (an_sent s) a + count_list (map snd (an_jobs s)) (Calling a) +
     (if an_pending s (provider_of a) = Some a then 1 else 0)"

definition pending_ok :: "announcer \<Rightarrow> bool" where
  "pending_ok s \<longleftrightarrow> (\<forall>p a. an_pending s p = Some a \<longrightarrow> provider_of a = p)"

lemma last_announce_snoc:
  "last_announce p (as @ [a]) = (if provider_of a = p then Some a else last_announce p as)"
  by (simp add: last_announce_def Let_def)

lemma ann_step_kept: "ann_step s bs t \<Longrightarrow> ann_kept as s \<Longrightarrow> ann_kept (as @ bs) t"
proof (induction rule: ann_step.induct)
  case (ann_announce s info c)
  then show ?case
    by (auto simp: ann_kept_def last_announce_snoc announce_def Let_def)
next
  case (ann_pending s js p ks)
  then show ?case
    by (cases "an_pending s p") (fastforce simp: ann_kept_def handle_pending_announce_def)+
qed (auto simp: ann_kept_def)

lemma ann_step_pending_ok: "ann_step s bs t \<Longrightarrow> pending_ok s \<Longrightarrow> pending_ok t"
  by (induction rule: ann_step.induct)
    (auto simp: pending_ok_def announce_def Let_def handle_pending_announce_def split: option.splits if_splits)

lemma ann_step_copies:
  "ann_step s bs t \<Longrightarrow> pending_ok s \<Longrightarrow> copies a t \<le> copies a s + count_list bs a"
proof (induction rule: ann_step.induct)
  case (ann_announce s info c)
  show ?case
  proof (cases "an_busy s (ai_id info)")
    case True
    then show ?thesis by (simp add: copies_def announce_def Let_def)
  next
    case False
    then show ?thesis by (simp add: copies_def announce_def Let_def)
  qed
next
  case (ann_pending s js p ks)
  have old: "pending_ok s" "an_jobs s = js @ (p, Ingesting) # ks" using ann_pending by simp_all
  show ?case
  proof (cases "an_pending s p")
    case None
    then show ?thesis using old(2) by (simp add: copies_def handle_pending_announce_def)
  next
    case (Some b)
    then have "provider_of b = p" using old(1) by (simp add: pending_ok_def)
    then show ?thesis using Some old(2) by (auto simp: copies_def handle_pending_announce_def)
  qed
qed (simp_all add: copies_def)

section \<open>Properties\<close>


text \<open>Two announces of one provider.\<close>

definition ann_info :: addr_info where
  "ann_info = \<lparr>ai_id = ''p'', ai_addrs = []\<rparr>"

abbreviation ann_of :: "cid \<Rightarrow> pending_announce" where
  "ann_of c \<equiv> \<lparr>pa_addr_info = ann_info, pa_next_cid = c\<rparr>"

abbreviation stranded :: announcer where
  "stranded \<equiv> ann_start\<lparr>an_pending := [''p'' \<mapsto> ann_of ''c2''], an_sent := [ann_of ''c1'']\<rparr>"

lemma stranded_reached: "ann_run ann_start [ann_of ''c1'', ann_of ''c2''] stranded"
proof -
  have "ann_run ann_start [ann_of ''c1''] (announce ''c1'' ann_info ann_start)"
    using ann_run_step [OF ann_run_refl ann_announce] by fastforce
  from ann_run_step [OF this ann_announce]
  have "ann_run ann_start [ann_of ''c1'', ann_of ''c2'']
      (announce ''c2'' ann_info (announce ''c1'' ann_info ann_start))" by fastforce
  from ann_run_snoc [OF this ann_called [of _ "[]" "''p''" "ann_of ''c1''" "[]"]]
  show ?thesis by (simp add: announce_def ann_start_def ann_info_def Let_def fun_upd_idem)
qed


text \<open>An announce that is deferred because another announce is being handled is not handled when
that one ends: it can be left pending with nobody at work for its provider. When a newer announce
then comes it is given to go-legs at once, and the older one after it.\<close>

theorem announce_stranded:
  "ann_run ann_start [ann_of ''c1'', ann_of ''c2''] stranded \<and>
   an_jobs stranded = [] \<and> an_pending stranded ''p'' = Some (ann_of ''c2'') \<and>
   (\<exists>s. ann_run ann_start [ann_of ''c1'', ann_of ''c2'', ann_of ''c3''] s \<and>
      an_sent s = [ann_of ''c1'', ann_of ''c3'', ann_of ''c2''])"
proof -
  have "ann_run ann_start [ann_of ''c1'', ann_of ''c2'', ann_of ''c3''] (announce ''c3'' ann_info stranded)"
    using ann_run_step [OF stranded_reached ann_announce] by fastforce
  from ann_run_snoc [OF this ann_called [of _ "[]" "''p''" "ann_of ''c3''" "[]"]]
  have "ann_run ann_start [ann_of ''c1'', ann_of ''c2'', ann_of ''c3'']
      (stranded\<lparr>an_sent := [ann_of ''c1'', ann_of ''c3'']\<rparr>)"
    by (simp add: announce_def ann_start_def ann_info_def Let_def fun_upd_idem)
  from ann_run_snoc [OF ann_run_snoc [OF this ann_work [of _ "''p''"]]
      ann_pending [of _ "[]" "''p''" "[]"]]
  have "\<exists>s. ann_run ann_start [ann_of ''c1'', ann_of ''c2'', ann_of ''c3''] s \<and>
      an_sent s = [ann_of ''c1'', ann_of ''c3'', ann_of ''c2'']"
    by (fastforce simp: ann_start_def handle_pending_announce_def)
  then show ?thesis using stranded_reached by (simp add: ann_start_def)
qed

end
