(* ===== verification/Finder.thy ===== *)
theory Finder
  imports Registry_Correct "HOL-Library.Signed_Division"
begin

text \<open>
  \<^verbatim>\<open>server/finder/handler\<close> and \<^verbatim>\<open>api/v0/finder/model\<close>: answering queries for multihashes
  from the indexer and the registry, and \<^verbatim>\<open>server/reframe\<close>, which answers them for delegated
  routing.
\<close>

section \<open>The response\<close>

record provider_result =
  pr_context :: bytes
  pr_metadata :: bytes
  pr_provider :: addr_info

record multihash_result =
  mr_multihash :: multihash
  mr_results :: "provider_result list"

definition provider_result_equal :: "provider_result \<Rightarrow> provider_result \<Rightarrow> bool" where
  "provider_result_equal a b \<longleftrightarrow>
     (if pr_context a \<noteq> pr_context b then False
      else if pr_metadata a \<noteq> pr_metadata b then False
      else if ai_id (pr_provider a) \<noteq> ai_id (pr_provider b) then False
      else True)"

text \<open>\<open>String\<close> of a response: every result indented as JSON, or the error of the first that cannot be.\<close>

fun response_text :: "(multihash_result \<Rightarrow> string + string) \<Rightarrow> string \<Rightarrow> multihash_result list \<Rightarrow> string" where
  "response_text J b [] = b"
| "response_text J b (r # rs) = (case J r of Inl e \<Rightarrow> e | Inr x \<Rightarrow> response_text J (b @ x @ [CHR 0x0A]) rs)"

definition find_response_string :: "(multihash_result \<Rightarrow> string + string) \<Rightarrow> multihash_result list \<Rightarrow> string" where
  "find_response_string J rs = response_text J [] rs"

lemma response_text_lines:
  "(\<And>r. r \<in> set rs \<Longrightarrow> J r = Inr (j r)) \<Longrightarrow> response_text J b rs = b @ concat (map (\<lambda>r. j r @ [CHR 0x0A]) rs)"
  by (induction rs arbitrary: b) simp_all

lemma find_response_lines:
  "(\<And>r. r \<in> set rs \<Longrightarrow> J r = Inr (j r)) \<Longrightarrow> find_response_string J rs = concat (map (\<lambda>r. j r @ [CHR 0x0A]) rs)"
  by (simp add: find_response_string_def response_text_lines)

definition provider_result_from_value :: "index_value \<Rightarrow> multiaddr list \<Rightarrow> provider_result" where
  "provider_result_from_value v addrs =
     \<lparr>pr_context = iv_context v, pr_metadata = iv_metadata v,
      pr_provider = \<lparr>ai_id = iv_provider v, ai_addrs = addrs\<rparr>\<rparr>"

section \<open>Find\<close>

text \<open>The handler, with how an error message quotes a multihash.\<close>

record 'i finder =
  fd_indexer :: "'i indexer"
  fd_quote :: "multihash \<Rightarrow> string"

text \<open>
  One value of a multihash, with the addresses already looked up. The third component are the values
  whose context a goroutine is told to remove from the indexer.
\<close>

definition find_value ::
    "'d registry \<Rightarrow> (peer_id \<rightharpoonup> multiaddr list) \<Rightarrow> index_value \<Rightarrow>
       provider_result option \<times> (peer_id \<rightharpoonup> multiaddr list) \<times> index_value list" where
  "find_value r cache v =
     (case cache (iv_provider v) of
        Some addrs \<Rightarrow> (Some (provider_result_from_value v addrs), cache, [])
      | None \<Rightarrow>
          (case lookup_provider r (iv_provider v) of
             None \<Rightarrow> (None, cache, [v])
           | Some info \<Rightarrow>
               if provider_inactive info then (None, cache, [])
               else (Some (provider_result_from_value v (pi_addrs info)),
                     cache(iv_provider v \<mapsto> pi_addrs info), [])))"

fun find_values ::
    "'d registry \<Rightarrow> (peer_id \<rightharpoonup> multiaddr list) \<Rightarrow> index_value list \<Rightarrow>
       provider_result list \<times> (peer_id \<rightharpoonup> multiaddr list) \<times> index_value list" where
  "find_values r cache [] = ([], cache, [])"
| "find_values r cache (v # vs) =
     (let (res, cache, rm) = find_value r cache v;
          (results, cache, rms) = find_values r cache vs
      in (case res of None \<Rightarrow> results | Some x \<Rightarrow> x # results, cache, rm @ rms))"

definition query_error :: "'i finder \<Rightarrow> multihash \<Rightarrow> string \<Rightarrow> go_error" where
  "query_error F m e = new_error (Some (ErrMsg (''failed to query '' @ fd_quote F m @ '': '' @ e))) 500"

text \<open>
  The goroutines that remove contexts run while later multihashes are queried, so each multihash
  comes with the state of the indexer when it is queried.
\<close>

fun find_loop ::
    "'i finder \<Rightarrow> 'd registry \<Rightarrow> (peer_id \<rightharpoonup> multiaddr list) \<Rightarrow> (multihash \<times> 'i) list \<Rightarrow>
       (go_error + multihash_result list) \<times> index_value list" where
  "find_loop F r cache [] = (Inr [], [])"
| "find_loop F r cache ((m, i) # qs) =
     (case ix_get (fd_indexer F) i m of
        Inl e \<Rightarrow> (Inl (query_error F m e), [])
      | Inr None \<Rightarrow> find_loop F r cache qs
      | Inr (Some values) \<Rightarrow>
          (let (results, cache, rms) = find_values r cache values;
               (res, rms') = find_loop F r cache qs
           in (map_sum id (\<lambda>mrs. if results = [] then mrs
                 else \<lparr>mr_multihash = m, mr_results = results\<rparr> # mrs) res, rms @ rms')))"

definition find ::
    "'i finder \<Rightarrow> 'd registry \<Rightarrow> (multihash \<times> 'i) list \<Rightarrow>
       (go_error + multihash_result list) \<times> index_value list" where
  "find F r qs = find_loop F r Map.empty qs"

section \<open>Providers and statistics\<close>

text \<open>\<open>iso8601\<close>, given what \<^verbatim>\<open>Format\<close> and \<^verbatim>\<open>Zone\<close> answer for the time.\<close>

definition two_digits :: "int \<Rightarrow> string" where
  "two_digits n = (if 0 \<le> n \<and> n < 10 then CHR ''0'' # show_int n else show_int n)"

definition iso8601 :: "string \<Rightarrow> int \<Rightarrow> string" where
  "iso8601 tstr zone_offset =
     (if zone_offset = 0 then tstr @ ''Z''
      else if zone_offset < 0
      then tstr @ ''-'' @ two_digits (- zone_offset sdiv 3600) @ two_digits ((- zone_offset smod 3600) sdiv 60)
      else tstr @ ''+'' @ two_digits (zone_offset sdiv 3600) @ two_digits ((zone_offset smod 3600) sdiv 60))"

record model_provider =
  mp_addr_info :: addr_info
  mp_last_ad :: cid
  mp_last_ad_time :: string
  mp_publisher :: "addr_info option"

definition make_provider_info ::
    "(gotime \<Rightarrow> string \<times> int) \<Rightarrow> addr_info \<Rightarrow> cid \<Rightarrow> gotime \<Rightarrow> peer_id \<Rightarrow> multiaddr option \<Rightarrow> model_provider" where
  "make_provider_info fmt info last_ad last_time publisher publisher_addr =
     \<lparr>mp_addr_info = info, mp_last_ad = last_ad,
      mp_last_ad_time = (if last_ad \<noteq> cid_undef \<and> last_time \<noteq> zero_time
                         then (case fmt last_time of (s, z) \<Rightarrow> iso8601 s z) else []),
      mp_publisher = (case publisher_addr of
         None \<Rightarrow> None
       | Some a \<Rightarrow> if peer_id_validate publisher = None
                   then Some \<lparr>ai_id = publisher, ai_addrs = [a]\<rparr> else None)\<rparr>"

text \<open>\<^verbatim>\<open>encoding/json\<close> for one type: both directions fail with a text.\<close>

record 'a codec =
  cd_marshal :: "'a \<Rightarrow> string + bytes"
  cd_unmarshal :: "bytes \<Rightarrow> string + 'a"

definition provider_model :: "(gotime \<Rightarrow> string \<times> int) \<Rightarrow> provider_info \<Rightarrow> model_provider" where
  "provider_model fmt info =
     make_provider_info fmt (pi_addr_info info) (pi_last_ad info) (pi_last_ad_time info)
       (pi_publisher info) (pi_publisher_addr info)"

definition list_providers ::
    "model_provider list codec \<Rightarrow> (gotime \<Rightarrow> string \<times> int) \<Rightarrow> peer_id list \<Rightarrow> 'd registry \<Rightarrow>
       go_error + bytes" where
  "list_providers C fmt order r =
     map_sum ErrMsg id (cd_marshal C (map (provider_model fmt) (all_provider_info order r)))"

definition get_provider ::
    "model_provider codec \<Rightarrow> (gotime \<Rightarrow> string \<times> int) \<Rightarrow> peer_id \<Rightarrow> 'd registry \<Rightarrow> go_error + bytes" where
  "get_provider C fmt p r =
     (case lookup_provider r p of
        None \<Rightarrow> Inr []
      | Some info \<Rightarrow> map_sum ErrMsg id (cd_marshal C (provider_model fmt info)))"

definition avg_mh_size :: int where
  "avg_mh_size = 40"

definition get_stats :: "'i finder \<Rightarrow> int codec \<Rightarrow> 'i \<Rightarrow> go_error + bytes" where
  "get_stats F C i =
     (case ix_size (fd_indexer F) i of
        Inl e \<Rightarrow> Inl (ErrMsg e)
      | Inr n \<Rightarrow> map_sum ErrMsg id (cd_marshal C (n sdiv avg_mh_size)))"

section \<open>Delegated routing\<close>

text \<open>The unsigned varint of the multicodec of Bitswap, 0x0900.\<close>

definition bitswap_metadata :: bytes where
  "bitswap_metadata = [CHR 0x80, CHR 0x12]"

definition is_bitswap_metadata :: "bytes \<Rightarrow> bool" where
  "is_bitswap_metadata meta \<longleftrightarrow> meta = bitswap_metadata"

definition reframe_find_providers ::
    "'i finder \<Rightarrow> 'd registry \<Rightarrow> 'i \<Rightarrow> multihash \<Rightarrow> go_error + addr_info list" where
  "reframe_find_providers F r i mh =
     (case fst (find F r [(mh, i)]) of
        Inl e \<Rightarrow> Inl e
      | Inr mrs \<Rightarrow>
          Inr (concat (map (\<lambda>mr. if mr_multihash mr \<noteq> mh then []
                 else map pr_provider (filter (\<lambda>pr. is_bitswap_metadata (pr_metadata pr)) (mr_results mr)))
               mrs)))"

section \<open>What the loop computes\<close>

definition values_of :: "'i finder \<Rightarrow> multihash \<times> 'i \<Rightarrow> index_value list" where
  "values_of F q =
     (case ix_get (fd_indexer F) (snd q) (fst q) of Inr (Some vs) \<Rightarrow> vs | _ \<Rightarrow> [])"

definition value_results :: "'d registry \<Rightarrow> index_value list \<Rightarrow> provider_result list" where
  "value_results r vs =
     concat (map (\<lambda>v. case lookup_provider r (iv_provider v) of
        None \<Rightarrow> [] | Some info \<Rightarrow> [provider_result_from_value v (pi_addrs info)]) vs)"

definition unregistered :: "'d registry \<Rightarrow> index_value \<Rightarrow> bool" where
  "unregistered r v \<longleftrightarrow> lookup_provider r (iv_provider v) = None"

definition query_result :: "'i finder \<Rightarrow> 'd registry \<Rightarrow> multihash \<times> 'i \<Rightarrow> multihash_result" where
  "query_result F r q = \<lparr>mr_multihash = fst q, mr_results = value_results r (values_of F q)\<rparr>"

definition cache_ok :: "'d registry \<Rightarrow> (peer_id \<rightharpoonup> multiaddr list) \<Rightarrow> bool" where
  "cache_ok r cache \<longleftrightarrow>
     (\<forall>p addrs. cache p = Some addrs \<longrightarrow> map_option pi_addrs (lookup_provider r p) = Some addrs)"

lemma lookup_provider_active: "lookup_provider r p = Some info \<Longrightarrow> \<not> provider_inactive info"
  by (auto simp: lookup_provider_def split: option.splits if_splits)

lemma find_value_spec:
  assumes "cache_ok r cache" and "find_value r cache v = (res, cache', rm)"
  shows "cache_ok r cache' \<and> (case res of None \<Rightarrow> [] | Some x \<Rightarrow> [x]) = value_results r [v] \<and>
     rm = filter (unregistered r) [v]"
  using assms lookup_provider_active [of r "iv_provider v"]
  by (fastforce simp: find_value_def cache_ok_def value_results_def unregistered_def
      split: option.splits if_splits)

lemma value_results_Cons: "value_results r (v # vs) = value_results r [v] @ value_results r vs"
  by (simp add: value_results_def)

lemma find_values_spec:
  "cache_ok r cache \<Longrightarrow> find_values r cache vs = (results, cache', rms) \<Longrightarrow>
     cache_ok r cache' \<and> results = value_results r vs \<and> rms = filter (unregistered r) vs"
proof (induction vs arbitrary: cache cache' results rms)
  case Nil
  then show ?case by (simp add: value_results_def)
next
  case (Cons v vs)
  obtain res cache1 rm where one: "find_value r cache v = (res, cache1, rm)"
    by (cases "find_value r cache v") auto
  obtain results2 cache2 rms2 where rest: "find_values r cache1 vs = (results2, cache2, rms2)"
    by (cases "find_values r cache1 vs") auto
  show ?case
    using find_value_spec [OF Cons.prems(1) one] Cons.IH [OF _ rest] Cons.prems(2) one rest
    by (auto simp: value_results_Cons [of r v vs] split: option.splits)
qed

lemma find_loop_spec:
  assumes "cache_ok r cache"
    and "good = takeWhile (\<lambda>q. \<not> isl (ix_get (fd_indexer F) (snd q) (fst q))) qs"
  shows "find_loop F r cache qs =
    (if good = qs then Inr (filter (\<lambda>mr. mr_results mr \<noteq> []) (map (query_result F r) qs))
     else (case qs ! length good of (m, i) \<Rightarrow>
             Inl (query_error F m (projl (ix_get (fd_indexer F) i m)))),
     filter (unregistered r) (concat (map (values_of F) good)))"
  using assms
proof (induction qs arbitrary: cache good)
  case Nil
  then show ?case by simp
next
  case (Cons q qs)
  obtain m i where q: "q = (m, i)" by (cases q)
  show ?case
  proof (cases "ix_get (fd_indexer F) i m")
    case (Inl e)
    then show ?thesis using Cons.prems(2) by (simp add: q)
  next
    case (Inr found)
    define good' where "good' = takeWhile (\<lambda>q. \<not> isl (ix_get (fd_indexer F) (snd q) (fst q))) qs"
    have good: "good = q # good'" using Cons.prems(2) Inr by (simp add: q good'_def)
    show ?thesis
    proof (cases found)
      case None
      then have none: "values_of F q = []" by (simp add: values_of_def q Inr)
      then have "mr_results (query_result F r q) = []" by (simp add: query_result_def value_results_def)
      then show ?thesis
        using Cons.IH [OF Cons.prems(1) good'_def] Inr None none by (simp add: good q)
    next
      case (Some vs)
      obtain results cache' rms where fv: "find_values r cache vs = (results, cache', rms)"
        by (cases "find_values r cache vs") auto
      have spec: "cache_ok r cache'" "results = value_results r vs" "rms = filter (unregistered r) vs"
        using find_values_spec [OF Cons.prems(1) fv] by simp_all
      have vals: "values_of F q = vs" by (simp add: values_of_def q Inr Some)
      have res: "query_result F r q = \<lparr>mr_multihash = m, mr_results = results\<rparr>"
        using vals by (simp add: query_result_def spec(2) q)
      show ?thesis
        using Cons.IH [OF spec(1) good'_def] Inr Some fv spec(3) vals res
        by (cases "qs ! length good'") (simp add: good q)
    qed
  qed
qed

text \<open>The loop, without the cache.\<close>

definition answered :: "'i finder \<Rightarrow> multihash \<times> 'i \<Rightarrow> bool" where
  "answered F q \<longleftrightarrow> \<not> isl (ix_get (fd_indexer F) (snd q) (fst q))"

definition response ::
    "'i finder \<Rightarrow> 'd registry \<Rightarrow> (multihash \<times> 'i) list \<Rightarrow> go_error + multihash_result list" where
  "response F r qs =
     (case dropWhile (answered F) qs of
        [] \<Rightarrow> Inr (filter (\<lambda>mr. mr_results mr \<noteq> []) (map (query_result F r) qs))
      | (m, i) # rest \<Rightarrow> Inl (query_error F m (projl (ix_get (fd_indexer F) i m))))"

lemma find_eq:
  "find F r qs =
    (response F r qs, filter (unregistered r) (concat (map (values_of F) (takeWhile (answered F) qs))))"
proof -
  have split: "takeWhile (answered F) qs @ dropWhile (answered F) qs = qs" by simp
  have "cache_ok r Map.empty" by (simp add: cache_ok_def)
  from find_loop_spec [OF this, of "takeWhile (answered F) qs" F qs]
  have "find F r qs =
      (if takeWhile (answered F) qs = qs
       then Inr (filter (\<lambda>mr. mr_results mr \<noteq> []) (map (query_result F r) qs))
       else (case qs ! length (takeWhile (answered F) qs) of (m, i) \<Rightarrow>
               Inl (query_error F m (projl (ix_get (fd_indexer F) i m)))),
       filter (unregistered r) (concat (map (values_of F) (takeWhile (answered F) qs))))"
    unfolding find_def answered_def by simp
  moreover have "takeWhile (answered F) qs = qs \<longleftrightarrow> dropWhile (answered F) qs = []"
    using split by (metis append_Nil2 append_self_conv)
  moreover have "qs ! length (takeWhile (answered F) qs) = q" if "dropWhile (answered F) qs = q # rest" for q rest
    using split that by (metis nth_append_length)
  ultimately show ?thesis
    by (cases "dropWhile (answered F) qs") (simp_all only: response_def list.case if_True if_False list.distinct simp_thms)
qed

section \<open>The index may lose contexts meanwhile\<close>

text \<open>
  What the indexer documents of removing a context: queries of it afterwards fail as before, or
  answer the values they answered before without those of the context (with them, if the removal
  failed).
\<close>

definition found_values :: "index_value list option \<Rightarrow> index_value list" where
  "found_values vs = (case vs of None \<Rightarrow> [] | Some xs \<Rightarrow> xs)"

definition indexer_get_laws :: "'i indexer \<Rightarrow> bool" where
  "indexer_get_laws X \<longleftrightarrow> (\<forall>i p c m. case ix_get X i m of
     Inl e \<Rightarrow> ix_get X (snd (ix_remove_context X i p c)) m = Inl e
   | Inr vs \<Rightarrow> \<exists>vs'. ix_get X (snd (ix_remove_context X i p c)) m = Inr vs' \<and>
       (found_values vs' = filter (\<lambda>v. value_key v \<noteq> (p, c)) (found_values vs) \<or>
        found_values vs' = found_values vs))"

lemma values_of_failed: "ix_get (fd_indexer F) (snd q) (fst q) = Inl e \<Longrightarrow> values_of F q = []"
  by (simp add: values_of_def)

lemma values_of_found:
  "ix_get (fd_indexer F) (snd q) (fst q) = Inr vs \<Longrightarrow> values_of F q = found_values vs"
  by (cases vs) (simp_all add: values_of_def found_values_def)

text \<open>The states the indexer can be in while contexts of unregistered providers are removed.\<close>

inductive contexts_removed :: "'i indexer \<Rightarrow> 'd registry \<Rightarrow> 'i \<Rightarrow> 'i \<Rightarrow> bool" for X r i where
  none_removed: "contexts_removed X r i i"
| one_removed: "contexts_removed X r i j \<Longrightarrow> lookup_provider r p = None \<Longrightarrow>
    contexts_removed X r i (snd (ix_remove_context X j p c))"

lemma contexts_removed_get:
  assumes "indexer_get_laws X" and "contexts_removed X r i j"
  shows "case ix_get X i m of
      Inl e \<Rightarrow> ix_get X j m = Inl e
    | Inr vs \<Rightarrow> \<exists>vs'. ix_get X j m = Inr vs' \<and>
        value_results r (found_values vs') = value_results r (found_values vs)"
  using assms(2)
proof (induction rule: contexts_removed.induct)
  case none_removed
  show ?case by (cases "ix_get X i m") auto
next
  case (one_removed j p c)
  have dropped: "value_results r (filter (\<lambda>v. value_key v \<noteq> (p, c)) vs) = value_results r vs" for vs
    using one_removed(2) by (induction vs) (auto simp: value_results_def value_key_def)
  have law: "case ix_get X j m of
     Inl e \<Rightarrow> ix_get X (snd (ix_remove_context X j p c)) m = Inl e
   | Inr vs \<Rightarrow> \<exists>vs'. ix_get X (snd (ix_remove_context X j p c)) m = Inr vs' \<and>
       (found_values vs' = filter (\<lambda>v. value_key v \<noteq> (p, c)) (found_values vs) \<or>
        found_values vs' = found_values vs)"
    using assms(1) unfolding indexer_get_laws_def by blast
  show ?case
  proof (cases "ix_get X i m")
    case (Inl e)
    then show ?thesis using one_removed.IH law by simp
  next
    case (Inr vs)
    then obtain vs1 where vs1: "ix_get X j m = Inr vs1"
      "value_results r (found_values vs1) = value_results r (found_values vs)"
      using one_removed.IH by auto
    then obtain vs2 where "ix_get X (snd (ix_remove_context X j p c)) m = Inr vs2"
      "value_results r (found_values vs2) = value_results r (found_values vs1)"
      using law dropped by auto
    then show ?thesis using Inr vs1(2) by simp
  qed
qed

lemma response_cong:
  assumes "\<And>q. q \<in> set qs \<Longrightarrow> query_result F r q = query_result F r (fst q, i)"
    and "\<And>q. q \<in> set qs \<Longrightarrow> answered F q = answered F (fst q, i)"
    and "\<And>q. q \<in> set qs \<Longrightarrow> \<not> answered F q \<Longrightarrow>
      ix_get (fd_indexer F) (snd q) (fst q) = ix_get (fd_indexer F) i (fst q)"
  shows "response F r qs = response F r (map (\<lambda>q. (fst q, i)) qs)"
proof -
  have drop: "dropWhile (answered F) (map (\<lambda>q. (fst q, i)) qs) = map (\<lambda>q. (fst q, i)) (dropWhile (answered F) qs)"
    using assms(2) by (induction qs) auto
  have results: "map (query_result F r) (map (\<lambda>q. (fst q, i)) qs) = map (query_result F r) qs"
    using assms(1) by simp
  show ?thesis
  proof (cases "dropWhile (answered F) qs")
    case Nil
    show ?thesis unfolding response_def drop results by (simp add: Nil)
  next
    case (Cons q rest)
    then have "q \<in> set qs" "\<not> answered F q"
      by (metis list.set_intros(1) set_dropWhileD, metis Cons hd_dropWhile list.distinct(1) list.sel(1))
    moreover obtain m j where "q = (m, j)" by (cases q)
    ultimately show ?thesis unfolding response_def drop using Cons assms(3) [of q] by simp
  qed
qed

text \<open>An indexer that is a list of entries.\<close>

definition entry_indexer :: "(multihash \<times> index_value) list indexer" where
  "entry_indexer =
     \<lparr>ix_get = (\<lambda>es m. Inr (let vs = map snd (filter (\<lambda>e. fst e = m) es) in if vs = [] then None else Some vs)),
      ix_put = (\<lambda>es v mhs. (None, es @ map (\<lambda>m. (m, v)) mhs)),
      ix_remove = (\<lambda>es v mhs. (None, filter (\<lambda>e. \<not> (fst e \<in> set mhs \<and> value_key (snd e) = value_key v)) es)),
      ix_remove_context = (\<lambda>es p c. (None, filter (\<lambda>e. value_key (snd e) \<noteq> (p, c)) es)),
      ix_size = (\<lambda>es. Inr (int (length es)))\<rparr>"

lemma entry_indexer_get:
  "\<exists>vs. ix_get entry_indexer es m = Inr vs \<and> found_values vs = map snd (filter (\<lambda>e. fst e = m) es)"
  by (simp add: entry_indexer_def Let_def found_values_def)

lemma entry_indexer_get_laws: "indexer_get_laws entry_indexer"
  unfolding indexer_get_laws_def
proof (intro allI)
  fix es :: "(multihash \<times> index_value) list" and p c m
  let ?es = "filter (\<lambda>e. value_key (snd e) \<noteq> (p, c)) es"
  have "filter (\<lambda>e. fst e = m) ?es = filter (\<lambda>e. value_key (snd e) \<noteq> (p, c)) (filter (\<lambda>e. fst e = m) es)"
    by (simp add: conj_commute)
  then have "map snd (filter (\<lambda>e. fst e = m) ?es) =
      filter (\<lambda>v. value_key v \<noteq> (p, c)) (map snd (filter (\<lambda>e. fst e = m) es))"
    by (simp add: filter_map comp_def)
  moreover have "snd (ix_remove_context entry_indexer es p c) = ?es" by (simp add: entry_indexer_def)
  ultimately show "case ix_get entry_indexer es m of
     Inl e \<Rightarrow> ix_get entry_indexer (snd (ix_remove_context entry_indexer es p c)) m = Inl e
   | Inr vs \<Rightarrow> \<exists>vs'. ix_get entry_indexer (snd (ix_remove_context entry_indexer es p c)) m = Inr vs' \<and>
       (found_values vs' = filter (\<lambda>v. value_key v \<noteq> (p, c)) (found_values vs) \<or>
        found_values vs' = found_values vs)"
    using entry_indexer_get [of es m] entry_indexer_get [of ?es m] by auto
qed

definition entry_finder :: "(multihash \<times> index_value) list finder" where
  "entry_finder = \<lparr>fd_indexer = entry_indexer, fd_quote = id\<rparr>"

definition entry_of :: "multihash \<Rightarrow> peer_id \<Rightarrow> multihash \<times> index_value" where
  "entry_of m p = (m, \<lparr>iv_provider = p, iv_context = ''ctx'', iv_metadata = ''md''\<rparr>)"

section \<open>Properties\<close>

text \<open>The answer to a query. When the indexer answers for every multihash, the response has one
result for each multihash that has a value of an active registered provider, in the order of the
request, with those values in the indexer's order and the addresses the registry has for the
provider; looking a provider up only once makes no difference. Exactly the contexts of the other
values are given up for removal. When the indexer fails, the response is a server error that
names the first multihash it failed for.\<close>

theorem find_answers:
  "find F r qs =
    (case dropWhile (answered F) qs of
       [] \<Rightarrow> Inr (filter (\<lambda>mr. mr_results mr \<noteq> []) (map (query_result F r) qs))
     | (m, i) # rest \<Rightarrow> Inl (query_error F m (projl (ix_get (fd_indexer F) i m))),
     filter (unregistered r) (concat (map (values_of F) (takeWhile (answered F) qs))))"
  by (simp add: find_eq response_def)

text \<open>A response does not depend on the goroutines it starts: whether and when the contexts of
unregistered providers are removed from the indexer while the request runs, the response is the
one the indexer's state at the start gives.\<close>

theorem find_unaffected_by_removals:
  assumes "indexer_get_laws (fd_indexer F)"
    and "\<forall>q\<in>set qs. contexts_removed (fd_indexer F) r i (snd q)"
  shows "fst (find F r qs) = fst (find F r (map (\<lambda>q. (fst q, i)) qs))"
proof -
  have same: "query_result F r q = query_result F r (fst q, i) \<and> answered F q = answered F (fst q, i) \<and>
      (\<not> answered F q \<longrightarrow> ix_get (fd_indexer F) (snd q) (fst q) = ix_get (fd_indexer F) i (fst q))"
    if "q \<in> set qs" for q
    using contexts_removed_get [OF assms(1), of r i "snd q" "fst q"] assms(2) that
    by (cases "ix_get (fd_indexer F) i (fst q)")
      (auto simp: answered_def query_result_def values_of_found values_of_failed)
  show ?thesis unfolding find_eq fst_conv by (rule response_cong) (use same in blast)+
qed

theorem find_unaffected_by_removals_witness:
  "fst (find entry_finder (start_registry (None :: unit option) open_policy)
     [(''a'', [entry_of ''a'' ''p'', entry_of ''b'' ''p'']), (''b'', [])]) =
   fst (find entry_finder (start_registry (None :: unit option) open_policy)
     [(''a'', [entry_of ''a'' ''p'', entry_of ''b'' ''p'']), (''b'', [entry_of ''a'' ''p'', entry_of ''b'' ''p''])])"
proof -
  let ?i = "[entry_of ''a'' ''p'', entry_of ''b'' ''p'']"
  have "lookup_provider (start_registry (None :: unit option) open_policy) ''p'' = None"
    by (simp add: lookup_provider_def start_registry_def)
  from one_removed [OF none_removed this, of entry_indexer ?i "''ctx''"]
  have "contexts_removed entry_indexer (start_registry (None :: unit option) open_policy) ?i []"
    by (simp add: entry_indexer_def entry_of_def value_key_def)
  then show ?thesis
    using find_unaffected_by_removals [of entry_finder "[(''a'', ?i), (''b'', [])]"
      "start_registry (None :: unit option) open_policy" ?i]
    by (simp add: entry_finder_def entry_indexer_get_laws none_removed)
qed

text \<open>A provider that is only inactive loses its content. The registry answers no information for
an inactive provider, so a query that meets one of its values omits it and has the context of the
value removed from the index, although the provider is still registered and would be active
again after its next contact.\<close>

theorem find_removes_inactive:
  assumes "rg_providers r p = Some info" and "pi_inactive info"
    and "ix_get (fd_indexer F) i m = Inr (Some vs)" and "v \<in> set vs" and "iv_provider v = p"
  shows "v \<in> set (snd (find F r [(m, i)])) \<and>
    (\<forall>mrs. fst (find F r [(m, i)]) = Inr mrs \<longrightarrow>
       (\<forall>mr\<in>set mrs. \<forall>x\<in>set (mr_results mr). ai_id (pr_provider x) \<noteq> p))"
  using assms
  by (auto simp: find_eq response_def answered_def values_of_def unregistered_def lookup_provider_def
      provider_inactive_def query_result_def value_results_def provider_result_from_value_def
      split: option.splits if_splits)

theorem find_removes_inactive_witness:
  "entry_of ''a'' ''p'' \<in> {(''a'', v) | v. v \<in> set (snd (find entry_finder
     ((start_registry (None :: unit option) open_policy)\<lparr>rg_providers :=
        [''p'' \<mapsto> (new_provider_info \<lparr>ai_id = ''p'', ai_addrs = []\<rparr>)\<lparr>pi_inactive := True\<rparr>]\<rparr>)
     [(''a'', [entry_of ''a'' ''p''])]))}"
  using find_removes_inactive [of "(start_registry (None :: unit option) open_policy)\<lparr>rg_providers :=
        [''p'' \<mapsto> (new_provider_info \<lparr>ai_id = ''p'', ai_addrs = []\<rparr>)\<lparr>pi_inactive := True\<rparr>]\<rparr>" "''p''"
      _ entry_finder "[entry_of ''a'' ''p'']" "''a''" "[snd (entry_of ''a'' ''p'')]" "snd (entry_of ''a'' ''p'')"]
  by (simp add: entry_finder_def entry_indexer_def entry_of_def)

end
