(* ===== verification/Finder_Protocols.thy ===== *)
theory Finder_Protocols
  imports Finder Errors Coders
begin

text \<open>
  The finder over the network: the handlers of \<^verbatim>\<open>server/finder/http\<close> and
  \<^verbatim>\<open>server/finder/libp2p\<close> and the clients of \<^verbatim>\<open>api/v0/finder/client\<close>. A transport
  hands the request to the server and the response back; the routes are those of
  \<^verbatim>\<open>server.go\<close>.
\<close>

section \<open>Codecs and environment\<close>

definition codec_inverse :: "'a codec \<Rightarrow> bool" where
  "codec_inverse C \<longleftrightarrow> (\<forall>x. \<exists>b. cd_marshal C x = Inr b \<and> cd_unmarshal C b = Inr x)"

text \<open>
  What the handlers use: the JSON encodings of their requests and responses, the decoders of path
  variables, the formatting of times and the version string.
\<close>

record finder_env =
  fe_request :: "multihash list codec"
  fe_response :: "multihash_result list codec"
  fe_provider :: "model_provider codec"
  fe_providers :: "model_provider list codec"
  fe_stats :: "int codec"
  fe_peer :: "peer_id codec"
  fe_version :: "string codec"
  fe_mh_b58 :: "string \<Rightarrow> string + multihash"
  fe_cid_hash :: "string \<Rightarrow> string + multihash"
  fe_peer_decode :: "string \<Rightarrow> string + peer_id"
  fe_format :: "gotime \<Rightarrow> string \<times> int"

text \<open>\<open>version.String\<close>, given the submatches of the regular expression in \<open>GitVersion\<close>.\<close>

definition version_string :: "(string \<Rightarrow> string list option) \<Rightarrow> string \<Rightarrow> string" where
  "version_string find_submatch git_version =
     (case find_submatch git_version of
        None \<Rightarrow> ''v0.0.0+'' @ git_version
      | Some ms \<Rightarrow>
          if length ms < 3 then ''v0.0.0+'' @ git_version
          else if ms ! 2 = [] then ms ! 1
          else ms ! 1 @ ''+'' @ ms ! 2)"

section \<open>HTTP\<close>

definition get_indexes ::
    "finder_env \<Rightarrow> 'i finder \<Rightarrow> 'd registry \<Rightarrow> bool \<Rightarrow> (multihash \<times> 'i) list \<Rightarrow> response_writer \<Rightarrow>
       response_writer" where
  "get_indexes V F r fails qs w =
     (case fst (find F r qs) of
        Inl e \<Rightarrow> http_handle_error e w
      | Inr mrs \<Rightarrow>
          if mrs = [] then http_error ''no results for query'' 404 w
          else (case cd_marshal (fe_response V) mrs of
                  Inl e \<Rightarrow> http_error '''' 500 w
                | Inr b \<Rightarrow> write_json_response fails 200 b w))"

definition http_find ::
    "finder_env \<Rightarrow> 'i finder \<Rightarrow> 'd registry \<Rightarrow> bool \<Rightarrow> 'i \<Rightarrow> string \<Rightarrow> response_writer \<Rightarrow> response_writer" where
  "http_find V F r fails i mh_var w =
     (case fe_mh_b58 V mh_var of
        Inl e \<Rightarrow> http_handle_error (ErrMsg e) w
      | Inr m \<Rightarrow> get_indexes V F r fails [(m, i)] w)"

definition http_find_cid ::
    "finder_env \<Rightarrow> 'i finder \<Rightarrow> 'd registry \<Rightarrow> bool \<Rightarrow> 'i \<Rightarrow> string \<Rightarrow> response_writer \<Rightarrow> response_writer" where
  "http_find_cid V F r fails i cid_var w =
     (case fe_cid_hash V cid_var of
        Inl e \<Rightarrow> http_handle_error (ErrMsg e) w
      | Inr m \<Rightarrow> get_indexes V F r fails [(m, i)] w)"

text \<open>\<open>body\<close> is what reading the body answers.\<close>

definition http_find_batch ::
    "finder_env \<Rightarrow> 'i finder \<Rightarrow> 'd registry \<Rightarrow> bool \<Rightarrow> 'i \<Rightarrow> string + bytes \<Rightarrow> response_writer \<Rightarrow>
       response_writer" where
  "http_find_batch V F r fails i body w =
     (case body of
        Inl e \<Rightarrow> http_error '''' 500 w
      | Inr b \<Rightarrow>
          (case cd_unmarshal (fe_request V) b of
             Inl e \<Rightarrow> http_error '''' 500 w
           | Inr mhs \<Rightarrow> get_indexes V F r fails (map (\<lambda>m. (m, i)) mhs) w))"

definition http_list_providers ::
    "finder_env \<Rightarrow> 'd registry \<Rightarrow> bool \<Rightarrow> peer_id list \<Rightarrow> response_writer \<Rightarrow> response_writer" where
  "http_list_providers V r fails order w =
     (case list_providers (fe_providers V) (fe_format V) order r of
        Inl e \<Rightarrow> http_error '''' 500 w
      | Inr b \<Rightarrow> write_json_response fails 200 b w)"

definition http_get_provider ::
    "finder_env \<Rightarrow> 'd registry \<Rightarrow> bool \<Rightarrow> string \<Rightarrow> response_writer \<Rightarrow> response_writer" where
  "http_get_provider V r fails pid w =
     (case fe_peer_decode V pid of
        Inl e \<Rightarrow> http_error '''' 400 w
      | Inr p \<Rightarrow>
          (case get_provider (fe_provider V) (fe_format V) p r of
             Inl e \<Rightarrow> http_error '''' 500 w
           | Inr data \<Rightarrow>
               if data = [] then http_error ''provider not found'' 404 w
               else write_json_response fails 200 data w))"

definition http_get_stats ::
    "finder_env \<Rightarrow> 'i finder \<Rightarrow> bool \<Rightarrow> 'i \<Rightarrow> response_writer \<Rightarrow> response_writer" where
  "http_get_stats V F fails i w =
     (case get_stats F (fe_stats V) i of
        Inl e \<Rightarrow> http_error '''' 500 w
      | Inr b \<Rightarrow> write_json_response fails 200 b w)"

definition http_health :: "finder_env \<Rightarrow> string \<Rightarrow> bool \<Rightarrow> response_writer \<Rightarrow> response_writer" where
  "http_health V version fails w =
     write_json_response fails 200
       (case cd_marshal (fe_version V) version of Inl e \<Rightarrow> [] | Inr b \<Rightarrow> b)
       (set_header ''Cache-Control'' ''no-cache'' w)"

text \<open>The routes: method, path segments and body.\<close>

datatype http_method = GET | POST | PUT | DELETE

record http_request =
  hr_method :: http_method
  hr_path :: "string list"
  hr_body :: bytes

definition finder_http ::
    "finder_env \<Rightarrow> 'i finder \<Rightarrow> 'd registry \<Rightarrow> peer_id list \<Rightarrow> string \<Rightarrow> 'i \<Rightarrow> http_request \<Rightarrow>
       response_writer" where
  "finder_http V F r order version i rq =
     (let w = new_response;
          only = (\<lambda>m handler. if hr_method rq = m then handler else write_header 405 w)
      in case hr_path rq of
           [''cid'', c] \<Rightarrow> only GET (http_find_cid V F r False i c w)
         | [''multihash'', m] \<Rightarrow> only GET (http_find V F r False i m w)
         | [''multihash''] \<Rightarrow> only POST (http_find_batch V F r False i (Inr (hr_body rq)) w)
         | [''health''] \<Rightarrow> only GET (http_health V version False w)
         | [''providers''] \<Rightarrow> only GET (http_list_providers V r False order w)
         | [''providers'', p] \<Rightarrow> only GET (http_get_provider V r False p w)
         | [''stats''] \<Rightarrow> only GET (http_get_stats V F False i w)
         | _ \<Rightarrow> http_error ''404 page not found'' 404 w)"

section \<open>libp2p\<close>

datatype finder_type =
  FmErrorResponse | FmFind | FmFindResponse | FmListProviders | FmListProvidersResponse |
  FmGetProvider | FmGetProviderResponse | FmGetStats | FmGetStatsResponse | FmOther int

record finder_message =
  fm_type :: finder_type
  fm_data :: bytes

definition p2p_find ::
    "finder_env \<Rightarrow> 'i finder \<Rightarrow> 'd registry \<Rightarrow> 'i \<Rightarrow> bytes \<Rightarrow> go_error + bytes" where
  "p2p_find V F r i data =
     (case cd_unmarshal (fe_request V) data of
        Inl e \<Rightarrow> Inl (ErrMsg e)
      | Inr mhs \<Rightarrow>
          (case fst (find F r (map (\<lambda>m. (m, i)) mhs)) of
             Inl e \<Rightarrow> Inl e
           | Inr mrs \<Rightarrow> map_sum ErrMsg id (cd_marshal (fe_response V) mrs)))"

definition p2p_list_providers :: "finder_env \<Rightarrow> 'd registry \<Rightarrow> peer_id list \<Rightarrow> go_error + bytes" where
  "p2p_list_providers V r order =
     (case list_providers (fe_providers V) (fe_format V) order r of
        Inl e \<Rightarrow> Inl (new_error None 500)
      | Inr b \<Rightarrow> Inr b)"

definition p2p_get_provider :: "finder_env \<Rightarrow> 'd registry \<Rightarrow> bytes \<Rightarrow> go_error + bytes" where
  "p2p_get_provider V r data =
     (case cd_unmarshal (fe_peer V) data of
        Inl e \<Rightarrow> Inl (new_error (Some (ErrMsg ''cannot decode request'')) 400)
      | Inr p \<Rightarrow>
          (case get_provider (fe_provider V) (fe_format V) p r of
             Inl e \<Rightarrow> Inl (new_error None 500)
           | Inr b \<Rightarrow>
               if b = [] then Inl (new_error (Some (ErrMsg ''provider not found'')) 404) else Inr b))"

definition p2p_get_stats :: "finder_env \<Rightarrow> 'i finder \<Rightarrow> 'i \<Rightarrow> go_error + bytes" where
  "p2p_get_stats V F i =
     (case get_stats F (fe_stats V) i of Inl e \<Rightarrow> Inl (new_error None 500) | Inr b \<Rightarrow> Inr b)"

text \<open>The reply to an error: what the classification lets out, encoded.\<close>

definition error_reply ::
    "(error_message \<Rightarrow> bytes option) \<Rightarrow> bytes \<Rightarrow> go_error \<Rightarrow> finder_message" where
  "error_reply marshal server_error e =
     (case p2p_handle_error e of (inner, status) \<Rightarrow>
        \<lparr>fm_type = FmErrorResponse, fm_data = encode_error marshal server_error (Some (ErrApi inner status))\<rparr>)"

definition finder_handle ::
    "finder_env \<Rightarrow> 'i finder \<Rightarrow> 'd registry \<Rightarrow> peer_id list \<Rightarrow> 'i \<Rightarrow> finder_message \<Rightarrow>
       (finder_type \<times> (go_error + bytes)) option" where
  "finder_handle V F r order i msg =
     (case fm_type msg of
        FmFind \<Rightarrow> Some (FmFindResponse, p2p_find V F r i (fm_data msg))
      | FmGetProvider \<Rightarrow> Some (FmGetProviderResponse, p2p_get_provider V r (fm_data msg))
      | FmListProviders \<Rightarrow> Some (FmListProvidersResponse, p2p_list_providers V r order)
      | FmGetStats \<Rightarrow> Some (FmGetStatsResponse, p2p_get_stats V F i)
      | _ \<Rightarrow> None)"

fun finder_type_number :: "finder_type \<Rightarrow> int" where
  "finder_type_number FmErrorResponse = 0"
| "finder_type_number FmFind = 1"
| "finder_type_number FmFindResponse = 2"
| "finder_type_number FmListProviders = 3"
| "finder_type_number FmListProvidersResponse = 4"
| "finder_type_number FmGetProvider = 5"
| "finder_type_number FmGetProviderResponse = 6"
| "finder_type_number FmGetStats = 7"
| "finder_type_number FmGetStatsResponse = 8"
| "finder_type_number (FmOther n) = n"

text \<open>An error of \<open>HandleMessage\<close> itself ends the stream without a reply.\<close>

definition finder_handle_message ::
    "finder_env \<Rightarrow> (error_message \<Rightarrow> bytes option) \<Rightarrow> bytes \<Rightarrow> finder_message codec \<Rightarrow> 'i finder \<Rightarrow>
       'd registry \<Rightarrow> peer_id list \<Rightarrow> 'i \<Rightarrow> bytes \<Rightarrow> go_error + finder_message" where
  "finder_handle_message V marshal server_error P F r order i b =
     (case cd_unmarshal P b of
        Inl e \<Rightarrow> Inl (ErrMsg e)
      | Inr req \<Rightarrow>
          (case finder_handle V F r order i req of
             None \<Rightarrow> Inl (ErrMsg (''unsupported message type '' @ show_int (finder_type_number (fm_type req))))
           | Some (t, Inl e) \<Rightarrow> Inr (error_reply marshal server_error e)
           | Some (t, Inr data) \<Rightarrow> Inr \<lparr>fm_type = t, fm_data = data\<rparr>))"

text \<open>
  A stream: the messages are handled in order and replied to, until one cannot be; \<open>send\<close> says
  whether a reply can be written.
\<close>

fun handle_messages ::
    "('a \<Rightarrow> go_error + 'b) \<Rightarrow> ('b \<Rightarrow> bool) \<Rightarrow> 'a list \<Rightarrow> 'b list \<times> bool" where
  "handle_messages handle send [] = ([], True)"
| "handle_messages handle send (m # ms) =
     (case handle m of
        Inl e \<Rightarrow> ([], True)
      | Inr rsp \<Rightarrow>
          if \<not> send rsp then ([], False)
          else (case handle_messages handle send ms of (rsps, graceful) \<Rightarrow> (rsp # rsps, graceful)))"

section \<open>The HTTP client\<close>

definition trim_space :: "string \<Rightarrow> string" where
  "trim_space s =
     (let space = (\<lambda>c. c \<in> {CHR '' '', CHR 0x09, CHR 0x0A, CHR 0x0B, CHR 0x0C, CHR 0x0D})
      in rev (dropWhile space (rev (dropWhile space s))))"

definition read_error :: "int \<Rightarrow> bytes \<Rightarrow> go_error" where
  "read_error status body = ErrMsg (error_text (Some (ErrMsg (trim_space body)), status))"

text \<open>A transport answers a connection error, or the response.\<close>

type_synonym http_transport = "http_request \<Rightarrow> string + response_writer"

definition client_status :: "response_writer \<Rightarrow> int" where
  "client_status w = (case response_status w of None \<Rightarrow> 200 | Some s \<Rightarrow> s)"

definition http_send_request ::
    "finder_env \<Rightarrow> http_transport \<Rightarrow> http_request \<Rightarrow> go_error + multihash_result list" where
  "http_send_request V net rq =
     (case net rq of
        Inl e \<Rightarrow> Inl (ErrMsg e)
      | Inr w \<Rightarrow>
          if client_status w \<noteq> 200 then
            (if client_status w = 404 then Inr []
             else Inl (ErrMsg (''batch find query failed: '' @ status_text (client_status w))))
          else map_sum ErrMsg id (cd_unmarshal (fe_response V) (rw_body w)))"

definition http_client_find ::
    "finder_env \<Rightarrow> (multihash \<Rightarrow> string) \<Rightarrow> http_transport \<Rightarrow> multihash \<Rightarrow> go_error + multihash_result list" where
  "http_client_find V b58 net m =
     http_send_request V net \<lparr>hr_method = GET, hr_path = [''multihash'', b58 m], hr_body = []\<rparr>"

definition http_client_find_batch ::
    "finder_env \<Rightarrow> http_transport \<Rightarrow> multihash list \<Rightarrow> go_error + multihash_result list" where
  "http_client_find_batch V net mhs =
     (if mhs = [] then Inr []
      else (case cd_marshal (fe_request V) mhs of
              Inl e \<Rightarrow> Inl (ErrMsg e)
            | Inr data \<Rightarrow>
                http_send_request V net \<lparr>hr_method = POST, hr_path = [''multihash''], hr_body = data\<rparr>))"

definition http_get ::
    "http_transport \<Rightarrow> string list \<Rightarrow> 'a codec \<Rightarrow> go_error + 'a" where
  "http_get net path C =
     (case net \<lparr>hr_method = GET, hr_path = path, hr_body = []\<rparr> of
        Inl e \<Rightarrow> Inl (ErrMsg e)
      | Inr w \<Rightarrow>
          if client_status w \<noteq> 200 then Inl (read_error (client_status w) (rw_body w))
          else map_sum ErrMsg id (cd_unmarshal C (rw_body w)))"

definition http_client_list_providers ::
    "finder_env \<Rightarrow> http_transport \<Rightarrow> go_error + model_provider list" where
  "http_client_list_providers V net = http_get net [''providers''] (fe_providers V)"

definition http_client_get_provider ::
    "finder_env \<Rightarrow> (peer_id \<Rightarrow> string) \<Rightarrow> http_transport \<Rightarrow> peer_id \<Rightarrow> go_error + model_provider" where
  "http_client_get_provider V show_peer net p = http_get net [''providers'', show_peer p] (fe_provider V)"

definition http_client_get_stats :: "finder_env \<Rightarrow> http_transport \<Rightarrow> go_error + int" where
  "http_client_get_stats V net = http_get net [''stats''] (fe_stats V)"

section \<open>The libp2p client\<close>

text \<open>A transport takes the bytes of a message and answers those of the reply, or an error.\<close>

type_synonym p2p_transport = "bytes \<Rightarrow> string + bytes"

fun finder_type_name :: "finder_type \<Rightarrow> string" where
  "finder_type_name FmErrorResponse = ''ERROR_RESPONSE''"
| "finder_type_name FmFind = ''FIND''"
| "finder_type_name FmFindResponse = ''FIND_RESPONSE''"
| "finder_type_name FmListProviders = ''LIST_PROVIDERS''"
| "finder_type_name FmListProvidersResponse = ''LIST_PROVIDERS_RESPONSE''"
| "finder_type_name FmGetProvider = ''GET_PROVIDER''"
| "finder_type_name FmGetProviderResponse = ''GET_PROVIDER_RESPONSE''"
| "finder_type_name FmGetStats = ''GET_STATS''"
| "finder_type_name FmGetStatsResponse = ''GET_STATS_RESPONSE''"
| "finder_type_name (FmOther n) = show_int n"

text \<open>An error response without data decodes to no error at all, with no data.\<close>

definition p2p_send_recv ::
    "finder_message codec \<Rightarrow> (bytes \<Rightarrow> string + error_message) \<Rightarrow> p2p_transport \<Rightarrow> finder_message \<Rightarrow>
       finder_type \<Rightarrow> go_error + bytes" where
  "p2p_send_recv P unmarshal net req expect =
     (case (case cd_marshal P req of
              Inl e \<Rightarrow> Inl e
            | Inr b \<Rightarrow> (case net b of Inl e \<Rightarrow> Inl e | Inr rb \<Rightarrow> cd_unmarshal P rb)) of
        Inl e \<Rightarrow> Inl (ErrMsg (''failed to send request to indexer: '' @ e))
      | Inr resp \<Rightarrow>
          if fm_type resp \<noteq> expect then
            (if fm_type resp = FmErrorResponse
             then (case decode_error unmarshal (fm_data resp) of Some e \<Rightarrow> Inl e | None \<Rightarrow> Inr [])
             else Inl (ErrMsg (''response type is not '' @ finder_type_name expect)))
          else Inr (fm_data resp))"

definition p2p_client_find_batch ::
    "finder_env \<Rightarrow> finder_message codec \<Rightarrow> (bytes \<Rightarrow> string + error_message) \<Rightarrow> p2p_transport \<Rightarrow>
       multihash list \<Rightarrow> go_error + multihash_result list" where
  "p2p_client_find_batch V P unmarshal net mhs =
     (if mhs = [] then Inr []
      else (case cd_marshal (fe_request V) mhs of
              Inl e \<Rightarrow> Inl (ErrMsg e)
            | Inr data \<Rightarrow>
                (case p2p_send_recv P unmarshal net \<lparr>fm_type = FmFind, fm_data = data\<rparr> FmFindResponse of
                   Inl e \<Rightarrow> Inl e
                 | Inr rsp \<Rightarrow> map_sum ErrMsg id (cd_unmarshal (fe_response V) rsp))))"

definition p2p_client_get_provider ::
    "finder_env \<Rightarrow> finder_message codec \<Rightarrow> (bytes \<Rightarrow> string + error_message) \<Rightarrow> p2p_transport \<Rightarrow>
       peer_id \<Rightarrow> go_error + model_provider" where
  "p2p_client_get_provider V P unmarshal net p =
     (case cd_marshal (fe_peer V) p of
        Inl e \<Rightarrow> Inl (ErrMsg e)
      | Inr data \<Rightarrow>
          (case p2p_send_recv P unmarshal net \<lparr>fm_type = FmGetProvider, fm_data = data\<rparr>
                  FmGetProviderResponse of
             Inl e \<Rightarrow> Inl e
           | Inr rsp \<Rightarrow> map_sum ErrMsg id (cd_unmarshal (fe_provider V) rsp)))"

definition p2p_client_list_providers ::
    "finder_env \<Rightarrow> finder_message codec \<Rightarrow> (bytes \<Rightarrow> string + error_message) \<Rightarrow> p2p_transport \<Rightarrow>
       go_error + model_provider list" where
  "p2p_client_list_providers V P unmarshal net =
     (case p2p_send_recv P unmarshal net \<lparr>fm_type = FmListProviders, fm_data = []\<rparr>
             FmListProvidersResponse of
        Inl e \<Rightarrow> Inl e
      | Inr rsp \<Rightarrow> map_sum ErrMsg id (cd_unmarshal (fe_providers V) rsp))"

definition p2p_client_get_stats ::
    "finder_env \<Rightarrow> finder_message codec \<Rightarrow> (bytes \<Rightarrow> string + error_message) \<Rightarrow> p2p_transport \<Rightarrow>
       go_error + int" where
  "p2p_client_get_stats V P unmarshal net =
     (case p2p_send_recv P unmarshal net \<lparr>fm_type = FmGetStats, fm_data = []\<rparr> FmGetStatsResponse of
        Inl e \<Rightarrow> Inl e
      | Inr rsp \<Rightarrow> map_sum ErrMsg id (cd_unmarshal (fe_stats V) rsp))"

section \<open>Server and client together\<close>

text \<open>A network that delivers: the server's reply, or the end of the stream.\<close>

definition http_net :: "(http_request \<Rightarrow> response_writer) \<Rightarrow> http_transport" where
  "http_net server rq = Inr (server rq)"

definition p2p_net :: "finder_message codec \<Rightarrow> (bytes \<Rightarrow> go_error + finder_message) \<Rightarrow> p2p_transport" where
  "p2p_net P server b =
     (case server b of Inl e \<Rightarrow> Inl ''EOF'' | Inr rsp \<Rightarrow> cd_marshal P rsp)"

lemma codec_inverseD:
  assumes "codec_inverse C"
  obtains b where "cd_marshal C x = Inr b" and "cd_unmarshal C b = Inr x"
  using assms unfolding codec_inverse_def by blast

lemma p2p_round:
  assumes "codec_inverse P"
  shows "p2p_send_recv P unmarshal
      (p2p_net P (finder_handle_message V marshal se P F r order i)) req expect =
    (case finder_handle V F r order i req of
       None \<Rightarrow> Inl (ErrMsg ''failed to send request to indexer: EOF'')
     | Some (t, Inl e) \<Rightarrow>
         (let rsp = error_reply marshal se e
          in if expect = FmErrorResponse then Inr (fm_data rsp)
             else case decode_error unmarshal (fm_data rsp) of Some e \<Rightarrow> Inl e | None \<Rightarrow> Inr [])
     | Some (t, Inr data) \<Rightarrow>
         if t \<noteq> expect then
           (if t = FmErrorResponse
            then (case decode_error unmarshal data of Some e \<Rightarrow> Inl e | None \<Rightarrow> Inr [])
            else Inl (ErrMsg (''response type is not '' @ finder_type_name expect)))
         else Inr data)"
proof -
  obtain b where b: "cd_marshal P req = Inr b" "cd_unmarshal P b = Inr req"
    by (rule codec_inverseD [OF assms])
  show ?thesis
  proof (cases "finder_handle V F r order i req")
    case None
    then show ?thesis by (simp add: p2p_send_recv_def p2p_net_def finder_handle_message_def b)
  next
    case (Some res)
    obtain t out where res: "res = (t, out)" by (cases res)
    define rsp where "rsp = (case out of Inl e \<Rightarrow> error_reply marshal se e | Inr d \<Rightarrow> \<lparr>fm_type = t, fm_data = d\<rparr>)"
    obtain rb where "cd_marshal P rsp = Inr rb" "cd_unmarshal P rb = Inr rsp"
      by (rule codec_inverseD [OF assms])
    then show ?thesis
      using Some res
      by (cases out) (auto simp: p2p_send_recv_def p2p_net_def finder_handle_message_def b rsp_def
          error_reply_def Let_def split: prod.splits)
  qed
qed

lemma finder_http_batch:
  "finder_http V F r order version i \<lparr>hr_method = POST, hr_path = [''multihash''], hr_body = b\<rparr> =
     http_find_batch V F r False i (Inr b) new_response"
  by (simp add: finder_http_def Let_def)

lemma finder_http_provider:
  "finder_http V F r order version i \<lparr>hr_method = GET, hr_path = [''providers'', p], hr_body = b\<rparr> =
     http_get_provider V r False p new_response"
  by (simp add: finder_http_def Let_def)

lemma new_response_unsent [simp]: "rw_sent new_response = None" "rw_body new_response = []"
  by (simp_all add: new_response_def)

lemma newline: "char_of (10 :: nat) = CHR 0x0A"
  by code_simp

lemma client_status_simps [simp]:
  "client_status (http_error msg code new_response) = code"
  "client_status (write_json_response False code b new_response) = code"
  "rw_body (write_json_response False code b new_response) = b"
  "rw_body (http_error msg code new_response) = msg @ [CHR 0x0A]"
  by (simp_all add: client_status_def write_json_response_def rw_defs Let_def newline)

lemma find_error_500:
  "fst (find F r qs) = Inl e \<Longrightarrow> \<exists>e'. e = ErrApi (Some e') 500"
  by (auto simp: find_eq response_def query_error_def new_error_def split: list.splits)

lemma texts_500:
  "show_int 500 = ''500''"
  "status_text 500 = ''Internal Server Error''"
  "error_text (None, 500) = ''500 Internal Server Error''"
  "error_text (Some (ErrMsg ''500 Internal Server Error''), 500) =
     ''500 Internal Server Error: 500 Internal Server Error''"
  "error_string (ErrApi None 500) = ''500 Internal Server Error''"
  "error_text (Some (ErrMsg ''provider not found''), 404) = ''404 Not Found: provider not found''"
  "trim_space (''provider not found'' @ [CHR 0x0A]) = ''provider not found''"
  by code_simp+

section \<open>Concrete encodings\<close>

definition codec_of :: "'a coder \<Rightarrow> 'a codec" where
  "codec_of C = \<lparr>cd_marshal = (\<lambda>x. Inr (co_write C x)), cd_unmarshal = (\<lambda>b. Inr (fst (co_read C b)))\<rparr>"

lemma codec_of_inverse [simp]: "coder_ok C \<Longrightarrow> codec_inverse (codec_of C)"
  by (simp add: codec_inverse_def codec_of_def coder_write_inverse)

definition addr_info_coder :: "addr_info coder" where
  "addr_info_coder =
     via_coder (\<lambda>a. (ai_id a, map (\<lambda>m. case m of Multiaddr s \<Rightarrow> s) (ai_addrs a)))
       (\<lambda>(p, as). \<lparr>ai_id = p, ai_addrs = map Multiaddr as\<rparr>) (pair_coder string_coder (list_coder string_coder))"

lemma addr_info_coder_ok [simp]: "coder_ok addr_info_coder"
proof -
  have "map Multiaddr (map (\<lambda>m. case m of Multiaddr s \<Rightarrow> s) as) = as" for as
    by (induction as) (auto split: multiaddr.splits)
  then show ?thesis unfolding addr_info_coder_def by (intro via_coder_ok) auto
qed

definition results_coder :: "multihash_result list coder" where
  "results_coder =
     list_coder (via_coder (\<lambda>mr. (mr_multihash mr, mr_results mr))
       (\<lambda>(m, rs). \<lparr>mr_multihash = m, mr_results = rs\<rparr>)
       (pair_coder string_coder (list_coder
          (via_coder (\<lambda>x. (pr_context x, pr_metadata x, pr_provider x))
             (\<lambda>(c, m, p). \<lparr>pr_context = c, pr_metadata = m, pr_provider = p\<rparr>)
             (pair_coder string_coder (pair_coder string_coder addr_info_coder))))))"

definition provider_coder :: "model_provider coder" where
  "provider_coder =
     via_coder (\<lambda>x. (mp_last_ad x, mp_last_ad_time x, mp_addr_info x, mp_publisher x))
       (\<lambda>(c, tm, a, p). \<lparr>mp_addr_info = a, mp_last_ad = c, mp_last_ad_time = tm, mp_publisher = p\<rparr>)
       (pair_coder string_coder (pair_coder string_coder (pair_coder addr_info_coder
          (option_coder addr_info_coder))))"

definition message_coder :: "finder_message coder" where
  "message_coder =
     via_coder (\<lambda>m. (case fm_type m of FmOther n \<Rightarrow> [n] | _ \<Rightarrow> [], nat (finder_type_number (fm_type m)), fm_data m))
       (\<lambda>(others, n, d). \<lparr>fm_type = (case others of k # _ \<Rightarrow> FmOther k | [] \<Rightarrow>
          [FmErrorResponse, FmFind, FmFindResponse, FmListProviders, FmListProvidersResponse,
           FmGetProvider, FmGetProviderResponse, FmGetStats, FmGetStatsResponse] ! n), fm_data = d\<rparr>)
       (pair_coder (list_coder int_coder) (pair_coder nat_coder string_coder))"

lemma model_coders_ok [simp]: "coder_ok results_coder" "coder_ok provider_coder" "coder_ok message_coder"
proof -
  show "coder_ok results_coder"
    unfolding results_coder_def by (intro list_coder_ok via_coder_ok pair_coder_ok) auto
  show "coder_ok provider_coder"
    unfolding provider_coder_def by (intro via_coder_ok pair_coder_ok) auto
  show "coder_ok message_coder"
    unfolding message_coder_def
  proof (intro via_coder_ok pair_coder_ok list_coder_ok)
    fix m :: finder_message
    show "(case (case fm_type m of FmOther n \<Rightarrow> [n] | _ \<Rightarrow> [], nat (finder_type_number (fm_type m)), fm_data m) of
        (others, n, d) \<Rightarrow> \<lparr>fm_type = (case others of k # _ \<Rightarrow> FmOther k | [] \<Rightarrow>
          [FmErrorResponse, FmFind, FmFindResponse, FmListProviders, FmListProvidersResponse,
           FmGetProvider, FmGetProviderResponse, FmGetStats, FmGetStatsResponse] ! n), fm_data = d\<rparr>) = m"
      by (cases m; cases "fm_type m") auto
  qed auto
qed

definition coded_env :: finder_env where
  "coded_env =
     \<lparr>fe_request = codec_of (list_coder string_coder), fe_response = codec_of results_coder,
      fe_provider = codec_of provider_coder, fe_providers = codec_of (list_coder provider_coder),
      fe_stats = codec_of int_coder, fe_peer = codec_of string_coder, fe_version = codec_of string_coder,
      fe_mh_b58 = unhex_string, fe_cid_hash = unhex_string, fe_peer_decode = unhex_string,
      fe_format = (\<lambda>t. ([], 0))\<rparr>"

lemma coded_env_codecs:
  "codec_inverse (fe_request coded_env)" "codec_inverse (fe_response coded_env)"
  "codec_inverse (fe_provider coded_env)" "codec_inverse (fe_peer coded_env)"
  "codec_inverse (codec_of message_coder)"
  by (simp_all add: coded_env_def)

section \<open>Properties\<close>



text \<open>Asking for a provider gives the same over both transports: what the registry knows of an
active provider, and for any other peer the error that says it was not found.\<close>

theorem get_provider_clients_agree:
  assumes "codec_inverse (fe_provider V)" and "codec_inverse (fe_peer V)" and "codec_inverse P"
    and "codec_ok marshal unmarshal" and "\<forall>m. cd_marshal (fe_provider V) m \<noteq> Inr []"
    and "fe_peer_decode V (show_peer p) = Inr p"
    and "known = (case lookup_provider r p of
       None \<Rightarrow> Inl (ErrMsg ''404 Not Found: provider not found'')
     | Some info \<Rightarrow> Inr (provider_model (fe_format V) info))"
  shows "http_client_get_provider V show_peer (http_net (finder_http V F r order version i)) p = known \<and>
    p2p_client_get_provider V P unmarshal
      (p2p_net P (finder_handle_message V marshal se P F r order i)) p = known"
proof -
  obtain data where data: "cd_marshal (fe_peer V) p = Inr data" "cd_unmarshal (fe_peer V) data = Inr p"
    by (rule codec_inverseD [OF assms(2)])
  show ?thesis
  proof (cases "lookup_provider r p")
    case None
    have "decode_error unmarshal (fm_data (error_reply marshal se
        (ErrApi (Some (ErrMsg ''provider not found'')) 404))) =
        Some (ErrMsg ''404 Not Found: provider not found'')"
      by (simp add: error_reply_def p2p_handle_error_def error_status_def
          decode_encode_message [OF assms(4)] texts_500)
    then show ?thesis
      using None data assms(6,7) texts_500(7)
      by (simp add: http_client_get_provider_def p2p_client_get_provider_def http_get_def http_net_def
          finder_http_provider http_get_provider_def get_provider_def read_error_def texts_500(6)
          p2p_round [OF assms(3)] finder_handle_def p2p_get_provider_def new_error_def)
  next
    case (Some info)
    obtain b where "cd_marshal (fe_provider V) (provider_model (fe_format V) info) = Inr b"
      "cd_unmarshal (fe_provider V) b = Inr (provider_model (fe_format V) info)"
      by (rule codec_inverseD [OF assms(1)])
    moreover from this have "b \<noteq> []" using assms(5) by auto
    ultimately show ?thesis
      using Some data assms(6,7)
      by (simp add: http_client_get_provider_def p2p_client_get_provider_def http_get_def http_net_def
          finder_http_provider http_get_provider_def get_provider_def
          p2p_round [OF assms(3)] finder_handle_def p2p_get_provider_def)
  qed
qed

theorem get_provider_clients_agree_witness:
  "http_client_get_provider coded_env hex_string (http_net (finder_http coded_env entry_finder
     (start_registry (None :: unit option) open_policy) [] [] [])) ''p'' =
     Inl (ErrMsg ''404 Not Found: provider not found'')"
proof -
  have some: "\<forall>m. cd_marshal (fe_provider coded_env) m \<noteq> Inr []"
    by (simp add: coded_env_def codec_of_def provider_coder_def via_coder_def pair_coder_def
        string_coder_def nat_coder_def split: prod.splits)
  have dec: "fe_peer_decode coded_env (hex_string ''p'') = Inr ''p''" by (simp add: coded_env_def)
  have none: "lookup_provider (start_registry (None :: unit option) open_policy) ''p'' = None"
    by (simp add: lookup_provider_def start_registry_def)
  show ?thesis
    using get_provider_clients_agree [where V = coded_env and show_peer = hex_string and p = "''p''"
          and known = "Inl (ErrMsg ''404 Not Found: provider not found'')",
        OF coded_env_codecs(3,4,5) unary_codec_ok some dec, where F = entry_finder and r = "start_registry (None :: unit option) open_policy"
          and i = "[]" and order = "[]" and version = "[]" and se = "[]"]
    by (simp add: none)
qed

end
