(* ===== verification/Ingest_Server.thy ===== *)
theory Ingest_Server
  imports Ingest_Sync Finder_Protocols
begin

text \<open>
  The ingest server: the signed requests of \<^verbatim>\<open>api/v0/ingest/model\<close>, the handler of
  \<^verbatim>\<open>server/ingest/handler\<close>, its HTTP and libp2p fronts and the clients of
  \<^verbatim>\<open>api/v0/ingest/client\<close>. The envelopes of libp2p are an argument.
\<close>

section \<open>Signed requests\<close>

record ingest_request =
  ir_multihash :: multihash
  ir_provider :: peer_id
  ir_context :: bytes
  ir_metadata :: bytes
  ir_addrs :: "string list"
  ir_seq :: "64 word"

record discover_request =
  dr_provider :: peer_id
  dr_discovery_addr :: string
  dr_seq :: "64 word"

text \<open>The peer record of libp2p is the register request.\<close>

record peer_record =
  pe_peer :: peer_id
  pe_seq :: "64 word"
  pe_addrs :: "multiaddr list"

datatype signed_record =
    IngestRecord ingest_request
  | DiscoverRecord discover_request
  | PeerRecord peer_record
  | OtherRecord bytes

definition ingest_request_domain :: string where
  "ingest_request_domain = ''indexer-ingest-request-record''"

definition discover_request_domain :: string where
  "discover_request_domain = ''indexer-discover-request-record''"

definition peer_record_domain :: string where
  "peer_record_domain = ''libp2p-peer-record''"

definition record_domain :: "signed_record \<Rightarrow> string" where
  "record_domain rec =
     (case rec of
        IngestRecord r \<Rightarrow> ingest_request_domain
      | DiscoverRecord r \<Rightarrow> discover_request_domain
      | PeerRecord r \<Rightarrow> peer_record_domain
      | OtherRecord b \<Rightarrow> [])"

text \<open>
  Sealing a record with a private key under a domain, marshalling the envelope, and consuming the
  bytes of an envelope for a domain, which verifies the signature and answers the record and the key
  it was signed with.
\<close>

record ('k, 'e, 'p) envelopes =
  en_seal :: "'k \<Rightarrow> string \<Rightarrow> signed_record \<Rightarrow> string + 'e"
  en_marshal :: "'e \<Rightarrow> string + bytes"
  en_consume :: "bytes \<Rightarrow> string \<Rightarrow> string + signed_record \<times> 'p"

definition envelope_laws :: "('k, 'e, 'p) envelopes \<Rightarrow> ('k \<Rightarrow> 'p) \<Rightarrow> bool" where
  "envelope_laws W pub \<longleftrightarrow>
     (\<forall>key dom rec e b. en_seal W key dom rec = Inr e \<longrightarrow> en_marshal W e = Inr b \<longrightarrow>
        en_consume W b dom = Inr (rec, pub key))"

definition make_request_envelope ::
    "('k, 'e, 'p) envelopes \<Rightarrow> signed_record \<Rightarrow> 'k \<Rightarrow> go_error + bytes" where
  "make_request_envelope W rec key =
     (case en_seal W key (record_domain rec) rec of
        Inl e \<Rightarrow> Inl (ErrMsg (''could not sign request: '' @ e))
      | Inr env \<Rightarrow>
          (case en_marshal W env of
             Inl e \<Rightarrow> Inl (ErrMsg (''could not marshal request envelop: '' @ e))
           | Inr b \<Rightarrow> Inr b))"

definition make_ingest_request ::
    "('k, 'e, 'p) envelopes \<Rightarrow> 64 word \<Rightarrow> peer_id \<Rightarrow> 'k \<Rightarrow> multihash \<Rightarrow> bytes \<Rightarrow> bytes \<Rightarrow> string list \<Rightarrow>
       go_error + bytes" where
  "make_ingest_request W seq provider key m context_id metadata addrs =
     make_request_envelope W (IngestRecord \<lparr>ir_multihash = m, ir_provider = provider,
       ir_context = context_id, ir_metadata = metadata, ir_addrs = addrs, ir_seq = seq\<rparr>) key"

definition read_ingest_request :: "('k, 'e, 'p) envelopes \<Rightarrow> bytes \<Rightarrow> go_error + ingest_request" where
  "read_ingest_request W data =
     (case en_consume W data ingest_request_domain of
        Inl e \<Rightarrow> Inl (ErrMsg (''cannot consume register request envelope: '' @ e))
      | Inr (IngestRecord r, key) \<Rightarrow> Inr r
      | Inr (rec, key) \<Rightarrow> Inl (ErrMsg ''unmarshaled request is not a *IngestRequest''))"

definition make_discover_request ::
    "('k, 'e, 'p) envelopes \<Rightarrow> 64 word \<Rightarrow> peer_id \<Rightarrow> 'k \<Rightarrow> string \<Rightarrow> go_error + bytes" where
  "make_discover_request W seq provider key discovery_addr =
     make_request_envelope W (DiscoverRecord \<lparr>dr_provider = provider,
       dr_discovery_addr = discovery_addr, dr_seq = seq\<rparr>) key"

definition read_discover_request :: "('k, 'e, 'p) envelopes \<Rightarrow> bytes \<Rightarrow> go_error + discover_request" where
  "read_discover_request W data =
     (case en_consume W data discover_request_domain of
        Inl e \<Rightarrow> Inl (ErrMsg (''cannot consume discover request envelope: '' @ e))
      | Inr (DiscoverRecord r, key) \<Rightarrow> Inr r
      | Inr (rec, key) \<Rightarrow> Inl (ErrMsg ''unmarshaled request is not a *DiscoverRequest''))"

fun parse_addrs :: "lib \<Rightarrow> string list \<Rightarrow> go_error + multiaddr list" where
  "parse_addrs L [] = Inr []"
| "parse_addrs L (s # ss) =
     (case lib_new_multiaddr L s of
        Inl e \<Rightarrow> Inl (ErrMsg (''bad address: '' @ e))
      | Inr a \<Rightarrow> map_sum id ((#) a) (parse_addrs L ss))"

definition make_register_request ::
    "('k, 'e, 'p) envelopes \<Rightarrow> lib \<Rightarrow> 64 word \<Rightarrow> peer_id \<Rightarrow> 'k \<Rightarrow> string list \<Rightarrow> go_error + bytes" where
  "make_register_request W L seq provider key addrs =
     (if addrs = [] then Inl (ErrMsg ''missing address'')
      else (case parse_addrs L addrs of
              Inl e \<Rightarrow> Inl e
            | Inr as \<Rightarrow> make_request_envelope W
                (PeerRecord \<lparr>pe_peer = provider, pe_seq = seq, pe_addrs = as\<rparr>) key))"

definition read_register_request :: "('k, 'e, 'p) envelopes \<Rightarrow> bytes \<Rightarrow> go_error + peer_record" where
  "read_register_request W data =
     (case en_consume W data peer_record_domain of
        Inl e \<Rightarrow> Inl (ErrMsg (''cannot consume register request envelope: '' @ e))
      | Inr (PeerRecord r, key) \<Rightarrow> Inr r
      | Inr (rec, key) \<Rightarrow> Inl (ErrMsg ''unmarshaled register request record is not a *PeerRecord''))"

section \<open>The handler\<close>

text \<open>The handler works on the registry and the indexer, which the ingester shares.\<close>

definition handle_discover ::
    "('k, 'e, 'p) envelopes \<Rightarrow> gotime \<Rightarrow> gotime \<Rightarrow> bytes \<Rightarrow> ('d, 'i) ingester \<Rightarrow>
       go_error option \<times> ('d, 'i) ingester" where
  "handle_discover W now now' data s =
     (case read_discover_request W data of
        Inl e \<Rightarrow> (Some (ErrMsg (''connot read discover request: '' @ error_string e)), s)
      | Inr req \<Rightarrow>
          (case check_sequence now (dr_provider req) (dr_seq req) (in_reg s) of
             (Some e, r) \<Rightarrow> (Some e, s\<lparr>in_reg := r\<rparr>)
           | (None, r) \<Rightarrow>
               (let (e, r) = discover_provider now' (dr_provider req) (dr_discovery_addr req) r
                in (e, s\<lparr>in_reg := r\<rparr>))))"

definition handle_register ::
    "('d, 'i, 'n, 'h) env \<Rightarrow> ('k, 'e, 'p) envelopes \<Rightarrow> gotime \<Rightarrow> bytes \<Rightarrow> ('d, 'i) ingester \<Rightarrow>
       go_error option \<times> ('d, 'i) ingester" where
  "handle_register E W now data s =
     (case read_register_request W data of
        Inl e \<Rightarrow> (Some (ErrMsg (''cannot read register request: '' @ error_string e)), s)
      | Inr rec \<Rightarrow>
          if pe_peer rec = [] then (Some (ErrMsg ''missing peer id''), s)
          else
            (case check_sequence now (pe_peer rec) (pe_seq rec) (in_reg s) of
               (Some e, r) \<Rightarrow> (Some e, s\<lparr>in_reg := r\<rparr>)
             | (None, r) \<Rightarrow>
                 (let (e, r) = register (en_ds E) (en_lib E) (en_json E)
                        (new_provider_info \<lparr>ai_id = pe_peer rec, ai_addrs = pe_addrs rec\<rparr>) r
                  in (e, s\<lparr>in_reg := r\<rparr>))))"

definition request_value :: "ingest_request \<Rightarrow> index_value" where
  "request_value req =
     \<lparr>iv_provider = ir_provider req, iv_context = ir_context req, iv_metadata = ir_metadata req\<rparr>"

definition handle_index_content ::
    "('d, 'i, 'n, 'h) env \<Rightarrow> ('k, 'e, 'p) envelopes \<Rightarrow> gotime \<Rightarrow> gotime \<Rightarrow> bytes \<Rightarrow> ('d, 'i) ingester \<Rightarrow>
       (go_error option \<times> ('d, 'i) ingester) go" where
  "handle_index_content E W now now' data s =
     (case read_ingest_request W data of
        Inl e \<Rightarrow> Inr (Some (ErrMsg (''cannot read ingest request: '' @ error_string e)), s)
      | Inr req \<Rightarrow>
          if length (ir_context req) > max_context_id_len
          then Inr (Some (ErrMsg ''context id too long''), s)
          else if length (ir_metadata req) > max_metadata_len
          then Inr (Some (ErrMsg ''metadata too long''), s)
          else
            (case check_sequence now (ir_provider req) (ir_seq req) (in_reg s) of
               (Some e, r) \<Rightarrow> Inr (Some e, s\<lparr>in_reg := r\<rparr>)
             | (None, r) \<Rightarrow>
                 go_bind (register_or_update (en_ds E) (en_lib E) (en_json E) now' (ir_provider req)
                            (ir_addrs req) cid_undef \<lparr>ai_id = [], ai_addrs = []\<rparr> r) (\<lambda>(err, r).
                   case err of
                     Some e \<Rightarrow> Inr (Some e, s\<lparr>in_reg := r\<rparr>)
                   | None \<Rightarrow>
                       (case ix_put (en_indexer E) (in_indexer s) (request_value req) [ir_multihash req] of
                          (Some e, i) \<Rightarrow>
                            Inr (Some (new_error (Some (ErrMsg (''cannot index content: '' @ e))) 500),
                                 s\<lparr>in_reg := r, in_indexer := i\<rparr>)
                        | (None, i) \<Rightarrow> Inr (None, s\<lparr>in_reg := r, in_indexer := i\<rparr>)))))"

text \<open>
  What decoding the body of an announce answers: the CID, the addresses as they came, and the peer
  infos they stand for. The result is an error, nothing to do, or an announce for the ingester.
\<close>

record announce_message =
  am_cid :: cid
  am_addrs :: "bytes list"

record announce_lib =
  al_decode :: "bytes \<Rightarrow> string + announce_message"
  al_get_addrs :: "bytes list \<Rightarrow> string + multiaddr list"
  al_infos :: "multiaddr list \<Rightarrow> string + addr_info list"

definition handle_announce ::
    "('d, 'i, 'n, 'h) env \<Rightarrow> announce_lib \<Rightarrow> bytes \<Rightarrow> ('d, 'i) ingester \<Rightarrow>
       (go_error + (cid \<times> addr_info) option) go" where
  "handle_announce E A body s =
     (case al_decode A body of
        Inl e \<Rightarrow> Inr (Inl (ErrMsg e))
      | Inr an \<Rightarrow>
          if am_addrs an = []
          then Inr (Inl (ErrMsg ''must specify location to fetch on direct announcments''))
          else
            (case al_get_addrs A (am_addrs an) of
               Inl e \<Rightarrow> Inr (Inl (ErrMsg (''could not decode addrs from announce message: '' @ e)))
             | Inr addrs \<Rightarrow>
                 (case al_infos A addrs of
                    Inl e \<Rightarrow> Inr (Inl (ErrMsg e))
                  | Inr ais \<Rightarrow>
                      if length ais > 1
                      then Inr (Inl (ErrMsg ''peer id must be the same for all addresses''))
                      else go_bind (first_elem ais) (\<lambda>info. Inr
                        (if \<not> allowed (in_reg s) (ai_id info)
                         then Inl (new_error (Some (ErrMsg (''announce requests not allowed from peer '' @
                                lib_peer_string (en_lib E) (ai_id info)))) 403)
                         else
                           (case get_latest_sync (en_ds E) (en_lib E) (ai_id info) (in_ds s) of
                              Inr cur \<Rightarrow> if cur = am_cid an then Inr None else Inr (Some (am_cid an, info))
                            | Inl e \<Rightarrow> Inr (Some (am_cid an, info))))))))"

section \<open>HTTP\<close>

text \<open>\<open>body\<close> is what reading the body answers.\<close>

definition http_discover ::
    "('k, 'e, 'p) envelopes \<Rightarrow> gotime \<Rightarrow> gotime \<Rightarrow> string + bytes \<Rightarrow> response_writer \<Rightarrow>
       ('d, 'i) ingester \<Rightarrow> response_writer \<times> ('d, 'i) ingester" where
  "http_discover W now now' body w s =
     (case body of
        Inl e \<Rightarrow> (http_error '''' 500 w, s)
      | Inr data \<Rightarrow>
          (case handle_discover W now now' data s of
             (Some e, s') \<Rightarrow> (http_handle_error e w, s')
           | (None, s') \<Rightarrow> (write_header 202 w, s')))"

definition http_register ::
    "('d, 'i, 'n, 'h) env \<Rightarrow> ('k, 'e, 'p) envelopes \<Rightarrow> gotime \<Rightarrow> string + bytes \<Rightarrow> response_writer \<Rightarrow>
       ('d, 'i) ingester \<Rightarrow> response_writer \<times> ('d, 'i) ingester" where
  "http_register E W now body w s =
     (case body of
        Inl e \<Rightarrow> (http_error '''' 500 w, s)
      | Inr data \<Rightarrow>
          (case handle_register E W now data s of
             (Some e, s') \<Rightarrow> (http_handle_error e w, s')
           | (None, s') \<Rightarrow> (write_header 200 w, s')))"

definition http_remove_provider :: "response_writer \<Rightarrow> response_writer" where
  "http_remove_provider w = write_header 501 w"

text \<open>\<open>tell\<close> is the ingester's \<open>Announce\<close>.\<close>

definition http_announce ::
    "('d, 'i, 'n, 'h) env \<Rightarrow> announce_lib \<Rightarrow> (cid \<Rightarrow> addr_info \<Rightarrow> go_error option) \<Rightarrow> bytes \<Rightarrow>
       response_writer \<Rightarrow> ('d, 'i) ingester \<Rightarrow> response_writer go" where
  "http_announce E A tell body w s =
     (let w = set_header ''Content-Type'' ''application/json'' w
      in go_bind (handle_announce E A body s) (\<lambda>res. Inr
        (case (case res of Inl e \<Rightarrow> Some e | Inr None \<Rightarrow> None | Inr (Some (c, info)) \<Rightarrow> tell c info) of
           Some e \<Rightarrow> http_handle_error e w
         | None \<Rightarrow> write_header 204 w)))"

definition ingest_http ::
    "('d, 'i, 'n, 'h) env \<Rightarrow> ('k, 'e, 'p) envelopes \<Rightarrow> announce_lib \<Rightarrow> (cid \<Rightarrow> addr_info \<Rightarrow> go_error option) \<Rightarrow>
       gotime \<Rightarrow> gotime \<Rightarrow> http_request \<Rightarrow> ('d, 'i) ingester \<Rightarrow> (response_writer \<times> ('d, 'i) ingester) go" where
  "ingest_http E W A tell now now' rq s =
     (let w = new_response; not_allowed = Inr (write_header 405 w, s)
      in case hr_path rq of
           [''ingest'', ''announce''] \<Rightarrow>
             if hr_method rq = PUT
             then go_bind (http_announce E A tell (hr_body rq) w s) (\<lambda>w. Inr (w, s)) else not_allowed
         | [''discover''] \<Rightarrow>
             if hr_method rq = POST then Inr (http_discover W now now' (Inr (hr_body rq)) w s) else not_allowed
         | [''register''] \<Rightarrow>
             if hr_method rq = POST then Inr (http_register E W now (Inr (hr_body rq)) w s) else not_allowed
         | [''register'', p] \<Rightarrow>
             if hr_method rq = DELETE then Inr (http_remove_provider w, s) else not_allowed
         | _ \<Rightarrow> Inr (http_error ''404 page not found'' 404 w, s))"

section \<open>libp2p\<close>

datatype ingest_type =
  IgErrorResponse | IgDiscover | IgDiscoverResponse | IgRegister | IgRegisterResponse |
  IgRemove | IgRemoveResponse | IgIndexContent | IgIndexContentResponse | IgOther int

record ingest_message =
  ig_type :: ingest_type
  ig_data :: bytes

definition ingest_handle ::
    "('d, 'i, 'n, 'h) env \<Rightarrow> ('k, 'e, 'p) envelopes \<Rightarrow> gotime \<Rightarrow> gotime \<Rightarrow> ingest_message \<Rightarrow>
       ('d, 'i) ingester \<Rightarrow> (ingest_type \<times> go_error option \<times> ('d, 'i) ingester) option go" where
  "ingest_handle E W now now' msg s =
     (case ig_type msg of
        IgDiscover \<Rightarrow> Inr (Some (IgDiscoverResponse, handle_discover W now now' (ig_data msg) s))
      | IgRegister \<Rightarrow> Inr (Some (IgRegisterResponse, handle_register E W now (ig_data msg) s))
      | IgRemove \<Rightarrow> Inr (Some (IgRemoveResponse, Some (new_error None 501), s))
      | IgIndexContent \<Rightarrow>
          go_bind (handle_index_content E W now now' (ig_data msg) s) (\<lambda>res.
            Inr (Some (IgIndexContentResponse, res)))
      | _ \<Rightarrow> Inr None)"

fun ingest_type_number :: "ingest_type \<Rightarrow> int" where
  "ingest_type_number IgErrorResponse = 0"
| "ingest_type_number IgDiscover = 1"
| "ingest_type_number IgDiscoverResponse = 2"
| "ingest_type_number IgRegister = 3"
| "ingest_type_number IgRegisterResponse = 4"
| "ingest_type_number IgRemove = 5"
| "ingest_type_number IgRemoveResponse = 6"
| "ingest_type_number IgIndexContent = 7"
| "ingest_type_number IgIndexContentResponse = 8"
| "ingest_type_number (IgOther n) = n"

definition ingest_handle_message ::
    "('d, 'i, 'n, 'h) env \<Rightarrow> ('k, 'e, 'p) envelopes \<Rightarrow> (error_message \<Rightarrow> bytes option) \<Rightarrow> bytes \<Rightarrow>
       ingest_message codec \<Rightarrow> gotime \<Rightarrow> gotime \<Rightarrow> bytes \<Rightarrow> ('d, 'i) ingester \<Rightarrow>
       ((go_error + ingest_message) \<times> ('d, 'i) ingester) go" where
  "ingest_handle_message E W marshal server_error P now now' b s =
     (case cd_unmarshal P b of
        Inl e \<Rightarrow> Inr (Inl (ErrMsg e), s)
      | Inr req \<Rightarrow>
          go_bind (ingest_handle E W now now' req s) (\<lambda>res. Inr
            (case res of
               None \<Rightarrow> (Inl (ErrMsg (''ussupported message type '' @
                          show_int (ingest_type_number (ig_type req)))), s)
             | Some (t, Some e, s') \<Rightarrow>
                 (case p2p_handle_error e of (inner, status) \<Rightarrow>
                    (Inr \<lparr>ig_type = IgErrorResponse,
                       ig_data = encode_error marshal server_error (Some (ErrApi inner status))\<rparr>, s'))
             | Some (t, None, s') \<Rightarrow> (Inr \<lparr>ig_type = t, ig_data = []\<rparr>, s'))))"

section \<open>Clients\<close>

text \<open>A request to the HTTP server, and what the client makes of the response.\<close>

definition http_client_post ::
    "(http_request \<Rightarrow> 's \<Rightarrow> (response_writer \<times> 's) go) \<Rightarrow> string list \<Rightarrow> go_error + bytes \<Rightarrow> 's \<Rightarrow>
       (go_error option \<times> 's) go" where
  "http_client_post server path data s =
     (case data of
        Inl e \<Rightarrow> Inr (Some e, s)
      | Inr b \<Rightarrow>
          go_bind (server \<lparr>hr_method = POST, hr_path = path, hr_body = b\<rparr> s) (\<lambda>(w, s'). Inr
            (if client_status w \<noteq> 200 then (Some (read_error (client_status w) (rw_body w)), s')
             else (None, s'))))"

definition http_client_register ::
    "(http_request \<Rightarrow> 's \<Rightarrow> (response_writer \<times> 's) go) \<Rightarrow> ('k, 'e, 'p) envelopes \<Rightarrow> lib \<Rightarrow> 64 word \<Rightarrow>
       peer_id \<Rightarrow> 'k \<Rightarrow> string list \<Rightarrow> 's \<Rightarrow> (go_error option \<times> 's) go" where
  "http_client_register server W L seq provider key addrs s =
     http_client_post server [''register''] (make_register_request W L seq provider key addrs) s"

definition http_client_index_content ::
    "(http_request \<Rightarrow> 's \<Rightarrow> (response_writer \<times> 's) go) \<Rightarrow> ('k, 'e, 'p) envelopes \<Rightarrow> 64 word \<Rightarrow>
       peer_id \<Rightarrow> 'k \<Rightarrow> multihash \<Rightarrow> bytes \<Rightarrow> bytes \<Rightarrow> string list \<Rightarrow> 's \<Rightarrow> (go_error option \<times> 's) go" where
  "http_client_index_content server W seq provider key m context_id metadata addrs s =
     http_client_post server [''ingest'', ''content'']
       (make_ingest_request W seq provider key m context_id metadata addrs) s"

section \<open>Reading what was made\<close>

lemma make_request_envelopeD:
  assumes "envelope_laws W pub" and "make_request_envelope W rec key = Inr data"
  shows "en_consume W data (record_domain rec) = Inr (rec, pub key)"
  using assms by (auto simp: make_request_envelope_def envelope_laws_def split: sum.splits)

lemma parse_addrs_eq:
  "parse_addrs L ss = Inr as \<Longrightarrow> map (lib_new_multiaddr L) ss = map Inr as"
  by (induction ss arbitrary: as) (auto simp: map_sum_def split: sum.splits)

lemma read_made_requests:
  assumes "envelope_laws W pub"
  shows "make_ingest_request W seq p key m c md addrs = Inr data \<Longrightarrow>
      read_ingest_request W data = Inr \<lparr>ir_multihash = m, ir_provider = p, ir_context = c,
        ir_metadata = md, ir_addrs = addrs, ir_seq = seq\<rparr>"
    and "make_discover_request W seq p key addr = Inr data \<Longrightarrow>
      read_discover_request W data = Inr \<lparr>dr_provider = p, dr_discovery_addr = addr, dr_seq = seq\<rparr>"
    and "make_register_request W L seq p key addrs = Inr data \<Longrightarrow>
      \<exists>as. as \<noteq> [] \<and> map (lib_new_multiaddr L) addrs = map Inr as \<and>
        read_register_request W data = Inr \<lparr>pe_peer = p, pe_seq = seq, pe_addrs = as\<rparr>"
proof -
  show "make_ingest_request W seq p key m c md addrs = Inr data \<Longrightarrow>
      read_ingest_request W data = Inr \<lparr>ir_multihash = m, ir_provider = p, ir_context = c,
        ir_metadata = md, ir_addrs = addrs, ir_seq = seq\<rparr>"
    using make_request_envelopeD [OF assms]
    by (fastforce simp: make_ingest_request_def read_ingest_request_def record_domain_def)
  show "make_discover_request W seq p key addr = Inr data \<Longrightarrow>
      read_discover_request W data = Inr \<lparr>dr_provider = p, dr_discovery_addr = addr, dr_seq = seq\<rparr>"
    using make_request_envelopeD [OF assms]
    by (fastforce simp: make_discover_request_def read_discover_request_def record_domain_def)
  show "\<exists>as. as \<noteq> [] \<and> map (lib_new_multiaddr L) addrs = map Inr as \<and>
        read_register_request W data = Inr \<lparr>pe_peer = p, pe_seq = seq, pe_addrs = as\<rparr>"
    if made: "make_register_request W L seq p key addrs = Inr data"
  proof -
    obtain as where "addrs \<noteq> []" and as: "parse_addrs L addrs = Inr as"
      and env: "make_request_envelope W (PeerRecord \<lparr>pe_peer = p, pe_seq = seq, pe_addrs = as\<rparr>) key = Inr data"
      using made by (auto simp: make_register_request_def split: if_splits sum.splits)
    then have "as \<noteq> []" using parse_addrs_eq [OF as] by auto
    then show ?thesis
      using make_request_envelopeD [OF assms env] parse_addrs_eq [OF as]
      by (auto simp: read_register_request_def record_domain_def)
  qed
qed

section \<open>Sequence numbers of requests\<close>

lemma locked_out_run:
  assumes "sq_seqs s p = Some (- 1)" and "\<And>t. t \<in> fst ` set events \<Longrightarrow> oldest_allowed s t \<noteq> - 1"
  shows "p \<notin> fst ` set (sequences_run events s)"
  using assms
proof (induction events s rule: sequences_run.induct)
  case (1 s)
  show ?case by simp
next
  case (2 t es s)
  have "oldest_allowed s t < - 1" using 2(3) word_n1_ge [of "oldest_allowed s t"] by (simp add: le_less)
  then have "sq_seqs (sequences_retire t s) p = Some (- 1)"
    using 2(2) by (simp add: sequences_retire_def)
  moreover have "oldest_allowed (sequences_retire t s) = oldest_allowed s"
    by (simp add: oldest_allowed_def sequences_retire_def fun_eq_iff)
  ultimately show ?case using 2 by simp
next
  case (3 t i q es s)
  have stays: "sq_seqs (snd (sequences_check t s i q)) p = Some (- 1)"
    using 3(3) by (auto simp: sequences_check_def split: option.splits)
  have age: "oldest_allowed (snd (sequences_check t s i q)) = oldest_allowed s"
    by (auto simp: oldest_allowed_def sequences_check_def fun_eq_iff split: option.splits)
  have refused: "fst (sequences_check t s p q) \<noteq> None"
    using 3(3) word_n1_ge [of q] by (auto simp: sequences_check_def)
  show ?case
  proof (cases "sequences_check t s i q")
    case (Pair e s')
    then show ?thesis
      using 3 stays age refused by (cases e) auto
  qed
qed

section \<open>Concrete envelopes\<close>

text \<open>An envelope that holds the key in the clear, to instantiate the properties.\<close>

definition signed_record_coder :: "signed_record coder" where
  "signed_record_coder =
     via_coder
       (\<lambda>rec. case rec of
          IngestRecord r \<Rightarrow> (0 :: nat, [ir_multihash r, ir_provider r, ir_context r, ir_metadata r],
            ir_addrs r, unat (ir_seq r))
        | DiscoverRecord r \<Rightarrow> (1, [dr_provider r, dr_discovery_addr r], [], unat (dr_seq r))
        | PeerRecord r \<Rightarrow> (2, [pe_peer r], map (\<lambda>m. case m of Multiaddr s \<Rightarrow> s) (pe_addrs r), unat (pe_seq r))
        | OtherRecord b \<Rightarrow> (3, [b], [], 0))
       (\<lambda>(tag, ss, as, n).
          if tag = 0 then IngestRecord \<lparr>ir_multihash = ss ! 0, ir_provider = ss ! 1, ir_context = ss ! 2,
            ir_metadata = ss ! 3, ir_addrs = as, ir_seq = of_nat n\<rparr>
          else if tag = 1 then DiscoverRecord \<lparr>dr_provider = ss ! 0, dr_discovery_addr = ss ! 1, dr_seq = of_nat n\<rparr>
          else if tag = 2 then PeerRecord \<lparr>pe_peer = ss ! 0, pe_seq = of_nat n, pe_addrs = map Multiaddr as\<rparr>
          else OtherRecord (ss ! 0))
       (pair_coder nat_coder (pair_coder (list_coder string_coder) (pair_coder (list_coder string_coder) nat_coder)))"

lemma signed_record_coder_ok [simp]: "coder_ok signed_record_coder"
proof -
  have addrs: "map (Multiaddr \<circ> (\<lambda>m. case m of Multiaddr s \<Rightarrow> s)) as = as" for as
    by (induction as) (auto split: multiaddr.splits)
  show ?thesis
    unfolding signed_record_coder_def
    by (intro via_coder_ok pair_coder_ok list_coder_ok string_coder_ok nat_coder_ok)
      (auto simp: addrs split: signed_record.splits)
qed

definition envelope_coder :: "(string \<times> string \<times> signed_record) coder" where
  "envelope_coder = pair_coder string_coder (pair_coder string_coder signed_record_coder)"

definition clear_envelopes :: "(string, string \<times> string \<times> signed_record, string) envelopes" where
  "clear_envelopes =
     \<lparr>en_seal = (\<lambda>k dom rec. Inr (k, dom, rec)), en_marshal = (\<lambda>e. Inr (co_write envelope_coder e)),
      en_consume = (\<lambda>b dom. case fst (co_read envelope_coder b) of (k, d, rec) \<Rightarrow>
        if d = dom then Inr (rec, k) else Inl ''wrong domain'')\<rparr>"

lemma clear_envelopes_laws: "envelope_laws clear_envelopes id"
proof -
  have "coder_ok envelope_coder" by (simp add: envelope_coder_def)
  from coder_write_inverse [OF this] show ?thesis
    by (auto simp: envelope_laws_def clear_envelopes_def)
qed

lemma clear_makes:
  "make_ingest_request clear_envelopes seq p key m c md addrs =
     Inr (co_write envelope_coder (key, ingest_request_domain, IngestRecord \<lparr>ir_multihash = m, ir_provider = p,
       ir_context = c, ir_metadata = md, ir_addrs = addrs, ir_seq = seq\<rparr>))"
  "make_register_request clear_envelopes hex_lib seq p key [hex_string a] =
     Inr (co_write envelope_coder (key, peer_record_domain, PeerRecord \<lparr>pe_peer = p, pe_seq = seq,
       pe_addrs = [Multiaddr a]\<rparr>))"
  by (simp_all add: make_ingest_request_def make_register_request_def make_request_envelope_def
      clear_envelopes_def record_domain_def hex_lib_def)

section \<open>Properties\<close>

text \<open>C40: A signed request is read back as it was made, but not bound to its signer. Whatever key a
request for a provider is signed with, it reads as that provider's request: the handlers of two
requests that differ only in the key do exactly the same.\<close>

theorem request_signer_not_checked:
  assumes "envelope_laws W pub"
    and "make_ingest_request W seq p key m c md addrs = Inr data"
    and "make_ingest_request W seq p key' m c md addrs = Inr data'"
    and "make_register_request W (en_lib E) seq p key addrs' = Inr reg"
    and "make_register_request W (en_lib E) seq p key' addrs' = Inr reg'"
  shows "read_ingest_request W data = Inr \<lparr>ir_multihash = m, ir_provider = p, ir_context = c,
      ir_metadata = md, ir_addrs = addrs, ir_seq = seq\<rparr> \<and>
    handle_index_content E W now now' data s = handle_index_content E W now now' data' s \<and>
    (\<exists>as. map (lib_new_multiaddr (en_lib E)) addrs' = map Inr as \<and>
       read_register_request W reg = Inr \<lparr>pe_peer = p, pe_seq = seq, pe_addrs = as\<rparr>) \<and>
    handle_register E W now reg s = handle_register E W now reg' s"
proof -
  obtain as as' where as: "map (lib_new_multiaddr (en_lib E)) addrs' = map Inr as"
      "read_register_request W reg = Inr \<lparr>pe_peer = p, pe_seq = seq, pe_addrs = as\<rparr>"
    and as': "map (lib_new_multiaddr (en_lib E)) addrs' = map Inr as'"
      "read_register_request W reg' = Inr \<lparr>pe_peer = p, pe_seq = seq, pe_addrs = as'\<rparr>"
    using read_made_requests(3) [OF assms(1) assms(4)] read_made_requests(3) [OF assms(1) assms(5)] by blast
  have "map Inr as = (map Inr as' :: (string + multiaddr) list)" using as(1) as'(1) by simp
  then have "as = as'" by (simp add: inj_map_eq_map)
  then show ?thesis
    using read_made_requests(1) [OF assms(1,2)] read_made_requests(1) [OF assms(1,3)] as as'
    by (auto simp: handle_index_content_def handle_register_def)
qed

theorem request_signer_not_checked_witness:
  "handle_index_content (table_env plain_indexer chain_table) clear_envelopes 5 5
     (projr (make_ingest_request clear_envelopes 5 ''p'' ''owner'' ''m'' ''c'' ''md'' [hex_string ''a'']))
     (fresh_ingester open_policy) =
   handle_index_content (table_env plain_indexer chain_table) clear_envelopes 5 5
     (projr (make_ingest_request clear_envelopes 5 ''p'' ''thief'' ''m'' ''c'' ''md'' [hex_string ''a'']))
     (fresh_ingester open_policy)"
proof -
  have lib: "en_lib (table_env plain_indexer chain_table) = hex_lib" by (simp add: table_env_def)
  show ?thesis
    using request_signer_not_checked [where E = "table_env plain_indexer chain_table", unfolded lib,
        OF clear_envelopes_laws clear_makes(1) clear_makes(1) clear_makes(2) clear_makes(2)]
    by (simp add: clear_makes)
qed

text \<open>One forged request can lock a provider out. When a request of a peer with the largest sequence
number has been accepted, no later request of that peer is, in any interleaving of requests and
clean-ups: the number is never retired, because no clock reading is beyond it.\<close>

theorem largest_sequence_locks_out:
  assumes "fst (sequences_check t s p (- 1)) = None"
    and "\<And>t. t \<in> fst ` set events \<Longrightarrow> oldest_allowed s t \<noteq> - 1"
  shows "p \<notin> fst ` set (sequences_run events (snd (sequences_check t s p (- 1))))"
proof (rule locked_out_run)
  show "sq_seqs (snd (sequences_check t s p (- 1))) p = Some (- 1)"
    using assms(1) by (auto simp: sequences_check_def split: if_splits option.splits)
  show "oldest_allowed (snd (sequences_check t s p (- 1))) t' \<noteq> - 1" if "t' \<in> fst ` set events" for t'
    using assms(2) [OF that] by (auto simp: oldest_allowed_def sequences_check_def split: option.splits)
qed

theorem largest_sequence_locks_out_witness:
  "''p'' \<notin> fst ` set (sequences_run [(12, CheckSeq ''p'' 12), (30, RetireSeqs), (31, CheckSeq ''p'' 31)]
     (snd (sequences_check 11 \<lparr>sq_max_age = 10, sq_seqs = Map.empty\<rparr> ''p'' (- 1))))"
  by (rule largest_sequence_locks_out) (auto simp: sequences_check_def oldest_allowed_def)

text \<open>What indexing content by request does. On success the request was within the size limits and
its sequence number new, and the index has gained exactly the multihash under the provider's
context with the metadata; on an error that is not the indexer's own nothing is indexed; the
ingester's own records never change.\<close>

theorem index_content_effect:
  assumes "indexer_laws (en_indexer E) absv"
    and "handle_index_content E W now now' data s = Inr (err, s')"
  shows "(err = None \<longrightarrow>
      (\<exists>req. read_ingest_request W data = Inr req \<and>
         length (ir_context req) \<le> 64 \<and> length (ir_metadata req) \<le> 1024 \<and>
         fst (check_sequence now (ir_provider req) (ir_seq req) (in_reg s)) = None \<and>
         absv (in_indexer s') = contents_put (request_value req) [ir_multihash req] (absv (in_indexer s)))) \<and>
    (in_indexer s' = in_indexer s \<or> err = None \<or> (\<exists>e. err = Some (ErrApi (Some e) 500))) \<and>
    in_ds s' = in_ds s \<and> in_batch_size s' = in_batch_size s"
proof (cases "read_ingest_request W data")
  case (Inl e)
  then show ?thesis using assms(2) by (auto simp: handle_index_content_def)
next
  case (Inr req)
  show ?thesis
  proof (cases "length (ir_context req) > max_context_id_len \<or> length (ir_metadata req) > max_metadata_len")
    case True
    then show ?thesis using assms(2) Inr by (auto simp: handle_index_content_def split: if_splits)
  next
    case False
    then have small: "length (ir_context req) \<le> 64" "length (ir_metadata req) \<le> 1024"
      by (simp_all add: max_context_id_len_def max_metadata_len_def)
    obtain e r where seq: "check_sequence now (ir_provider req) (ir_seq req) (in_reg s) = (e, r)"
      by (cases "check_sequence now (ir_provider req) (ir_seq req) (in_reg s)")
    show ?thesis
    proof (cases e)
      case (Some x)
      then show ?thesis using assms(2) Inr False seq by (auto simp: handle_index_content_def)
    next
      case None
      then obtain e2 r2 where upd: "register_or_update (en_ds E) (en_lib E) (en_json E) now'
          (ir_provider req) (ir_addrs req) cid_undef \<lparr>ai_id = [], ai_addrs = []\<rparr> r = Inr (e2, r2)"
        using assms(2) Inr False seq by (auto simp: handle_index_content_def go_bind_eq_Inr)
      obtain pe i where put: "ix_put (en_indexer E) (in_indexer s) (request_value req) [ir_multihash req] = (pe, i)"
        by (cases "ix_put (en_indexer E) (in_indexer s) (request_value req) [ir_multihash req]")
      have law: "pe = None \<Longrightarrow> absv i = contents_put (request_value req) [ir_multihash req] (absv (in_indexer s))"
        using assms(1) put unfolding indexer_laws_def by (metis fst_conv snd_conv)
      show ?thesis
        using assms(2) Inr False seq None upd put law small
        by (cases e2; cases pe) (auto simp: handle_index_content_def new_error_def)
    qed
  qed
qed

definition index_example :: "(go_error option \<times> ((string \<times> bytes) list, contents) ingester) go" where
  "index_example =
     handle_index_content (table_env plain_indexer chain_table) clear_envelopes 5 5
       (projr (make_ingest_request clear_envelopes 5 ''p'' ''owner'' ''m'' ''c'' ''md'' [hex_string ''a'']))
       ((fresh_ingester open_policy)\<lparr>in_reg := (start_registry (Some []) open_policy)
          \<lparr>rg_sequences := \<lparr>sq_max_age = 1, sq_seqs = Map.empty\<rparr>\<rparr>\<rparr>)"

theorem index_content_effect_witness:
  "(''m'', ''p'', ''c'') \<in> ct_entries (in_indexer (snd (projr index_example)))"
proof -
  have ok: "\<not> isl index_example \<and> fst (projr index_example) = None" by code_simp
  have req: "read_ingest_request clear_envelopes (projr (make_ingest_request clear_envelopes 5 ''p'' ''owner''
      ''m'' ''c'' ''md'' [hex_string ''a''])) = Inr \<lparr>ir_multihash = ''m'', ir_provider = ''p'',
        ir_context = ''c'', ir_metadata = ''md'', ir_addrs = [hex_string ''a''], ir_seq = 5\<rparr>"
    using read_made_requests(1) [OF clear_envelopes_laws clear_makes(1)] by (simp add: clear_makes)
  have run: "index_example = Inr (None, snd (projr index_example))"
    using ok by (metis prod.collapse sum.collapse(2))
  have laws: "indexer_laws (en_indexer (table_env plain_indexer chain_table)) id"
    using plain_indexer_laws by (simp add: table_env_def)
  show ?thesis
    using index_content_effect [OF laws run [unfolded index_example_def]] req
    by (auto simp: index_example_def contents_put_def request_value_def value_key_def)
qed

text \<open>The HTTP client's way of indexing content leads nowhere: the server has no route for it, so
whatever the server's state, the client gets a 404 and nothing changes. (Over libp2p the same
request is handled.)\<close>

theorem http_index_content_not_routed:
  assumes "make_ingest_request W seq p key m c md addrs = Inr data"
  shows "http_client_index_content (ingest_http E W A tell now now') W seq p key m c md addrs s =
      Inr (Some (ErrMsg ''404 Not Found: 404 page not found''), s) \<and>
    ingest_handle E W now now' \<lparr>ig_type = IgIndexContent, ig_data = data\<rparr> s =
      go_bind (handle_index_content E W now now' data s) (\<lambda>res. Inr (Some (IgIndexContentResponse, res)))"
proof -
  have "error_text (Some (ErrMsg (trim_space (''404 page not found'' @ [CHR 0x0A]))), 404) =
      ''404 Not Found: 404 page not found''" by code_simp
  then show ?thesis
    using assms
    by (simp add: http_client_index_content_def http_client_post_def ingest_http_def Let_def
        read_error_def ingest_handle_def del: append_Cons append_Nil)
qed

theorem http_index_content_not_routed_witness:
  "http_client_index_content (ingest_http (table_env plain_indexer chain_table) clear_envelopes
       \<lparr>al_decode = (\<lambda>b. Inl []), al_get_addrs = (\<lambda>b. Inl []), al_infos = (\<lambda>b. Inl [])\<rparr> (\<lambda>c i. None) 5 5)
     clear_envelopes 5 ''p'' ''key'' ''m'' ''c'' ''md'' [] (fresh_ingester open_policy) =
   Inr (Some (ErrMsg ''404 Not Found: 404 page not found''), fresh_ingester open_policy)"
  using http_index_content_not_routed [OF clear_makes(1),
      where E = "table_env plain_indexer chain_table"] by simp

end
