(* ===== verification/Config_Properties.thy ===== *)
theory Config_Properties
  imports Config
begin

text \<open>
  Loading, saving and upgrading the configuration: what was saved is read back, what is loaded is
  well-typed and complete, an upgrade keeps the old file, and a created identity decodes.
\<close>

section \<open>Reading back a configuration\<close>

lemma json_duration_overwrites [codec_laws]: "config_env_laws E \<Longrightarrow> jc_overwrites (json_duration E)"
  by (simp add: jc_overwrites_def json_duration_def config_env_laws_def)

lemma struct_overwrites:
  assumes "distinct (map jf_name fs)"
    and "\<And>x s. list_all (\<lambda>f. jf_valid f x) fs \<Longrightarrow> write_fields fs x s = Inr x"
  shows "jc_overwrites (json_struct fs)"
  unfolding jc_overwrites_def using assms by (simp add: json_struct_encoded json_struct_valid)

lemmas written = json_field_written json_omitempty_written

lemma addresses_overwrites [codec_laws]: "jc_overwrites (json_struct addresses_fields)"
  by (rule struct_overwrites) (simp_all add: addresses_fields_def written codec_laws)

lemma bootstrap_overwrites [codec_laws]: "jc_overwrites (json_struct bootstrap_fields)"
  by (rule struct_overwrites) (simp_all add: bootstrap_fields_def written codec_laws)

lemma datastore_overwrites [codec_laws]: "jc_overwrites (json_struct datastore_fields)"
  by (rule struct_overwrites) (simp_all add: datastore_fields_def written codec_laws)

lemma policy_overwrites [codec_laws]: "jc_overwrites (json_struct policy_fields)"
  by (rule struct_overwrites) (simp_all add: policy_fields_def written codec_laws)

lemma polling_overwrites [codec_laws]: "config_env_laws E \<Longrightarrow> jc_overwrites (json_struct (polling_fields E))"
  by (rule struct_overwrites) (simp_all add: polling_fields_def written codec_laws)

lemma discovery_overwrites [codec_laws]: "config_env_laws E \<Longrightarrow> jc_overwrites (json_struct (discovery_fields E))"
  by (rule struct_overwrites) (simp_all add: discovery_fields_def written codec_laws)

lemma indexer_overwrites [codec_laws]: "config_env_laws E \<Longrightarrow> jc_overwrites (json_struct (indexer_fields E))"
  by (rule struct_overwrites) (simp_all add: indexer_fields_def written codec_laws)

lemma rate_limit_overwrites [codec_laws]: "jc_overwrites (json_struct rate_limit_fields)"
  by (rule struct_overwrites) (simp_all add: rate_limit_fields_def written codec_laws)

lemma ingest_overwrites [codec_laws]: "config_env_laws E \<Longrightarrow> jc_overwrites (json_struct (ingest_fields E))"
  by (rule struct_overwrites) (simp_all add: ingest_fields_def written codec_laws)

lemma peering_overwrites [codec_laws]: "jc_overwrites (json_struct peering_fields)"
  by (rule struct_overwrites) (simp_all add: peering_fields_def written codec_laws)

text \<open>
  The identity and the loggers are not overwritten: a private key that is left out keeps the one
  that is there, and loggers are added to those that are there.
\<close>

definition merge_loggers :: "(string \<times> string) list option \<Rightarrow> (string \<times> string) list option \<Rightarrow> (string \<times> string) list option" where
  "merge_loggers old new =
     (case new of
        None \<Rightarrow> None
      | Some al \<Rightarrow> Some (AList.updates (map fst (sort_key fst al)) (map snd (sort_key fst al))
          (case old of None \<Rightarrow> [] | Some m \<Rightarrow> m)))"

lemma write_field_any:
  "write_fields (json_field n C get put # fs) x s =
     (case jc_dec C (jc_enc C (get x)) (get s) of Inl e \<Rightarrow> Inl e | Inr v \<Rightarrow> write_fields fs x (put v s))"
  by (simp add: write_fields.simps(2) json_field_def split: sum.splits)

lemma identity_read_back:
  "id_priv_key s = [] \<Longrightarrow> jc_dec (json_struct identity_fields) (jc_enc (json_struct identity_fields) x) s = Inr x"
  by (simp add: json_struct_encoded identity_fields_def written codec_laws)

lemma string_map_read_back:
  "jc_dec json_string_map (jc_enc json_string_map m) old = Inr (merge_loggers old m)"
  by (simp add: json_string_map_def merge_loggers_def json_entries_encoded split: option.splits)

lemma logging_read_back:
  "jc_dec (json_struct logging_fields) (jc_enc (json_struct logging_fields) x) s =
     Inr \<lparr>lg_level = lg_level x, lg_loggers = merge_loggers (lg_loggers s) (lg_loggers x)\<rparr>"
  by (simp add: json_struct_encoded logging_fields_def write_field_any string_map_read_back
      jc_overwritesD [OF json_string_overwrites])

lemma config_read_back:
  assumes "config_env_laws E" and "jc_valid (config_json E) x" and "cf_identity s = no_identity"
  shows "jc_dec (config_json E) (jc_enc (config_json E) x) s =
    Inr (x\<lparr>cf_logging := (cf_logging x)\<lparr>lg_loggers :=
             merge_loggers (lg_loggers (cf_logging s)) (lg_loggers (cf_logging x))\<rparr>\<rparr>)"
proof -
  have names: "distinct (map jf_name (config_fields E))" by (simp add: config_fields_def)
  have valid: "list_all (\<lambda>f. jf_valid f x) (config_fields E)"
    using assms(2) by (simp add: config_json_def json_struct_valid)
  have "id_priv_key (cf_identity s) = []" by (simp add: assms(3) no_identity_def)
  then have "write_fields (config_fields E) x s =
    Inr (x\<lparr>cf_logging := (cf_logging x)\<lparr>lg_loggers :=
             merge_loggers (lg_loggers (cf_logging s)) (lg_loggers (cf_logging x))\<rparr>\<rparr>)"
    using valid unfolding config_fields_def
    by (simp add: write_field_any jc_overwritesD assms(1) codec_laws identity_read_back logging_read_back)
  then show ?thesis by (simp add: config_json_def json_struct_encoded [OF names])
qed

section \<open>Files that were saved\<close>

lemma files_lawsD:
  assumes "files_laws F"
  shows "fl_read F (snd (fl_mkdir_all F f p)) q = fl_read F f q"
    and "fl_key F q \<noteq> fl_key F p \<Longrightarrow> fl_read F (snd (fl_create F f p)) q = fl_read F f q"
    and "fst (fl_create F f p) = None \<Longrightarrow> fl_read F (snd (fl_create F f p)) p = Opened []"
    and "fl_key F q \<noteq> fl_key F p \<Longrightarrow> fl_read F (snd (fl_write F f p b)) q = fl_read F f q"
    and "fl_read F f p = Opened [] \<Longrightarrow> fst (fl_write F f p b) = None \<Longrightarrow>
      fl_read F (snd (fl_write F f p b)) p = Opened b"
    and "fst (fl_rename F f p q) = None \<Longrightarrow> fl_read F (snd (fl_rename F f p q)) q = fl_read F f p"
  using assms unfolding files_laws_def by blast+

lemma save_config_file:
  assumes "files_laws (ce_files E)" and "path \<noteq> []" and "save_config E cfg path f = (None, f')"
  shows "fl_read (ce_files E) f' path = Opened (ce_print E (jc_enc (config_json E) cfg))"
    and "fl_key (ce_files E) q \<noteq> fl_key (ce_files E) path \<Longrightarrow>
      fl_read (ce_files E) f' q = fl_read (ce_files E) f q"
proof -
  let ?F = "ce_files E"
  obtain g where g: "fl_mkdir_all ?F f (path_dir path) = (None, g)"
    using assms(2,3) by (cases "fl_mkdir_all ?F f (path_dir path)") (auto simp: save_config_def split: option.splits)
  obtain h where h: "fl_create ?F g path = (None, h)"
    using assms(2,3) g by (cases "fl_create ?F g path") (auto simp: save_config_def split: option.splits)
  have w: "fl_write ?F h path (ce_print E (jc_enc (config_json E) cfg)) = (None, f')"
    using assms(2,3) g h by (auto simp: save_config_def split: option.splits prod.splits)
  note L = files_lawsD [OF assms(1)]
  show "fl_read ?F f' path = Opened (ce_print E (jc_enc (config_json E) cfg))"
    using L(3) [of g path] L(5) [of h path] h w by (metis fst_conv snd_conv)
  show "fl_key ?F q \<noteq> fl_key ?F path \<Longrightarrow> fl_read ?F f' q = fl_read ?F f q"
    using L(1) [of f "path_dir path" q] L(2) [of q path g] L(4) [of q path h] g h w by (metis snd_conv)
qed

lemma load_config_file:
  assumes "config_env_laws E" and "path \<noteq> []"
    and "fl_read (ce_files E) f path = Opened (ce_print E (jc_enc (config_json E) cfg))"
    and "jc_valid (config_json E) cfg" and "json_utf8 (jc_enc (config_json E) cfg)"
    and "default_bootstrap_peers E = Inr peers"
  shows "load_config E path f = Inr (Inr (populate_unset (cfg\<lparr>cf_logging := (cf_logging cfg)\<lparr>lg_loggers :=
           merge_loggers (lg_loggers new_logging) (lg_loggers (cf_logging cfg))\<rparr>\<rparr>)))"
proof -
  have "ce_parse E (ce_print E (jc_enc (config_json E) cfg)) = Inr (jc_enc (config_json E) cfg)"
    using assms(1,5) by (simp add: config_env_laws_def)
  then show ?thesis
    using assms(2,3,6)
    by (simp add: load_config_def initial_config_def new_bootstrap_def config_read_back [OF assms(1,4)])
qed

text \<open>The levels of the loggers after a configuration was saved and loaded.\<close>

definition logger_levels :: "(string \<times> string) list option \<Rightarrow> string \<rightharpoonup> string" where
  "logger_levels m = (case m of None \<Rightarrow> Map.empty | Some al \<Rightarrow> map_of al)"

lemma map_of_sorted_updates:
  assumes "distinct (map fst al)"
  shows "map_of (AList.updates (map fst (sort_key fst al)) (map snd (sort_key fst al)) m) = map_of m ++ map_of al"
proof -
  have "distinct (map fst (sort_key fst al))" using assms by (simp add: distinct_map)
  then have "map_of (rev (sort_key fst al)) = map_of al"
    using assms by (intro map_of_inject_set [THEN iffD2]) (simp_all flip: rev_map)
  then show ?thesis by (simp add: updates_conv' map_upds_def zip_map_fst_snd)
qed

section \<open>What is loaded is well-typed\<close>

lemma json_duration_typed [codec_types]:
  "config_env_laws E \<Longrightarrow> jc_typed (json_duration E)"
  by (auto simp: jc_typed_def json_duration_def config_env_laws_def split: json.splits)

lemma addresses_typed [codec_types]: "jc_typed (json_struct addresses_fields)"
  by (rule struct_typed) (auto simp: addresses_fields_def codec_types dest!: json_field_dec [rotated 2])

lemma identity_typed [codec_types]: "jc_typed (json_struct identity_fields)"
  by (rule struct_typed) (auto simp: identity_fields_def codec_types dest!: json_field_dec [rotated 2] json_omitempty_dec)

lemma bootstrap_typed [codec_types]: "jc_typed (json_struct bootstrap_fields)"
  by (rule struct_typed) (auto simp: bootstrap_fields_def codec_types dest!: json_field_dec [rotated 2])

lemma datastore_typed [codec_types]: "jc_typed (json_struct datastore_fields)"
  by (rule struct_typed) (auto simp: datastore_fields_def codec_types dest!: json_field_dec [rotated 2])

lemma policy_typed [codec_types]: "jc_typed (json_struct policy_fields)"
  by (rule struct_typed) (auto simp: policy_fields_def codec_types dest!: json_field_dec [rotated 2])

lemma polling_typed [codec_types]: "config_env_laws E \<Longrightarrow> jc_typed (json_struct (polling_fields E))"
  by (rule struct_typed) (auto simp: polling_fields_def codec_types dest!: json_field_dec [rotated 2])

lemma no_polling_config_valid [simp]: "jc_valid (json_struct (polling_fields E)) no_polling_config"
  by (simp add: json_struct_valid polling_fields_def no_polling_config_def json_duration_def in_int64_def)

lemma rate_limit_typed [codec_types]: "jc_typed (json_struct rate_limit_fields)"
  by (rule struct_typed) (auto simp: rate_limit_fields_def codec_types dest!: json_field_dec [rotated 2])

lemma logging_typed [codec_types]: "jc_typed (json_struct logging_fields)"
  by (rule struct_typed) (auto simp: logging_fields_def codec_types dest!: json_field_dec [rotated 2])

lemma peering_typed [codec_types]: "jc_typed (json_struct peering_fields)"
  by (rule struct_typed) (auto simp: peering_fields_def codec_types dest!: json_field_dec [rotated 2])

lemma indexer_typed [codec_types]: "config_env_laws E \<Longrightarrow> jc_typed (json_struct (indexer_fields E))"
  by (rule struct_typed) (auto simp: indexer_fields_def codec_types dest!: json_field_dec [rotated 2])

lemma discovery_typed [codec_types]: "config_env_laws E \<Longrightarrow> jc_typed (json_struct (discovery_fields E))"
  by (rule struct_typed) (auto simp: discovery_fields_def codec_types dest!: json_field_dec [rotated 2])

lemma ingest_typed [codec_types]: "config_env_laws E \<Longrightarrow> jc_typed (json_struct (ingest_fields E))"
  by (rule struct_typed) (auto simp: ingest_fields_def codec_types dest!: json_field_dec [rotated 2])

lemma config_typed [codec_types]: "config_env_laws E \<Longrightarrow> jc_typed (json_struct (config_fields E))"
  by (rule struct_typed) (auto simp: config_fields_def codec_types dest!: json_field_dec [rotated 2])

section \<open>Properties\<close>

lemma or_simps [simp]:
  "d \<noteq> 0 \<Longrightarrow> or_int n d \<noteq> 0" "d' \<noteq> [] \<Longrightarrow> or_text s d' \<noteq> []"
  "or_int (or_int n d) d = or_int n d" "or_text (or_text s d') d' = or_text s d'"
  by (simp_all add: or_int_def or_text_def)

lemma or_int_in: "in_int64 n \<Longrightarrow> in_int64 d \<Longrightarrow> in_int64 (or_int n d)"
  by (simp add: or_int_def)

lemma populate_unset_idem: "populate_unset (populate_unset c) = populate_unset c"
  by (simp add: populate_unset_def populate_addresses_def populate_datastore_def populate_discovery_def
      populate_indexer_def populate_ingest_def populate_rate_limit_def populate_logging_def new_logging_def
      split: option.splits)

lemmas defaults =
  new_addresses_def new_datastore_def new_discovery_def new_indexer_def new_ingest_def new_rate_limit_def
  new_logging_def new_peering_def new_policy_config_def no_identity_def second_def minute_def hour_def

lemmas populates =
  populate_addresses_def populate_datastore_def populate_discovery_def populate_indexer_def
  populate_ingest_def populate_rate_limit_def populate_logging_def

lemmas setting_fields =
  identity_fields_def addresses_fields_def bootstrap_fields_def datastore_fields_def policy_fields_def
  polling_fields_def discovery_fields_def indexer_fields_def rate_limit_fields_def ingest_fields_def
  logging_fields_def peering_fields_def

lemma json_valids [simp]:
  "jc_valid json_int n = in_int64 n" "jc_valid json_bool b" "jc_valid (json_duration E) d = in_int64 d"
  "jc_valid (json_slice zero C) xs = list_all (jc_valid C) xs"
  "jc_valid json_string_map m = (case m of None \<Rightarrow> True | Some al \<Rightarrow> distinct (map fst al))"
  by (simp_all add: json_int_def json_bool_def json_duration_def json_slice_def json_string_map_def)

lemma strings_valid [simp]: "list_all (jc_valid json_string) xs"
  by (simp add: list_all_iff)

lemma config_valid_iff:
  "jc_valid (config_json E) c \<longleftrightarrow> in_int64 (cf_version c) \<and> in_int64 (bs_minimum_peers (cf_bootstrap c)) \<and>
     jc_valid (json_struct (discovery_fields E)) (cf_discovery c) \<and>
     jc_valid (json_struct (indexer_fields E)) (cf_indexer c) \<and>
     jc_valid (json_struct (ingest_fields E)) (cf_ingest c) \<and>
     jc_valid (json_struct logging_fields) (cf_logging c)"
  by (simp add: config_json_def config_fields_def json_struct_valid identity_fields_def addresses_fields_def
      bootstrap_fields_def datastore_fields_def peering_fields_def)

lemma discovery_valid_iff:
  "jc_valid (json_struct (discovery_fields E)) c \<longleftrightarrow> in_int64 (dv_poll_interval c) \<and>
     in_int64 (dv_poll_retry_after c) \<and> in_int64 (dv_poll_stop_after c) \<and> in_int64 (dv_rediscover_wait c) \<and>
     in_int64 (dv_timeout c) \<and> list_all (jc_valid (json_struct (polling_fields E))) (dv_poll_overrides c)"
  by (auto simp: json_struct_valid discovery_fields_def policy_fields_def)

lemma indexer_valid_iff:
  "jc_valid (json_struct (indexer_fields E)) c \<longleftrightarrow> in_int64 (xc_cache_size c) \<and>
     in_int64 (xc_config_check_interval c) \<and> in_int64 (xc_gc_interval c) \<and> in_int64 (xc_shutdown_timeout c)"
  by (simp add: json_struct_valid indexer_fields_def)

lemma ingest_valid_iff:
  "jc_valid (json_struct (ingest_fields E)) c \<longleftrightarrow> in_int64 (ic_advertisement_depth_limit c) \<and>
     in_int64 (ic_entries_depth_limit c) \<and> in_int64 (ic_http_sync_retry_max c) \<and>
     in_int64 (ic_http_sync_retry_wait_max c) \<and> in_int64 (ic_http_sync_retry_wait_min c) \<and>
     in_int64 (ic_http_sync_timeout c) \<and> in_int64 (ic_ingest_worker_count c) \<and>
     in_int64 (rl_blocks_per_second (ic_rate_limit c)) \<and> in_int64 (rl_burst_size (ic_rate_limit c)) \<and>
     in_int64 (ic_store_batch_size c) \<and> in_int64 (ic_sync_segment_depth_limit c) \<and> in_int64 (ic_sync_timeout c)"
  by (simp add: json_struct_valid ingest_fields_def rate_limit_fields_def)

lemma logging_valid_iff:
  "jc_valid (json_struct logging_fields) c \<longleftrightarrow> (\<forall>al. lg_loggers c = Some al \<longrightarrow> distinct (map fst al))"
  by (auto simp: json_struct_valid logging_fields_def split: option.splits)

lemma default_settings_valid:
  "jc_valid (json_struct (discovery_fields E)) new_discovery"
  "jc_valid (json_struct (indexer_fields E)) new_indexer"
  "jc_valid (json_struct (ingest_fields E)) new_ingest"
  "jc_valid (json_struct logging_fields) new_logging"
  unfolding discovery_valid_iff indexer_valid_iff ingest_valid_iff logging_valid_iff
  by (simp_all add: defaults in_int64_def json_struct_valid logging_fields_def)

lemma initial_config_valid: "initial_config E = Inr c \<Longrightarrow> jc_valid (config_json E) c"
  by (auto simp: initial_config_def new_bootstrap_def go_bind_eq_Inr config_valid_iff default_settings_valid
      in_int64_def)

lemma populate_discovery_valid:
  "jc_valid (json_struct (discovery_fields E)) c \<Longrightarrow> jc_valid (json_struct (discovery_fields E)) (populate_discovery c)"
  using default_settings_valid(1) [of E] by (simp add: discovery_valid_iff populate_discovery_def or_int_in)

lemma populate_indexer_valid:
  "jc_valid (json_struct (indexer_fields E)) c \<Longrightarrow> jc_valid (json_struct (indexer_fields E)) (populate_indexer c)"
  using default_settings_valid(2) [of E] by (simp add: indexer_valid_iff populate_indexer_def or_int_in)

lemma populate_ingest_valid:
  "jc_valid (json_struct (ingest_fields E)) c \<Longrightarrow> jc_valid (json_struct (ingest_fields E)) (populate_ingest c)"
  using default_settings_valid(3) [of E]
  by (simp add: ingest_valid_iff populate_ingest_def populate_rate_limit_def or_int_in wrap_int64_in)

lemma populate_logging_valid:
  "jc_valid (json_struct logging_fields) c \<Longrightarrow> jc_valid (json_struct logging_fields) (populate_logging c)"
  using default_settings_valid(4)
  by (simp add: json_struct_valid logging_fields_def populate_logging_def split: option.splits)

lemma populate_unset_valid: "jc_valid (config_json E) c \<Longrightarrow> jc_valid (config_json E) (populate_unset c)"
  by (simp add: config_valid_iff populate_unset_def populate_discovery_valid populate_indexer_valid
      populate_ingest_valid populate_logging_valid)


text \<open>C21: A configuration that was saved is loaded again as it was, with unset values at their
defaults, except for the loggers: those of the file are added to the default ones, so that a
logger that was taken out of the configuration has its default level again.\<close>

theorem save_then_load:
  assumes "config_env_laws E" and "default_bootstrap_peers E = Inr peers" and "path \<noteq> []"
    and "jc_valid (config_json E) cfg" and "json_utf8 (jc_enc (config_json E) cfg)"
    and "save_config E cfg path f = (None, f')"
  shows "\<exists>m. load_config E path f' =
      Inr (Inr (populate_unset (cfg\<lparr>cf_logging := (cf_logging cfg)\<lparr>lg_loggers := m\<rparr>\<rparr>))) \<and>
    (m = None \<longleftrightarrow> lg_loggers (cf_logging cfg) = None) \<and>
    (m \<noteq> None \<longrightarrow> logger_levels m =
       logger_levels (lg_loggers new_logging) ++ logger_levels (lg_loggers (cf_logging cfg)))"
proof -
  let ?m = "merge_loggers (lg_loggers new_logging) (lg_loggers (cf_logging cfg))"
  have "files_laws (ce_files E)" using assms(1) by (simp add: config_env_laws_def)
  from load_config_file [OF assms(1,3) save_config_file(1) [OF this assms(3,6)] assms(4,5,2)]
  have loaded: "load_config E path f' = Inr (Inr (populate_unset (cfg\<lparr>cf_logging := (cf_logging cfg)\<lparr>lg_loggers := ?m\<rparr>\<rparr>)))" .
  have none: "?m = None \<longleftrightarrow> lg_loggers (cf_logging cfg) = None"
    by (simp add: merge_loggers_def split: option.splits)
  have levels: "logger_levels ?m = logger_levels (lg_loggers new_logging) ++ logger_levels (lg_loggers (cf_logging cfg))"
    if some: "?m \<noteq> None"
  proof -
    obtain al where al: "lg_loggers (cf_logging cfg) = Some al"
      using some by (cases "lg_loggers (cf_logging cfg)") (auto simp: merge_loggers_def)
    have "distinct (map fst al)" using al assms(4) by (simp add: config_valid_iff logging_valid_iff)
    moreover obtain d where "lg_loggers new_logging = Some d" by (auto simp: new_logging_def)
    ultimately show ?thesis by (simp add: al merge_loggers_def logger_levels_def map_of_sorted_updates)
  qed
  show ?thesis using loaded none levels by (intro exI [of _ ?m] conjI impI)
qed

text \<open>Upgrading keeps the old file. When an upgrade succeeds, the file as it was is found under
the name of its version, and the path holds the configuration with the current version.\<close>

theorem upgrade_keeps_backup:
  assumes "config_env_laws E" and "default_bootstrap_peers E = Inr peers" and "path \<noteq> []"
    and "jc_valid (config_json E) (cfg\<lparr>cf_version := config_version\<rparr>)"
    and "json_utf8 (jc_enc (config_json E) (cfg\<lparr>cf_version := config_version\<rparr>))"
    and "fl_key (ce_files E) (backup_name path (cf_version cfg)) \<noteq> fl_key (ce_files E) path"
    and "upgrade_config E cfg path f = (None, cfg', f')"
  shows "cfg' = cfg\<lparr>cf_version := config_version\<rparr> \<and>
    fl_read (ce_files E) f' (backup_name path (cf_version cfg)) = fl_read (ce_files E) f path \<and>
    (\<exists>c. load_config E path f' = Inr (Inr c) \<and> cf_version c = config_version \<and>
       cf_identity c = cf_identity cfg \<and> cf_discovery c = populate_discovery (cf_discovery cfg) \<and>
       cf_ingest c = populate_ingest (cf_ingest cfg))"
proof -
  let ?F = "ce_files E" and ?old = "backup_name path (cf_version cfg)" and ?new = "cfg\<lparr>cf_version := config_version\<rparr>"
  have F: "files_laws ?F" using assms(1) by (simp add: config_env_laws_def)
  obtain g where g: "fl_rename ?F f path ?old = (None, g)"
    using assms(7) by (cases "fl_rename ?F f path ?old") (auto simp: upgrade_config_def split: option.splits)
  have cfg': "cfg' = ?new" and save: "save_config E ?new path g = (None, f')"
    using assms(7) g by (auto simp: upgrade_config_def Let_def split: prod.splits)
  have "fl_read ?F f' ?old = fl_read ?F g ?old"
    by (rule save_config_file(2) [OF F assms(3) save assms(6)])
  moreover have "fl_read ?F g ?old = fl_read ?F f path"
    using files_lawsD(6) [OF F, of f path ?old] g by simp
  ultimately have backup: "fl_read ?F f' ?old = fl_read ?F f path" by simp
  note load_config_file [OF assms(1,3) save_config_file(1) [OF F assms(3) save] assms(4,5,2)]
  then show ?thesis using cfg' backup by (simp add: populate_unset_def)
qed

text \<open>
  What the cryptographic library promises: keys, identifiers and base64 survive being printed, and
  the two halves of a key pair have the same identifier.
\<close>

definition key_lib_laws :: "lib \<Rightarrow> ('k, 'p) key_lib \<Rightarrow> ('k \<Rightarrow> 'p \<Rightarrow> bool) \<Rightarrow> bool" where
  "key_lib_laws L K pair \<longleftrightarrow>
     (\<forall>k b. kl_marshal K k = Inr b \<longrightarrow> kl_unmarshal K b = Inr k \<and> b \<noteq> []) \<and>
     (\<forall>b. kl_unbase64 K (kl_base64 K b) = Inr b \<and> (kl_base64 K b = [] \<longleftrightarrow> b = [])) \<and>
     (\<forall>k p q. pair k p \<longrightarrow> kl_public_id K p = Inr q \<longrightarrow> kl_private_id K k = Inr q \<and> peer_valid q) \<and>
     (\<forall>q. peer_valid q \<longrightarrow> lib_peer_decode L (lib_peer_string L q) = Inr q \<and> lib_peer_string L q \<noteq> [])"

text \<open>A created identity decodes to its key: the peer identifier written beside the private key
is the one of that key, so the node starts with the identity that was printed. With the same key
and another valid identifier decoding fails.\<close>

theorem created_identity_decodes:
  assumes "key_lib_laws (ce_lib E) K pair" and "pair priv pub"
    and "create_identity E K (Inr (priv, pub)) = Inr i"
  shows "\<exists>p. kl_private_id K priv = Inr p \<and> decode_identity E K f i = Inr (p, priv) \<and>
    (\<forall>q. peer_valid q \<and> q \<noteq> p \<longrightarrow>
       isl (decode_identity E K f (i\<lparr>id_peer_id := lib_peer_string (ce_lib E) q\<rparr>)))"
proof -
  obtain b p where b: "kl_marshal K priv = Inr b" and p: "kl_public_id K pub = Inr p"
    and i: "i = \<lparr>id_peer_id = lib_peer_string (ce_lib E) p, id_priv_key = kl_base64 K b\<rparr>"
    using assms(3) by (auto simp: create_identity_def case_sum_Inr(1))
  have id: "kl_private_id K priv = Inr p" "p \<noteq> []"
    using assms(1,2) p unfolding key_lib_laws_def by (auto simp: peer_valid_def)
  have key: "decode_private_key E K f j = Inr priv" if "id_priv_key j = kl_base64 K b" for j
    using assms(1) b that unfolding key_lib_laws_def by (auto simp: decode_private_key_def)
  have dec: "lib_peer_decode (ce_lib E) (lib_peer_string (ce_lib E) q) = Inr q"
    "lib_peer_string (ce_lib E) q \<noteq> []" if "peer_valid q" for q
    using assms(1) that unfolding key_lib_laws_def by blast+
  show ?thesis
    using id key dec by (auto simp: decode_identity_def i peer_valid_def)
qed

section \<open>A concrete configuration\<close>

text \<open>Files are an association list, texts are written by \<open>json_coder\<close> and durations in decimal.\<close>

definition alist_files :: "(string \<times> bytes) list files" where
  "alist_files =
     \<lparr>fl_read = (\<lambda>f p. case map_of f p of None \<Rightarrow> NotExist | Some b \<Rightarrow> Opened b),
      fl_mkdir_all = (\<lambda>f p. (None, f)),
      fl_create = (\<lambda>f p. (None, (p, []) # f)),
      fl_write = (\<lambda>f p b. (None, (p, b) # f)),
      fl_rename = (\<lambda>f p q. case map_of f p of
         None \<Rightarrow> (Some ''no such file or directory'', f)
       | Some b \<Rightarrow> (None, (q, b) # filter (\<lambda>x. fst x \<noteq> p) f)),
      fl_key = id\<rparr>"

lemma alist_files_laws: "files_laws alist_files"
  by (auto simp: files_laws_def alist_files_def split: option.splits)

definition example_env :: "(string \<times> bytes) list config_env" where
  "example_env =
     \<lparr>ce_files = alist_files,
      ce_lib = hex_lib\<lparr>lib_new_multiaddr := (\<lambda>s. Inr (Multiaddr s)),
                       lib_multiaddr_string := (\<lambda>a. case a of Multiaddr s \<Rightarrow> s)\<rparr>,
      ce_print = co_write json_coder,
      ce_parse = (\<lambda>s. Inr (fst (co_read json_coder s))),
      ce_duration_string = show_int,
      ce_parse_duration = (\<lambda>s. case parse_int64 s of None \<Rightarrow> Inl (ErrMsg ''invalid duration'') | Some d \<Rightarrow> Inr d),
      ce_getenv = (\<lambda>_. []),
      ce_expand = Inr,
      ce_addr_infos = (\<lambda>as. Inr [\<lparr>ai_id = ''p'', ai_addrs = as\<rparr>]),
      ce_p2p_addrs = (\<lambda>pi. Inr (ai_addrs pi))\<rparr>"

lemma example_env_laws: "config_env_laws example_env"
  using coder_write_inverse [OF json_coder_ok]
  by (auto simp: config_env_laws_def example_env_def alist_files_laws parse_int64_show_int
      split: option.splits dest: parse_int64_in)

lemma example_parse: "parse_multiaddrs (ce_lib example_env) ss = Inr (map Multiaddr ss)"
  by (induction ss) (simp_all add: example_env_def)

lemma example_bootstrap: "default_bootstrap_peers example_env = Inr default_bootstrap_addresses"
proof -
  have "default_bootstrap_addresses \<noteq> []" by (simp add: default_bootstrap_addresses_def)
  then show ?thesis
    by (simp add: default_bootstrap_peers_def parse_peers_def example_parse)
      (simp add: example_env_def comp_def)
qed

definition example_config :: config where
  "example_config =
     \<lparr>cf_version = 1, cf_identity = \<lparr>id_peer_id = ''p1'', id_priv_key = ''k1''\<rparr>, cf_addresses = new_addresses,
      cf_bootstrap = \<lparr>bs_peers = [], bs_minimum_peers = 0\<rparr>, cf_datastore = new_datastore,
      cf_discovery = new_discovery, cf_indexer = new_indexer, cf_ingest = new_ingest\<lparr>ic_store_batch_size := 0\<rparr>,
      cf_logging = \<lparr>lg_level = ''warn'', lg_loggers = Some [(''graphsync'', ''debug'')]\<rparr>,
      cf_peering = new_peering\<rparr>"

lemma example_config_valid: "jc_valid (config_json E) (example_config\<lparr>cf_version := v\<rparr>) \<longleftrightarrow> in_int64 v"
  using default_settings_valid(1-3) [of E] default_settings_valid(4)
  by (simp add: config_valid_iff example_config_def logging_valid_iff ingest_valid_iff in_int64_def)

lemma utf8_ascii: "list_all (\<lambda>c. (of_char c :: nat) < 0x80) s \<Longrightarrow> utf8_valid s"
proof -
  have "utf8_valid_bytes ns" if "list_all (\<lambda>n. n < 0x80) ns" for ns
    using that by (induction ns) (simp_all add: utf8_extra_def)
  moreover assume "list_all (\<lambda>c. (of_char c :: nat) < 0x80) s"
  ultimately show ?thesis by (simp add: utf8_valid_def list_all_iff)
qed

lemma utf8_show_int: "utf8_valid (show_int i)"
proof -
  have "list_all (\<lambda>c. (of_char c :: nat) < 0x80) (show_nat n)" for n
    using show_nat_digits [of _ n] by (fastforce simp: list_all_iff)
  then show ?thesis by (intro utf8_ascii) (simp add: show_int_def)
qed

definition field_utf8 :: "'s jfield \<Rightarrow> 's \<Rightarrow> bool" where
  "field_utf8 f s = (case jf_enc f s of None \<Rightarrow> True | Some j \<Rightarrow> utf8_valid (jf_name f) \<and> json_utf8 j)"

lemma utf8_codecs:
  "json_utf8 (jc_enc (json_struct fs) s) = list_all (\<lambda>f. field_utf8 f s) fs"
  "field_utf8 (json_field n C get put) s = (utf8_valid n \<and> json_utf8 (jc_enc C (get s)))"
  "field_utf8 (json_omitempty n get' put') s = (get' s = [] \<or> utf8_valid n \<and> utf8_valid (get' s))"
  "json_utf8 (jc_enc json_string t)  = utf8_valid t"
  "json_utf8 (jc_enc json_int i)" "json_utf8 (jc_enc json_bool b)"
  "json_utf8 (jc_enc (json_slice z C') xs) = list_all (\<lambda>x. json_utf8 (jc_enc C' x)) xs"
  "json_utf8 (jc_enc (json_duration example_env) d)"
  "json_utf8 (jc_enc json_string_map (Some [(k, v)])) = (utf8_valid k \<and> utf8_valid v)"
proof -
  show "json_utf8 (jc_enc (json_struct fs) s) = list_all (\<lambda>f. field_utf8 f s) fs"
    by (induction fs) (auto simp: json_struct_def field_utf8_def map_filter_simps split: option.splits)
qed (auto simp: field_utf8_def json_field_def json_omitempty_def json_string_def json_int_def json_bool_def
    json_slice_def json_duration_def json_string_map_def example_env_def utf8_show_int list_all_iff)

lemma example_config_utf8: "json_utf8 (jc_enc (config_json example_env) (example_config\<lparr>cf_version := v\<rparr>))"
  unfolding config_json_def config_fields_def setting_fields example_config_def defaults
  by (simp add: utf8_codecs utf8_ascii)

lemma example_save:
  "save_config example_env c ''/x/config'' f =
     (None, (''/x/config'', co_write json_coder (jc_enc (config_json example_env) c)) # (''/x/config'', []) # f)"
  by (simp add: save_config_def example_env_def alist_files_def)

theorem save_then_load_witness:
  "\<exists>c m. load_config example_env ''/x/config'' (snd (save_config example_env example_config ''/x/config'' [])) =
       Inr (Inr c) \<and> ic_store_batch_size (cf_ingest c) = 4096 \<and> cf_version c = 1 \<and>
     lg_loggers (cf_logging c) = m \<and> logger_levels m ''graphsync'' = Some ''debug'' \<and>
     logger_levels m ''dt-impl'' = Some ''warn''"
proof -
  obtain f' where save: "save_config example_env example_config ''/x/config'' [] = (None, f')"
    using example_save by blast
  have ok: "jc_valid (config_json example_env) example_config" "json_utf8 (jc_enc (config_json example_env) example_config)"
    using example_config_valid [of example_env 1] example_config_utf8 [of 1] by (simp_all add: example_config_def in_int64_def)
  obtain m where m: "load_config example_env ''/x/config'' f' = Inr (Inr (populate_unset
        (example_config\<lparr>cf_logging := (cf_logging example_config)\<lparr>lg_loggers := m\<rparr>\<rparr>)))"
    and none: "m = None \<longleftrightarrow> lg_loggers (cf_logging example_config) = None"
    and levels: "m \<noteq> None \<longrightarrow> logger_levels m =
      logger_levels (lg_loggers new_logging) ++ logger_levels (lg_loggers (cf_logging example_config))"
    using save_then_load [OF example_env_laws example_bootstrap _ ok save] by auto
  have "m \<noteq> None" using none by (simp add: example_config_def)
  then have "logger_levels m ''graphsync'' = Some ''debug''" "logger_levels m ''dt-impl'' = Some ''warn''"
    using levels by (simp_all add: logger_levels_def example_config_def new_logging_def)
  then show ?thesis
    unfolding save snd_conv m by (simp add: populate_unset_def populates example_config_def new_ingest_def or_int_def)
qed

theorem upgrade_keeps_backup_witness:
  "\<exists>c. load_config example_env ''/x/config''
       (snd (snd (upgrade_config example_env example_config ''/x/config'' [(''/x/config'', ''old'')]))) = Inr (Inr c) \<and>
     cf_version c = 2 \<and>
     fl_read alist_files (snd (snd (upgrade_config example_env example_config ''/x/config'' [(''/x/config'', ''old'')])))
       ''/x/config.v1'' = Opened ''old''"
proof -
  have name: "backup_name ''/x/config'' (cf_version example_config) = ''/x/config.v1''"
    unfolding backup_name_def example_config_def by code_simp
  have rename: "fl_rename alist_files [(''/x/config'', ''old'')] ''/x/config'' ''/x/config.v1'' = (None, [(''/x/config.v1'', ''old'')])"
    by (simp add: alist_files_def)
  have files: "ce_files example_env = alist_files" "fl_key alist_files = id"
    by (simp_all add: example_env_def alist_files_def)
  obtain cfg' f' where up: "upgrade_config example_env example_config ''/x/config'' [(''/x/config'', ''old'')] = (None, cfg', f')"
    by (simp add: upgrade_config_def files name rename example_save Let_def)
  have "fl_key (ce_files example_env) (backup_name ''/x/config'' (cf_version example_config)) \<noteq>
      fl_key (ce_files example_env) ''/x/config''"
    by (simp add: name files)
  note upgrade_keeps_backup [OF example_env_laws example_bootstrap _ _ example_config_utf8 this up]
  moreover have "fl_read alist_files [(''/x/config'', ''old'')] ''/x/config'' = Opened ''old''"
    by (simp add: alist_files_def)
  ultimately show ?thesis
    by (auto simp: example_config_valid in_int64_def config_version_def up files name)
qed


text \<open>Keys that print as themselves, with the public key that is equal to the private one.\<close>

definition example_keys :: "(string, string) key_lib" where
  "example_keys =
     \<lparr>kl_marshal = (\<lambda>k. if k = [] then Inl (ErrMsg ''no key'') else Inr k), kl_unmarshal = Inr,
      kl_base64 = id, kl_unbase64 = Inr, kl_private_id = (\<lambda>k. Inr (''id'' @ k)),
      kl_public_id = (\<lambda>p. Inr (''id'' @ p))\<rparr>"

theorem created_identity_decodes_witness:
  "\<exists>i. create_identity example_env example_keys (Inr (''key'', ''key'')) = Inr i \<and>
     decode_identity example_env example_keys [] i = Inr (''idkey'', ''key'') \<and>
     isl (decode_identity example_env example_keys [] (i\<lparr>id_peer_id := lib_peer_string (ce_lib example_env) ''p2''\<rparr>))"
proof -
  have hex: "lib_laws hex_lib" by (rule hex_lib_laws)
  have "path_elem (lib_peer_string hex_lib q) \<Longrightarrow> lib_peer_string hex_lib q \<noteq> []" for q
    by (simp add: path_elem_def)
  then have laws: "key_lib_laws (ce_lib example_env) example_keys (=)"
    using lib_lawsD(1,2) [OF hex]
    by (auto simp: key_lib_laws_def example_keys_def example_env_def split: if_splits)
  obtain i where i: "create_identity example_env example_keys (Inr (''key'', ''key'')) = Inr i"
    by (simp add: create_identity_def example_keys_def)
  show ?thesis
    using created_identity_decodes [OF laws refl i, of "[]"] i by (auto simp: example_keys_def)
qed

end
