(* ===== verification/Machines.thy ===== *)
theory Machines
  imports Main
begin

text \<open>
  Runs of step relations with labels, and what they share: an invariant holds all along a run, and a
  machine that is shutting down ends, in a bounded number of its own steps, where it wants to be.
\<close>

text \<open>The labels of a program's machine: what comes from outside, and its own steps.\<close>

datatype step_label = External | Internal

inductive run :: "('s \<Rightarrow> 'l \<Rightarrow> 's \<Rightarrow> bool) \<Rightarrow> 's \<Rightarrow> 'l list \<Rightarrow> 's \<Rightarrow> bool" for step s where
  run_refl: "run step s [] s"
| run_step: "run step s ls t \<Longrightarrow> step t l u \<Longrightarrow> run step s (ls @ [l]) u"

lemma run_append: "run step t ms u \<Longrightarrow> run step s ls t \<Longrightarrow> run step s (ls @ ms) u"
proof (induction rule: run.induct)
  case (run_step ms u l v)
  then show ?case using run.run_step [of step s "ls @ ms" u l v] by simp
qed simp

locale machine =
  fixes step :: "'s \<Rightarrow> 'l \<Rightarrow> 's \<Rightarrow> bool"
    and inv :: "'s \<Rightarrow> bool"
  assumes step_inv: "step s l t \<Longrightarrow> inv s \<Longrightarrow> inv t"
begin

lemma run_inv: "run step s ls t \<Longrightarrow> inv s \<Longrightarrow> inv t"
  by (induction rule: run.induct) (auto intro: step_inv)

end

text \<open>
  While it is shutting down, each of the machine's own steps brings it closer to the end, and there
  is one unless it has ended.
\<close>

locale closing_machine = machine step inv
  for step :: "'s \<Rightarrow> 'l \<Rightarrow> 's \<Rightarrow> bool" and inv :: "'s \<Rightarrow> bool" +
  fixes own :: "'l \<Rightarrow> bool"
    and closing :: "'s \<Rightarrow> bool"
    and ended :: "'s \<Rightarrow> bool"
    and distance :: "'s \<Rightarrow> nat"
  assumes stays: "step s l t \<Longrightarrow> own l \<Longrightarrow> inv s \<Longrightarrow> closing s \<Longrightarrow> closing t"
    and nearer: "step s l t \<Longrightarrow> own l \<Longrightarrow> inv s \<Longrightarrow> closing s \<Longrightarrow> distance t < distance s"
    and progress: "inv s \<Longrightarrow> closing s \<Longrightarrow> \<not> ended s \<Longrightarrow> \<exists>l t. own l \<and> step s l t"
begin

lemma bounded:
  assumes "run step s ls t" and "inv s" and "closing s" and "list_all own ls"
  shows "length ls + distance t \<le> distance s \<and> inv t \<and> closing t"
  using assms
proof (induction rule: run.induct)
  case (run_step ls t l u)
  then have "length ls + distance t \<le> distance s" "inv t" "closing t" by simp_all
  then show ?case using run_step nearer [of t l u] stays [of t l u] step_inv [of t l u] by auto
qed simp

lemma ends:
  assumes "run step s ls t" and "inv s" and "closing s" and "list_all own ls"
    and "\<And>l u. own l \<Longrightarrow> \<not> step t l u"
  shows "ended t"
  using bounded [OF assms(1-4)] progress [of t] assms(5) by blast

end

end
