(* ===== verification/Registry_Lifecycle.thy ===== *)
theory Registry_Lifecycle
  imports Registry_Correct Config Machines
begin

text \<open>
  Starting and closing the registry of \<^verbatim>\<open>internal/registry/registry.go\<close>: \<open>NewRegistry\<close>, and its
  two goroutines with the callers and the discoverers that send them actions, as a state machine.
  The channels are unbuffered, so a goroutine that sends is in \<open>lf_senders\<close> until \<open>run\<close> takes its
  action; what the actions do to the registry is in Registry, here only the channels and the
  discovery counter matter.
\<close>

section \<open>Starting\<close>

text \<open>\<open>quote\<close> is how \<^verbatim>\<open>fmt\<close> quotes a string.\<close>

fun make_poll_override_map ::
    "(string \<Rightarrow> string) \<Rightarrow> lib \<Rightarrow> polling_config list \<Rightarrow> (peer_id \<rightharpoonup> polling) \<Rightarrow> go_error + (peer_id \<rightharpoonup> polling)" where
  "make_poll_override_map quote L [] m = Inr m"
| "make_poll_override_map quote L (c # cs) m =
     (case lib_peer_decode L (po_provider_id c) of
        Inl e \<Rightarrow> Inl (ErrMsg (''cannot decode provider ID '' @ quote (po_provider_id c) @ '' in PollOverrides: '' @ e))
      | Inr p \<Rightarrow> make_poll_override_map quote L cs
          (m(p \<mapsto> \<lparr>poll_interval = po_interval c, poll_retry_after = po_retry_after c,
                   poll_stop_after = po_stop_after c\<rparr>)))"

definition poll_settings :: "discovery_config \<Rightarrow> polling" where
  "poll_settings cfg =
     \<lparr>poll_interval = dv_poll_interval cfg, poll_retry_after = dv_poll_retry_after cfg,
      poll_stop_after = dv_poll_stop_after cfg\<rparr>"

text \<open>The registry with the settings its poll goroutine is started with.\<close>

definition new_registry ::
    "(string \<Rightarrow> string) \<Rightarrow> 'd datastore \<Rightarrow> lib \<Rightarrow> json_codec \<Rightarrow> discovery_config \<Rightarrow> 'd option \<Rightarrow>
       (go_error + 'd registry \<times> polling \<times> (peer_id \<rightharpoonup> polling)) go" where
  "new_registry quote D L J cfg dstore =
     (case policy_new (lib_peer_decode L) (dv_policy cfg) of
        Inl e \<Rightarrow> Inr (Inl e)
      | Inr pol \<Rightarrow>
          go_bind (load_persisted_providers D L J
              \<lparr>rg_policy = pol, rg_providers = Map.empty, rg_sequences = new_sequences 0,
               rg_discover_times = Map.empty, rg_discover_wait = 0,
               rg_rediscover_wait = dv_rediscover_wait cfg, rg_sync_chan = [], rg_dstore = dstore\<rparr>)
            (\<lambda>loaded. Inr
              (case loaded of
                 Inl e \<Rightarrow> Inl (ErrWrap ''cannot load provider data from datastore: '' e)
               | Inr (count, r) \<Rightarrow>
                   (case make_poll_override_map quote L (dv_poll_overrides cfg) Map.empty of
                      Inl e \<Rightarrow> Inl e
                    | Inr overrides \<Rightarrow> Inr (r, poll_settings cfg, overrides)))))"

section \<open>The goroutines\<close>

text \<open>Actions of callers that change providers, that may start a discovery, and that end one.\<close>

datatype action = Request | Start_Discovery | End_Discovery

text \<open>Where \<open>runPollCheck\<close> is.\<close>

datatype checker =
    Waiting_Timer | Sending_Cleanup | Sending_Poll | Sending_Done | Closing_Sync
  | Awaiting_Discoveries | Stopped

record lifecycle =
  lf_closing :: bool
  lf_checker :: checker
  lf_senders :: "action list"
  lf_discovering :: nat
  lf_wait :: nat
  lf_sync_closed :: bool
  lf_actions_closed :: bool
  lf_closed :: bool
  lf_panicked :: bool

definition life_start :: lifecycle where
  "life_start =
     \<lparr>lf_closing = False, lf_checker = Waiting_Timer, lf_senders = [], lf_discovering = 0, lf_wait = 0,
      lf_sync_closed = False, lf_actions_closed = False, lf_closed = False, lf_panicked = False\<rparr>"

text \<open>A send of a caller or a discoverer: on a closed channel it panics.\<close>

definition send_action :: "action \<Rightarrow> lifecycle \<Rightarrow> lifecycle" where
  "send_action a s =
     (if lf_actions_closed s then s\<lparr>lf_panicked := True\<rparr> else s\<lparr>lf_senders := lf_senders s @ [a]\<rparr>)"

text \<open>
  \<open>External\<close> are the requests of callers, closing, and the ticks of the timer; everything else goes
  on by itself.
\<close>

inductive life_step :: "lifecycle \<Rightarrow> step_label \<Rightarrow> lifecycle \<Rightarrow> bool" where
  life_request: "a \<noteq> End_Discovery \<Longrightarrow> life_step s External (send_action a s)"
| life_close: "life_step s External (s\<lparr>lf_closing := True\<rparr>)"
| life_tick: "lf_checker s = Waiting_Timer \<Longrightarrow>
    life_step s External (s\<lparr>lf_checker := Sending_Cleanup, lf_wait := lf_wait s + 1\<rparr>)"
| life_run: "lf_senders s = as @ Request # bs \<Longrightarrow> \<not> lf_closed s \<Longrightarrow>
    life_step s Internal (s\<lparr>lf_senders := as @ bs\<rparr>)"
| life_refuse: "lf_senders s = as @ Start_Discovery # bs \<Longrightarrow> \<not> lf_closed s \<Longrightarrow>
    life_step s Internal (s\<lparr>lf_senders := as @ bs\<rparr>)"
| life_discover: "lf_senders s = as @ Start_Discovery # bs \<Longrightarrow> \<not> lf_closed s \<Longrightarrow>
    life_step s Internal (s\<lparr>lf_senders := as @ bs, lf_wait := lf_wait s + 1, lf_discovering := lf_discovering s + 1\<rparr>)"
| life_discovered: "lf_discovering s = Suc n \<Longrightarrow>
    life_step s Internal (send_action End_Discovery (s\<lparr>lf_discovering := n\<rparr>))"
| life_finish: "lf_senders s = as @ End_Discovery # bs \<Longrightarrow> \<not> lf_closed s \<Longrightarrow>
    life_step s Internal (s\<lparr>lf_senders := as @ bs, lf_wait := lf_wait s - 1\<rparr>)"
| life_cleanup: "lf_checker s = Sending_Cleanup \<Longrightarrow>
    life_step s Internal (s\<lparr>lf_checker := Sending_Poll, lf_wait := lf_wait s - 1\<rparr>)"
| life_poll: "lf_checker s = Sending_Poll \<Longrightarrow>
    life_step s Internal (s\<lparr>lf_checker := Waiting_Timer, lf_panicked := lf_panicked s \<or> lf_sync_closed s\<rparr>)"
| life_closing: "lf_checker s = Waiting_Timer \<Longrightarrow> lf_closing s \<Longrightarrow>
    life_step s Internal (s\<lparr>lf_checker := Sending_Done\<rparr>)"
| life_done: "lf_checker s = Sending_Done \<Longrightarrow>
    life_step s Internal (s\<lparr>lf_checker := Closing_Sync\<rparr>)"
| life_sync: "lf_checker s = Closing_Sync \<Longrightarrow>
    life_step s Internal (s\<lparr>lf_checker := Awaiting_Discoveries, lf_sync_closed := True\<rparr>)"
| life_stop: "lf_checker s = Awaiting_Discoveries \<Longrightarrow> lf_wait s = 0 \<Longrightarrow>
    life_step s Internal (s\<lparr>lf_checker := Stopped, lf_actions_closed := True,
      lf_panicked := lf_panicked s \<or> lf_senders s \<noteq> [], lf_senders := []\<rparr>)"
| life_closed: "lf_actions_closed s \<Longrightarrow> \<not> lf_closed s \<Longrightarrow> life_step s Internal (s\<lparr>lf_closed := True\<rparr>)"

abbreviation life_run :: "lifecycle \<Rightarrow> step_label list \<Rightarrow> lifecycle \<Rightarrow> bool" where
  "life_run \<equiv> run life_step"

lemmas life_run_refl = run_refl [of life_step]
lemmas life_run_step = run_step [of life_step]

section \<open>The invariant\<close>

text \<open>
  The counter is the number of discoveries that are running or about to report, and the clean-up
  that is being sent; the channels are closed in the order of the code.
\<close>

definition life_inv :: "lifecycle \<Rightarrow> bool" where
  "life_inv s \<longleftrightarrow>
     lf_wait s = lf_discovering s + count_list (lf_senders s) End_Discovery +
       (if lf_checker s = Sending_Cleanup then 1 else 0) \<and>
     (lf_sync_closed s \<longleftrightarrow> lf_checker s \<in> {Awaiting_Discoveries, Stopped}) \<and>
     (lf_actions_closed s \<longleftrightarrow> lf_checker s = Stopped) \<and>
     (lf_closed s \<longrightarrow> lf_actions_closed s) \<and>
     (lf_actions_closed s \<longrightarrow> lf_senders s = [] \<and> lf_discovering s = 0) \<and>
     (lf_checker s \<notin> {Waiting_Timer, Sending_Cleanup, Sending_Poll} \<longrightarrow> lf_closing s)"

lemma life_start_inv: "life_inv life_start"
  by (simp add: life_inv_def life_start_def)

lemma life_step_inv: "life_step s l t \<Longrightarrow> life_inv s \<Longrightarrow> life_inv t"
  by (induction rule: life_step.induct)
    (auto simp: life_inv_def send_action_def split: if_splits)

section \<open>Closing\<close>

text \<open>What is left to do when nothing comes from outside.\<close>

fun action_weight :: "action \<Rightarrow> nat" where
  "action_weight Start_Discovery = 3"
| "action_weight _ = 1"

fun checker_weight :: "checker \<Rightarrow> nat" where
  "checker_weight Sending_Cleanup = 6"
| "checker_weight Sending_Poll = 5"
| "checker_weight Waiting_Timer = 4"
| "checker_weight Sending_Done = 3"
| "checker_weight Closing_Sync = 2"
| "checker_weight Awaiting_Discoveries = 1"
| "checker_weight Stopped = 0"

definition life_measure :: "lifecycle \<Rightarrow> nat" where
  "life_measure s = sum_list (map action_weight (lf_senders s)) + 2 * lf_discovering s +
     checker_weight (lf_checker s) + (if lf_closed s then 0 else 1)"

lemma life_step_measure: "life_step s Internal t \<Longrightarrow> life_inv s \<Longrightarrow> life_measure t < life_measure s"
  by (induction s Internal t rule: life_step.induct) (auto simp: life_measure_def life_inv_def send_action_def)

text \<open>Without callers that are waiting to send, nothing panics.\<close>

definition no_caller :: "lifecycle \<Rightarrow> bool" where
  "no_caller s \<longleftrightarrow> set (lf_senders s) \<subseteq> {End_Discovery}"

lemma no_caller_step:
  "life_step s Internal t \<Longrightarrow> life_inv s \<Longrightarrow> no_caller s \<Longrightarrow> \<not> lf_panicked s \<Longrightarrow> lf_closing s \<Longrightarrow>
     no_caller t \<and> \<not> lf_panicked t \<and> lf_closing t"
proof (induction s Internal t rule: life_step.induct)
  case (life_stop s)
  then have "End_Discovery \<notin> set (lf_senders s)" by (auto simp: life_inv_def count_list_0_iff)
  then show ?case using life_stop by (cases "lf_senders s") (auto simp: no_caller_def)
qed (auto simp: no_caller_def life_inv_def send_action_def)

lemma life_progress:
  assumes "life_inv s" and "lf_closing s" and "\<not> lf_closed s"
  shows "\<exists>t. life_step s Internal t"
proof (cases "lf_checker s = Awaiting_Discoveries \<and> lf_wait s \<noteq> 0")
  case True
  then have "lf_discovering s \<noteq> 0 \<or> End_Discovery \<in> set (lf_senders s)"
    using assms(1) by (auto simp: life_inv_def count_list_0_iff)
  then show ?thesis
    using life_discovered [of s] life_finish [of s] assms(3) by (metis not0_implies_Suc split_list)
next
  case False
  then show ?thesis
    using assms life_step.intros(9-15) unfolding life_inv_def by (cases "lf_checker s") blast+
qed

interpretation registry_closing: closing_machine life_step life_inv "\<lambda>l. l = Internal"
  "\<lambda>s. lf_closing s \<and> no_caller s \<and> \<not> lf_panicked s" lf_closed life_measure
  by unfold_locales (auto intro: life_step_inv life_step_measure dest: no_caller_step life_progress)


text \<open>A closing registry with one discovery under way.\<close>

abbreviation life_state :: "checker \<Rightarrow> action list \<Rightarrow> nat \<Rightarrow> bool \<Rightarrow> bool \<Rightarrow> lifecycle" where
  "life_state c as n stopped closed \<equiv>
     \<lparr>lf_closing = True, lf_checker = c, lf_senders = as, lf_discovering = n,
      lf_wait = n + count_list as End_Discovery, lf_sync_closed = (c \<in> {Awaiting_Discoveries, Stopped}),
      lf_actions_closed = stopped, lf_closed = closed, lf_panicked = False\<rparr>"

lemma closing_reached:
  "life_run life_start [External, Internal, External] (life_state Waiting_Timer [] 1 False False)"
proof -
  have 1: "life_step life_start External (life_start\<lparr>lf_senders := [Start_Discovery]\<rparr>)"
    using life_request [of Start_Discovery life_start] by (simp add: send_action_def life_start_def)
  have 2: "life_step (life_start\<lparr>lf_senders := [Start_Discovery]\<rparr>) Internal
      (life_start\<lparr>lf_wait := 1, lf_discovering := 1\<rparr>)"
    using life_discover [of "life_start\<lparr>lf_senders := [Start_Discovery]\<rparr>" "[]" "[]"] by (simp add: life_start_def)
  have 3: "life_step (life_start\<lparr>lf_wait := 1, lf_discovering := 1\<rparr>) External
      (life_state Waiting_Timer [] 1 False False)"
    using life_close [of "life_start\<lparr>lf_wait := 1, lf_discovering := 1\<rparr>"] by (simp add: life_start_def)
  show ?thesis
    using life_run_step [OF life_run_step [OF life_run_step [OF life_run_refl 1] 2] 3] by simp
qed

lemma closing_steps:
  "life_step (life_state Waiting_Timer [] 1 False False) Internal (life_state Sending_Done [] 1 False False)"
  "life_step (life_state Sending_Done [] 1 False False) Internal (life_state Closing_Sync [] 1 False False)"
  "life_step (life_state Closing_Sync [] 1 False False) Internal (life_state Awaiting_Discoveries [] 1 False False)"
  "life_step (life_state Awaiting_Discoveries [] 1 False False) Internal
     (life_state Awaiting_Discoveries [End_Discovery] 0 False False)"
  "life_step (life_state Awaiting_Discoveries [End_Discovery] 0 False False) Internal
     (life_state Awaiting_Discoveries [] 0 False False)"
  "life_step (life_state Awaiting_Discoveries [] 0 False False) Internal (life_state Stopped [] 0 True False)"
  "life_step (life_state Stopped [] 0 True False) Internal (life_state Stopped [] 0 True True)"
  using life_closing [of "life_state Waiting_Timer [] 1 False False"]
    life_done [of "life_state Sending_Done [] 1 False False"]
    life_sync [of "life_state Closing_Sync [] 1 False False"]
    life_discovered [of "life_state Awaiting_Discoveries [] 1 False False" 0]
    life_finish [of "life_state Awaiting_Discoveries [End_Discovery] 0 False False" "[]" "[]"]
    life_stop [of "life_state Awaiting_Discoveries [] 0 False False"]
    life_closed [of "life_state Stopped [] 0 True False"]
  by (simp_all add: send_action_def)

lemmas closing_run5 = life_run_step [OF life_run_step [OF life_run_step [OF life_run_step [OF life_run_step
  [OF life_run_refl closing_steps(1)] closing_steps(2)] closing_steps(3)] closing_steps(4)] closing_steps(5)]

lemma closing_run:
  "life_run (life_state Waiting_Timer [] 1 False False) (replicate 7 Internal) (life_state Stopped [] 0 True True)"
  using life_run_step [OF life_run_step [OF closing_run5 closing_steps(6)] closing_steps(7)]
  by (simp add: numeral_eq_Suc)


text \<open>A caller that waits to send a request when the action channel is closed panics.\<close>

theorem request_during_close_panics: "\<exists>ls s. life_run life_start ls s \<and> lf_panicked s"
proof -
  have "life_step (life_state Awaiting_Discoveries [] 0 False False) External
      (life_state Awaiting_Discoveries [Request] 0 False False)"
    using life_request [of Request "life_state Awaiting_Discoveries [] 0 False False"]
    by (simp add: send_action_def)
  moreover have "life_step (life_state Awaiting_Discoveries [Request] 0 False False) Internal
      ((life_state Stopped [] 0 True False)\<lparr>lf_panicked := True\<rparr>)"
    using life_stop [of "life_state Awaiting_Discoveries [Request] 0 False False"] by simp
  moreover have "life_run life_start ([External, Internal, External] @ replicate 5 Internal)
      (life_state Awaiting_Discoveries [] 0 False False)"
    using life_run_step [OF life_run_step [OF life_run_step [OF life_run_step [OF life_run_step
      [OF closing_reached closing_steps(1)] closing_steps(2)] closing_steps(3)] closing_steps(4)] closing_steps(5)]
    by (simp add: numeral_eq_Suc)
  ultimately have run: "life_run life_start (([External, Internal, External] @ replicate 5 Internal) @ [External] @ [Internal])
      ((life_state Stopped [] 0 True False)\<lparr>lf_panicked := True\<rparr>)"
    using life_run_step [OF life_run_step] by force
  show ?thesis by (rule exI, rule exI, rule conjI, rule run, simp)
qed

section \<open>A new registry\<close>

lemma load_loop_frame:
  "load_loop L J rs n r = Inr (Inr (m, r')) \<Longrightarrow>
     r' = r\<lparr>rg_providers := rg_providers r'\<rparr> \<and>
     (\<forall>p \<in> dom (rg_providers r'). p \<in> dom (rg_providers r) \<or> policy_allowed (rg_policy r) p)"
proof (induction L J rs n r rule: load_loop.induct)
  case (3 L J key v rs count r)
  obtain p where p: "lib_peer_decode L (path_base key) = Inr p"
    using 3(3) by (cases "lib_peer_decode L (path_base key)") auto
  show ?case
  proof (cases "policy_allowed (rg_policy r) p")
    case False
    then show ?thesis using 3(1) [OF p] 3(3) p by auto
  next
    case True
    then obtain info where info: "unmarshal_json L J v = Inr info"
      using 3(3) p by (cases "unmarshal_json L J v") auto
    then obtain x where "load_loop L J rs (count + 1) (r\<lparr>rg_providers := (rg_providers r)(p \<mapsto> x)\<rparr>) = Inr (Inr (m, r'))"
      using 3(3) p True by (auto simp: go_bind_eq_Inr)
    note IH = 3(2) [OF p _ info this]
    have "r' = r\<lparr>rg_providers := rg_providers r'\<rparr>" using IH True by simp
    moreover have "\<forall>q\<in>dom (rg_providers r'). q = p \<or> q \<in> dom (rg_providers r) \<or> policy_allowed (rg_policy r) q"
      using conjunct2 [OF IH] True by (auto simp: domIff split: if_splits)
    ultimately show ?thesis using True by auto
  qed
qed auto

text \<open>A new registry follows its configuration: its policy is the configured one, every provider it
loaded is allowed by it, nothing is being discovered, and nothing waits to be synced.\<close>

theorem new_registry_follows_config:
  assumes "new_registry quote D L J cfg dstore = Inr (Inr (r, poll, overrides))"
  shows "policy_new (lib_peer_decode L) (dv_policy cfg) = Inr (rg_policy r) \<and>
    (\<forall>p. rg_providers r p \<noteq> None \<longrightarrow> policy_allowed (rg_policy r) p) \<and>
    rg_rediscover_wait r = dv_rediscover_wait cfg \<and> rg_discover_wait r = 0 \<and> rg_sync_chan r = [] \<and>
    rg_dstore r = dstore \<and> poll = poll_settings cfg"
proof -
  obtain pol n where pol: "policy_new (lib_peer_decode L) (dv_policy cfg) = Inr pol"
    and load: "load_persisted_providers D L J
        \<lparr>rg_policy = pol, rg_providers = Map.empty, rg_sequences = new_sequences 0,
         rg_discover_times = Map.empty, rg_discover_wait = 0,
         rg_rediscover_wait = dv_rediscover_wait cfg, rg_sync_chan = [], rg_dstore = dstore\<rparr> = Inr (Inr (n, r))"
    and poll: "poll = poll_settings cfg"
    using assms by (auto simp: new_registry_def go_bind_eq_Inr case_sum_Inr split: sum.split_asm)
  show ?thesis
  proof (cases dstore)
    case None
    then show ?thesis using load pol poll by (auto simp: load_persisted_providers_def)
  next
    case (Some d)
    then obtain rs where "load_loop L J rs 0 \<lparr>rg_policy = pol, rg_providers = Map.empty, rg_sequences = new_sequences 0,
         rg_discover_times = Map.empty, rg_discover_wait = 0,
         rg_rediscover_wait = dv_rediscover_wait cfg, rg_sync_chan = [], rg_dstore = dstore\<rparr> = Inr (Inr (n, r))"
      using load by (auto simp: load_persisted_providers_def split: sum.split_asm)
    from load_loop_frame [OF this] show ?thesis using pol poll by (cases r) auto
  qed
qed

end
