(* ===== verification/Importer.thy ===== *)
theory Importer
  imports Ingest_Ad_Properties
begin

text \<open>
  Importing multihashes from files: the two readers of \<^verbatim>\<open>internal/importer\<close> and the batching of
  \<^verbatim>\<open>batchIndexerEntries\<close> in \<^verbatim>\<open>server/admin/http/handler.go\<close>. A reader and the indexer
  run as goroutines connected by a channel; what the reader sends and the order in which the
  indexer receives it are the same, so the channel is a list. An input is its bytes and the error
  that ends it, \<open>None\<close> for the end of the file. Decoding a CID, its hash and the entries of a
  manifest are arguments.
\<close>

section \<open>Lines\<close>

definition newline :: char where
  "newline = CHR 0x0A"

text \<open>\<^verbatim>\<open>bufio.Reader.ReadString\<close> at a newline: the lines with their newline; what comes after the
last newline is not a line.\<close>

fun complete_lines :: "string \<Rightarrow> string \<Rightarrow> string list" where
  "complete_lines acc [] = []"
| "complete_lines acc (c # cs) =
     (if c = newline then (acc @ [c]) # complete_lines [] cs else complete_lines (acc @ [c]) cs)"

definition drop_cr :: "string \<Rightarrow> string" where
  "drop_cr l = (if l \<noteq> [] \<and> last l = CHR 0x0D then butlast l else l)"

text \<open>
  \<^verbatim>\<open>bufio.Scanner\<close>: the lines without their newline or a carriage return before it; the last one
  need not end in a newline, unless it is empty. A line that does not fit the scanner's buffer stops
  it with an error.
\<close>

definition max_scan_token_size :: nat where
  "max_scan_token_size = 64 * 1024"

fun scan_lines :: "string \<Rightarrow> string \<Rightarrow> string list \<times> bool" where
  "scan_lines acc [] =
     (if length acc \<ge> max_scan_token_size then ([], True)
      else (if acc = [] then [] else [drop_cr acc], False))"
| "scan_lines acc (c # cs) =
     (if c = newline then
        (if length acc \<ge> max_scan_token_size then ([], True)
         else (let (ls, e) = scan_lines [] cs in (drop_cr acc # ls, e)))
      else scan_lines (acc @ [c]) cs)"

section \<open>The readers\<close>

record cid_lib =
  cl_decode :: "string \<Rightarrow> string + cid"
  cl_hash :: "cid \<Rightarrow> multihash"

definition no_entries_imported :: go_error where
  "no_entries_imported = ErrMsg ''no entries imported''"

text \<open>The multihash a line stands for; a malformed one is ignored.\<close>

definition line_multihash :: "cid_lib \<Rightarrow> string \<Rightarrow> multihash option" where
  "line_multihash C l =
     (case cl_decode C l of Inl e \<Rightarrow> None | Inr c \<Rightarrow> if c = cid_undef then None else Some (cl_hash C c))"

text \<open>The multihashes sent, and the error sent at the end.\<close>

definition read_cids :: "cid_lib \<Rightarrow> string \<times> string option \<Rightarrow> multihash list \<times> go_error option" where
  "read_cids C input =
     (let mhs = List.map_filter (line_multihash C) (complete_lines [] (fst input))
      in (mhs, case snd input of
           Some e \<Rightarrow> Some (ErrMsg e)
         | None \<Rightarrow> if mhs = [] then Some no_entries_imported else None))"

text \<open>The record type and the two texts of the CID of a manifest entry.\<close>

record manifest_entry =
  me_record_type :: string
  me_cid_v1 :: string
  me_cid_v0 :: string

definition entry_multihash :: "cid_lib \<Rightarrow> (string \<Rightarrow> manifest_entry option) \<Rightarrow> string \<Rightarrow> multihash option" where
  "entry_multihash C parse l =
     (case parse l of
        None \<Rightarrow> None
      | Some e \<Rightarrow>
          if me_record_type e = ''DagAggregateEntry'' then
            (case (case cl_decode C (me_cid_v1 e) of Inl _ \<Rightarrow> cl_decode C (me_cid_v0 e) | Inr c \<Rightarrow> Inr c) of
               Inl _ \<Rightarrow> None
             | Inr c \<Rightarrow> if c = cid_undef then None else Some (cl_hash C c))
          else None)"

text \<open>The errors sent, in order; the reader of the channel sees the first.\<close>

definition read_manifest ::
    "cid_lib \<Rightarrow> (string \<Rightarrow> manifest_entry option) \<Rightarrow> string \<times> string option \<Rightarrow> multihash list \<times> go_error list" where
  "read_manifest C parse input =
     (let (ls, too_long) = scan_lines [] (fst input);
          mhs = List.map_filter (entry_multihash C parse) ls
      in (mhs,
          (if too_long then [ErrMsg ''bufio.Scanner: token too long'']
           else case snd input of Some e \<Rightarrow> [ErrMsg e] | None \<Rightarrow> []) @
          (if mhs = [] then [no_entries_imported] else [])))"

section \<open>Batches\<close>

fun batch_entries ::
    "'i indexer \<Rightarrow> index_value \<Rightarrow> nat \<Rightarrow> multihash list \<Rightarrow> multihash list \<Rightarrow> 'i \<Rightarrow> string option \<times> 'i" where
  "batch_entries X v sz puts [] i = (if puts \<noteq> [] then ix_put X i v puts else (None, i))"
| "batch_entries X v sz puts (m # ms) i =
     (if length (puts @ [m]) = sz then
        (case ix_put X i v (puts @ [m]) of
           (Some e, i') \<Rightarrow> (Some e, i')
         | (None, i') \<Rightarrow> batch_entries X v sz [] ms i')
      else batch_entries X v sz (puts @ [m]) ms i)"

definition batch_indexer_entries ::
    "nat \<Rightarrow> multihash list \<Rightarrow> index_value \<Rightarrow> 'i indexer \<Rightarrow> 'i \<Rightarrow> string option \<times> 'i" where
  "batch_indexer_entries sz ms v X i = batch_entries X v sz [] ms i"

section \<open>What is indexed\<close>

text \<open>The batches are those of the ingester when every multihash is valid.\<close>

lemma batch_entries_index_batches:
  "batch_entries X v sz puts ms i = (e, i') \<Longrightarrow>
     index_batches X (\<lambda>_. True) v False sz puts ms i =
       (map_option (\<lambda>t. ErrMsg (''cannot put multihashes into indexer: '' @ t)) e, i')"
proof (induction X v sz puts ms i rule: batch_entries.induct)
  case (1 X v sz puts i)
  then show ?case by (auto simp: store_batch_def split: if_splits prod.splits option.splits)
next
  case (2 X v sz puts m ms i)
  then show ?case by (auto simp: store_batch_def split: if_splits prod.splits option.splits)
qed

lemma batch_indexer_entries_contents:
  assumes "indexer_laws X absv" and "batch_indexer_entries sz ms v X i = (None, i')"
  shows "absv i' = (if ms = [] then absv i else contents_put v ms (absv i))"
  using index_batches_contents [OF assms(1)
      batch_entries_index_batches [OF assms(2) [unfolded batch_indexer_entries_def], simplified]]
  by (simp add: stored_def)

text \<open>A file with one text per line.\<close>

definition line_file :: "string list \<Rightarrow> string" where
  "line_file ls = concat (map (\<lambda>l. l @ [newline]) ls)"

lemma complete_lines_append:
  "newline \<notin> set l \<Longrightarrow> complete_lines acc (l @ newline # rest) = (acc @ l @ [newline]) # complete_lines [] rest"
  by (induction l arbitrary: acc) auto

lemma complete_lines_end: "newline \<notin> set l \<Longrightarrow> complete_lines acc l = []"
  by (induction l arbitrary: acc) auto

lemma complete_lines_file:
  "newline \<notin> (\<Union>l\<in>set ls. set l) \<Longrightarrow> newline \<notin> set rest \<Longrightarrow>
     complete_lines [] (line_file ls @ rest) = map (\<lambda>l. l @ [newline]) ls"
  by (induction ls) (simp_all add: line_file_def complete_lines_append complete_lines_end)

lemma scan_lines_append:
  "newline \<notin> set l \<Longrightarrow> length acc + length l < max_scan_token_size \<Longrightarrow>
     scan_lines acc (l @ newline # rest) = (let (ls, e) = scan_lines [] rest in (drop_cr (acc @ l) # ls, e))"
  by (induction l arbitrary: acc) (auto simp: max_scan_token_size_def)

lemma scan_lines_file:
  "newline \<notin> (\<Union>l\<in>set ls. set l) \<Longrightarrow> (\<forall>l\<in>set ls. length l < max_scan_token_size) \<Longrightarrow>
     scan_lines [] (line_file ls) = (map drop_cr ls, False)"
proof (induction ls)
  case Nil
  then show ?case by (simp add: line_file_def max_scan_token_size_def)
next
  case (Cons l ls)
  then show ?case using scan_lines_append [of l "[]" "line_file ls"] by (simp add: line_file_def)
qed

end
