(* ===== verification/Admin.thy ===== *)
theory Admin
  imports Importer Ingest_Server Json
begin

text \<open>
  The admin HTTP server (\<^verbatim>\<open>server/admin/http\<close>): allowing and blocking peers, starting syncs,
  importing providers and multihashes, reloading the configuration, the log levels and the routes.
  Handlers work on the ingester, with the registry and the indexer it shares. \<open>quote\<close> is how
  \<^verbatim>\<open>fmt\<close> and \<^verbatim>\<open>strconv\<close> quote a string, and \<open>body\<close> what reading the body answers.
\<close>

section \<open>What the handlers rely on\<close>

text \<open>
  JSON texts, base64 as \<^verbatim>\<open>encoding/json\<close> uses it for bytes, URLs, the files of the machine and
  the answer of another indexer to a request for its providers.
\<close>

record admin_env =
  am_json :: "bytes \<Rightarrow> go_error + json"
  am_base64 :: "string \<Rightarrow> go_error + bytes"
  am_quote :: "string \<Rightarrow> string"
  am_url :: "bytes \<Rightarrow> go_error + string"
  am_open :: "string \<Rightarrow> string + string \<times> string option"
  am_cids :: cid_lib
  am_manifest :: "string \<Rightarrow> manifest_entry option"
  am_listed :: "string \<Rightarrow> go_error + remote_provider option list"

section \<open>Parameters of requests\<close>

definition decode_peer_id :: "lib \<Rightarrow> string \<Rightarrow> response_writer \<Rightarrow> response_writer + peer_id" where
  "decode_peer_id L p w =
     (case lib_peer_decode L p of Inl e \<Rightarrow> Inl (http_error ''Cannot decode peer id'' 400 w) | Inr q \<Rightarrow> Inr q)"

text \<open>\<^verbatim>\<open>strconv.ParseInt(s, 10, 0)\<close> and \<^verbatim>\<open>strconv.ParseBool\<close> with their errors.\<close>

definition parse_int :: "(string \<Rightarrow> string) \<Rightarrow> string \<Rightarrow> string + int" where
  "parse_int quote = parse_decimal quote ''ParseInt''"

definition parse_bool :: "(string \<Rightarrow> string) \<Rightarrow> string \<Rightarrow> string + bool" where
  "parse_bool quote s =
     (if s \<in> {''1'', ''t'', ''T'', ''TRUE'', ''true'', ''True''} then Inr True
      else if s \<in> {''0'', ''f'', ''F'', ''FALSE'', ''false'', ''False''} then Inr False
      else Inl (num_error quote ''ParseBool'' s ''invalid syntax''))"

text \<open>\<^verbatim>\<open>url.Values.Get\<close>: the first value of a parameter, or nothing.\<close>

definition query_get :: "(string \<times> string) list \<Rightarrow> string \<Rightarrow> string" where
  "query_get q k = (case map_of q k of None \<Rightarrow> [] | Some v \<Rightarrow> v)"

text \<open>A JSON object decoded as a map of bytes: base64 texts, or arrays of numbers.\<close>

fun json_byte_list :: "json list \<Rightarrow> go_error + bytes" where
  "json_byte_list [] = Inr []"
| "json_byte_list (j # js) =
     (case j of
        JNum n \<Rightarrow> if 0 \<le> n \<and> n < 256 then map_sum id (\<lambda>bs. char_of (nat n) # bs) (json_byte_list js)
                 else Inl unmarshal_type_error
      | JNull \<Rightarrow> map_sum id (\<lambda>bs. char_of (0 :: nat) # bs) (json_byte_list js)
      | _ \<Rightarrow> Inl unmarshal_type_error)"

definition json_byte_slice :: "admin_env \<Rightarrow> json \<Rightarrow> go_error + bytes" where
  "json_byte_slice V j =
     (case j of
        JNull \<Rightarrow> Inr [] | JStr s \<Rightarrow> am_base64 V s | JArr js \<Rightarrow> json_byte_list js | _ \<Rightarrow> Inl unmarshal_type_error)"

fun json_bytes_members :: "admin_env \<Rightarrow> (string \<times> json) list \<Rightarrow> (string \<rightharpoonup> bytes) \<Rightarrow> go_error + (string \<rightharpoonup> bytes)" where
  "json_bytes_members V [] m = Inr m"
| "json_bytes_members V ((k, j) # kvs) m =
     (case json_byte_slice V j of Inl e \<Rightarrow> Inl e | Inr b \<Rightarrow> json_bytes_members V kvs (m(k \<mapsto> b)))"

definition unmarshal_params :: "admin_env \<Rightarrow> bytes \<Rightarrow> go_error + (string \<rightharpoonup> bytes)" where
  "unmarshal_params V data =
     (case am_json V data of
        Inl e \<Rightarrow> Inl e
      | Inr JNull \<Rightarrow> Inr Map.empty
      | Inr (JObj kvs) \<Rightarrow> json_bytes_members V kvs Map.empty
      | Inr _ \<Rightarrow> Inl unmarshal_type_error)"

definition get_params :: "admin_env \<Rightarrow> bytes \<Rightarrow> go_error + string \<times> bytes \<times> bytes" where
  "get_params V data =
     (case unmarshal_params V data of
        Inl e \<Rightarrow> Inl (ErrMsg (''cannot unmarshal import cidlist params: '' @ error_string e))
      | Inr params \<Rightarrow>
          (case params ''file'' of
             None \<Rightarrow> Inl (ErrMsg ''missing file in request'')
           | Some file \<Rightarrow>
               (case params ''context_id'' of
                  None \<Rightarrow> Inl (ErrMsg ''missing context_id in request'')
                | Some context_id \<Rightarrow>
                    (case params ''metadata'' of
                       None \<Rightarrow> Inl (ErrMsg ''missing metadata in request'')
                     | Some metadata \<Rightarrow> Inr (file, context_id, metadata)))))"

section \<open>Peers and syncs\<close>

definition admin_allow_peer ::
    "lib \<Rightarrow> string \<Rightarrow> response_writer \<Rightarrow> ('d, 'i) ingester \<Rightarrow> response_writer \<times> ('d, 'i) ingester" where
  "admin_allow_peer L peer w s =
     (case decode_peer_id L peer w of
        Inl w \<Rightarrow> (w, s)
      | Inr p \<Rightarrow> (write_header 200 w, s\<lparr>in_reg := snd (allow_peer p (in_reg s))\<rparr>))"

definition admin_block_peer ::
    "lib \<Rightarrow> string \<Rightarrow> response_writer \<Rightarrow> ('d, 'i) ingester \<Rightarrow> response_writer \<times> ('d, 'i) ingester" where
  "admin_block_peer L peer w s =
     (case decode_peer_id L peer w of
        Inl w \<Rightarrow> (w, s)
      | Inr p \<Rightarrow> (write_header 200 w, s\<lparr>in_reg := snd (block_peer p (in_reg s))\<rparr>))"

text \<open>The sync a request starts: publisher, address, depth and whether it is a resync.\<close>

type_synonym sync_start = "peer_id \<times> multiaddr option \<times> int \<times> bool"

definition sync_address :: "admin_env \<Rightarrow> lib \<Rightarrow> bytes \<Rightarrow> go_error + multiaddr option" where
  "sync_address V L data =
     (if data = [] then Inr None
      else
        (case am_json V data of
           Inl e \<Rightarrow> Inl e
         | Inr j \<Rightarrow>
             (case jc_dec json_string j [] of
                Inl e \<Rightarrow> Inl e
              | Inr v \<Rightarrow>
                  (case lib_new_multiaddr L v of Inl e \<Rightarrow> Inl (ErrMsg e) | Inr a \<Rightarrow> Inr (Some a)))))"

definition admin_sync ::
    "admin_env \<Rightarrow> lib \<Rightarrow> string \<Rightarrow> (string \<times> string) list \<Rightarrow> string + bytes \<Rightarrow> response_writer \<Rightarrow>
       response_writer \<times> sync_start option" where
  "admin_sync V L peer query body w =
     (case decode_peer_id L peer w of
        Inl w \<Rightarrow> (w, None)
      | Inr p \<Rightarrow>
          (let ds = query_get query ''depth'' in
           case (if ds = [] then Inr 0 else parse_int (am_quote V) ds) of
             Inl e \<Rightarrow> (http_error e 400 w, None)
           | Inr depth \<Rightarrow>
               (let rs = query_get query ''resync'' in
                case (if rs = [] then Inr False else parse_bool (am_quote V) rs) of
                  Inl e \<Rightarrow> (http_error e 400 w, None)
                | Inr resync \<Rightarrow>
                    (case body of
                       Inl e \<Rightarrow> (http_error [] 500 w, None)
                     | Inr data \<Rightarrow>
                         (case sync_address V L data of
                            Inl e \<Rightarrow> (http_error (error_string e) 400 w, None)
                          | Inr addr \<Rightarrow>
                              (case peer_id_validate p of
                                 Some e \<Rightarrow> (http_error ''Cannot sync with peer'' 502 w, None)
                               | None \<Rightarrow> (write_header 202 w, Some (p, addr, depth, resync))))))))"

text \<open>The providers that are offered to the ingester afterwards are the third component.\<close>

definition admin_import_providers ::
    "('d, 'i, 'n, 'h) env \<Rightarrow> admin_env \<Rightarrow> string + bytes \<Rightarrow> response_writer \<Rightarrow> ('d, 'i) ingester \<Rightarrow>
       (response_writer \<times> provider_info list \<times> ('d, 'i) ingester) go" where
  "admin_import_providers E V body w s =
     (case body of
        Inl e \<Rightarrow> Inr (http_error [] 400 w, [], s)
      | Inr data \<Rightarrow>
          (case unmarshal_params V data of
             Inl e \<Rightarrow> Inr (http_error (error_string e) 400 w, [], s)
           | Inr params \<Rightarrow>
               (case params ''indexer'' of
                  None \<Rightarrow> Inr (http_error ''missing indexer url in request'' 400 w, [], s)
                | Some from \<Rightarrow>
                    (case am_url V from of
                       Inl e \<Rightarrow> Inr (http_error (''bad indexer url: '' @ error_string e) 400 w, [], s)
                     | Inr url \<Rightarrow>
                         go_bind (import_providers (en_ds E) (en_lib E) (en_json E) (am_listed V url) (in_reg s))
                           (\<lambda>(res, new, r). Inr
                              (case res of
                                 Inl e \<Rightarrow> (http_error ''Cannot get providers from other indexer'' 502 w, new, s\<lparr>in_reg := r\<rparr>)
                               | Inr n \<Rightarrow> (write_header 200 w, new, s\<lparr>in_reg := r\<rparr>)))))))"

text \<open>\<open>reload\<close> is what the daemon answers.\<close>

definition admin_reload_config :: "go_error option \<Rightarrow> response_writer \<Rightarrow> response_writer" where
  "admin_reload_config reload w =
     (case reload of Some e \<Rightarrow> http_error (error_string e) 500 w | None \<Rightarrow> write_header 200 w)"

section \<open>Imports\<close>

definition import_batch_size :: nat where
  "import_batch_size = 256"

text \<open>
  When the file cannot be opened the handler answers so and goes on; reading the nil file then fails
  with \<^verbatim>\<open>os.ErrInvalid\<close>.
\<close>

definition open_import ::
    "admin_env \<Rightarrow> string \<Rightarrow> response_writer \<Rightarrow> (string \<times> string option) \<times> response_writer" where
  "open_import V file w =
     (case am_open V file of
        Inl e \<Rightarrow> (([], Some ''invalid argument''), http_error e 400 w)
      | Inr input \<Rightarrow> (input, w))"

text \<open>What both import handlers do with a reader; \<open>what\<close> is the prefix of its error.\<close>

definition import_entries ::
    "('d, 'i, 'n, 'h) env \<Rightarrow> admin_env \<Rightarrow> (string \<times> string option \<Rightarrow> multihash list \<times> go_error option) \<Rightarrow> string \<Rightarrow>
       string \<Rightarrow> string + bytes \<Rightarrow> response_writer \<Rightarrow> ('d, 'i) ingester \<Rightarrow> response_writer \<times> ('d, 'i) ingester" where
  "import_entries E V reader what provider body w s =
     (case decode_peer_id (en_lib E) provider w of
        Inl w \<Rightarrow> (w, s)
      | Inr p \<Rightarrow>
          (case body of
             Inl e \<Rightarrow> (http_error [] 400 w, s)
           | Inr data \<Rightarrow>
               (case get_params V data of
                  Inl e \<Rightarrow> (http_error (error_string e) 400 w, s)
                | Inr (file, context_id, metadata) \<Rightarrow>
                    (let (input, w) = open_import V file w;
                         (mhs, err) = reader input;
                         value = \<lparr>iv_provider = p, iv_context = context_id, iv_metadata = metadata\<rparr>
                     in case batch_indexer_entries import_batch_size mhs value (en_indexer E) (in_indexer s) of
                          (Some e, i) \<Rightarrow> (http_error [] 500 w, s\<lparr>in_indexer := i\<rparr>)
                        | (None, i) \<Rightarrow>
                            ((case err of
                                Some e \<Rightarrow> http_error (what @ error_string e) 400 w
                              | None \<Rightarrow> write_header 200 w), s\<lparr>in_indexer := i\<rparr>)))))"

definition admin_import_cid_list ::
    "('d, 'i, 'n, 'h) env \<Rightarrow> admin_env \<Rightarrow> string \<Rightarrow> string + bytes \<Rightarrow> response_writer \<Rightarrow> ('d, 'i) ingester \<Rightarrow>
       response_writer \<times> ('d, 'i) ingester" where
  "admin_import_cid_list E V = import_entries E V (read_cids (am_cids V)) ''error reading cid list: ''"

definition admin_import_manifest ::
    "('d, 'i, 'n, 'h) env \<Rightarrow> admin_env \<Rightarrow> string \<Rightarrow> string + bytes \<Rightarrow> response_writer \<Rightarrow> ('d, 'i) ingester \<Rightarrow>
       response_writer \<times> ('d, 'i) ingester" where
  "admin_import_manifest E V =
     import_entries E V
       (\<lambda>input. let (mhs, errs) = read_manifest (am_cids V) (am_manifest V) input
                in (mhs, case errs of [] \<Rightarrow> None | e # _ \<Rightarrow> Some e))
       ''error reading manifest: ''"

definition admin_health_check :: "response_writer \<Rightarrow> response_writer" where
  "admin_health_check w = write_body ''\"OK\"'' (write_header 200 w)"

section \<open>Log levels\<close>

text \<open>
  The logging library, over a state of levels: setting the level of the subsystems that match a
  regular expression, and the names of the subsystems. The parameters of a query are ranged over in
  any order.
\<close>

record 'g log_lib =
  lo_set_level_regex :: "string \<Rightarrow> string \<Rightarrow> 'g \<Rightarrow> go_error option \<times> 'g"
  lo_subsystems :: "'g \<Rightarrow> string list"

fun set_levels ::
    "'g log_lib \<Rightarrow> (string \<times> string) list \<Rightarrow> string list \<Rightarrow> response_writer \<Rightarrow> 'g \<Rightarrow> response_writer \<times> 'g" where
  "set_levels G query [] w g = (write_header 200 w, g)"
| "set_levels G query (ss # order) w g =
     (let l = query_get query ss
      in if l = [] then (http_error (''level is not specified for subsystem: '' @ ss) 400 w, g)
         else (case lo_set_level_regex G ss l g of
             (Some e, g) \<Rightarrow> (http_error (error_string e) 500 w, g)
           | (None, g) \<Rightarrow> set_levels G query order w g))"

definition set_log_level ::
    "'g log_lib \<Rightarrow> (string \<times> string) list \<Rightarrow> string list \<Rightarrow> response_writer \<Rightarrow> 'g \<Rightarrow> response_writer \<times> 'g" where
  "set_log_level G query order w g =
     (if query = [] then
        (http_error ''at least one <subsystem>=<level> query parameter must be specified'' 400 w, g)
      else set_levels G query order w g)"

definition list_log_subsystems :: "'g log_lib \<Rightarrow> response_writer \<Rightarrow> 'g \<Rightarrow> response_writer" where
  "list_log_subsystems G w g = fold (\<lambda>ss w. write_body (ss @ [newline]) w) (sort (lo_subsystems G g)) w"

section \<open>Routes\<close>

record admin_request = http_request +
  ar_query :: "(string \<times> string) list"

text \<open>
  What a request does besides answering: start a sync, or offer imported providers to the ingester.
  The metrics and profiling routes are answered by \<open>other\<close>.
\<close>

datatype admin_effect = NoEffect | StartSync sync_start | OfferProviders "provider_info list"

definition admin_http ::
    "('d, 'i, 'n, 'h) env \<Rightarrow> admin_env \<Rightarrow> 'g log_lib \<Rightarrow> (admin_request \<Rightarrow> response_writer) \<Rightarrow> go_error option \<Rightarrow>
       string list \<Rightarrow> admin_request \<Rightarrow> ('d, 'i) ingester \<Rightarrow> 'g \<Rightarrow>
       (response_writer \<times> admin_effect \<times> ('d, 'i) ingester \<times> 'g) go" where
  "admin_http E V G other reload order rq s g =
     (let w = new_response; body = Inr (hr_body rq);
          only = (\<lambda>m answer. if hr_method rq = m then answer else Inr (write_header 405 w, NoEffect, s, g));
          plain = (\<lambda>(w, s). Inr (w, NoEffect, s, g))
      in case hr_path rq of
           [''import'', ''manifest'', p] \<Rightarrow> only POST (plain (admin_import_manifest E V p body w s))
         | [''import'', ''cidlist'', p] \<Rightarrow> only POST (plain (admin_import_cid_list E V p body w s))
         | [''healthcheck''] \<Rightarrow> only GET (Inr (admin_health_check w, NoEffect, s, g))
         | [''importproviders''] \<Rightarrow>
             only POST (go_bind (admin_import_providers E V body w s)
               (\<lambda>(w, new, s). Inr (w, OfferProviders new, s, g)))
         | [''reloadconfig''] \<Rightarrow> only POST (Inr (admin_reload_config reload w, NoEffect, s, g))
         | [''ingest'', ''allow'', p] \<Rightarrow> only PUT (plain (admin_allow_peer (en_lib E) p w s))
         | [''ingest'', ''block'', p] \<Rightarrow> only PUT (plain (admin_block_peer (en_lib E) p w s))
         | [''ingest'', ''sync'', p] \<Rightarrow>
             only POST (let (w, start) = admin_sync V (en_lib E) p (ar_query rq) body w
                        in Inr (w, case start of None \<Rightarrow> NoEffect | Some x \<Rightarrow> StartSync x, s, g))
         | [''config'', ''log'', ''level''] \<Rightarrow>
             only POST (let (w, g) = set_log_level G (ar_query rq) order w g in Inr (w, NoEffect, s, g))
         | [''config'', ''log'', ''subsystems''] \<Rightarrow> only GET (Inr (list_log_subsystems G w g, NoEffect, s, g))
         | ''debug'' # ''pprof'' # _ \<Rightarrow> Inr (other rq, NoEffect, s, g)
         | [''metrics''] \<Rightarrow> Inr (other rq, NoEffect, s, g)
         | _ \<Rightarrow> Inr (http_error ''404 page not found'' 404 w, NoEffect, s, g))"

section \<open>Properties\<close>

lemma decode_peer_id_Inr [simp]: "lib_peer_decode L t = Inr p \<Longrightarrow> decode_peer_id L t w = Inr p"
  by (simp add: decode_peer_id_def)

lemma import_entries_effect:
  assumes "indexer_laws (en_indexer E) absv" and "lib_peer_decode (en_lib E) provider = Inr p"
    and "get_params V data = Inr (file, context_id, metadata)" and "am_open V file = Inr input"
    and "reader input = (mhs, err)"
    and "import_entries E V reader what provider (Inr data) new_response s = (w, s')"
    and "response_status w = Some 200"
  shows "err = None \<and> s' = s\<lparr>in_indexer := in_indexer s'\<rparr> \<and> absv (in_indexer s') =
    (if mhs = [] then absv (in_indexer s)
     else contents_put \<lparr>iv_provider = p, iv_context = context_id, iv_metadata = metadata\<rparr> mhs (absv (in_indexer s)))"
proof -
  obtain e i where b: "batch_indexer_entries import_batch_size mhs
      \<lparr>iv_provider = p, iv_context = context_id, iv_metadata = metadata\<rparr> (en_indexer E) (in_indexer s) = (e, i)"
    by (cases "batch_indexer_entries import_batch_size mhs
      \<lparr>iv_provider = p, iv_context = context_id, iv_metadata = metadata\<rparr> (en_indexer E) (in_indexer s)")
  have fresh: "rw_sent new_response = None" by (simp add: new_response_def)
  have "e = None \<and> err = None \<and> s' = s\<lparr>in_indexer := i\<rparr>"
    using assms(2-7) b fresh by (auto simp: import_entries_def open_import_def split: option.splits)
  then show ?thesis using batch_indexer_entries_contents [OF assms(1)] b by auto
qed

text \<open>Importing a list of CIDs indexes what it lists. When the import is answered with success,
the lines of the file that decode are, in order, the multihashes now mapped to the provider and
context of the request, with its metadata, and at least one did; nothing else has changed. What
follows the last newline is not read.\<close>

theorem import_cid_list_indexes:
  assumes "indexer_laws (en_indexer E) absv" and "lib_peer_decode (en_lib E) provider = Inr p"
    and "get_params V data = Inr (file, context_id, metadata)"
    and "am_open V file = Inr (line_file ls @ rest, None)"
    and "newline \<notin> (\<Union>l\<in>set ls. set l)" and "newline \<notin> set rest"
    and "admin_import_cid_list E V provider (Inr data) new_response s = (w, s')"
    and "response_status w = Some 200"
  shows "\<exists>mhs. mhs = List.map_filter (\<lambda>l. line_multihash (am_cids V) (l @ [newline])) ls \<and> mhs \<noteq> [] \<and>
    absv (in_indexer s') =
      contents_put \<lparr>iv_provider = p, iv_context = context_id, iv_metadata = metadata\<rparr> mhs (absv (in_indexer s)) \<and>
    s' = s\<lparr>in_indexer := in_indexer s'\<rparr>"
proof -
  define mhs where "mhs = List.map_filter (\<lambda>l. line_multihash (am_cids V) (l @ [newline])) ls"
  have "List.map_filter (line_multihash (am_cids V)) (complete_lines [] (line_file ls @ rest)) = mhs"
    by (simp add: complete_lines_file [OF assms(5,6)] mhs_def List.map_filter_def filter_map comp_def)
  then have "read_cids (am_cids V) (line_file ls @ rest, None) =
      (mhs, if mhs = [] then Some no_entries_imported else None)"
    by (simp add: read_cids_def Let_def)
  from import_entries_effect [OF assms(1-4) this assms(7) [unfolded admin_import_cid_list_def] assms(8)]
  have "mhs \<noteq> []" "s' = s\<lparr>in_indexer := in_indexer s'\<rparr>"
    "absv (in_indexer s') =
      contents_put \<lparr>iv_provider = p, iv_context = context_id, iv_metadata = metadata\<rparr> mhs (absv (in_indexer s))"
    by (auto split: if_splits)
  then show ?thesis unfolding mhs_def by blast
qed

lemma block_peer_allowed: "allowed (snd (block_peer p r)) q \<longleftrightarrow> allowed r q \<and> q \<noteq> p"
  using fun_cong [OF admission.test_edit [of "rg_policy r" p False], of q]
  by (auto simp: allowed_def block_peer_def policy_admit_def split: prod.splits if_splits)

text \<open>C25: Blocking takes effect at once. After a request to block a peer is answered, exactly that
peer is no longer allowed: its announces are refused, it cannot register, and when it is not a known
provider then neither its requests nor advertisements can make it one.\<close>

theorem blocked_peer_refused:
  assumes "lib_peer_decode (en_lib E) peer = Inr p" and "hr_method rq = PUT"
    and "hr_path rq = [''ingest'', ''block'', peer]"
    and "admin_http E V G other reload order rq s g = Inr (w, eff, s', g')"
  shows "response_status w = Some 200 \<and> (\<forall>q. allowed (in_reg s') q = (allowed (in_reg s) q \<and> q \<noteq> p)) \<and>
    (\<nexists>A body c addrs. handle_announce E A body s' = Inr (Inr (Some (c, \<lparr>ai_id = p, ai_addrs = addrs\<rparr>)))) \<and>
    (\<nexists>info r. pi_id info = p \<and> register (en_ds E) (en_lib E) (en_json E) info (in_reg s') = (None, r)) \<and>
    (lookup_provider (in_reg s) p = None \<longrightarrow>
       (\<nexists>now addrs ad publisher r.
          register_or_update (en_ds E) (en_lib E) (en_json E) now p addrs ad publisher (in_reg s') = Inr (None, r)))"
proof -
  have s': "in_reg s' = snd (block_peer p (in_reg s))" and w: "w = write_header 200 new_response"
    using assms by (auto simp: admin_http_def admin_block_peer_def)
  have no: "\<not> allowed (in_reg s') p" by (simp add: s' block_peer_allowed)
  have reg: "register (en_ds E) (en_lib E) (en_json E) info (in_reg s') \<noteq> (None, r)" if "pi_id info = p" for info r
    using register_result [of "en_ds E" "en_lib E" "en_json E" info "in_reg s'"] register_check_None [of info "in_reg s'"]
      no that by (cases "register_check info (in_reg s')") (auto simp: allowed_def)
  have announce: "handle_announce E A body s' \<noteq> Inr (Inr (Some (c, \<lparr>ai_id = p, ai_addrs = addrs\<rparr>)))" for A body c addrs
    using no by (auto simp: handle_announce_def go_bind_eq_Inr split: sum.splits if_splits)
  have update: "register_or_update (en_ds E) (en_lib E) (en_json E) now p addrs ad publisher (in_reg s') \<noteq> Inr (None, r)"
    if "lookup_provider (in_reg s) p = None" for now addrs ad publisher r
  proof
    assume *: "register_or_update (en_ds E) (en_lib E) (en_json E) now p addrs ad publisher (in_reg s') = Inr (None, r)"
    have "lookup_provider (in_reg s') p = None"
      using that by (simp add: s' lookup_provider_def block_peer_def split: prod.splits)
    with register_or_update_Inr [OF *] obtain info full where
      up: "update_publisher p publisher None = Inr (info, full)" and
      res: "(None, r) = (if full then register (en_ds E) (en_lib E) (en_json E) (updated_info (en_lib E) now addrs ad info) (in_reg s')
            else sync_register (en_ds E) (en_lib E) (en_json E) (updated_info (en_lib E) now addrs ad info) (in_reg s'))"
      by metis
    from up have "full" "pi_id info = p"
      by (auto simp: update_publisher_def new_provider_info_def Let_def go_bind_eq_Inr split: if_splits)
    then show False using res reg [of "updated_info (en_lib E) now addrs ad info" r] by simp
  qed
  show ?thesis using w reg announce update
    by (auto simp: s' block_peer_allowed rw_defs)
qed

section \<open>Concrete requests\<close>

definition example_admin :: admin_env where
  "example_admin =
     \<lparr>am_json = (\<lambda>b. Inr (fst (co_read json_coder b))), am_base64 = Inr, am_quote = id, am_url = Inr,
      am_open = (\<lambda>f. if f = ''list'' then Inr (line_file [''c1'', ''bad'', ''c2''] @ ''c3'', None) else Inl ''no such file''),
      am_cids = \<lparr>cl_decode = (\<lambda>l. if hd l = CHR ''c'' then Inr (butlast l) else Inl ''bad cid''), cl_hash = id\<rparr>,
      am_manifest = (\<lambda>_. None), am_listed = (\<lambda>_. Inr [])\<rparr>"

definition example_import :: bytes where
  "example_import = co_write json_coder
     (JObj [(''file'', JStr ''list''), (''context_id'', JStr ''ctx''), (''metadata'', JStr ''meta'')])"

lemma example_params: "get_params example_admin example_import = Inr (''list'', ''ctx'', ''meta'')"
  unfolding example_import_def example_admin_def get_params_def unmarshal_params_def
  by (simp add: coder_write_inverse json_byte_slice_def)

abbreviation example_site :: "((string \<times> bytes) list, contents, table_node, multihash list) env" where
  "example_site \<equiv> table_env plain_indexer chain_table"

lemma example_peer: "lib_peer_decode (en_lib example_site) (lib_peer_string hex_lib ''p1'') = Inr ''p1''"
  using lib_lawsD(1) [OF hex_lib_laws, of "''p1''"] by (simp add: table_env_def)

theorem import_cid_list_indexes_witness:
  "\<exists>w s'. admin_import_cid_list example_site example_admin (lib_peer_string hex_lib ''p1'') (Inr example_import)
       new_response (fresh_ingester open_policy) = (w, s') \<and>
     in_indexer s' = contents_put \<lparr>iv_provider = ''p1'', iv_context = ''ctx'', iv_metadata = ''meta''\<rparr>
       [''c1'', ''c2''] empty_contents"
proof -
  define run where "run = admin_import_cid_list example_site example_admin (lib_peer_string hex_lib ''p1'')
    (Inr example_import) new_response (fresh_ingester open_policy)"
  have laws: "indexer_laws (en_indexer example_site) id"
    using plain_indexer_laws by (simp add: table_env_def)
  have list: "am_open example_admin ''list'' = Inr (line_file [''c1'', ''bad'', ''c2''] @ ''c3'', None)"
    by (simp add: example_admin_def)
  have nl: "newline \<notin> (\<Union>l\<in>set [''c1'', ''bad'', ''c2'']. set l)" "newline \<notin> set ''c3''"
    by (simp_all add: newline_def)
  have mhs: "List.map_filter (\<lambda>l. line_multihash (am_cids example_admin) (l @ [newline])) [''c1'', ''bad'', ''c2''] = [''c1'', ''c2'']"
    by (simp add: line_multihash_def example_admin_def map_filter_simps)
  have read: "read_cids (am_cids example_admin) (line_file [''c1'', ''bad'', ''c2''] @ ''c3'', None) = ([''c1'', ''c2''], None)"
    unfolding read_cids_def fst_conv complete_lines_file [OF nl]
    by (simp add: line_multihash_def example_admin_def map_filter_simps)
  have "response_status (fst run) = Some 200"
    unfolding run_def admin_import_cid_list_def import_entries_def decode_peer_id_Inr [OF example_peer]
    by (simp add: example_params open_import_def list read batch_indexer_entries_def import_batch_size_def
        table_env_def plain_indexer_def rw_defs)
  then have ok: "response_status w = Some 200" if "run = (w, s')" for w s' using that by simp
  obtain w s' where r: "run = (w, s')" by (cases run)
  from import_cid_list_indexes [OF laws example_peer example_params list nl r [unfolded run_def] ok [OF r]]
  have "in_indexer s' = contents_put \<lparr>iv_provider = ''p1'', iv_context = ''ctx'', iv_metadata = ''meta''\<rparr>
       [''c1'', ''c2''] (in_indexer (fresh_ingester open_policy))"
    unfolding mhs by auto
  then show ?thesis using r unfolding run_def by (auto simp: fresh_ingester_def)
qed

theorem blocked_peer_refused_witness:
  "\<exists>w eff s' g'. admin_http example_site example_admin
       \<lparr>lo_set_level_regex = (\<lambda>_ _ g. (None, g)), lo_subsystems = (\<lambda>_. [])\<rparr> (\<lambda>_. new_response) None []
       \<lparr>hr_method = PUT, hr_path = [''ingest'', ''block'', lib_peer_string hex_lib ''p1''], hr_body = [], ar_query = []\<rparr>
       (fresh_ingester open_policy) () = Inr (w, eff, s', g') \<and>
     \<not> allowed (in_reg s') ''p1'' \<and> allowed (in_reg s') ''p2''"
proof -
  let ?rq = "\<lparr>hr_method = PUT, hr_path = [''ingest'', ''block'', lib_peer_string hex_lib ''p1''], hr_body = [], ar_query = []\<rparr>"
  let ?G = "\<lparr>lo_set_level_regex = (\<lambda>_ _ g. (None, g)), lo_subsystems = (\<lambda>_. [])\<rparr> :: unit log_lib"
  obtain w s' where run: "admin_http example_site example_admin ?G (\<lambda>_. new_response) None [] ?rq
      (fresh_ingester open_policy) () = Inr (w, NoEffect, s', ())"
    by (simp add: admin_http_def admin_block_peer_def example_peer)
  have "allowed (in_reg (fresh_ingester open_policy)) ''p2''"
    by (simp add: fresh_ingester_def allowed_def open_policy_def policy_allowed_def policy_eval_def)
  then show ?thesis
    using blocked_peer_refused [OF example_peer _ _ run] run by auto
qed

text \<open>A provider that is already registered still updates its registration after it was blocked, for
example with a request to index content: the policy is only consulted for a new provider or
publisher.\<close>

theorem blocked_provider_still_updates:
  assumes "lookup_provider r p = Some i"
    and "\<forall>a\<in>set addrs. \<not> isl (lib_new_multiaddr L a)"
  shows "\<exists>info. pi_id info = p \<and>
    register_or_update D L J now p addrs ad \<lparr>ai_id = [], ai_addrs = []\<rparr> (snd (block_peer p r)) =
      Inr (sync_register D L J info (snd (block_peer p r)))"
proof -
  have found: "lookup_provider (snd (block_peer p r)) p = Some i"
    using assms(1) by (simp add: lookup_provider_def block_peer_def split: prod.splits)
  obtain info where up: "update_publisher p \<lparr>ai_id = [], ai_addrs = []\<rparr> (Some i) = Inr (info, False)" "pi_id info = p"
    by (auto simp: update_publisher_def new_provider_info_def Let_def peer_id_validate_def)
  have "\<not> isl (register_or_update D L J now p addrs ad \<lparr>ai_id = [], ai_addrs = []\<rparr> (snd (block_peer p r)))"
    using assms(2) by (simp add: register_or_update_isl found up)
  then obtain res where res: "register_or_update D L J now p addrs ad \<lparr>ai_id = [], ai_addrs = []\<rparr> (snd (block_peer p r)) = Inr res"
    by (cases "register_or_update D L J now p addrs ad \<lparr>ai_id = [], ai_addrs = []\<rparr> (snd (block_peer p r))") auto
  from register_or_update_Inr [OF res] obtain info' full where
    "update_publisher p \<lparr>ai_id = [], ai_addrs = []\<rparr> (Some i) = Inr (info', full)"
    "res = (if full then register D L J (updated_info L now addrs ad info') (snd (block_peer p r))
            else sync_register D L J (updated_info L now addrs ad info') (snd (block_peer p r)))"
    unfolding found by metis
  then show ?thesis using up res by (intro exI [of _ "updated_info L now addrs ad info"]) simp
qed

end
