(* ===== verification/Admin_Client.thy ===== *)
theory Admin_Client
  imports Admin
begin

text \<open>
  The client of the admin server (\<^verbatim>\<open>api/v0/admin/client/http\<close>) and its requests as the server reads
  them: a sync starts with the publisher, address, depth and kind that were asked for, an import
  indexes the file under the context that was named, and log subsystems are listed as they are.
  The base address of the client has been parsed, so that making a request does not fail.
\<close>

section \<open>Requests\<close>

text \<open>
  The server as the client sees it: it answers a request and changes. What the client relies on:
  JSON texts, bytes in them, the JSON text of a multiaddr, and its own files.
\<close>

type_synonym 's admin_server = "admin_request \<Rightarrow> 's \<Rightarrow> (response_writer \<times> 's) go"

record admin_client_env =
  ax_json :: "json \<Rightarrow> bytes"
  ax_base64 :: "bytes \<Rightarrow> string"
  ax_addr_json :: "multiaddr \<Rightarrow> string + bytes"
  ax_open :: "string \<Rightarrow> go_error option"

text \<open>The pairs of a query; none when a name has no value.\<close>

fun query_pairs :: "string list \<Rightarrow> (string \<times> string) list option" where
  "query_pairs [] = Some []"
| "query_pairs [k] = None"
| "query_pairs (k # v # kvs) = map_option (\<lambda>q. (k, v) # q) (query_pairs kvs)"

text \<open>A request whose answer counts as an error unless its status is one of the given ones.\<close>

definition admin_do ::
    "'s admin_server \<Rightarrow> int set \<Rightarrow> admin_request \<Rightarrow> 's \<Rightarrow> (go_error option \<times> 's) go" where
  "admin_do server ok rq s =
     go_bind (server rq s) (\<lambda>(w, s'). Inr
       (if client_status w \<notin> ok then Some (read_error (client_status w) (rw_body w)) else None, s'))"

definition admin_ingest_request ::
    "'s admin_server \<Rightarrow> lib \<Rightarrow> peer_id \<Rightarrow> string \<Rightarrow> http_method \<Rightarrow> bytes \<Rightarrow> string list \<Rightarrow> 's \<Rightarrow>
       (go_error option \<times> 's) go" where
  "admin_ingest_request server L p action method data pairs s =
     (case query_pairs pairs of
        None \<Rightarrow> Inr (Some (ErrMsg (''number of query pairs must be even; got '' @ show_nat (length pairs))), s)
      | Some q \<Rightarrow>
          admin_do server {200, 202}
            \<lparr>hr_method = method, hr_path = [''ingest'', action, lib_peer_string L p], hr_body = data, ar_query = q\<rparr> s)"

definition admin_client_allow :: "'s admin_server \<Rightarrow> lib \<Rightarrow> peer_id \<Rightarrow> 's \<Rightarrow> (go_error option \<times> 's) go" where
  "admin_client_allow server L p = admin_ingest_request server L p ''allow'' PUT [] []"

definition admin_client_block :: "'s admin_server \<Rightarrow> lib \<Rightarrow> peer_id \<Rightarrow> 's \<Rightarrow> (go_error option \<times> 's) go" where
  "admin_client_block server L p = admin_ingest_request server L p ''block'' PUT [] []"

definition format_bool :: "bool \<Rightarrow> string" where
  "format_bool b = (if b then ''true'' else ''false'')"

definition sync_pairs :: "int \<Rightarrow> bool \<Rightarrow> string list" where
  "sync_pairs depth resync =
     (if depth \<noteq> 0 then [''depth'', show_int depth] else []) @
     (if resync then [''resync'', format_bool resync] else [])"

definition admin_client_sync ::
    "'s admin_server \<Rightarrow> admin_client_env \<Rightarrow> lib \<Rightarrow> peer_id \<Rightarrow> multiaddr option \<Rightarrow> int \<Rightarrow> bool \<Rightarrow> 's \<Rightarrow>
       (go_error option \<times> 's) go" where
  "admin_client_sync server X L p addr depth resync s =
     (case (case addr of None \<Rightarrow> Inr [] | Some a \<Rightarrow> ax_addr_json X a) of
        Inl e \<Rightarrow> Inr (Some (ErrMsg e), s)
      | Inr data \<Rightarrow> admin_ingest_request server L p ''sync'' POST data (sync_pairs depth resync) s)"

text \<open>A map of bytes as JSON: the members are sorted by their names.\<close>

definition bytes_map_json :: "admin_client_env \<Rightarrow> (string \<times> bytes) list \<Rightarrow> bytes" where
  "bytes_map_json X m = ax_json X (JObj (map (\<lambda>(k, b). (k, JStr (ax_base64 X b))) m))"

definition upload_body :: "admin_client_env \<Rightarrow> string \<Rightarrow> bytes \<Rightarrow> bytes \<Rightarrow> bytes" where
  "upload_body X file context_id metadata =
     bytes_map_json X [(''context_id'', context_id), (''file'', file), (''metadata'', metadata)]"

text \<open>Both imports: \<open>kind\<close> is the last part of the route, \<open>what\<close> the beginning of the error.\<close>

definition admin_client_upload ::
    "string \<Rightarrow> string \<Rightarrow> 's admin_server \<Rightarrow> admin_client_env \<Rightarrow> lib \<Rightarrow> string \<Rightarrow> peer_id \<Rightarrow> bytes \<Rightarrow> bytes \<Rightarrow> 's \<Rightarrow>
       (go_error option \<times> 's) go" where
  "admin_client_upload kind what server X L file p context_id metadata s =
     (case ax_open X file of
        Some e \<Rightarrow> Inr (Some e, s)
      | None \<Rightarrow>
          go_bind (server
              \<lparr>hr_method = POST, hr_path = [''import'', kind, lib_peer_string L p],
               hr_body = upload_body X file context_id metadata, ar_query = []\<rparr> s)
            (\<lambda>(w, s'). Inr
              (if client_status w \<noteq> 200
               then Some (ErrMsg (what @ status_text (client_status w) @ (if rw_body w = [] then [] else '': '' @ rw_body w)))
               else None, s')))"

definition admin_client_import_manifest ::
    "'s admin_server \<Rightarrow> admin_client_env \<Rightarrow> lib \<Rightarrow> string \<Rightarrow> peer_id \<Rightarrow> bytes \<Rightarrow> bytes \<Rightarrow> 's \<Rightarrow>
       (go_error option \<times> 's) go" where
  "admin_client_import_manifest = admin_client_upload ''manifest'' ''importing from manifest failed: ''"

definition admin_client_import_cid_list ::
    "'s admin_server \<Rightarrow> admin_client_env \<Rightarrow> lib \<Rightarrow> string \<Rightarrow> peer_id \<Rightarrow> bytes \<Rightarrow> bytes \<Rightarrow> 's \<Rightarrow>
       (go_error option \<times> 's) go" where
  "admin_client_import_cid_list = admin_client_upload ''cidlist'' ''importing from cidlist failed: ''"

text \<open>\<open>url\<close> is the URL as bytes, nothing for a missing one.\<close>

definition admin_client_import_providers ::
    "'s admin_server \<Rightarrow> admin_client_env \<Rightarrow> bytes \<Rightarrow> 's \<Rightarrow> (go_error option \<times> 's) go" where
  "admin_client_import_providers server X url s =
     (if url = [] then Inr (Some (ErrMsg ''missing indexer url''), s)
      else admin_do server {200}
        \<lparr>hr_method = POST, hr_path = [''importproviders''], hr_body = bytes_map_json X [(''indexer'', url)],
         ar_query = []\<rparr> s)"

definition admin_client_reload_config :: "'s admin_server \<Rightarrow> 's \<Rightarrow> (go_error option \<times> 's) go" where
  "admin_client_reload_config server =
     admin_do server {200} \<lparr>hr_method = POST, hr_path = [''reloadconfig''], hr_body = [], ar_query = []\<rparr>"

definition admin_client_list_log_subsystems ::
    "'s admin_server \<Rightarrow> 's \<Rightarrow> ((go_error + string list) \<times> 's) go" where
  "admin_client_list_log_subsystems server s =
     go_bind (server \<lparr>hr_method = GET, hr_path = [''config'', ''log'', ''subsystems''], hr_body = [], ar_query = []\<rparr> s)
       (\<lambda>(w, s'). Inr
         (if client_status w \<noteq> 200 then Inl (read_error (client_status w) (rw_body w))
          else (case scan_lines [] (rw_body w) of
                  (ls, True) \<Rightarrow> Inl (ErrMsg ''bufio.Scanner: token too long'')
                | (ls, False) \<Rightarrow> Inr ls), s'))"

text \<open>\<open>levels\<close> lists the map in the order in which it is encoded, sorted by subsystem.\<close>

definition admin_client_set_log_levels ::
    "'s admin_server \<Rightarrow> (string \<times> string) list \<Rightarrow> 's \<Rightarrow> (go_error option \<times> 's) go" where
  "admin_client_set_log_levels server levels =
     admin_do server {200}
       \<lparr>hr_method = POST, hr_path = [''config'', ''log'', ''level''], hr_body = [], ar_query = levels\<rparr>"

section \<open>The client and the server together\<close>

text \<open>The routes of the server as a server of the client; what requests start is kept in a list.\<close>

type_synonym ('d, 'i, 'g) admin_site = "('d, 'i) ingester \<times> 'g \<times> admin_effect list"

definition admin_net ::
    "('d, 'i, 'n, 'h) env \<Rightarrow> admin_env \<Rightarrow> 'g log_lib \<Rightarrow> (admin_request \<Rightarrow> response_writer) \<Rightarrow> go_error option \<Rightarrow>
       string list \<Rightarrow> ('d, 'i, 'g) admin_site admin_server" where
  "admin_net E V G other reload order rq =
     (\<lambda>(s, g, effs). go_bind (admin_http E V G other reload order rq s g)
        (\<lambda>(w, eff, s', g'). Inr (w, s', g', effs @ [eff])))"

text \<open>Both sides agree on JSON and base64, and a multiaddr is written as the JSON of its text.\<close>

definition admin_wire_laws :: "lib \<Rightarrow> admin_env \<Rightarrow> admin_client_env \<Rightarrow> bool" where
  "admin_wire_laws L V X \<longleftrightarrow>
     (\<forall>j. am_json V (ax_json X j) = Inr j) \<and> (\<forall>b. am_base64 V (ax_base64 X b) = Inr b) \<and>
     (\<forall>a. ax_addr_json X a = Inr (ax_json X (JStr (lib_multiaddr_string L a)))) \<and> (\<forall>j. ax_json X j \<noteq> [])"

section \<open>Properties\<close>

lemma query_of_sync:
  assumes "query_pairs (sync_pairs depth resync) = Some q"
  shows "query_get q ''depth'' = (if depth = 0 then [] else show_int depth)"
    and "query_get q ''resync'' = (if resync then ''true'' else [])"
  using assms by (auto simp: sync_pairs_def query_get_def format_bool_def split: if_splits)

lemma query_of_sync_ok: "\<exists>q. query_pairs (sync_pairs depth resync) = Some q"
  by (simp add: sync_pairs_def)

lemma client_status_write [simp]: "client_status (write_header n new_response) = n"
  by (simp add: client_status_def rw_defs)

text \<open>
  A sync that is asked for is the one that starts. Whatever valid publisher, address, depth and
  kind the client is called with, the server answers its request without an error and starts exactly
  that sync, and nothing else changes.
\<close>

theorem admin_sync_request_arrives:
  assumes "lib_laws (en_lib E)" and "admin_wire_laws (en_lib E) V X" and "peer_valid p" and "in_int64 depth"
  shows "admin_client_sync (admin_net E V G other reload order) X (en_lib E) p addr depth resync (s, g, effs) =
    Inr (None, s, g, effs @ [StartSync (p, addr, depth, resync)])"
proof -
  obtain q where q: "query_pairs (sync_pairs depth resync) = Some q"
    using query_of_sync_ok by blast
  define data where "data = (case addr of None \<Rightarrow> [] | Some a \<Rightarrow> ax_json X (JStr (lib_multiaddr_string (en_lib E) a)))"
  have body: "(case addr of None \<Rightarrow> Inr [] | Some a \<Rightarrow> ax_addr_json X a) = Inr data"
    using assms(2) by (auto simp: data_def admin_wire_laws_def split: option.split)
  have address: "sync_address V (en_lib E) data = Inr addr"
    using assms(2) lib_lawsD(3) [OF assms(1)]
    by (auto simp: data_def sync_address_def admin_wire_laws_def json_string_def split: option.split)
  have depth: "(if query_get q ''depth'' = [] then Inr 0 else parse_int quote (query_get q ''depth'')) = Inr depth" for quote
    using query_of_sync(1) [OF q] assms(4)
    by (simp add: parse_int_def parse_decimal_def parse_int64_show_int)
  have resync: "(if query_get q ''resync'' = [] then Inr False else parse_bool quote (query_get q ''resync'')) = Inr resync" for quote
    using query_of_sync(2) [OF q] by (simp add: parse_bool_def)
  have valid: "peer_id_validate p = None" using assms(3) by simp
  have "admin_sync V (en_lib E) (lib_peer_string (en_lib E) p) q (Inr data) new_response =
      (write_header 202 new_response, Some (p, addr, depth, resync))"
    by (simp add: admin_sync_def lib_lawsD(1) [OF assms(1,3)] depth resync address valid)
  then show ?thesis
    by (simp add: admin_client_sync_def body admin_ingest_request_def q admin_do_def admin_net_def admin_http_def)
qed

lemma upload_params:
  assumes "admin_wire_laws L V X"
  shows "get_params V (upload_body X file context_id metadata) = Inr (file, context_id, metadata)"
  using assms
  by (simp add: admin_wire_laws_def get_params_def unmarshal_params_def upload_body_def bytes_map_json_def json_byte_slice_def)

text \<open>
  An import through the client indexes the file. When the client reports success, the multihashes
  of the lines of the named file that decode, and no others, are mapped to the provider and the
  context with the metadata that the client was called with; nothing else has changed.
\<close>

theorem admin_client_import_indexes:
  assumes "indexer_laws (en_indexer E) absv" and "lib_laws (en_lib E)" and "admin_wire_laws (en_lib E) V X"
    and "peer_valid p" and "am_open V file = Inr (line_file ls @ rest, None)"
    and "newline \<notin> (\<Union>l\<in>set ls. set l)" and "newline \<notin> set rest"
    and "admin_client_import_cid_list (admin_net E V G other reload order) X (en_lib E) file p context_id metadata
      (s, g, effs) = Inr (None, s', g', effs')"
  shows "\<exists>mhs. mhs = List.map_filter (\<lambda>l. line_multihash (am_cids V) (l @ [newline])) ls \<and> mhs \<noteq> [] \<and>
    absv (in_indexer s') =
      contents_put \<lparr>iv_provider = p, iv_context = context_id, iv_metadata = metadata\<rparr> mhs (absv (in_indexer s)) \<and>
    s' = s\<lparr>in_indexer := in_indexer s'\<rparr> \<and> g' = g"
proof -
  let ?data = "upload_body X file context_id metadata" and ?p = "lib_peer_string (en_lib E) p"
  have opened: "ax_open X file = None"
    using assms(8) by (simp add: admin_client_import_cid_list_def admin_client_upload_def split: option.splits)
  obtain w t where run: "admin_import_cid_list E V ?p (Inr ?data) new_response s = (w, t)" by fastforce
  have t: "t = s'" "g' = g" and status: "client_status w = 200"
    using assms(8) opened run
    by (auto simp: admin_client_import_cid_list_def admin_client_upload_def admin_net_def admin_http_def split: if_splits)
  have "rw_sent w \<noteq> None"
    using run by (auto simp: admin_import_cid_list_def import_entries_def decode_peer_id_def open_import_def rw_defs
        Let_def split: sum.splits option.splits prod.splits)
  then have "response_status w = Some 200"
    using status by (auto simp: client_status_def response_status_def split: option.splits)
  with import_cid_list_indexes [OF assms(1) lib_lawsD(1) [OF assms(2,4)] upload_params [OF assms(3)] assms(5-7) run]
  show ?thesis using t by blast
qed

section \<open>A concrete client\<close>

definition example_admin_client :: admin_client_env where
  "example_admin_client =
     \<lparr>ax_json = co_write json_coder, ax_base64 = id,
      ax_addr_json = (\<lambda>a. Inr (co_write json_coder (JStr (lib_multiaddr_string hex_lib a)))), ax_open = (\<lambda>_. None)\<rparr>"

abbreviation silent_log :: "unit log_lib" where
  "silent_log \<equiv> \<lparr>lo_set_level_regex = (\<lambda>_ _ g. (None, g)), lo_subsystems = (\<lambda>_. [])\<rparr>"

lemma json_coder_nonempty: "co_write json_coder j \<noteq> []"
proof
  assume empty: "co_write json_coder j = []"
  have "co_read json_coder (co_write json_coder JNull) = (JNull, [])"
    and "co_read json_coder (co_write json_coder (JBool True)) = (JBool True, [])"
    using coder_okD [OF json_coder_ok, of _ "[]"] by simp_all
  have "co_read json_coder ([] @ r) = (j, r)" for r
    using coder_okD [OF json_coder_ok, of j r] empty by simp
  then have "(j, co_write json_coder k) = (k, [])" for k
    using coder_okD [OF json_coder_ok, of k "[]"] by (metis append_Nil append_Nil2)
  then show False by (metis json.distinct(1) prod.inject)
qed

lemma example_wire: "admin_wire_laws hex_lib example_admin example_admin_client"
  using coder_write_inverse [OF json_coder_ok] json_coder_nonempty
  by (simp add: admin_wire_laws_def example_admin_def example_admin_client_def)

theorem admin_sync_request_arrives_witness:
  "admin_client_sync (admin_net example_site example_admin silent_log (\<lambda>_. new_response) None []) example_admin_client
     hex_lib ''p1'' (Some (Multiaddr ''/ip4/10.0.0.1'')) (-1) True (fresh_ingester open_policy, (), []) =
   Inr (None, fresh_ingester open_policy, (), [StartSync (''p1'', Some (Multiaddr ''/ip4/10.0.0.1''), -1, True)])"
proof -
  have lib: "en_lib example_site = hex_lib" by (simp add: table_env_def)
  have "lib_laws (en_lib example_site)"
    and "admin_wire_laws (en_lib example_site) example_admin example_admin_client"
    and "in_int64 (-1)"
    unfolding lib using hex_lib_laws example_wire by (simp_all add: in_int64_def)
  from admin_sync_request_arrives [OF this(1,2) peer_valid_Cons this(3), where G = silent_log and effs = "[]"]
  show ?thesis unfolding lib by simp
qed

lemma example_list_read:
  "am_open example_admin ''list'' = Inr (line_file [''c1'', ''bad'', ''c2''] @ ''c3'', None)"
  "newline \<notin> (\<Union>l\<in>set [''c1'', ''bad'', ''c2'']. set l)" "newline \<notin> set ''c3''"
  "List.map_filter (\<lambda>l. line_multihash (am_cids example_admin) (l @ [newline])) [''c1'', ''bad'', ''c2''] = [''c1'', ''c2'']"
  by (simp_all add: example_admin_def newline_def line_multihash_def map_filter_simps)

lemma example_list_mhs:
  "read_cids (am_cids example_admin) (line_file [''c1'', ''bad'', ''c2''] @ ''c3'', None) = ([''c1'', ''c2''], None)"
  unfolding read_cids_def fst_conv complete_lines_file [OF example_list_read(2,3)]
  by (simp add: line_multihash_def example_admin_def map_filter_simps)

lemma example_import_run:
  assumes "get_params example_admin data = Inr (''list'', ''ctx'', ''meta'')"
  shows "\<exists>s'. admin_import_cid_list example_site example_admin (lib_peer_string hex_lib ''p1'') (Inr data)
    new_response (fresh_ingester open_policy) = (write_header 200 new_response, s')"
  unfolding admin_import_cid_list_def import_entries_def decode_peer_id_Inr [OF example_peer]
  by (simp add: assms open_import_def example_list_read(1) example_list_mhs batch_indexer_entries_def
      import_batch_size_def table_env_def plain_indexer_def)

theorem admin_client_import_indexes_witness:
  "\<exists>s' effs'. admin_client_import_cid_list (admin_net example_site example_admin silent_log (\<lambda>_. new_response) None [])
       example_admin_client hex_lib ''list'' ''p1'' ''ctx'' ''meta'' (fresh_ingester open_policy, (), []) =
       Inr (None, s', (), effs') \<and>
     in_indexer s' = contents_put \<lparr>iv_provider = ''p1'', iv_context = ''ctx'', iv_metadata = ''meta''\<rparr>
       [''c1'', ''c2''] empty_contents"
proof -
  let ?server = "admin_net example_site example_admin silent_log (\<lambda>_. new_response) None []"
  obtain s' where "admin_import_cid_list example_site example_admin (lib_peer_string hex_lib ''p1'')
      (Inr (upload_body example_admin_client ''list'' ''ctx'' ''meta'')) new_response (fresh_ingester open_policy) =
      (write_header 200 new_response, s')"
    using example_import_run [OF upload_params [OF example_wire]] by blast
  then have run: "admin_client_import_cid_list ?server example_admin_client (en_lib example_site) ''list'' ''p1'' ''ctx'' ''meta''
      (fresh_ingester open_policy, (), []) = Inr (None, s', (), [NoEffect])"
    by (simp add: admin_client_import_cid_list_def admin_client_upload_def admin_net_def admin_http_def
        table_env_def example_admin_client_def)
  have laws: "indexer_laws (en_indexer example_site) id" "lib_laws (en_lib example_site)"
      "admin_wire_laws (en_lib example_site) example_admin example_admin_client"
    using plain_indexer_laws hex_lib_laws example_wire by (simp_all add: table_env_def)
  have lib: "en_lib example_site = hex_lib" by (simp add: table_env_def)
  from admin_client_import_indexes [OF laws _ example_list_read(1-3) run]
  have "in_indexer s' = contents_put \<lparr>iv_provider = ''p1'', iv_context = ''ctx'', iv_metadata = ''meta''\<rparr>
       [''c1'', ''c2''] (in_indexer (fresh_ingester open_policy))"
    unfolding example_list_read(4) by auto
  then show ?thesis using run unfolding lib by (auto simp: fresh_ingester_def)
qed

end
