(* ===== verification/Daemon.thy ===== *)
theory Daemon
  imports Config Ingest_Sync
begin

text \<open>
  The daemon of \<^verbatim>\<open>command/daemon.go\<close>: loading and reloading the configuration into the running
  parts, the peering service, the watch on the configuration file, and the main loop that serves
  reload requests, the choice of the value store and of the cache, and the shutdown. What the reload
  channel does to the loop is a step relation; the command's composition of constructors at the start
  is not modelled.
\<close>

section \<open>Loading\<close>

definition daemon_load_config :: "(string \<Rightarrow> string) \<Rightarrow> 'f config_env \<Rightarrow> string \<Rightarrow> 'f \<Rightarrow> (go_error + config) go" where
  "daemon_load_config quote C path f =
     go_bind (load_config C path f) (\<lambda>res. Inr
       (case res of
          Inl e \<Rightarrow> Inl (ErrWrap ''cannot load config file: '' e)
        | Inr cfg \<Rightarrow>
            if dc_type (cf_datastore cfg) \<noteq> ''levelds''
            then Inl (ErrMsg (''only levelds datastore type supported, '' @ quote (dc_type (cf_datastore cfg)) @ '' not supported''))
            else Inr cfg))"

text \<open>\<open>set_level\<close> sets the level of one logger, or of all for a star; \<open>order\<close> is the order in which
the map of loggers is ranged over.\<close>

fun set_logger_levels ::
    "(string \<Rightarrow> string \<Rightarrow> 'g \<Rightarrow> go_error option \<times> 'g) \<Rightarrow> (string \<times> string) list \<Rightarrow> 'g \<Rightarrow> go_error option \<times> 'g" where
  "set_logger_levels set_level [] g = (None, g)"
| "set_logger_levels set_level ((name, level) # ls) g =
     (case set_level name level g of
        (Some e, g) \<Rightarrow> (Some e, g)
      | (None, g) \<Rightarrow> set_logger_levels set_level ls g)"

definition set_logging_config ::
    "(string \<Rightarrow> string \<Rightarrow> 'g \<Rightarrow> go_error option \<times> 'g) \<Rightarrow> ((string \<times> string) list option \<Rightarrow> (string \<times> string) list) \<Rightarrow>
       logging_config \<Rightarrow> 'g \<Rightarrow> go_error option \<times> 'g" where
  "set_logging_config set_level order cfg g =
     (case set_level ''*'' (lg_level cfg) g of
        (Some e, g) \<Rightarrow> (Some e, g)
      | (None, g) \<Rightarrow> set_logger_levels set_level (order (lg_loggers cfg)) g)"

section \<open>Reloading\<close>

text \<open>The running parts a reload changes. The pool size counts the workers.\<close>

record ('d, 'i, 'g) parts =
  dp_ing :: "('d, 'i) ingester"
  dp_rate :: rate_settings
  dp_pool :: nat
  dp_log :: 'g
  dp_has_ingester :: bool

record ('f, 'g) daemon_env =
  de_config :: "'f config_env"
  de_quote :: "string \<Rightarrow> string"
  de_lib :: lib
  de_set_level :: "string \<Rightarrow> string \<Rightarrow> 'g \<Rightarrow> go_error option \<times> 'g"
  de_logger_order :: "(string \<times> string) list option \<Rightarrow> (string \<times> string) list"

text \<open>Setting the ingester; \<open>None\<close> when the workers to stop are never stopped.\<close>

definition reload_ingester ::
    "lib \<Rightarrow> ingest_config \<Rightarrow> ('d, 'i, 'g) parts \<Rightarrow> (go_error option \<times> ('d, 'i, 'g) parts) option" where
  "reload_ingester L cfg s =
     (if \<not> dp_has_ingester s then Some (None, s)
      else
        (case set_rate_limit (lib_peer_decode L) (ic_rate_limit cfg) (dp_rate s) of
           (Some e, _) \<Rightarrow> Some (Some (ErrWrap ''failed to set rate limit config: '' e), s)
         | (None, rate) \<Rightarrow>
             (case run_workers (ic_ingest_worker_count cfg) (dp_pool s) of
                None \<Rightarrow> None
              | Some n \<Rightarrow>
                  Some (None, s\<lparr>dp_rate := rate, dp_ing := set_batch_size (ic_store_batch_size cfg) (dp_ing s),
                                dp_pool := n\<rparr>))))"

definition reload_config ::
    "('f, 'g) daemon_env \<Rightarrow> string \<Rightarrow> 'f \<Rightarrow> ('d, 'i, 'g) parts \<Rightarrow>
       ((go_error + config) \<times> ('d, 'i, 'g) parts) option go" where
  "reload_config V path f s =
     go_bind (daemon_load_config (de_quote V) (de_config V) path f) (\<lambda>res. Inr
       (case res of
          Inl e \<Rightarrow> Some (Inl e, s)
        | Inr cfg \<Rightarrow>
            (case set_policy (de_lib V) (dv_policy (cf_discovery cfg)) (in_reg (dp_ing s)) of
               (Some e, r) \<Rightarrow> Some (Inl (ErrWrap ''failed to set policy config: '' e), s\<lparr>dp_ing := (dp_ing s)\<lparr>in_reg := r\<rparr>\<rparr>)
             | (None, r) \<Rightarrow>
                 (case reload_ingester (de_lib V) (cf_ingest cfg) (s\<lparr>dp_ing := (dp_ing s)\<lparr>in_reg := r\<rparr>\<rparr>) of
                    None \<Rightarrow> None
                  | Some (Some e, s) \<Rightarrow> Some (Inl e, s)
                  | Some (None, s) \<Rightarrow>
                      (case set_logging_config (de_set_level V) (de_logger_order V) (cf_logging cfg) (dp_log s) of
                         (Some e, g) \<Rightarrow> Some (Inl (ErrWrap ''failed to configure logging: '' e), s\<lparr>dp_log := g\<rparr>)
                       | (None, g) \<Rightarrow> Some (Inr cfg, s\<lparr>dp_log := g\<rparr>))))))"

section \<open>Peering\<close>

record 'q peering_lib =
  pl_new :: 'q
  pl_add :: "addr_info \<Rightarrow> 'q \<Rightarrow> 'q"
  pl_remove :: "peer_id \<Rightarrow> 'q \<Rightarrow> 'q"
  pl_list :: "'q \<Rightarrow> addr_info list"
  pl_start :: "'q \<Rightarrow> go_error option \<times> 'q"
  pl_stop :: "'q \<Rightarrow> go_error option \<times> 'q"

text \<open>The result is the error, and the service the caller keeps: none after an error.\<close>

definition reload_peering ::
    "'f config_env \<Rightarrow> 'q peering_lib \<Rightarrow> peering_config \<Rightarrow> 'q option \<Rightarrow> go_error + 'q option" where
  "reload_peering C P cfg service =
     (if pr_peers cfg = [] then
        (case service of
           None \<Rightarrow> Inr None
         | Some q \<Rightarrow>
             (case pl_stop P q of
                (Some e, q) \<Rightarrow> Inl (ErrWrap ''error stopping peering service: '' e)
              | (None, q) \<Rightarrow> Inr None))
      else
        (case parse_peers C (pr_peers cfg) of
           Inl e \<Rightarrow> Inl (ErrMsg (''bad peering peer: '' @ error_string e))
         | Inr peers \<Rightarrow>
             (case service of
                None \<Rightarrow>
                  (case pl_start P (fold (pl_add P) peers (pl_new P)) of
                     (Some e, q) \<Rightarrow> Inl (ErrWrap ''failed to start peering service: '' e)
                   | (None, q) \<Rightarrow> Inr (Some q))
              | Some q \<Rightarrow>
                  (let gone = filter (\<lambda>prev. ai_id prev \<notin> ai_id ` set peers) (pl_list P q);
                       q = fold (\<lambda>prev. pl_remove P (ai_id prev)) gone q
                   in Inr (Some (fold (pl_add P) peers q))))))"

section \<open>Serving a reload request\<close>

text \<open>
  A reload request carries the channel of the administrator who waits for the answer, named by a
  number, or nothing when a signal or a change of the file asks for it. The configuration is
  \<open>None\<close> for a nil pointer.
\<close>

record ('d, 'i, 'g, 'q) daemon =
  dm_cfg :: "config option"
  dm_parts :: "('d, 'i, 'g) parts"
  dm_peering :: "'q option"
  dm_has_host :: bool
  dm_answers :: "(nat \<times> go_error option) list"

definition answer_reload ::
    "nat option \<Rightarrow> go_error option \<Rightarrow> ('d, 'i, 'g, 'q) daemon \<Rightarrow> ('d, 'i, 'g, 'q) daemon" where
  "answer_reload req e s =
     (case req of None \<Rightarrow> s | Some n \<Rightarrow> s\<lparr>dm_answers := dm_answers s @ [(n, e)]\<rparr>)"

text \<open>
  The interval of the configuration before the reload is read first, then the configuration is
  replaced, by nil if the reload failed. An administrator is told of a failure; without one the code
  goes on with the configuration it has.
\<close>

definition reload_peers ::
    "('f, 'g) daemon_env \<Rightarrow> 'q peering_lib \<Rightarrow> nat option \<Rightarrow> ('d, 'i, 'g, 'q) daemon \<Rightarrow> ('d, 'i, 'g, 'q) daemon go" where
  "reload_peers V P req s =
     (if \<not> dm_has_host s then Inr (answer_reload req None s)
      else
        (case dm_cfg s of
           None \<Rightarrow> Inl NilDereference
         | Some cfg \<Rightarrow>
             (case reload_peering (de_config V) P (cf_peering cfg) (dm_peering s) of
                Inr q \<Rightarrow> Inr (answer_reload req None (s\<lparr>dm_peering := q\<rparr>))
              | Inl e \<Rightarrow>
                  Inr (answer_reload req (Some (ErrMsg ''could not reload peering service'')) (s\<lparr>dm_peering := None\<rparr>)))))"

definition handle_reload ::
    "('f, 'g) daemon_env \<Rightarrow> 'q peering_lib \<Rightarrow> string \<Rightarrow> 'f \<Rightarrow> nat option \<Rightarrow> ('d, 'i, 'g, 'q) daemon \<Rightarrow>
       ('d, 'i, 'g, 'q) daemon option go" where
  "handle_reload V P path f req s =
     (case dm_cfg s of
        None \<Rightarrow> Inl NilDereference
      | Some _ \<Rightarrow>
          go_bind (reload_config V path f (dm_parts s)) (\<lambda>res.
            case res of
              None \<Rightarrow> Inr None
            | Some (Inl e, ps) \<Rightarrow>
                (let s = s\<lparr>dm_cfg := None, dm_parts := ps\<rparr>
                 in if req \<noteq> None
                    then Inr (Some (answer_reload req (Some (ErrMsg ''could not reload configuration'')) s))
                    else go_bind (reload_peers V P req s) (\<lambda>s. Inr (Some s)))
            | Some (Inr cfg, ps) \<Rightarrow>
                go_bind (reload_peers V P req (s\<lparr>dm_cfg := Some cfg, dm_parts := ps\<rparr>)) (\<lambda>s. Inr (Some s))))"

text \<open>\<open>mod_time\<close> is the time the file has, or an error.\<close>

definition file_changed :: "go_error + gotime \<Rightarrow> gotime \<Rightarrow> gotime \<times> bool \<times> go_error option" where
  "file_changed stat mod_time =
     (case stat of
        Inl e \<Rightarrow> (mod_time, False, Some (ErrWrap ''cannot stat config file: '' e))
      | Inr t \<Rightarrow> if t \<noteq> mod_time then (t, True, None) else (mod_time, False, None))"

section \<open>The value store and the cache\<close>

text \<open>The part of a file system that checking a directory needs, and the stores' constructors.\<close>

datatype stat_result = Present | Missing string | Forbidden | StatFailed string

record 'f dirs =
  dr_expand :: "string \<Rightarrow> string + string"
  dr_stat :: "'f \<Rightarrow> string \<Rightarrow> stat_result"
  dr_create :: "'f \<Rightarrow> string \<Rightarrow> stat_result \<times> 'f"
  dr_remove :: "'f \<Rightarrow> string \<Rightarrow> go_error option \<times> 'f"
  dr_mkdir :: "'f \<Rightarrow> string \<Rightarrow> go_error option \<times> 'f"

text \<open>Creating the test file answers \<open>Present\<close>, or why it fails.\<close>

definition check_writable :: "'f dirs \<Rightarrow> string \<Rightarrow> 'f \<Rightarrow> go_error option \<times> 'f" where
  "check_writable R dir f =
     (if dir = [] then (Some (ErrMsg ''cannot check empty directory''), f)
      else
        (case dr_expand R dir of
           Inl t \<Rightarrow> (Some (ErrMsg t), f)
         | Inr dir \<Rightarrow>
             (case dr_stat R f dir of
                Present \<Rightarrow>
                  (let testfile = path_join [dir, ''test'']
                   in case dr_create R f testfile of
                        (Present, f) \<Rightarrow> dr_remove R f testfile
                      | (Forbidden, f) \<Rightarrow>
                          (Some (ErrMsg (dir @ '' is not writeable by the current user'')), f)
                      | (Missing t, f) \<Rightarrow>
                          (Some (ErrMsg (''unexpected error while checking writeablility of repo root: '' @ t)), f)
                      | (StatFailed t, f) \<Rightarrow>
                          (Some (ErrMsg (''unexpected error while checking writeablility of repo root: '' @ t)), f))
              | Missing t \<Rightarrow> dr_mkdir R f dir
              | Forbidden \<Rightarrow> (Some (ErrMsg (''cannot write to '' @ dir @ '', incorrect permissions'')), f)
              | StatFailed t \<Rightarrow> (Some (ErrMsg t), f))))"

record ('f, 'v) stores =
  st_storethehash :: "'f \<Rightarrow> string \<Rightarrow> duration \<Rightarrow> (go_error + 'v) \<times> 'f"
  st_pogreb :: "'f \<Rightarrow> string \<Rightarrow> (go_error + 'v) \<times> 'f"
  st_memory :: 'v

definition create_value_store ::
    "'f config_env \<Rightarrow> 'f dirs \<Rightarrow> ('f, 'v) stores \<Rightarrow> indexer_config \<Rightarrow> 'f \<Rightarrow> (go_error + 'v) \<times> 'f" where
  "create_value_store C R S cfg f =
     (case config_path C [] (xc_value_store_dir cfg) of
        Inl e \<Rightarrow> (Inl e, f)
      | Inr dir \<Rightarrow>
          (case check_writable R dir f of
             (Some e, f) \<Rightarrow> (Inl e, f)
           | (None, f) \<Rightarrow>
               if xc_value_store_type cfg = ''sth'' then st_storethehash S f dir (xc_gc_interval cfg)
               else if xc_value_store_type cfg = ''pogreb'' then st_pogreb S f dir
               else if xc_value_store_type cfg = ''memory'' then (Inr (st_memory S), f)
               else (Inl (ErrMsg (''unrecognized store type: '' @ xc_value_store_type cfg)), f)))"

text \<open>The size of the result cache, none when it is disabled; the flag counts unless it is 0.\<close>

definition result_cache_size :: "int \<Rightarrow> indexer_config \<Rightarrow> int option" where
  "result_cache_size flag cfg =
     (let n = (if flag = 0 then xc_cache_size cfg else flag) in if 0 < n then Some n else None)"

section \<open>The main loop\<close>

text \<open>
  Where the loop is: selecting, sending a request of its own to the reload channel, in a reload
  that never stops its workers, shutting down, or dead.
\<close>

datatype main_mode = Selecting | Sending_Reload | Stopping_Workers | Ended | Crashed panic

text \<open>
  What happens: an administrator's request enters the channel, SIGHUP, the ticker with the state of
  the file, the loop's own request enters the channel, the loop takes a request and reads the files,
  and the command is cancelled or a server fails.
\<close>

datatype 'f main_event =
    Admin_Request nat | Hangup | Tick "go_error + gotime" | Send_Done | Take_Reload 'f | Stop

record ('d, 'i, 'g, 'q) main =
  mn_mode :: main_mode
  mn_queue :: "nat option list"
  mn_mod_time :: gotime
  mn_daemon :: "('d, 'i, 'g, 'q) daemon"

text \<open>The reload channel has room for one request.\<close>

abbreviation reload_capacity :: nat where "reload_capacity \<equiv> 1"

definition after_reload ::
    "('d, 'i, 'g, 'q) daemon option go \<Rightarrow> ('d, 'i, 'g, 'q) main \<Rightarrow> ('d, 'i, 'g, 'q) main" where
  "after_reload res s =
     (case res of
        Inl p \<Rightarrow> s\<lparr>mn_mode := Crashed p\<rparr>
      | Inr None \<Rightarrow> s\<lparr>mn_mode := Stopping_Workers\<rparr>
      | Inr (Some d) \<Rightarrow> s\<lparr>mn_daemon := d\<rparr>)"

inductive main_step ::
    "('f, 'g) daemon_env \<Rightarrow> 'q peering_lib \<Rightarrow> string \<Rightarrow> 'f main_event \<Rightarrow>
       ('d, 'i, 'g, 'q) main \<Rightarrow> ('d, 'i, 'g, 'q) main \<Rightarrow> bool" for V P path where
  request: "length (mn_queue s) < reload_capacity \<Longrightarrow> \<forall>p. mn_mode s \<noteq> Crashed p \<Longrightarrow>
    main_step V P path (Admin_Request n) s (s\<lparr>mn_queue := mn_queue s @ [Some n]\<rparr>)"
| hangup: "mn_mode s = Selecting \<Longrightarrow> main_step V P path Hangup s (s\<lparr>mn_mode := Sending_Reload\<rparr>)"
| tick: "mn_mode s = Selecting \<Longrightarrow> file_changed stat (mn_mod_time s) = (t, changed, e) \<Longrightarrow>
    main_step V P path (Tick stat) s
      (s\<lparr>mn_mod_time := t, mn_mode := (if changed then Sending_Reload else Selecting)\<rparr>)"
| send: "mn_mode s = Sending_Reload \<Longrightarrow> length (mn_queue s) < reload_capacity \<Longrightarrow>
    main_step V P path Send_Done s (s\<lparr>mn_mode := Selecting, mn_queue := mn_queue s @ [None]\<rparr>)"
| take_reload: "mn_mode s = Selecting \<Longrightarrow> mn_queue s = req # q \<Longrightarrow>
    main_step V P path (Take_Reload f) s
      (after_reload (handle_reload V P path f req (mn_daemon s)) (s\<lparr>mn_queue := q\<rparr>))"
| stop: "mn_mode s = Selecting \<Longrightarrow> main_step V P path Stop s (s\<lparr>mn_mode := Ended\<rparr>)"

inductive_cases main_stepE: "main_step V P path ev s s'"

inductive main_run ::
    "('f, 'g) daemon_env \<Rightarrow> 'q peering_lib \<Rightarrow> string \<Rightarrow> 'f main_event list \<Rightarrow>
       ('d, 'i, 'g, 'q) main \<Rightarrow> ('d, 'i, 'g, 'q) main \<Rightarrow> bool" for V P path where
  none: "main_run V P path [] s s"
| step: "main_step V P path ev s s' \<Longrightarrow> main_run V P path evs s' s'' \<Longrightarrow> main_run V P path (ev # evs) s s''"

inductive_simps main_run_simps: "main_run V P path [] s s'" "main_run V P path (ev # evs) s s'"

section \<open>Stopping\<close>

text \<open>
  What the daemon started, each part with how it is stopped. The peering service's error is only
  logged; stopping the other parts goes on after an error.
\<close>

record 'w started =
  sd_peering :: "('w \<Rightarrow> go_error option \<times> 'w) option"
  sd_cancel_p2p :: "('w \<Rightarrow> 'w) option"
  sd_ingest_server :: "('w \<Rightarrow> go_error option \<times> 'w) option"
  sd_finder_server :: "('w \<Rightarrow> go_error option \<times> 'w) option"
  sd_admin_server :: "('w \<Rightarrow> go_error option \<times> 'w) option"
  sd_ingester :: "('w \<Rightarrow> go_error option \<times> 'w) option"
  sd_value_store :: "'w \<Rightarrow> go_error option \<times> 'w"

definition err_daemon_start :: go_error where
  "err_daemon_start = ErrMsg ''daemon did not start correctly''"

definition err_daemon_stop :: go_error where
  "err_daemon_stop = ErrMsg ''daemon did not stop correctly''"

fun stop_parts ::
    "('w \<Rightarrow> go_error option \<times> 'w) option list \<Rightarrow> go_error option \<Rightarrow> 'w \<Rightarrow> go_error option \<times> 'w" where
  "stop_parts [] final w = (final, w)"
| "stop_parts (None # ps) final w = stop_parts ps final w"
| "stop_parts (Some close # ps) final w =
     (case close w of
        (None, w) \<Rightarrow> stop_parts ps final w
      | (Some e, w) \<Rightarrow> stop_parts ps (Some err_daemon_stop) w)"

definition daemon_stop ::
    "config option \<Rightarrow> 'w started \<Rightarrow> go_error option \<Rightarrow> 'w \<Rightarrow> (go_error option \<times> 'w) go" where
  "daemon_stop cfg D final w =
     (case cfg of
        None \<Rightarrow> Inl NilDereference
      | Some _ \<Rightarrow>
          (let w = (case sd_peering D of None \<Rightarrow> w | Some close \<Rightarrow> snd (close w));
               w = (case sd_cancel_p2p D of None \<Rightarrow> w | Some cancel \<Rightarrow> cancel w)
           in Inr (stop_parts [sd_ingest_server D, sd_finder_server D, sd_admin_server D, sd_ingester D,
                               Some (sd_value_store D)] final w)))"

end
