(* ===== verification/Daemon_Properties.thy ===== *)
theory Daemon_Properties
  imports Daemon Config_Properties
begin

text \<open>
  What the daemon of \<^verbatim>\<open>command/daemon.go\<close> does when it reloads its configuration: what a successful
  reload puts into force, what a failed one leaves behind, the peers the peering service is left
  with, and the ways in which the main loop can stop serving.
\<close>

section \<open>The reload channel\<close>

lemma blocked_step:
  assumes "mn_mode s = Sending_Reload" "length (mn_queue s) = reload_capacity"
  shows "\<not> main_step V P path ev s s'"
  using assms by (auto elim!: main_stepE)

text \<open>C24: The main loop takes the requests out of the reload channel and also sends its own to it. When
  an administrator's request fills the channel before the loop selects SIGHUP, the loop waits for
  ever: whatever the environment does, no step is left, the request is not answered, and the daemon
  cannot be stopped.
\<close>

theorem signal_on_full_channel_deadlocks:
  assumes "mn_mode s = Selecting" and "mn_queue s = []"
  shows "\<exists>s'. main_run V P path [Admin_Request n, Hangup] s s' \<and>
    dm_answers (mn_daemon s') = dm_answers (mn_daemon s) \<and>
    (\<forall>evs s''. main_run V P path evs s' s'' \<longleftrightarrow> evs = [] \<and> s'' = s')"
proof -
  let ?s = "s\<lparr>mn_queue := [Some n], mn_mode := Sending_Reload\<rparr>"
  have run: "main_run V P path [Admin_Request n, Hangup] s ?s"
    using main_step.request [of "s" V P path n] assms
      main_step.hangup [of "s\<lparr>mn_queue := [Some n]\<rparr>" V P path]
    by (auto simp: main_run_simps intro!: exI [of _ "s\<lparr>mn_queue := [Some n]\<rparr>"])
  have "main_run V P path evs ?s s'' \<longleftrightarrow> evs = [] \<and> s'' = ?s" for evs s''
    using blocked_step [of ?s V P path] by (cases evs) (auto simp: main_run_simps)
  then show ?thesis using run by (intro exI [of _ ?s]) simp
qed

section \<open>Reloading\<close>

text \<open>C23: A reload that fails, because the file cannot be read or a setting is refused, leaves the
  daemon without a configuration. With a libp2p host a reload asked for by a signal then
  dereferences the nil configuration at once; an administrator is told that the configuration could
  not be reloaded, and the next reload, whatever the file then holds, and a shutdown dereference it.
\<close>

theorem failed_reload_crashes:
  assumes "dm_cfg s = Some cfg" and "dm_has_host s"
    and "reload_config V path f (dm_parts s) = Inr (Some (Inl e, ps))"
  shows "handle_reload V P path f None s = Inl NilDereference \<and>
    (\<exists>s'. handle_reload V P path f (Some n) s = Inr (Some s') \<and>
      dm_answers s' = dm_answers s @ [(n, Some (ErrMsg ''could not reload configuration''))] \<and>
      (\<forall>f' req. handle_reload V P path f' req s' = Inl NilDereference) \<and>
      (\<forall>D final w. daemon_stop (dm_cfg s') D final w = Inl NilDereference))"
  using assms
  by (simp add: handle_reload_def reload_peers_def answer_reload_def daemon_stop_def)

lemma reload_ingester_ok:
  assumes "reload_ingester L cfg s = Some (None, s')" and "dp_has_ingester s"
  shows "config_rate_limit (lib_peer_decode L) (ic_rate_limit cfg) = Inr (dp_rate s')"
    and "dp_ing s' = set_batch_size (ic_store_batch_size cfg) (dp_ing s)"
    and "run_workers (ic_ingest_worker_count cfg) (dp_pool s) = Some (dp_pool s')"
  using assms
  by (auto simp: reload_ingester_def set_rate_limit_def split: option.splits sum.splits)

lemma reload_ingester_none:
  "\<not> dp_has_ingester s \<Longrightarrow> reload_ingester L cfg s = Some (None, s)"
  by (simp add: reload_ingester_def)

lemma reload_config_steps:
  assumes "reload_config V path f s = Inr (Some (Inr cfg, s'))"
  obtains pol mid where
    "daemon_load_config (de_quote V) (de_config V) path f = Inr (Inr cfg)"
    "policy_new (lib_peer_decode (de_lib V)) (dv_policy (cf_discovery cfg)) = Inr pol"
    "reload_ingester (de_lib V) (cf_ingest cfg)
       (s\<lparr>dp_ing := (dp_ing s)\<lparr>in_reg := (in_reg (dp_ing s))\<lparr>rg_policy := pol\<rparr>\<rparr>\<rparr>) = Some (None, mid)"
    "set_logging_config (de_set_level V) (de_logger_order V) (cf_logging cfg) (dp_log mid) = (None, dp_log s')"
    "s' = mid\<lparr>dp_log := dp_log s'\<rparr>"
proof -
  obtain cfg0 where cfg0: "daemon_load_config (de_quote V) (de_config V) path f = Inr (Inr cfg0)"
    using assms by (auto simp: reload_config_def go_bind_def split: sum.splits)
  obtain pol where pol: "policy_new (lib_peer_decode (de_lib V)) (dv_policy (cf_discovery cfg0)) = Inr pol"
    using assms cfg0
    by (cases "policy_new (lib_peer_decode (de_lib V)) (dv_policy (cf_discovery cfg0))")
      (auto simp: reload_config_def set_policy_def)
  let ?s = "s\<lparr>dp_ing := (dp_ing s)\<lparr>in_reg := (in_reg (dp_ing s))\<lparr>rg_policy := pol\<rparr>\<rparr>\<rparr>"
  have rest: "(case reload_ingester (de_lib V) (cf_ingest cfg0) ?s of
      None \<Rightarrow> None
    | Some (Some e, s) \<Rightarrow> Some (Inl e, s)
    | Some (None, s) \<Rightarrow>
        (case set_logging_config (de_set_level V) (de_logger_order V) (cf_logging cfg0) (dp_log s) of
           (Some e, g) \<Rightarrow> Some (Inl (ErrWrap ''failed to configure logging: '' e), s\<lparr>dp_log := g\<rparr>)
         | (None, g) \<Rightarrow> Some (Inr cfg0, s\<lparr>dp_log := g\<rparr>))) = Some (Inr cfg, s')"
    using assms cfg0 pol by (simp add: reload_config_def set_policy_def)
  then obtain mid where mid: "reload_ingester (de_lib V) (cf_ingest cfg0) ?s = Some (None, mid)"
    by (auto split: option.splits)
  obtain e g where log: "set_logging_config (de_set_level V) (de_logger_order V) (cf_logging cfg0) (dp_log mid) = (e, g)"
    by fastforce
  from rest mid log have "e = None" "cfg0 = cfg" "s' = mid\<lparr>dp_log := g\<rparr>"
    by (auto split: option.splits)
  with cfg0 pol mid log show ?thesis by (intro that) auto
qed

lemma reload_config_ok:
  assumes "reload_config V path f s = Inr (Some (Inr cfg, s'))"
  shows "daemon_load_config (de_quote V) (de_config V) path f = Inr (Inr cfg)"
    and "policy_new (lib_peer_decode (de_lib V)) (dv_policy (cf_discovery cfg)) = Inr (rg_policy (in_reg (dp_ing s')))"
    and "dp_has_ingester s \<Longrightarrow>
      config_rate_limit (lib_peer_decode (de_lib V)) (ic_rate_limit (cf_ingest cfg)) = Inr (dp_rate s') \<and>
      run_workers (ic_ingest_worker_count (cf_ingest cfg)) (dp_pool s) = Some (dp_pool s') \<and>
      batch_size (dp_ing s') = ic_store_batch_size (cf_ingest cfg) mod 2 ^ 32"
    and "set_logging_config (de_set_level V) (de_logger_order V) (cf_logging cfg) (dp_log s) = (None, dp_log s')"
    and "\<exists>b pol. dp_ing s' = (dp_ing s)\<lparr>in_batch_size := b, in_reg := (in_reg (dp_ing s))\<lparr>rg_policy := pol\<rparr>\<rparr>"
proof -
  obtain pol mid where steps:
    "daemon_load_config (de_quote V) (de_config V) path f = Inr (Inr cfg)"
    "policy_new (lib_peer_decode (de_lib V)) (dv_policy (cf_discovery cfg)) = Inr pol"
    "reload_ingester (de_lib V) (cf_ingest cfg)
       (s\<lparr>dp_ing := (dp_ing s)\<lparr>in_reg := (in_reg (dp_ing s))\<lparr>rg_policy := pol\<rparr>\<rparr>\<rparr>) = Some (None, mid)"
    "set_logging_config (de_set_level V) (de_logger_order V) (cf_logging cfg) (dp_log mid) = (None, dp_log s')"
    and s': "s' = mid\<lparr>dp_log := dp_log s'\<rparr>"
    by (rule reload_config_steps [OF assms])
  have fields: "dp_ing s' = dp_ing mid" "dp_rate s' = dp_rate mid" "dp_pool s' = dp_pool mid"
    by (subst s', simp)+
  have log: "dp_log mid = dp_log s"
    using steps(3) by (auto simp: reload_ingester_def split: if_splits option.splits prod.splits)
  have ing: "dp_ing mid = (dp_ing s)\<lparr>in_batch_size := in_batch_size (dp_ing mid), in_reg := (in_reg (dp_ing s))\<lparr>rg_policy := pol\<rparr>\<rparr>"
    using steps(3)
    by (auto simp: reload_ingester_def set_batch_size_def split: if_splits option.splits prod.splits)
  show "daemon_load_config (de_quote V) (de_config V) path f = Inr (Inr cfg)" by (rule steps(1))
  show "policy_new (lib_peer_decode (de_lib V)) (dv_policy (cf_discovery cfg)) = Inr (rg_policy (in_reg (dp_ing s')))"
    unfolding steps(2) fields by (subst ing) simp
  show "set_logging_config (de_set_level V) (de_logger_order V) (cf_logging cfg) (dp_log s) = (None, dp_log s')"
    using steps(4) log by simp
  show "\<exists>b pol. dp_ing s' = (dp_ing s)\<lparr>in_batch_size := b, in_reg := (in_reg (dp_ing s))\<lparr>rg_policy := pol\<rparr>\<rparr>"
    unfolding fields using ing by blast
  show "config_rate_limit (lib_peer_decode (de_lib V)) (ic_rate_limit (cf_ingest cfg)) = Inr (dp_rate s') \<and>
      run_workers (ic_ingest_worker_count (cf_ingest cfg)) (dp_pool s) = Some (dp_pool s') \<and>
      batch_size (dp_ing s') = ic_store_batch_size (cf_ingest cfg) mod 2 ^ 32" if "dp_has_ingester s"
    using reload_ingester_ok [OF steps(3)] that
    by (simp add: fields batch_size_def set_batch_size_def uint_word_of_int)
qed

lemma answer_reload_fields [simp]:
  "dm_cfg (answer_reload req e s) = dm_cfg s" "dm_parts (answer_reload req e s) = dm_parts s"
  "dm_peering (answer_reload req e s) = dm_peering s"
  "dm_answers (answer_reload req e s) = dm_answers s @ (case req of None \<Rightarrow> [] | Some n \<Rightarrow> [(n, e)])"
  by (simp_all add: answer_reload_def split: option.splits)

lemma reload_peers_fields:
  assumes "reload_peers V P req s = Inr s'"
  shows "dm_cfg s' = dm_cfg s" "dm_parts s' = dm_parts s"
    and "\<exists>e \<in> {None, Some (ErrMsg ''could not reload peering service'')}.
      dm_answers s' = dm_answers s @ (case req of None \<Rightarrow> [] | Some n \<Rightarrow> [(n, e)])"
  using assms by (auto simp: reload_peers_def split: if_splits option.splits sum.splits)

lemma handle_reload_ok:
  assumes "handle_reload V P path f req s = Inr (Some s')" and "dm_cfg s' = Some cfg"
  obtains ps where "reload_config V path f (dm_parts s) = Inr (Some (Inr cfg, ps))"
    "reload_peers V P req (s\<lparr>dm_cfg := Some cfg, dm_parts := ps\<rparr>) = Inr s'"
proof -
  obtain c where c: "dm_cfg s = Some c"
    using assms(1) by (auto simp: handle_reload_def split: option.splits)
  obtain res ps where r: "reload_config V path f (dm_parts s) = Inr (Some (res, ps))"
    using assms(1) c by (auto simp: handle_reload_def go_bind_def split: sum.splits option.splits)
  show ?thesis
  proof (cases res)
    case (Inl e)
    have "dm_cfg s' = None"
      using assms(1) c r Inl
      by (cases "reload_peers V P req (s\<lparr>dm_cfg := None, dm_parts := ps\<rparr>)")
        (auto simp: handle_reload_def Let_def split: if_splits dest: reload_peers_fields(1))
    then show ?thesis using assms(2) by simp
  next
    case (Inr c')
    obtain t where t: "reload_peers V P req (s\<lparr>dm_cfg := Some c', dm_parts := ps\<rparr>) = Inr t" "s' = t"
      using assms(1) c r Inr
      by (cases "reload_peers V P req (s\<lparr>dm_cfg := Some c', dm_parts := ps\<rparr>)") (auto simp: handle_reload_def)
    then have "c' = cfg" using assms(2) reload_peers_fields(1) [OF t(1)] by simp
    then show ?thesis using that r Inr t by simp
  qed
qed


section \<open>Peering\<close>

text \<open>The peers of a service are those added to it and not removed; starting it keeps them.\<close>

definition peering_ids :: "'q peering_lib \<Rightarrow> 'q \<Rightarrow> peer_id set" where
  "peering_ids P q = ai_id ` set (pl_list P q)"

definition peering_laws :: "'q peering_lib \<Rightarrow> bool" where
  "peering_laws P \<longleftrightarrow>
     pl_list P (pl_new P) = [] \<and>
     (\<forall>a q. peering_ids P (pl_add P a q) = insert (ai_id a) (peering_ids P q)) \<and>
     (\<forall>p q. peering_ids P (pl_remove P p q) = peering_ids P q - {p}) \<and>
     (\<forall>q q'. pl_start P q = (None, q') \<longrightarrow> peering_ids P q' = peering_ids P q)"

lemma fold_add_ids:
  "peering_laws P \<Longrightarrow> peering_ids P (fold (pl_add P) as q) = ai_id ` set as \<union> peering_ids P q"
  by (induction as arbitrary: q) (auto simp: peering_laws_def)

lemma fold_remove_ids:
  "peering_laws P \<Longrightarrow>
     peering_ids P (fold (\<lambda>a. pl_remove P (ai_id a)) as q) = peering_ids P q - ai_id ` set as"
  by (induction as arbitrary: q) (auto simp: peering_laws_def)

text \<open>
  Reloading the peering service leaves it with exactly the peers of the configuration: peers no
  longer listed are removed, listed ones added, whether the service was running or is started; with
  no peers listed there is no service.
\<close>

theorem peering_follows_configuration:
  assumes "peering_laws P" and "reload_peering C P cfg service = Inr service'"
  shows "\<exists>peers. parse_peers C (pr_peers cfg) = Inr peers \<and>
    (case service' of
       None \<Rightarrow> pr_peers cfg = []
     | Some q \<Rightarrow> pr_peers cfg \<noteq> [] \<and> peering_ids P q = ai_id ` set peers)"
proof (cases "pr_peers cfg = []")
  case True
  then show ?thesis
    using assms(2) by (auto simp: reload_peering_def parse_peers_def split: option.splits prod.splits)
next
  case False
  then obtain peers where peers: "parse_peers C (pr_peers cfg) = Inr peers"
    using assms(2) by (auto simp: reload_peering_def split: sum.splits)
  show ?thesis
  proof (cases service)
    case None
    have "peering_ids P (fold (pl_add P) peers (pl_new P)) = ai_id ` set peers"
      using assms(1) by (simp add: fold_add_ids) (simp add: peering_laws_def peering_ids_def)
    then show ?thesis
      using assms None False peers
      by (auto simp: reload_peering_def peering_laws_def split: option.splits prod.splits)
  next
    case (Some q)
    have "service' = Some (fold (pl_add P) peers
        (fold (\<lambda>a. pl_remove P (ai_id a)) (filter (\<lambda>a. ai_id a \<notin> ai_id ` set peers) (pl_list P q)) q))"
      using assms(2) Some False peers by (simp add: reload_peering_def)
    then show ?thesis
      using assms(1) False peers by (auto simp: fold_add_ids fold_remove_ids) (auto simp: peering_ids_def)
  qed
qed

section \<open>A concrete daemon\<close>

text \<open>Levels are recorded as they are set; the peers of a service are a list.\<close>

definition example_daemon_env :: "((string \<times> bytes) list, (string \<times> string) list) daemon_env" where
  "example_daemon_env =
     \<lparr>de_config = example_env, de_quote = id, de_lib = hex_lib,
      de_set_level = (\<lambda>name level g. (None, (name, level) # g)),
      de_logger_order = (\<lambda>m. case m of None \<Rightarrow> [] | Some al \<Rightarrow> al)\<rparr>"

definition list_peering :: "addr_info list peering_lib" where
  "list_peering =
     \<lparr>pl_new = [], pl_add = (\<lambda>a q. a # filter (\<lambda>b. ai_id b \<noteq> ai_id a) q),
      pl_remove = (\<lambda>p. filter (\<lambda>b. ai_id b \<noteq> p)), pl_list = id,
      pl_start = Pair None, pl_stop = Pair None\<rparr>"

definition example_daemon ::
    "((string \<times> bytes) list, contents, (string \<times> string) list, addr_info list) daemon" where
  "example_daemon =
     \<lparr>dm_cfg = Some example_config,
      dm_parts = \<lparr>dp_ing = fresh_ingester open_policy, dp_rate = no_rate_settings, dp_pool = 3, dp_log = [],
                  dp_has_ingester = True\<rparr>,
      dm_peering = None, dm_has_host = True, dm_answers = []\<rparr>"

definition example_main ::
    "((string \<times> bytes) list, contents, (string \<times> string) list, addr_info list) main" where
  "example_main = \<lparr>mn_mode = Selecting, mn_queue = [], mn_mod_time = 0, mn_daemon = example_daemon\<rparr>"

lemma list_peering_laws: "peering_laws list_peering"
  by (auto simp: peering_laws_def list_peering_def peering_ids_def)

theorem signal_on_full_channel_deadlocks_witness:
  "\<exists>s'. main_run example_daemon_env list_peering [] [Admin_Request 7, Hangup] example_main s' \<and>
     dm_answers (mn_daemon s') = [] \<and> \<not> main_run example_daemon_env list_peering [] [Stop] s' s'"
  using signal_on_full_channel_deadlocks [of example_main example_daemon_env list_peering "[]" 7]
  by (auto simp: example_main_def example_daemon_def)

lemma missing_file_fails:
  "reload_config example_daemon_env ''/x/config'' [] ps =
     Inr (Some (Inl (ErrWrap ''cannot load config file: '' err_not_initialized), ps))"
  by (simp add: reload_config_def daemon_load_config_def load_config_def example_daemon_env_def
      example_env_def alist_files_def)

theorem failed_reload_crashes_witness:
  "handle_reload example_daemon_env list_peering ''/x/config'' [] None example_daemon = Inl NilDereference \<and>
   (\<exists>s'. handle_reload example_daemon_env list_peering ''/x/config'' [] (Some 7) example_daemon = Inr (Some s') \<and>
     dm_answers s' = [(7, Some (ErrMsg ''could not reload configuration''))])"
proof -
  have "dm_cfg example_daemon = Some example_config" "dm_has_host example_daemon" "dm_answers example_daemon = []"
    by (simp_all add: example_daemon_def)
  with failed_reload_crashes [OF this(1,2) missing_file_fails, of list_peering 7] show ?thesis by auto
qed

definition empty_config_file :: "(string \<times> bytes) list" where
  "empty_config_file = [(''/x/config'', co_write json_coder (JObj []))]"

definition loaded_empty :: config where
  "loaded_empty = populate_unset
     \<lparr>cf_version = 0, cf_identity = no_identity, cf_addresses = new_addresses,
      cf_bootstrap = \<lparr>bs_peers = default_bootstrap_addresses, bs_minimum_peers = 4\<rparr>,
      cf_datastore = new_datastore, cf_discovery = new_discovery, cf_indexer = new_indexer,
      cf_ingest = new_ingest, cf_logging = new_logging, cf_peering = new_peering\<rparr>"

lemma load_empty: "load_config example_env ''/x/config'' empty_config_file = Inr (Inr loaded_empty)"
  using coder_write_inverse [OF json_coder_ok, of "JObj []"] example_bootstrap
  by (simp add: load_config_def initial_config_def new_bootstrap_def config_json_def json_struct_def
      example_env_def alist_files_def empty_config_file_def loaded_empty_def)

lemma set_all_levels:
  "set_logger_levels (\<lambda>name level g. (None, (name, level) # g)) ls g = (None, rev ls @ g)"
  by (induction ls arbitrary: g) auto

lemma reload_empty:
  "\<exists>s'. handle_reload example_daemon_env list_peering ''/x/config'' empty_config_file (Some 7) example_daemon =
     Inr (Some s') \<and> dm_cfg s' = Some loaded_empty"
proof -
  have kind: "dc_type (cf_datastore loaded_empty) = ''levelds''"
    by (simp add: loaded_empty_def populate_unset_def populates new_datastore_def or_text_def)
  have load: "daemon_load_config id example_env ''/x/config'' empty_config_file = Inr (Inr loaded_empty)"
    by (simp add: daemon_load_config_def load_empty kind)
  have rate: "config_rate_limit decode (ic_rate_limit (cf_ingest loaded_empty)) \<noteq> Inl e" for decode e
    by (simp add: loaded_empty_def populate_unset_def populates new_ingest_def new_rate_limit_def
        config_rate_limit_def new_policy_strings_def or_int_def or_text_def)
  have workers: "run_workers (ic_ingest_worker_count (cf_ingest loaded_empty)) 3 = Some 10"
    by (simp add: loaded_empty_def populate_unset_def populates new_ingest_def run_workers_def or_int_def)
  have peers: "pr_peers (cf_peering loaded_empty) = []"
    by (simp add: loaded_empty_def populate_unset_def new_peering_def)
  have pol: "policy_new decode (dv_policy (cf_discovery loaded_empty)) \<noteq> Inl e" for decode e
    by (simp add: loaded_empty_def populate_unset_def populates new_discovery_def new_policy_config_def
        policy_new_def new_policy_strings_def)
  show ?thesis
    using rate [of "lib_peer_decode hex_lib"] pol [of "lib_peer_decode hex_lib"]
    by (auto simp: handle_reload_def example_daemon_def example_daemon_env_def reload_config_def load
        set_policy_def reload_ingester_def set_rate_limit_def workers set_logging_config_def
        set_all_levels reload_peers_def reload_peering_def peers answer_reload_def split: sum.splits)
qed


theorem peering_follows_configuration_witness:
  "\<exists>q. reload_peering example_env list_peering \<lparr>pr_peers = [''/ip4/1.2.3.4'']\<rparr>
       (Some [\<lparr>ai_id = ''old'', ai_addrs = []\<rparr>]) = Inr (Some q) \<and> peering_ids list_peering q = {''p''}"
proof -
  have peers: "parse_peers example_env [''/ip4/1.2.3.4''] =
      Inr [\<lparr>ai_id = ''p'', ai_addrs = [Multiaddr ''/ip4/1.2.3.4'']\<rparr>]"
    by (simp add: parse_peers_def example_parse) (simp add: example_env_def)
  then obtain q where q: "reload_peering example_env list_peering \<lparr>pr_peers = [''/ip4/1.2.3.4'']\<rparr>
      (Some [\<lparr>ai_id = ''old'', ai_addrs = []\<rparr>]) = Inr (Some q)"
    by (simp add: reload_peering_def)
  with peering_follows_configuration [OF list_peering_laws q] peers show ?thesis by auto
qed

end
