(* ===== verification/Lotus.thy ===== *)
theory Lotus
  imports Registry_Properties Config
begin

text \<open>
  Discovering a provider by its miner address (\<^verbatim>\<open>internal/lotus/discovery.go\<close>), with the gateway to
  the chain as an argument, and what such a discovery does to the registry.
\<close>

section \<open>The gateway\<close>

text \<open>
  The fields of the miner's entry that the code reads, and the calls: parsing an address, the head of
  the chain as CIDs, the entry of a miner at that head, and decoding a binary multiaddr.
\<close>

record miner_info =
  mi_peer_id :: "peer_id option"
  mi_multiaddrs :: "bytes list"

record lotus_gateway =
  lg_address :: "string \<Rightarrow> string + string"
  lg_chain_head :: "string \<Rightarrow> go_error + cid list"
  lg_state_miner_info :: "string \<Rightarrow> string \<Rightarrow> cid list \<Rightarrow> go_error + miner_info"
  lg_multiaddr_bytes :: "bytes \<Rightarrow> string + multiaddr"

section \<open>Discovery\<close>

text \<open>
  A discoverer is the URL of its gateway. \<^verbatim>\<open>url.URL.String\<close> escapes the host: what is neither
  unreserved nor allowed in a host is written in hexadecimal.
\<close>

definition host_char :: "char \<Rightarrow> bool" where
  "host_char c \<longleftrightarrow>
     (let n = (of_char c :: nat) in 97 \<le> n \<and> n \<le> 122 \<or> 65 \<le> n \<and> n \<le> 90 \<or> 48 \<le> n \<and> n \<le> 57) \<or>
     c \<in> set ''-_.~!$&()*+,;=:[]<>'' \<or> c = CHR 0x27 \<or> c = CHR 0x22"

definition hex_upper :: "nat \<Rightarrow> char" where
  "hex_upper n = ''0123456789ABCDEF'' ! n"

definition escape_host :: "string \<Rightarrow> string" where
  "escape_host h = concat (map (\<lambda>c.
     if host_char c then [c] else [CHR ''%'', hex_upper (of_char c div 16 :: nat), hex_upper (of_char c mod 16 :: nat)]) h)"

definition new_discoverer :: "string \<Rightarrow> go_error + string" where
  "new_discoverer gateway =
     (if gateway = [] then Inl (ErrMsg ''empty gateway'')
      else Inr (''https://'' @ escape_host gateway @ ''/rpc/v1''))"

definition miner_multiaddrs :: "lotus_gateway \<Rightarrow> bytes list \<Rightarrow> multiaddr list" where
  "miner_multiaddrs G = List.map_filter (\<lambda>b. case lg_multiaddr_bytes G b of Inl e \<Rightarrow> None | Inr a \<Rightarrow> Some a)"

definition get_miner_peer_addr :: "lotus_gateway \<Rightarrow> miner_info \<Rightarrow> addr_info go" where
  "get_miner_peer_addr G mi =
     (case mi_peer_id mi of
        None \<Rightarrow> Inl NilDereference
      | Some p \<Rightarrow> Inr \<lparr>ai_id = p, ai_addrs = miner_multiaddrs G (mi_multiaddrs mi)\<rparr>)"

definition lotus_discover ::
    "lotus_gateway \<Rightarrow> string \<Rightarrow> peer_id \<Rightarrow> string \<Rightarrow> (go_error + addr_info) go" where
  "lotus_discover G url p miner =
     (case lg_address G miner of
        Inl e \<Rightarrow> Inr (Inl (ErrMsg (''invalid provider filecoin address: '' @ e)))
      | Inr address \<Rightarrow>
          (case lg_chain_head G url of
             Inl e \<Rightarrow> Inr (Inl (new_error (Some e) 502))
           | Inr head \<Rightarrow>
               (case lg_state_miner_info G url address head of
                  Inl e \<Rightarrow> Inr (Inl (new_error (Some e) 502))
                | Inr mi \<Rightarrow>
                    (case mi_peer_id mi of
                       None \<Rightarrow> Inr (Inl (ErrMsg ''no peer id for miner''))
                     | Some q \<Rightarrow>
                         if q \<noteq> p then Inr (Inl (ErrMsg ''provider id mismatch''))
                         else go_bind (get_miner_peer_addr G mi) (\<lambda>info. Inr (Inr info))))))"

lemma lotus_discover_total: "\<exists>res. lotus_discover G url p miner = Inr res"
  by (simp add: lotus_discover_def get_miner_peer_addr_def split: sum.split option.split)

section \<open>Properties\<close>

lemma lotus_discover_found:
  assumes "lotus_discover G url p miner = Inr (Inr info)"
  obtains address head mi where "lg_address G miner = Inr address" "lg_chain_head G url = Inr head"
    "lg_state_miner_info G url address head = Inr mi" "mi_peer_id mi = Some p"
    "info = \<lparr>ai_id = p, ai_addrs = miner_multiaddrs G (mi_multiaddrs mi)\<rparr>"
  using assms
  by (auto simp: lotus_discover_def get_miner_peer_addr_def split: sum.splits option.splits if_splits)

lemma finish_discover_found:
  "rg_providers (snd (finish_discover D L J now sp (Inr info) r)) =
     (rg_providers r)(ai_id info \<mapsto> (new_provider_info info)\<lparr>pi_discovery_addr := sp\<rparr>)"
  "rg_discover_times (snd (finish_discover D L J now sp res r)) sp = Some now"
  by (cases res; simp add: finish_discover_def Let_def case_prod_unfold new_provider_info_def)+

text \<open>A discovery registers a miner only as itself. When a discovery of a provider at a miner address
  finishes, no other provider's registration has changed, and the provider's own changed only if the
  chain's entry for that address names it; it is then stored with the addresses of the entry that
  decode and the miner address, or storing it failed and was reported. Discovering never panics.
\<close>

theorem lotus_discovery_registers_the_miner:
  assumes "lotus_discover G url p miner = Inr res"
    and "finish_discover D L J now miner (run_discoverer (Some (\<lambda>_ _. res)) p miner) r = (e, r')"
  shows "(\<forall>q. q \<noteq> p \<longrightarrow> rg_providers r' q = rg_providers r q) \<and>
    (rg_providers r' p \<noteq> rg_providers r p \<longrightarrow>
      (\<exists>address head mi. lg_address G miner = Inr address \<and> lg_chain_head G url = Inr head \<and>
        lg_state_miner_info G url address head = Inr mi \<and> mi_peer_id mi = Some p \<and>
        rg_providers r' p = Some ((new_provider_info
          \<lparr>ai_id = p, ai_addrs = miner_multiaddrs G (mi_multiaddrs mi)\<rparr>)\<lparr>pi_discovery_addr := miner\<rparr>))) \<and>
    (isl res \<longrightarrow> e \<noteq> None) \<and> rg_discover_times r' miner = Some now"
proof (cases res)
  case (Inl err)
  then show ?thesis using assms(2) by (auto simp: run_discoverer_def finish_discover_def Let_def)
next
  case (Inr info)
  have found: "lotus_discover G url p miner = Inr (Inr info)" using assms(1) Inr by simp
  obtain address head mi where mi: "lg_address G miner = Inr address" "lg_chain_head G url = Inr head"
      "lg_state_miner_info G url address head = Inr mi" "mi_peer_id mi = Some p"
      "info = \<lparr>ai_id = p, ai_addrs = miner_multiaddrs G (mi_multiaddrs mi)\<rparr>"
    by (rule lotus_discover_found [OF found])
  have r': "r' = snd (finish_discover D L J now miner (Inr info) r)"
    using assms(2) Inr by (simp add: run_discoverer_def)
  show ?thesis unfolding r' finish_discover_found using mi Inr by auto
qed

text \<open>
  The default gateway of the configuration is written with its scheme, which the discoverer takes for
  a part of the host and escapes: the URL names no host of the network.
\<close>

theorem default_gateway_is_escaped:
  "new_discoverer (dv_lotus_gateway new_discovery) = Inr ''https://https:%2F%2Fapi.chain.love/rpc/v1''"
  by code_simp

text \<open>A gateway that knows one miner.\<close>

definition example_gateway :: lotus_gateway where
  "example_gateway =
     \<lparr>lg_address = (\<lambda>a. if a = ''f01'' then Inr a else Inl ''unknown address''),
      lg_chain_head = (\<lambda>_. Inr [''head'']),
      lg_state_miner_info = (\<lambda>_ a _. Inr \<lparr>mi_peer_id = Some ''p1'', mi_multiaddrs = [''a1'', [], ''a2'']\<rparr>),
      lg_multiaddr_bytes = (\<lambda>b. if b = [] then Inl ''empty multiaddr'' else Inr (Multiaddr b))\<rparr>"

theorem lotus_discovery_registers_the_miner_witness:
  "\<exists>res e r'. lotus_discover example_gateway ''url'' ''p1'' ''f01'' = Inr res \<and>
     finish_discover alist_ds hex_lib plain_json 7 ''f01'' (run_discoverer (Some (\<lambda>_ _. res)) ''p1'' ''f01'')
       (snd (discover_provider 3 ''p1'' ''f01'' (start_registry None open_policy)) :: (string \<times> bytes) list registry) = (e, r') \<and>
     rg_providers r' ''p1'' \<noteq> None \<and> rg_providers r' ''p2'' = None \<and>
     map_option pi_addrs (rg_providers r' ''p1'') = Some [Multiaddr ''a1'', Multiaddr ''a2'']"
proof -
  let ?r = "snd (discover_provider 3 ''p1'' ''f01'' (start_registry None open_policy)) :: (string \<times> bytes) list registry"
  obtain res where res: "lotus_discover example_gateway ''url'' ''p1'' ''f01'' = Inr res"
    using lotus_discover_total by blast
  obtain e r' where fin: "finish_discover alist_ds hex_lib plain_json 7 ''f01''
      (run_discoverer (Some (\<lambda>_ _. res)) ''p1'' ''f01'') ?r = (e, r')" by fastforce
  have start: "rg_providers ?r = Map.empty"
    by (simp add: discover_provider_def sync_start_discover_def start_registry_def split: option.split)
  have "res = Inr \<lparr>ai_id = ''p1'', ai_addrs = [Multiaddr ''a1'', Multiaddr ''a2'']\<rparr>"
    using res by (simp add: lotus_discover_def example_gateway_def get_miner_peer_addr_def miner_multiaddrs_def
        map_filter_simps)
  then have "rg_providers r' ''p1'' \<noteq> None"
    using fin finish_discover_found(1) [of alist_ds hex_lib plain_json 7 "''f01''" _ ?r]
    by (auto simp: run_discoverer_def dest!: arg_cong [where f = snd])
  then show ?thesis
    using lotus_discovery_registers_the_miner [OF res fin] res fin start
    by (auto simp: example_gateway_def miner_multiaddrs_def map_filter_simps new_provider_info_def)
qed

end
