(* ===== verification/Daemon_Start.thy ===== *)
theory Daemon_Start
  imports Daemon_Properties Registry_Lifecycle Lotus
begin

text \<open>
  Starting: \<open>NewIngester\<close> of \<^verbatim>\<open>internal/ingest/ingest.go\<close>, and \<open>daemonCommand\<close> of
  \<^verbatim>\<open>command/daemon.go\<close> up to its main loop. The constructors of the libraries are arguments; those of
  the repository are the definitions of the other theories, composed in the order of the code.
\<close>

section \<open>Starting the ingester\<close>

text \<open>
  The ingester with its rate limit, the number of its workers, and the limits its syncs are made with.
\<close>

record ('d, 'i) ingester_start =
  is_ingester :: "('d, 'i) ingester"
  is_rate :: rate_settings
  is_pool :: nat
  is_entries_limit :: recursion_limit
  is_ad_limit :: recursion_limit
  is_segment_limit :: int

text \<open>
  A rate limit that is not valid is only logged. \<open>subscribed\<close> says whether the subscriber could be
  made; the result is \<open>None\<close> when stopping workers never ends.
\<close>

definition new_ingester ::
    "(string \<Rightarrow> string + peer_id) \<Rightarrow> bool \<Rightarrow> ingest_config \<Rightarrow> 'i \<Rightarrow> 'd registry \<Rightarrow> 'd \<Rightarrow>
       (go_error + ('d, 'i) ingester_start) option" where
  "new_ingester decode subscribed cfg i r d =
     (if \<not> subscribed then Some (Inl (ErrMsg ''ingester subscriber failed''))
      else if ic_ingest_worker_count cfg = 0 then Some (Inl (ErrMsg ''ingester worker count must be > 0''))
      else
        (case run_workers (ic_ingest_worker_count cfg) 0 of
           None \<Rightarrow> None
         | Some n \<Rightarrow> Some (Inr
             \<lparr>is_ingester = \<lparr>in_ds = d, in_indexer = i, in_reg = r, in_batch_size = word_of_int (ic_store_batch_size cfg)\<rparr>,
              is_rate = (case config_rate_limit decode (ic_rate_limit cfg) of Inl e \<Rightarrow> no_rate_settings | Inr rate \<Rightarrow> rate),
              is_pool = n, is_entries_limit = recursion_limit_of (ic_entries_depth_limit cfg),
              is_ad_limit = recursion_limit_of (ic_advertisement_depth_limit cfg),
              is_segment_limit = ic_sync_segment_depth_limit cfg\<rparr>)))"

section \<open>Starting the daemon\<close>

text \<open>Results of a start: an error, an exit with a code, or what the continuation makes of the value.\<close>

datatype 'a start = Fails go_error | Exits int | Hangs | Started 'a

definition attempt :: "go_error + 'a \<Rightarrow> ('a \<Rightarrow> 'b start go) \<Rightarrow> 'b start go" where
  "attempt m k = (case m of Inl e \<Rightarrow> Inr (Fails e) | Inr a \<Rightarrow> k a)"

lemma attempt_simps [simp]: "attempt (Inl e) k = Inr (Fails e)" "attempt (Inr a) k = k a"
  by (simp_all add: attempt_def)

definition start_bind :: "'a start go \<Rightarrow> ('a \<Rightarrow> 'b start go) \<Rightarrow> 'b start go" where
  "start_bind m k = go_bind m (\<lambda>res.
     case res of Fails e \<Rightarrow> Inr (Fails e) | Exits n \<Rightarrow> Inr (Exits n) | Hangs \<Rightarrow> Inr Hangs | Started a \<Rightarrow> k a)"

record start_flags =
  sf_cache_size :: int
  sf_no_finder :: bool
  sf_no_p2p :: bool
  sf_no_ingest :: bool
  sf_no_admin :: bool

text \<open>
  The libraries: opening the datastore, the core index over a value store, the network address of a
  multiaddr, listening on it, the libp2p host with its key and address, the subscriber, and connecting
  to bootstrap peers.
\<close>

record ('f, 'd, 'v, 'i, 'k) start_lib =
  sl_dirs :: "'f dirs"
  sl_stores :: "('f, 'v) stores"
  sl_engine :: "int option \<Rightarrow> 'v \<Rightarrow> 'i"
  sl_datastore :: "'f \<Rightarrow> string \<Rightarrow> (go_error + 'd) \<times> 'f"
  sl_net_addr :: "multiaddr \<Rightarrow> go_error + string"
  sl_listen :: "string \<Rightarrow> go_error option"
  sl_host :: "'k \<Rightarrow> multiaddr \<Rightarrow> bool \<Rightarrow> go_error option"
  sl_subscribe :: "ingest_config \<Rightarrow> bool"
  sl_bootstrap :: "peer_id \<Rightarrow> addr_info list \<Rightarrow> int \<Rightarrow> go_error option"

text \<open>An HTTP server: its address is parsed and listened on; \<open>what\<close> names it in the error.\<close>

definition start_server ::
    "lib \<Rightarrow> ('f, 'd, 'v, 'i, 'k) start_lib \<Rightarrow> string \<Rightarrow> string \<Rightarrow> go_error + unit" where
  "start_server L N what addr =
     (case lib_new_multiaddr L addr of
        Inl e \<Rightarrow> Inl (ErrMsg (''bad '' @ what @ '' address in config '' @ addr @ '': '' @ e))
      | Inr a \<Rightarrow>
          (case sl_net_addr N a of
             Inl e \<Rightarrow> Inl e
           | Inr listen \<Rightarrow> (case sl_listen N listen of Some e \<Rightarrow> Inl e | None \<Rightarrow> Inr ())))"

definition p2p_enabled :: "start_flags \<Rightarrow> config \<Rightarrow> bool" where
  "p2p_enabled F cfg \<longleftrightarrow> la_p2p_addr (cf_addresses cfg) \<noteq> ''none'' \<and> \<not> sf_no_p2p F"

text \<open>The bootstrap peers are connected to when there are any and a minimum is set.\<close>

definition start_bootstrap ::
    "'f config_env \<Rightarrow> ('f, 'd, 'v, 'i, 'k) start_lib \<Rightarrow> peer_id \<Rightarrow> bootstrap_config \<Rightarrow> go_error + unit" where
  "start_bootstrap C N p cfg =
     (if bs_peers cfg \<noteq> [] \<and> bs_minimum_peers cfg \<noteq> 0 then
        (case parse_peers C (bs_peers cfg) of
           Inl e \<Rightarrow> Inl (ErrMsg (''bad bootstrap peer: '' @ error_string e))
         | Inr addrs \<Rightarrow>
             (case sl_bootstrap N p addrs (bs_minimum_peers cfg) of
                Some e \<Rightarrow> Inl (ErrMsg (''bootstrap failed: '' @ error_string e))
              | None \<Rightarrow> Inr ()))
      else Inr ())"

definition start_p2p ::
    "'f config_env \<Rightarrow> ('k, 'p) key_lib \<Rightarrow> ('f, 'd, 'v, 'i, 'k) start_lib \<Rightarrow> 'q peering_lib \<Rightarrow> config \<Rightarrow> 'f \<Rightarrow>
       'i \<Rightarrow> 'd registry \<Rightarrow> 'd \<Rightarrow> (('d, 'i) ingester_start \<times> 'q option) option start go" where
  "start_p2p C K N P cfg f i r d =
     attempt (decode_identity C K f (cf_identity cfg)) (\<lambda>(p, key).
     (let addr = la_p2p_addr (cf_addresses cfg) in
      attempt (case lib_new_multiaddr (ce_lib C) addr of
             Inl e \<Rightarrow> Inl (ErrMsg (''bad p2p address in config '' @ addr @ '': '' @ e)) | Inr a \<Rightarrow> Inr a) (\<lambda>a.
      attempt (case sl_host N key a (la_no_resource_manager (cf_addresses cfg)) of Some e \<Rightarrow> Inl e | None \<Rightarrow> Inr ()) (\<lambda>_.
      (case new_ingester (lib_peer_decode (ce_lib C)) (sl_subscribe N (cf_ingest cfg)) (cf_ingest cfg) i r d of
         None \<Rightarrow> Inr Hangs
       | Some res \<Rightarrow>
           attempt res (\<lambda>ing.
           attempt (start_bootstrap C N p (cf_bootstrap cfg)) (\<lambda>_.
           attempt (case reload_peering C P (cf_peering cfg) None of
                  Inl e \<Rightarrow> Inl (ErrMsg (''error reloading peering service: '' @ error_string e)) | Inr q \<Rightarrow> Inr q) (\<lambda>q.
           Inr (Started (Some (ing, q)))))))))))"

text \<open>What a start has made when it is complete.\<close>

record ('d, 'v, 'i, 'q) started_daemon =
  sn_cfg :: config
  sn_value_store :: 'v
  sn_registry :: "'d registry"
  sn_poll :: polling
  sn_overrides :: "peer_id \<rightharpoonup> polling"
  sn_finder :: bool
  sn_p2p :: "(('d, 'i) ingester_start \<times> 'q option) option"
  sn_ingest :: bool
  sn_admin :: bool

text \<open>The HTTP servers for ingestion and administration; the latter cannot do without an ingester.\<close>

definition start_servers ::
    "lib \<Rightarrow> ('f, 'd, 'v, 'i, 'k) start_lib \<Rightarrow> start_flags \<Rightarrow> ('d, 'v, 'i, 'q) started_daemon \<Rightarrow>
       ('d, 'v, 'i, 'q) started_daemon start go" where
  "start_servers L N F s =
     (let addresses = cf_addresses (sn_cfg s);
          ingest = la_ingest addresses \<noteq> ''none'' \<and> \<not> sf_no_ingest F;
          admin = la_admin addresses \<noteq> [] \<and> \<not> sf_no_admin F
      in attempt (if ingest then start_server L N ''ingest'' (la_ingest addresses) else Inr ()) (\<lambda>_.
         if \<not> admin then Inr (Started (s\<lparr>sn_ingest := ingest\<rparr>))
         else
           (case lib_new_multiaddr L (la_admin addresses) of
              Inl e \<Rightarrow> Inr (Fails (ErrMsg (''bad admin address in config '' @ la_admin addresses @ '': '' @ e)))
            | Inr a \<Rightarrow>
                attempt (sl_net_addr N a) (\<lambda>listen.
                if sn_p2p s = None then Inl (ExplicitPanic ''ingester cannot be nil'')
                else
                  (case sl_listen N listen of
                     Some e \<Rightarrow> Inr (Fails e)
                   | None \<Rightarrow> Inr (Started (s\<lparr>sn_ingest := ingest, sn_admin := True\<rparr>)))))))"

text \<open>Everything up to the registry: the stores, the datastore, and the client of the chain.\<close>

definition start_stores ::
    "'f config_env \<Rightarrow> ('f, 'd, 'v, 'i, 'k) start_lib \<Rightarrow> config \<Rightarrow> 'f \<Rightarrow> (go_error + 'v \<times> 'd) \<times> 'f" where
  "start_stores C N cfg f =
     (case create_value_store C (sl_dirs N) (sl_stores N) (cf_indexer cfg) f of
        (Inl e, f) \<Rightarrow> (Inl e, f)
      | (Inr v, f) \<Rightarrow>
          (case config_path C [] (dc_dir (cf_datastore cfg)) of
             Inl e \<Rightarrow> (Inl e, f)
           | Inr path \<Rightarrow>
               (case check_writable (sl_dirs N) path f of
                  (Some e, f) \<Rightarrow> (Inl e, f)
                | (None, f) \<Rightarrow>
                    (case sl_datastore N f path of
                       (Inl e, f) \<Rightarrow> (Inl e, f)
                     | (Inr d, f) \<Rightarrow>
                         if dv_lotus_gateway (cf_discovery cfg) = ''none'' then (Inr (v, d), f)
                         else
                           (case new_discoverer (dv_lotus_gateway (cf_discovery cfg)) of
                              Inl e \<Rightarrow> (Inl (ErrMsg (''cannot create lotus client: '' @ error_string e)), f)
                            | Inr url \<Rightarrow> (Inr (v, d), f))))))"

definition daemon_start ::
    "('f, 'g) daemon_env \<Rightarrow> ('d datastore) \<Rightarrow> json_codec \<Rightarrow> ('k, 'p) key_lib \<Rightarrow> ('f, 'd, 'v, 'i, 'k) start_lib \<Rightarrow>
       'q peering_lib \<Rightarrow> start_flags \<Rightarrow> 'f \<Rightarrow> 'g \<Rightarrow> (('d, 'v, 'i, 'q) started_daemon start go) \<times> 'f \<times> 'g" where
  "daemon_start V D J K N P F f g =
     (case daemon_load_config (de_quote V) (de_config V) [] f of
        Inl p \<Rightarrow> (Inl p, f, g)
      | Inr (Inl e) \<Rightarrow>
          (Inr (if e = ErrWrap ''cannot load config file: '' err_not_initialized then Exits 1 else Fails e), f, g)
      | Inr (Inr cfg) \<Rightarrow>
          (case set_logging_config (de_set_level V) (de_logger_order V) (cf_logging cfg) g of
             (Some e, g) \<Rightarrow> (Inr (Fails e), f, g)
           | (None, g) \<Rightarrow>
               (case start_stores (de_config V) N cfg f of
                  (Inl e, f) \<Rightarrow> (Inr (Fails e), f, g)
                | (Inr (v, d), f) \<Rightarrow>
                    (go_bind (new_registry (de_quote V) D (de_lib V) J (cf_discovery cfg) (Some d)) (\<lambda>reg.
                     attempt (case reg of
                         Inl e \<Rightarrow> Inl (ErrMsg (''cannot create provider registry: '' @ error_string e)) | Inr x \<Rightarrow> Inr x)
                       (\<lambda>(r, poll, overrides).
                     let finder = la_finder (cf_addresses cfg) \<noteq> ''none'' \<and> \<not> sf_no_finder F;
                         i = sl_engine N (result_cache_size (sf_cache_size F) (cf_indexer cfg)) v
                     in attempt (if finder then start_server (de_lib V) N ''finder'' (la_finder (cf_addresses cfg)) else Inr ())
                       (\<lambda>_.
                     start_bind (if p2p_enabled F cfg then start_p2p (de_config V) K N P cfg f i r d else Inr (Started None))
                       (\<lambda>p2p.
                     start_servers (de_lib V) N F
                       \<lparr>sn_cfg = cfg, sn_value_store = v, sn_registry = r, sn_poll = poll, sn_overrides = overrides,
                        sn_finder = finder, sn_p2p = p2p, sn_ingest = False, sn_admin = False\<rparr>)))), f, g))))"

section \<open>Properties\<close>

lemma attempt_Started: "attempt m k = Inr (Started x) \<longleftrightarrow> (\<exists>a. m = Inr a \<and> k a = Inr (Started x))"
  by (cases m) simp_all

lemma start_bind_Started: "start_bind m k = Inr (Started x) \<longleftrightarrow> (\<exists>a. m = Inr (Started a) \<and> k a = Inr (Started x))"
  by (auto simp: start_bind_def go_bind_def split: sum.splits start.splits)

lemmas start_results = attempt_Started start_bind_Started go_bind_eq_Inr

lemma daemon_start_Started:
  assumes "daemon_start V D J K N P F f g = (Inr (Started s), f', g')"
  obtains cfg v d r poll overrides p2p where
    "daemon_load_config (de_quote V) (de_config V) [] f = Inr (Inr cfg)"
    "set_logging_config (de_set_level V) (de_logger_order V) (cf_logging cfg) g = (None, g')"
    "start_stores (de_config V) N cfg f = (Inr (v, d), f')"
    "new_registry (de_quote V) D (de_lib V) J (cf_discovery cfg) (Some d) = Inr (Inr (r, poll, overrides))"
    "(if p2p_enabled F cfg then start_p2p (de_config V) K N P cfg f'
        (sl_engine N (result_cache_size (sf_cache_size F) (cf_indexer cfg)) v) r d else Inr (Started None)) = Inr (Started p2p)"
    "start_servers (de_lib V) N F
       \<lparr>sn_cfg = cfg, sn_value_store = v, sn_registry = r, sn_poll = poll, sn_overrides = overrides,
        sn_finder = la_finder (cf_addresses cfg) \<noteq> ''none'' \<and> \<not> sf_no_finder F, sn_p2p = p2p, sn_ingest = False,
        sn_admin = False\<rparr> = Inr (Started s)"
proof -
  obtain cfg where cfg: "daemon_load_config (de_quote V) (de_config V) [] f = Inr (Inr cfg)"
    using assms by (auto simp: daemon_start_def split: sum.splits if_splits)
  obtain g0 where log: "set_logging_config (de_set_level V) (de_logger_order V) (cf_logging cfg) g = (None, g0)"
    using assms cfg by (auto simp: daemon_start_def split: prod.splits option.splits)
  obtain v d f0 where st: "start_stores (de_config V) N cfg f = (Inr (v, d), f0)"
    using assms cfg log by (auto simp: daemon_start_def split: prod.splits sum.splits)
  let ?reg = "new_registry (de_quote V) D (de_lib V) J (cf_discovery cfg) (Some d)"
  note start = assms [unfolded daemon_start_def cfg sum.case log prod.case option.case st]
  obtain reg where reg: "?reg = Inr reg"
    using start by (cases ?reg) auto
  obtain r poll overrides where "reg = Inr (r, poll, overrides)"
    using start reg by (cases reg) auto
  then show ?thesis
    using start cfg log st reg by (auto simp: start_results Let_def intro: that)
qed

lemma start_servers_Started:
  assumes "start_servers L N F s0 = Inr (Started s)"
  shows "sn_cfg s = sn_cfg s0" "sn_registry s = sn_registry s0" "sn_p2p s = sn_p2p s0" "sn_finder s = sn_finder s0"
    "sn_value_store s = sn_value_store s0" "sn_poll s = sn_poll s0" "sn_overrides s = sn_overrides s0"
    and "sn_ingest s \<longleftrightarrow> la_ingest (cf_addresses (sn_cfg s0)) \<noteq> ''none'' \<and> \<not> sf_no_ingest F"
    and "\<not> sn_admin s0 \<Longrightarrow> sn_admin s \<longleftrightarrow> la_admin (cf_addresses (sn_cfg s0)) \<noteq> [] \<and> \<not> sf_no_admin F"
    and "la_admin (cf_addresses (sn_cfg s0)) \<noteq> [] \<and> \<not> sf_no_admin F \<Longrightarrow> sn_p2p s0 \<noteq> None"
  using assms
  by (auto simp: start_servers_def Let_def start_results split: if_splits sum.splits option.splits)

lemma new_ingester_started:
  assumes "new_ingester decode b cfg i r d = Some (Inr ing)"
  shows "is_ingester ing = \<lparr>in_ds = d, in_indexer = i, in_reg = r, in_batch_size = word_of_int (ic_store_batch_size cfg)\<rparr>"
    and "0 < ic_ingest_worker_count cfg" and "int (is_pool ing) = ic_ingest_worker_count cfg"
    and "config_rate_limit decode (ic_rate_limit cfg) = Inr rate \<Longrightarrow> is_rate ing = rate"
    and "isl (config_rate_limit decode (ic_rate_limit cfg)) \<Longrightarrow> is_rate ing = no_rate_settings"
  using assms
  by (auto simp: new_ingester_def run_workers_def split: if_splits sum.splits option.splits)

lemma start_p2p_Started:
  assumes "start_p2p C K N P cfg f i r d = Inr (Started p2p)"
  obtains ing q p key where "p2p = Some (ing, q)" "decode_identity C K f (cf_identity cfg) = Inr (p, key)"
    "new_ingester (lib_peer_decode (ce_lib C)) (sl_subscribe N (cf_ingest cfg)) (cf_ingest cfg) i r d = Some (Inr ing)"
    "reload_peering C P (cf_peering cfg) None = Inr q"
proof -
  let ?new = "new_ingester (lib_peer_decode (ce_lib C)) (sl_subscribe N (cf_ingest cfg)) (cf_ingest cfg) i r d"
  let ?peering = "reload_peering C P (cf_peering cfg) None"
  obtain res where res: "?new = Some res"
    using assms by (cases ?new) (auto simp: start_p2p_def Let_def start_results)
  obtain ing where ing: "res = Inr ing"
    using assms res by (cases res) (auto simp: start_p2p_def Let_def start_results)
  obtain q where "?peering = Inr q"
    using assms res ing by (cases ?peering) (auto simp: start_p2p_def Let_def start_results)
  then show ?thesis
    using assms res ing that by (auto simp: start_p2p_def Let_def start_results)
qed

text \<open>C26: A daemon that starts is the one its configuration and flags describe: the finder, ingest and
  admin servers and the libp2p host run exactly when they are enabled; the registry has the configured
  policy and polling and only allowed providers; and with libp2p the ingester works on that registry
  with the configured number of workers, batch size and, when it is valid, rate limit - without any
  limit when it is not. The admin server never runs without an ingester.
\<close>

theorem daemon_starts_as_configured:
  assumes "daemon_start V D J K N P F f g = (Inr (Started s), f', g')"
  shows "daemon_load_config (de_quote V) (de_config V) [] f = Inr (Inr (sn_cfg s)) \<and>
    (sn_finder s \<longleftrightarrow> la_finder (cf_addresses (sn_cfg s)) \<noteq> ''none'' \<and> \<not> sf_no_finder F) \<and>
    (sn_ingest s \<longleftrightarrow> la_ingest (cf_addresses (sn_cfg s)) \<noteq> ''none'' \<and> \<not> sf_no_ingest F) \<and>
    (sn_admin s \<longleftrightarrow> la_admin (cf_addresses (sn_cfg s)) \<noteq> [] \<and> \<not> sf_no_admin F) \<and>
    (sn_p2p s \<noteq> None \<longleftrightarrow> p2p_enabled F (sn_cfg s)) \<and> (sn_admin s \<longrightarrow> sn_p2p s \<noteq> None) \<and>
    policy_new (lib_peer_decode (de_lib V)) (dv_policy (cf_discovery (sn_cfg s))) = Inr (rg_policy (sn_registry s)) \<and>
    sn_poll s = poll_settings (cf_discovery (sn_cfg s)) \<and>
    (\<forall>p. rg_providers (sn_registry s) p \<noteq> None \<longrightarrow> policy_allowed (rg_policy (sn_registry s)) p) \<and>
    (\<forall>ing q. sn_p2p s = Some (ing, q) \<longrightarrow>
      in_reg (is_ingester ing) = sn_registry s \<and> 0 < is_pool ing \<and>
      int (is_pool ing) = ic_ingest_worker_count (cf_ingest (sn_cfg s)) \<and>
      batch_size (is_ingester ing) = ic_store_batch_size (cf_ingest (sn_cfg s)) mod 2 ^ 32 \<and>
      (case config_rate_limit (lib_peer_decode (ce_lib (de_config V))) (ic_rate_limit (cf_ingest (sn_cfg s))) of
         Inr rate \<Rightarrow> is_rate ing = rate | Inl e \<Rightarrow> is_rate ing = no_rate_settings))"
proof -
  obtain cfg v d r poll overrides p2p where
    load: "daemon_load_config (de_quote V) (de_config V) [] f = Inr (Inr cfg)"
    and "set_logging_config (de_set_level V) (de_logger_order V) (cf_logging cfg) g = (None, g')"
    and "start_stores (de_config V) N cfg f = (Inr (v, d), f')"
    and reg: "new_registry (de_quote V) D (de_lib V) J (cf_discovery cfg) (Some d) = Inr (Inr (r, poll, overrides))"
    and host: "(if p2p_enabled F cfg then start_p2p (de_config V) K N P cfg f'
        (sl_engine N (result_cache_size (sf_cache_size F) (cf_indexer cfg)) v) r d else Inr (Started None)) = Inr (Started p2p)"
    and servers: "start_servers (de_lib V) N F
       \<lparr>sn_cfg = cfg, sn_value_store = v, sn_registry = r, sn_poll = poll, sn_overrides = overrides,
        sn_finder = la_finder (cf_addresses cfg) \<noteq> ''none'' \<and> \<not> sf_no_finder F, sn_p2p = p2p, sn_ingest = False,
        sn_admin = False\<rparr> = Inr (Started s)"
    by (rule daemon_start_Started [OF assms])
  note s = start_servers_Started [OF servers, simplified]
  have enabled: "p2p \<noteq> None \<longleftrightarrow> p2p_enabled F cfg"
  proof (cases "p2p_enabled F cfg")
    case True
    then show ?thesis using host start_p2p_Started [of "de_config V" K N P cfg f' _ r d p2p] by fastforce
  qed (use host in simp)
  have ing: "in_reg (is_ingester ing) = r \<and> 0 < is_pool ing \<and>
      int (is_pool ing) = ic_ingest_worker_count (cf_ingest cfg) \<and>
      batch_size (is_ingester ing) = ic_store_batch_size (cf_ingest cfg) mod 2 ^ 32 \<and>
      (case config_rate_limit (lib_peer_decode (ce_lib (de_config V))) (ic_rate_limit (cf_ingest cfg)) of
         Inr rate \<Rightarrow> is_rate ing = rate | Inl e \<Rightarrow> is_rate ing = no_rate_settings)" if p2p: "p2p = Some (ing, q)" for ing q
  proof -
    have "p2p_enabled F cfg" using enabled p2p by simp
    then have "start_p2p (de_config V) K N P cfg f'
        (sl_engine N (result_cache_size (sf_cache_size F) (cf_indexer cfg)) v) r d = Inr (Started p2p)" using host by simp
    then obtain ing' q' where "p2p = Some (ing', q')"
      and new: "new_ingester (lib_peer_decode (ce_lib (de_config V))) (sl_subscribe N (cf_ingest cfg)) (cf_ingest cfg)
        (sl_engine N (result_cache_size (sf_cache_size F) (cf_indexer cfg)) v) r d = Some (Inr ing')"
      by (rule start_p2p_Started)
    then have "ing' = ing" using p2p by simp
    note ing = new_ingester_started [OF new [unfolded this]]
    show ?thesis
      using ing(1-4) ing(5) by (auto simp: batch_size_def uint_word_of_int split: sum.split)
  qed
  show ?thesis
    using load s enabled new_registry_follows_config [OF reg] ing by auto
qed

lemma loaded_admin_address:
  assumes "daemon_load_config quote C path f = Inr (Inr cfg)"
  shows "la_admin (cf_addresses cfg) \<noteq> []"
proof -
  have "load_config C path f = Inr (Inr cfg)"
  proof -
    obtain res where res: "load_config C path f = Inr res"
      using assms by (cases "load_config C path f") (simp_all add: daemon_load_config_def)
    then show ?thesis using assms by (cases res) (auto simp: daemon_load_config_def split: if_split_asm)
  qed
  then obtain c where "cfg = populate_unset c"
    by (auto simp: load_config_def go_bind_eq_Inr map_sum_eq_Inr case_sum_Inr(1) split: sum.split_asm open_result.split_asm)
  then show ?thesis by (simp add: populate_unset_def populate_addresses_def new_addresses_def or_text_def)
qed

lemma start_servers_no_ingester:
  assumes "la_admin (cf_addresses (sn_cfg s)) \<noteq> []" and "\<not> sf_no_admin F" and "sn_p2p s = None"
  shows "(\<exists>e. start_servers L N F s = Inr (Fails e)) \<or> (\<exists>p. start_servers L N F s = Inl p)"
  using assms by (auto simp: start_servers_def Let_def attempt_def split: sum.split option.split)

text \<open>
  Without libp2p an enabled admin server keeps the daemon from starting. The admin server is
  enabled unless its flag is set, since its address is never empty in a loaded configuration, and
  without libp2p there is no ingester for it: the daemon exits with an error or panics, whatever the
  libraries do.
\<close>

theorem admin_without_p2p_never_starts:
  assumes "daemon_load_config (de_quote V) (de_config V) [] f = Inr (Inr cfg)"
    and "\<not> p2p_enabled F cfg" and "\<not> sf_no_admin F"
    and "daemon_start V D J K N P F f g = (res, f', g')"
  shows "(\<exists>e. res = Inr (Fails e)) \<or> (\<exists>p. res = Inl p)"
proof -
  have admin: "la_admin (cf_addresses cfg) \<noteq> []" by (rule loaded_admin_address [OF assms(1)])
  note start = assms(4) [unfolded daemon_start_def assms(1) sum.case]
  obtain e g0 where log: "set_logging_config (de_set_level V) (de_logger_order V) (cf_logging cfg) g = (e, g0)"
    by fastforce
  obtain st f0 where st: "start_stores (de_config V) N cfg f = (st, f0)" by fastforce
  show ?thesis
  proof (cases "e = None \<and> \<not> isl st")
    case False
    then show ?thesis using start log st by (cases e; cases st) auto
  next
    case True
    then obtain v d where vd: "st = Inr (v, d)" by (cases st) auto
    let ?reg = "new_registry (de_quote V) D (de_lib V) J (cf_discovery cfg) (Some d)"
    note start = start [unfolded log st vd prod.case sum.case True [THEN conjunct1] option.case]
    show ?thesis
    proof (cases "?reg")
      case (Inr reg)
      show ?thesis
      proof (cases reg)
        case (Inr x)
        obtain r poll overrides where x: "x = (r, poll, overrides)" by (cases x)
        let ?finder = "la_finder (cf_addresses cfg) \<noteq> ''none'' \<and> \<not> sf_no_finder F"
        show ?thesis
        proof (cases "if ?finder then start_server (de_lib V) N ''finder'' (la_finder (cf_addresses cfg)) else Inr ()")
          case (Inr u)
          have "res = start_servers (de_lib V) N F
            \<lparr>sn_cfg = cfg, sn_value_store = v, sn_registry = r, sn_poll = poll, sn_overrides = overrides,
             sn_finder = ?finder, sn_p2p = None, sn_ingest = False, sn_admin = False\<rparr>"
            using start \<open>?reg = Inr reg\<close> \<open>reg = Inr x\<close> x Inr assms(2)
            by (simp add: start_bind_def Let_def)
          then show ?thesis
            by (simp only:) (rule start_servers_no_ingester, simp_all add: admin assms(3))
        qed (use start \<open>?reg = Inr reg\<close> \<open>reg = Inr x\<close> x in \<open>auto simp: Let_def\<close>)
      qed (use start Inr in auto)
    qed (use start in auto)
  qed
qed

section \<open>A concrete start\<close>

definition start_config :: config where
  "start_config = example_config\<lparr>cf_identity := \<lparr>id_peer_id = [], id_priv_key = ''k1''\<rparr>\<rparr>"

definition start_path :: string where
  "start_path = ''~/.storetheindex/config''"

definition start_files :: "(string \<times> bytes) list" where
  "start_files = [(start_path, co_write json_coder (jc_enc (config_json example_env) start_config))]"

definition example_start ::
    "((string \<times> bytes) list, (string \<times> bytes) list, unit, contents, string) start_lib" where
  "example_start =
     \<lparr>sl_dirs = \<lparr>dr_expand = Inr, dr_stat = (\<lambda>_ _. Missing ''no such file''), dr_create = (\<lambda>f _. (Present, f)),
                 dr_remove = (\<lambda>f _. (None, f)), dr_mkdir = (\<lambda>f _. (None, f))\<rparr>,
      sl_stores = \<lparr>st_storethehash = (\<lambda>f _ _. (Inr (), f)), st_pogreb = (\<lambda>f _. (Inr (), f)), st_memory = ()\<rparr>,
      sl_engine = (\<lambda>_ _. empty_contents), sl_datastore = (\<lambda>f _. (Inr [], f)), sl_net_addr = (\<lambda>_. Inr ''addr''),
      sl_listen = (\<lambda>_. None), sl_host = (\<lambda>_ _ _. None), sl_subscribe = (\<lambda>_. True), sl_bootstrap = (\<lambda>_ _ _. None)\<rparr>"

definition all_flags :: start_flags where
  "all_flags = \<lparr>sf_cache_size = 0, sf_no_finder = False, sf_no_p2p = False, sf_no_ingest = False, sf_no_admin = False\<rparr>"

lemma start_config_filename: "config_filename example_env [] = Inr start_path"
  unfolding start_path_def by code_simp

lemma start_config_ok:
  "jc_valid (config_json example_env) start_config" "json_utf8 (jc_enc (config_json example_env) start_config)"
proof -
  show "jc_valid (config_json example_env) start_config"
    using example_config_valid [of example_env 1]
    by (simp add: config_valid_iff start_config_def example_config_def in_int64_def)
  show "json_utf8 (jc_enc (config_json example_env) start_config)"
    unfolding config_json_def config_fields_def setting_fields start_config_def example_config_def defaults
    by (simp add: utf8_codecs utf8_ascii)
qed

lemma start_load:
  "\<exists>m. load_config example_env [] start_files = Inr (Inr (populate_unset
     (start_config\<lparr>cf_logging := (cf_logging start_config)\<lparr>lg_loggers := m\<rparr>\<rparr>)))"
proof -
  have stored: "fl_read (ce_files example_env) start_files start_path =
      Opened (ce_print example_env (jc_enc (config_json example_env) start_config))"
    by (simp add: start_files_def example_env_def alist_files_def)
  have "start_path \<noteq> []" by (simp add: start_path_def)
  moreover have "load_config example_env [] start_files = load_config example_env start_path start_files"
    using calculation by (simp add: load_config_def start_config_filename)
  ultimately show ?thesis
    using load_config_file [OF example_env_laws _ stored start_config_ok example_bootstrap] by auto
qed

lemma start_daemon_load:
  obtains cfg where "daemon_load_config id example_env [] start_files = Inr (Inr cfg)"
    "cf_identity cfg = \<lparr>id_peer_id = [], id_priv_key = ''k1''\<rparr>" "cf_addresses cfg = new_addresses"
    "cf_bootstrap cfg = \<lparr>bs_peers = [], bs_minimum_peers = 0\<rparr>" "cf_discovery cfg = new_discovery"
    "cf_ingest cfg = populate_ingest (new_ingest\<lparr>ic_store_batch_size := 0\<rparr>)" "cf_peering cfg = new_peering"
    "cf_indexer cfg = new_indexer" "cf_datastore cfg = new_datastore"
proof -
  obtain m where m: "load_config example_env [] start_files = Inr (Inr (populate_unset
      (start_config\<lparr>cf_logging := (cf_logging start_config)\<lparr>lg_loggers := m\<rparr>\<rparr>)))"
    using start_load by blast
  let ?cfg = "populate_unset (start_config\<lparr>cf_logging := (cf_logging start_config)\<lparr>lg_loggers := m\<rparr>\<rparr>)"
  have fields: "cf_identity ?cfg = \<lparr>id_peer_id = [], id_priv_key = ''k1''\<rparr>" "cf_addresses ?cfg = new_addresses"
    "cf_bootstrap ?cfg = \<lparr>bs_peers = [], bs_minimum_peers = 0\<rparr>" "cf_discovery ?cfg = new_discovery"
    "cf_ingest ?cfg = populate_ingest (new_ingest\<lparr>ic_store_batch_size := 0\<rparr>)" "cf_peering ?cfg = new_peering"
    "cf_indexer ?cfg = new_indexer" "cf_datastore ?cfg = new_datastore"
    by (simp_all add: populate_unset_def start_config_def example_config_def populates defaults or_int_def or_text_def)
  have "daemon_load_config id example_env [] start_files = Inr (Inr ?cfg)"
    by (simp add: daemon_load_config_def m fields(8)) (simp add: new_datastore_def)
  then show ?thesis using that fields by blast
qed

lemma start_stores_ok:
  assumes "cf_indexer cfg = new_indexer" "cf_datastore cfg = new_datastore" "cf_discovery cfg = new_discovery"
  shows "start_stores example_env example_start cfg start_files = (Inr ((), []), start_files)"
proof -
  have paths: "config_path example_env [] ''valuestore'' = Inr ''~/.storetheindex/valuestore''"
      "config_path example_env [] ''datastore'' = Inr ''~/.storetheindex/datastore''"
    by code_simp+
  show ?thesis
    by (simp add: start_stores_def assms create_value_store_def new_indexer_def new_datastore_def new_discovery_def
        paths check_writable_def example_start_def new_discoverer_def)
qed

lemma start_registry_ok:
  "new_registry id alist_ds L plain_json new_discovery (Some []) = Inr (Inr
     (\<lparr>rg_policy = open_policy, rg_providers = Map.empty, rg_sequences = new_sequences 0,
       rg_discover_times = Map.empty, rg_discover_wait = 0, rg_rediscover_wait = 5 * minute,
       rg_sync_chan = [], rg_dstore = Some []\<rparr>, poll_settings new_discovery, Map.empty))"
  by (simp add: new_registry_def new_discovery_def new_policy_config_def policy_new_def new_policy_strings_def
      open_policy_def load_persisted_providers_def alist_ds_def)

definition start_env :: "((string \<times> bytes) list, (string \<times> string) list) daemon_env" where
  "start_env = example_daemon_env\<lparr>de_lib := ce_lib example_env\<rparr>"

lemma start_server_ok: "start_server (ce_lib example_env) example_start what addr = Inr ()"
  by (simp add: start_server_def example_start_def) (simp add: example_env_def)

lemma start_p2p_ok:
  assumes "cf_identity cfg = \<lparr>id_peer_id = [], id_priv_key = ''k1''\<rparr>" "cf_addresses cfg = new_addresses"
    "cf_bootstrap cfg = \<lparr>bs_peers = [], bs_minimum_peers = 0\<rparr>"
    "cf_ingest cfg = populate_ingest (new_ingest\<lparr>ic_store_batch_size := 0\<rparr>)" "cf_peering cfg = new_peering"
  shows "\<exists>ing. start_p2p example_env example_keys example_start list_peering cfg f i r d = Inr (Started (Some (ing, None)))"
proof -
  have identity: "decode_identity example_env example_keys f (cf_identity cfg) = Inr (''idk1'', ''k1'')"
    by (simp add: assms(1) decode_identity_def decode_private_key_def example_keys_def)
  have addr: "lib_new_multiaddr (ce_lib example_env) a = Inr (Multiaddr a)" for a
    by (simp add: example_env_def)
  obtain ing where ing: "new_ingester (lib_peer_decode (ce_lib example_env)) True (cf_ingest cfg) i r d = Some (Inr ing)"
    by (simp add: new_ingester_def assms(4) populates new_ingest_def run_workers_def or_int_def)
  have peering: "reload_peering example_env list_peering (cf_peering cfg) None = Inr None"
    by (simp add: assms(5) new_peering_def reload_peering_def)
  have boot: "start_bootstrap example_env example_start p (cf_bootstrap cfg) = Inr ()" for p
    by (simp add: start_bootstrap_def assms(3))
  have libs: "sl_host example_start k a b = None" "sl_subscribe example_start c = True" for k a b c
    by (simp_all add: example_start_def)
  show ?thesis
    by (simp add: start_p2p_def Let_def identity addr libs ing boot peering)
qed

theorem daemon_starts_as_configured_witness:
  "\<exists>s g'. daemon_start start_env alist_ds plain_json example_keys example_start list_peering all_flags
       start_files [] = (Inr (Started s), start_files, g') \<and>
     sn_finder s \<and> sn_ingest s \<and> sn_admin s \<and> (\<exists>ing. sn_p2p s = Some (ing, None) \<and> 0 < is_pool ing)"
proof -
  obtain cfg where cfg: "daemon_load_config id example_env [] start_files = Inr (Inr cfg)"
    and fields: "cf_identity cfg = \<lparr>id_peer_id = [], id_priv_key = ''k1''\<rparr>" "cf_addresses cfg = new_addresses"
      "cf_bootstrap cfg = \<lparr>bs_peers = [], bs_minimum_peers = 0\<rparr>" "cf_discovery cfg = new_discovery"
      "cf_ingest cfg = populate_ingest (new_ingest\<lparr>ic_store_batch_size := 0\<rparr>)" "cf_peering cfg = new_peering"
      "cf_indexer cfg = new_indexer" "cf_datastore cfg = new_datastore"
    by (rule start_daemon_load)
  have env: "de_config start_env = example_env" "de_quote start_env = id" "de_lib start_env = ce_lib example_env"
    by (simp_all add: start_env_def example_daemon_env_def)
  obtain g' where log: "set_logging_config (de_set_level start_env) (de_logger_order start_env) (cf_logging cfg) [] = (None, g')"
    by (simp add: set_logging_config_def start_env_def example_daemon_env_def set_all_levels)
  note stores = start_stores_ok [OF fields(7,8,4)]
  have flags: "p2p_enabled all_flags cfg" "la_finder (cf_addresses cfg) \<noteq> ''none''" "la_ingest (cf_addresses cfg) \<noteq> ''none''"
      "la_admin (cf_addresses cfg) \<noteq> []"
    by (simp_all add: p2p_enabled_def all_flags_def fields(2) new_addresses_def)
  have addr: "lib_new_multiaddr (ce_lib example_env) a = Inr (Multiaddr a)" for a
    by (simp add: example_env_def)
  have libs: "sl_net_addr example_start a = Inr ''addr''" "sl_listen example_start l = None" for a l
    by (simp_all add: example_start_def)
  obtain r where r: "new_registry id alist_ds (ce_lib example_env) plain_json (cf_discovery cfg) (Some []) =
      Inr (Inr (r, poll_settings new_discovery, Map.empty))"
    unfolding fields(4) start_registry_ok by blast
  obtain ing where p2p: "start_p2p example_env example_keys example_start list_peering cfg start_files
      (sl_engine example_start (result_cache_size (sf_cache_size all_flags) (cf_indexer cfg)) ()) r [] =
      Inr (Started (Some (ing, None)))"
    using start_p2p_ok [OF fields(1,2,3,5,6)] by blast
  have "\<exists>s. daemon_start start_env alist_ds plain_json example_keys example_start list_peering all_flags start_files [] =
      (Inr (Started s), start_files, g') \<and> sn_cfg s = cfg \<and> sn_p2p s = Some (ing, None)"
    unfolding daemon_start_def env cfg sum.case log prod.case option.case stores r
    by (simp add: start_bind_def Let_def flags p2p start_servers_def start_server_ok addr libs)
  then obtain s where s: "daemon_start start_env alist_ds plain_json example_keys example_start list_peering all_flags
      start_files [] = (Inr (Started s), start_files, g')" "sn_cfg s = cfg" "sn_p2p s = Some (ing, None)" by blast
  have "sf_no_finder all_flags = False" "sf_no_ingest all_flags = False" "sf_no_admin all_flags = False"
    by (simp_all add: all_flags_def)
  then show ?thesis
    using daemon_starts_as_configured [OF s(1)] s flags by auto
qed

theorem admin_without_p2p_never_starts_witness:
  "fst (daemon_start start_env alist_ds plain_json example_keys example_start list_peering
     (all_flags\<lparr>sf_no_p2p := True\<rparr>) start_files []) \<notin> range (\<lambda>s. Inr (Started s))"
proof -
  let ?F = "all_flags\<lparr>sf_no_p2p := True\<rparr>"
  obtain cfg where cfg: "daemon_load_config (de_quote start_env) (de_config start_env) [] start_files = Inr (Inr cfg)"
    using start_daemon_load by (auto simp: start_env_def example_daemon_env_def)
  obtain res f' g' where run: "daemon_start start_env alist_ds plain_json example_keys example_start list_peering ?F
      start_files [] = (res, f', g')" by (metis prod_cases3)
  have "\<not> p2p_enabled ?F cfg" "\<not> sf_no_admin ?F" by (simp_all add: p2p_enabled_def all_flags_def)
  from admin_without_p2p_never_starts [OF cfg this run] show ?thesis by (auto simp: run)
qed

end
