(* ===== verification/Init.thy ===== *)
theory Init
  imports Daemon_Properties
begin

text \<open>
  The command that initializes or upgrades the configuration file (\<^verbatim>\<open>command/init.go\<close>), and the
  composition with what the daemon does first: a configuration that was made by \<open>init\<close> is one the
  daemon loads, with the identity that was generated and the settings of the flags.
\<close>

section \<open>The command\<close>

text \<open>The flags, with the values they have when they are not given: 0, the empty string and false.\<close>

record init_flags =
  nf_cache_size :: int
  nf_store :: string
  nf_listen_admin :: string
  nf_listen_finder :: string
  nf_listen_ingest :: string
  nf_lotus_gateway :: string
  nf_no_bootstrap :: bool
  nf_pubsub_topic :: string
  nf_upgrade :: bool

definition err_initialized :: go_error where
  "err_initialized = ErrMsg ''configuration file already exists''"

text \<open>\<open>lstat\<close> looks at the file itself; only a name that is certainly free does not exist.\<close>

definition file_exists :: "('f \<Rightarrow> string \<Rightarrow> stat_result) \<Rightarrow> 'f \<Rightarrow> string \<Rightarrow> bool" where
  "file_exists lstat f path = (case lstat f path of Missing t \<Rightarrow> False | _ \<Rightarrow> True)"

text \<open>\<open>Init\<close> of \<^verbatim>\<open>config/init.go\<close>; \<open>gen\<close> is the outcome of generating a key pair.\<close>

definition config_init ::
    "'f config_env \<Rightarrow> ('k, 'p) key_lib \<Rightarrow> go_error + 'k \<times> 'p \<Rightarrow> (go_error + config) go" where
  "config_init E K gen =
     (case create_identity E K gen of
        Inl e \<Rightarrow> Inr (Inl e)
      | Inr i \<Rightarrow> go_bind (init_with_identity E i) (\<lambda>cfg. Inr (Inr cfg)))"

text \<open>A listen address that is given has to be a multiaddr.\<close>

definition listen_flag :: "lib \<Rightarrow> string \<Rightarrow> string \<Rightarrow> string \<Rightarrow> go_error + string" where
  "listen_flag L name addr old =
     (if addr = [] then Inr old
      else
        (case lib_new_multiaddr L addr of
           Inl t \<Rightarrow> Inl (ErrMsg (''bad '' @ name @ '': '' @ t))
         | Inr a \<Rightarrow> Inr addr))"

text \<open>The values of the flags in place of the defaults.\<close>

definition init_store :: "init_flags \<Rightarrow> indexer_config \<Rightarrow> go_error + indexer_config" where
  "init_store F x =
     (let x = (if nf_cache_size F \<ge> 0 then x\<lparr>xc_cache_size := nf_cache_size F\<rparr> else x);
          store = nf_store F
      in if store = [] then Inr x
         else if store \<in> {''memory'', ''pogreb'', ''sth''} then Inr (x\<lparr>xc_value_store_type := store\<rparr>)
         else Inl (ErrMsg (''unrecognized store type: '' @ store)))"

definition init_settings :: "lib \<Rightarrow> init_flags \<Rightarrow> config \<Rightarrow> go_error + config" where
  "init_settings L F cfg =
     (case init_store F (cf_indexer cfg) of
        Inl e \<Rightarrow> Inl e
      | Inr x \<Rightarrow>
     (case listen_flag L ''listen-admin'' (nf_listen_admin F) (la_admin (cf_addresses cfg)) of
        Inl e \<Rightarrow> Inl e
      | Inr admin \<Rightarrow>
     (case listen_flag L ''listen-finder'' (nf_listen_finder F) (la_finder (cf_addresses cfg)) of
        Inl e \<Rightarrow> Inl e
      | Inr finder \<Rightarrow>
     (case listen_flag L ''listen-ingest'' (nf_listen_ingest F) (la_ingest (cf_addresses cfg)) of
        Inl e \<Rightarrow> Inl e
      | Inr ingest \<Rightarrow> Inr (cfg\<lparr>
          cf_indexer := x,
          cf_addresses := (cf_addresses cfg)\<lparr>la_admin := admin, la_finder := finder, la_ingest := ingest\<rparr>,
          cf_discovery := (if nf_lotus_gateway F \<noteq> []
            then (cf_discovery cfg)\<lparr>dv_lotus_gateway := nf_lotus_gateway F\<rparr> else cf_discovery cfg),
          cf_bootstrap := (if nf_no_bootstrap F then \<lparr>bs_peers = [], bs_minimum_peers = 1\<rparr> else cf_bootstrap cfg),
          cf_ingest := (if nf_pubsub_topic F \<noteq> []
            then (cf_ingest cfg)\<lparr>ic_pub_sub_topic := nf_pubsub_topic F\<rparr> else cf_ingest cfg)\<rparr>)))))"

text \<open>An upgrade ignores the other flags and keeps the old file.\<close>

definition init_upgrade :: "'f config_env \<Rightarrow> string \<Rightarrow> 'f \<Rightarrow> (go_error option \<times> 'f) go" where
  "init_upgrade E path f =
     go_bind (load_config E path f) (\<lambda>res. Inr
       (case res of
          Inl e \<Rightarrow> (Some e, f)
        | Inr cfg \<Rightarrow>
            (case upgrade_config E cfg path f of
               (Some e, cfg, f) \<Rightarrow> (Some (ErrMsg (''cannot upgrade: '' @ error_string e)), f)
             | (None, cfg, f) \<Rightarrow> (None, f))))"

definition init_command ::
    "'f config_env \<Rightarrow> 'f dirs \<Rightarrow> ('f \<Rightarrow> string \<Rightarrow> stat_result) \<Rightarrow> ('k, 'p) key_lib \<Rightarrow> go_error + 'k \<times> 'p \<Rightarrow>
       init_flags \<Rightarrow> 'f \<Rightarrow> (go_error option \<times> 'f) go" where
  "init_command E R lstat K gen F f =
     (case path_root E of
        Inl e \<Rightarrow> Inr (Some e, f)
      | Inr root \<Rightarrow>
          (case check_writable R root f of
             (Some e, f) \<Rightarrow> Inr (Some e, f)
           | (None, f) \<Rightarrow>
               (case config_filename E root of
                  Inl e \<Rightarrow> Inr (Some e, f)
                | Inr path \<Rightarrow>
                    if nf_upgrade F then init_upgrade E path f
                    else if file_exists lstat f path then Inr (Some err_initialized, f)
                    else
                      go_bind (config_init E K gen) (\<lambda>res. Inr
                        (case res of
                           Inl e \<Rightarrow> (Some e, f)
                         | Inr cfg \<Rightarrow>
                             (case init_settings (ce_lib E) F cfg of
                                Inl e \<Rightarrow> (Some e, f)
                              | Inr cfg \<Rightarrow> save_config E cfg path f))))))"

section \<open>Properties\<close>

text \<open>What the libraries print is UTF-8, as is what they answer for the hard-coded bootstrap peers.\<close>

definition init_laws :: "'f config_env \<Rightarrow> ('k, 'p) key_lib \<Rightarrow> string list \<Rightarrow> bool" where
  "init_laws E K peers \<longleftrightarrow> config_env_laws E \<and> default_bootstrap_peers E = Inr peers \<and> list_all utf8_valid peers \<and>
     (\<forall>d. utf8_valid (ce_duration_string E d)) \<and> (\<forall>p. utf8_valid (lib_peer_string (ce_lib E) p)) \<and>
     (\<forall>b. utf8_valid (kl_base64 K b))"

definition flags_utf8 :: "init_flags \<Rightarrow> bool" where
  "flags_utf8 F \<longleftrightarrow> list_all utf8_valid
     [nf_store F, nf_listen_admin F, nf_listen_finder F, nf_listen_ingest F, nf_lotus_gateway F, nf_pubsub_topic F]"

text \<open>The value of a flag, or the default when it is not given.\<close>

abbreviation given :: "string \<Rightarrow> string \<Rightarrow> string" where
  "given flag def \<equiv> if flag = [] then def else flag"

lemma listen_flag_Inr: "listen_flag L name addr old = Inr a \<Longrightarrow> a = given addr old"
  by (auto simp: listen_flag_def split: if_splits sum.splits)

lemma init_store_Inr:
  "init_store F x = Inr y \<Longrightarrow> y = x\<lparr>xc_cache_size := (if nf_cache_size F \<ge> 0 then nf_cache_size F else xc_cache_size x),
     xc_value_store_type := given (nf_store F) (xc_value_store_type x)\<rparr>"
  by (auto simp: init_store_def Let_def split: if_splits)

text \<open>The configuration that is written.\<close>

definition init_written :: "init_flags \<Rightarrow> identity \<Rightarrow> string list \<Rightarrow> config" where
  "init_written F i peers =
     \<lparr>cf_version = config_version, cf_identity = i,
      cf_addresses = new_addresses\<lparr>la_admin := given (nf_listen_admin F) (la_admin new_addresses),
        la_finder := given (nf_listen_finder F) (la_finder new_addresses),
        la_ingest := given (nf_listen_ingest F) (la_ingest new_addresses)\<rparr>,
      cf_bootstrap = (if nf_no_bootstrap F then \<lparr>bs_peers = [], bs_minimum_peers = 1\<rparr>
        else \<lparr>bs_peers = peers, bs_minimum_peers = 4\<rparr>),
      cf_datastore = new_datastore,
      cf_discovery = new_discovery\<lparr>dv_lotus_gateway := given (nf_lotus_gateway F) (dv_lotus_gateway new_discovery)\<rparr>,
      cf_indexer = new_indexer\<lparr>
        xc_cache_size := (if nf_cache_size F \<ge> 0 then nf_cache_size F else xc_cache_size new_indexer),
        xc_value_store_type := given (nf_store F) (xc_value_store_type new_indexer)\<rparr>,
      cf_ingest = new_ingest\<lparr>ic_pub_sub_topic := given (nf_pubsub_topic F) (ic_pub_sub_topic new_ingest)\<rparr>,
      cf_logging = new_logging, cf_peering = \<lparr>pr_peers = []\<rparr>\<rparr>"

lemma init_settings_Inr:
  assumes "init_with_identity E i = Inr cfg" and "default_bootstrap_peers E = Inr peers"
    and "init_settings L F cfg = Inr c"
  shows "c = init_written F i peers"
  using assms
  by (auto simp: init_with_identity_def new_bootstrap_def init_settings_def case_sum_Inr(1) init_written_def
      dest!: listen_flag_Inr init_store_Inr)

lemma init_written_valid:
  "in_int64 (nf_cache_size F) \<Longrightarrow> jc_valid (config_json E) (init_written F i peers)"
  using default_settings_valid(1-3) [of E] default_settings_valid(4)
  by (simp add: config_valid_iff init_written_def logging_valid_iff ingest_valid_iff discovery_valid_iff
      indexer_valid_iff in_int64_def config_version_def)

lemma utf8_codecs_any:
  "json_utf8 (jc_enc (json_duration E) d) = utf8_valid (ce_duration_string E d)"
  "json_utf8 (jc_enc json_string_map (Some al)) = list_all (\<lambda>(k, v). utf8_valid k \<and> utf8_valid v) al"
  by (auto simp: json_duration_def json_string_map_def list_all_iff)

lemma init_written_utf8:
  assumes "init_laws E K peers" and "flags_utf8 F" and "utf8_valid (id_peer_id i)" and "utf8_valid (id_priv_key i)"
  shows "json_utf8 (jc_enc (config_json E) (init_written F i peers))"
  using assms unfolding config_json_def config_fields_def setting_fields init_written_def defaults
  by (simp add: utf8_codecs(1-7) utf8_codecs_any utf8_ascii init_laws_def flags_utf8_def if_distribR)

lemma init_command_writes:
  assumes "init_command E R lstat K gen F f = Inr (None, f')" and "\<not> nf_upgrade F"
    and "default_bootstrap_peers E = Inr peers"
  obtains root g path i where "path_root E = Inr root" "check_writable R root f = (None, g)"
    "config_filename E root = Inr path" "\<not> file_exists lstat g path" "create_identity E K gen = Inr i"
    "save_config E (init_written F i peers) path g = (None, f')"
proof -
  obtain root where root: "path_root E = Inr root"
    using assms(1) by (auto simp: init_command_def split: sum.splits)
  obtain g where g: "check_writable R root f = (None, g)"
    using assms(1) root by (cases "check_writable R root f") (auto simp: init_command_def split: option.splits)
  obtain path where path: "config_filename E root = Inr path"
    using assms(1) root g by (auto simp: init_command_def split: sum.splits)
  note run = assms(1) [unfolded init_command_def root g path sum.case prod.case option.case]
  have new: "\<not> file_exists lstat g path"
    using run assms(2) by (auto split: if_splits)
  obtain i where i: "create_identity E K gen = Inr i"
    using run assms(2) new by (cases "create_identity E K gen") (auto simp: config_init_def)
  obtain cfg where cfg: "init_with_identity E i = Inr cfg"
    using assms(3) by (auto simp: init_with_identity_def new_bootstrap_def)
  obtain c where c: "init_settings (ce_lib E) F cfg = Inr c"
    using run assms(2) new i cfg by (cases "init_settings (ce_lib E) F cfg") (auto simp: config_init_def)
  have "save_config E c path g = (None, f')"
    using run assms(2) new i cfg c by (simp add: config_init_def)
  with that root g path new i init_settings_Inr [OF cfg assms(3) c] show ?thesis by simp
qed

lemma config_filename_root: "path_root E = Inr root \<Longrightarrow> config_filename E root = config_filename E []"
  by (simp add: config_filename_def config_path_def)

lemma load_default_path: "config_filename E [] = Inr path \<Longrightarrow> path \<noteq> [] \<Longrightarrow> load_config E [] f = load_config E path f"
  by (simp add: load_config_def)

lemma path_clean_nonempty: "path_clean s \<noteq> []"
  by (simp add: path_clean_def Let_def)

lemma config_filename_nonempty: "config_filename E root = Inr path \<Longrightarrow> path \<noteq> []"
  by (auto simp: config_filename_def config_path_def path_join_def path_clean_nonempty Let_def
      split: sum.splits if_splits)


text \<open>
  Without \<^verbatim>\<open>--upgrade\<close> a configuration that exists stays: the command fails, with nothing done but the
  check that its directory is writable. The same holds for flags that are not valid.
\<close>

theorem init_refuses_existing:
  assumes "path_root E = Inr root" and "check_writable R root f = (None, g)"
    and "config_filename E root = Inr path" and "\<not> nf_upgrade F" and "file_exists lstat g path"
  shows "init_command E R lstat K gen F f = Inr (Some err_initialized, g)"
  using assms by (simp add: init_command_def)

section \<open>A concrete run\<close>

lemma utf8_hex: "utf8_valid (hex_string s)"
proof -
  have "(of_char y :: nat) < 0x80" if y: "y \<in> set (hex_char c)" for y c
  proof -
    have "of_char c div 16 < (16 :: nat)" using nat_of_char_less_256 [of c] by (simp add: less_mult_imp_div_less)
    then show ?thesis using y by (auto simp: hex_char_def of_char_of)
  qed
  then show ?thesis by (intro utf8_ascii) (auto simp: hex_string_def list_all_iff)
qed

definition hex_keys :: "(string, string) key_lib" where
  "hex_keys = example_keys\<lparr>kl_base64 := (\<lambda>b. if b = [] then [] else hex_string b),
     kl_unbase64 := (\<lambda>s. if s = [] then Inr [] else map_sum ErrMsg id (unhex_string s))\<rparr>"

lemma hex_nonempty: "hex_string b \<noteq> []"
  by (simp add: hex_string_def)

lemma hex_keys_laws: "key_lib_laws (ce_lib example_env) hex_keys (=)"
proof -
  have "path_elem (lib_peer_string hex_lib q) \<Longrightarrow> lib_peer_string hex_lib q \<noteq> []" for q
    by (simp add: path_elem_def)
  then show ?thesis
    using lib_lawsD(1,2) [OF hex_lib_laws]
    by (auto simp: key_lib_laws_def hex_keys_def example_keys_def example_env_def
        hex_nonempty split: if_splits)
qed

lemma example_init_laws: "init_laws example_env hex_keys default_bootstrap_addresses"
proof -
  have "list_all utf8_valid default_bootstrap_addresses"
    by (simp add: default_bootstrap_addresses_def utf8_ascii)
  moreover have "ce_duration_string example_env = show_int" "lib_peer_string (ce_lib example_env) = hex_string"
    by (simp_all add: example_env_def hex_lib_def)
  moreover have "utf8_valid (kl_base64 hex_keys b)" for b
    by (simp add: hex_keys_def utf8_hex utf8_ascii)
  ultimately show ?thesis
    using example_env_laws example_bootstrap by (simp add: init_laws_def utf8_show_int utf8_hex)
qed

definition free_dirs :: "(string \<times> bytes) list dirs" where
  "free_dirs = \<lparr>dr_expand = Inr, dr_stat = (\<lambda>_ _. Missing ''no such directory''), dr_create = (\<lambda>f _. (Present, f)),
     dr_remove = (\<lambda>f _. (None, f)), dr_mkdir = (\<lambda>f _. (None, f))\<rparr>"

definition alist_lstat :: "(string \<times> bytes) list \<Rightarrow> string \<Rightarrow> stat_result" where
  "alist_lstat f p = (case map_of f p of None \<Rightarrow> Missing ''no such file'' | Some b \<Rightarrow> Present)"

definition some_flags :: init_flags where
  "some_flags = \<lparr>nf_cache_size = -1, nf_store = ''pogreb'', nf_listen_admin = ''/ip4/0.0.0.0/tcp/3002'', nf_listen_finder = [],
     nf_listen_ingest = [], nf_lotus_gateway = ''none'', nf_no_bootstrap = True, nf_pubsub_topic = [], nf_upgrade = False\<rparr>"

lemma example_init_run:
  "\<exists>f'. init_command example_env free_dirs alist_lstat hex_keys (Inr (''key'', ''key'')) some_flags [] = Inr (None, f')"
proof -
  have root: "path_root example_env = Inr ''~/.storetheindex''"
    by (simp add: path_root_def example_env_def default_path_root_def)
  have path: "config_filename example_env ''~/.storetheindex'' = Inr ''~/.storetheindex/config''"
    by code_simp
  obtain i where i: "create_identity example_env hex_keys (Inr (''key'', ''key'')) = Inr i"
    by (simp add: create_identity_def hex_keys_def example_keys_def)
  obtain cfg where cfg: "init_with_identity example_env i = Inr cfg"
    by (simp add: init_with_identity_def new_bootstrap_def example_bootstrap)
  have "lib_new_multiaddr (ce_lib example_env) s = Inr (Multiaddr s)" for s
    by (simp add: example_env_def)
  then obtain c where c: "init_settings (ce_lib example_env) some_flags cfg = Inr c"
    by (simp add: init_settings_def init_store_def some_flags_def listen_flag_def)
  obtain f' where "save_config example_env c ''~/.storetheindex/config'' [] = (None, f')"
    by (simp add: save_config_def example_env_def alist_files_def)
  moreover have "check_writable free_dirs ''~/.storetheindex'' [] = (None, [])"
    by (simp add: check_writable_def free_dirs_def)
  moreover have "\<not> file_exists alist_lstat [] ''~/.storetheindex/config''" "\<not> nf_upgrade some_flags"
    by (simp_all add: file_exists_def alist_lstat_def some_flags_def)
  ultimately show ?thesis
    by (simp add: init_command_def root path config_init_def i cfg c)
qed


end
