(* ===== verification/P2p_Client.thy ===== *)
theory P2p_Client
  imports Finder_Protocols
begin

text \<open>
  The client side of the libp2p protocols (\<^verbatim>\<open>api/v0/libp2pclient\<close>): one stream to a server, kept open
  from one request to the next and used by one caller at a time. Callers, the network and the
  server take their steps in any order; every wait can be cut short by a cancelled context or the
  time-out, and every use of the stream can fail.
\<close>

section \<open>The mutex\<close>

text \<open>
  A channel of capacity one. Locking sends to it, or gives up with the error of a context that is done;
  where both are possible either is taken, so the result lists the outcomes, none for waiting.
  Unlocking a mutex that is not locked panics.
\<close>

definition ctx_lock :: "go_error option \<Rightarrow> bool \<Rightarrow> (go_error option \<times> bool) list" where
  "ctx_lock ended locked =
     (if locked then [] else [(None, True)]) @ (case ended of None \<Rightarrow> [] | Some e \<Rightarrow> [(Some e, locked)])"

definition ctx_unlock :: "bool \<Rightarrow> bool go" where
  "ctx_unlock locked = (if locked then Inr False else Inl (ExplicitPanic ''not locked''))"

section \<open>Streams\<close>

text \<open>
  A stream holds the messages that were written and not yet read by the server, and the responses that
  were written and not yet read by the client. The server ends it when it cannot handle a message.
\<close>

record stream =
  sm_requests :: "bytes list"
  sm_replies :: "bytes list"
  sm_ended :: bool

definition new_stream :: stream where
  "new_stream = \<lparr>sm_requests = [], sm_replies = [], sm_ended = False\<rparr>"

text \<open>One round of the server's loop, with the handler on the bytes of messages.\<close>

definition serve_stream :: "(bytes \<Rightarrow> go_error + bytes) \<Rightarrow> stream \<Rightarrow> stream" where
  "serve_stream handle st =
     (if sm_ended st then st
      else
        (case sm_requests st of
           [] \<Rightarrow> st
         | m # ms \<Rightarrow>
             (case handle m of
                Inl e \<Rightarrow> st\<lparr>sm_requests := ms, sm_ended := True\<rparr>
              | Inr rsp \<Rightarrow> st\<lparr>sm_requests := ms, sm_replies := sm_replies st @ [rsp]\<rparr>)))"

section \<open>The client\<close>

text \<open>The open stream is the position of one of the streams made so far.\<close>

record p2p_client =
  pc_locked :: bool
  pc_stream :: "nat option"

record p2p_link =
  pn_client :: p2p_client
  pn_streams :: "stream list"

text \<open>Resetting a stream that is not there is a nil dereference.\<close>

definition close_stream :: "p2p_link \<Rightarrow> p2p_link go" where
  "close_stream s =
     (case pc_stream (pn_client s) of
        None \<Rightarrow> Inl NilDereference
      | Some n \<Rightarrow> Inr (s\<lparr>pn_client := (pn_client s)\<lparr>pc_stream := None\<rparr>\<rparr>))"

text \<open>\<open>opened\<close> is the outcome of opening a stream, which is tried when there is none.\<close>

definition prep_stream_reader :: "go_error option \<Rightarrow> p2p_link \<Rightarrow> (go_error + nat) \<times> p2p_link" where
  "prep_stream_reader opened s =
     (case pc_stream (pn_client s) of
        Some n \<Rightarrow> (Inr n, s)
      | None \<Rightarrow>
          (case opened of
             Some e \<Rightarrow> (Inl e, s)
           | None \<Rightarrow>
               (let n = length (pn_streams s)
                in (Inr n, s\<lparr>pn_client := (pn_client s)\<lparr>pc_stream := Some n\<rparr>, pn_streams := pn_streams s @ [new_stream]\<rparr>))))"

text \<open>\<open>written\<close> is the outcome of writing; nothing is known of what a failed write has delivered.\<close>

definition send_message ::
    "go_error option \<Rightarrow> go_error option \<Rightarrow> bool \<Rightarrow> bytes \<Rightarrow> p2p_link \<Rightarrow> (go_error option \<times> p2p_link) go" where
  "send_message opened written delivered m s =
     (case prep_stream_reader opened s of
        (Inl e, s) \<Rightarrow> Inr (Some e, s)
      | (Inr n, s) \<Rightarrow>
          (let deliver = s\<lparr>pn_streams := (pn_streams s)[n := (pn_streams s ! n)\<lparr>
                 sm_requests := sm_requests (pn_streams s ! n) @ [m]\<rparr>]\<rparr>
           in case written of
                Some e \<Rightarrow> go_bind (close_stream (if delivered then deliver else s)) (\<lambda>s. Inr (Some e, s))
              | None \<Rightarrow> Inr (None, deliver)))"

definition err_read_timeout :: go_error where
  "err_read_timeout = ErrMsg ''timed out reading response''"

text \<open>
  What waiting for a response ends with: the next message, an error of the stream, a cancelled context
  or the time-out. \<open>None\<close> when there is no message yet.
\<close>

datatype read_outcome = Message | Read_Failed go_error | Cancelled go_error | Timed_Out

definition ctx_read_msg ::
    "(bytes \<Rightarrow> go_error option) \<Rightarrow> read_outcome \<Rightarrow> p2p_link \<Rightarrow> ((go_error + bytes) \<times> p2p_link) option" where
  "ctx_read_msg decode_rsp out s =
     (case out of
        Read_Failed e \<Rightarrow> Some (Inl e, s)
      | Cancelled e \<Rightarrow> Some (Inl e, s)
      | Timed_Out \<Rightarrow> Some (Inl err_read_timeout, s)
      | Message \<Rightarrow>
          (case pc_stream (pn_client s) of
             None \<Rightarrow> None
           | Some n \<Rightarrow>
               (case sm_replies (pn_streams s ! n) of
                  [] \<Rightarrow> None
                | rsp # rsps \<Rightarrow> Some
                    (case decode_rsp rsp of Some e \<Rightarrow> Inl e | None \<Rightarrow> Inr rsp,
                     s\<lparr>pn_streams := (pn_streams s)[n := (pn_streams s ! n)\<lparr>sm_replies := rsps\<rparr>]\<rparr>))))"

text \<open>The second half of \<open>SendRequest\<close>; its answer stands for what \<open>decode_rsp\<close> has stored.\<close>

definition receive_response ::
    "(bytes \<Rightarrow> go_error option) \<Rightarrow> read_outcome \<Rightarrow> p2p_link \<Rightarrow> ((go_error + bytes) \<times> p2p_link) go option" where
  "receive_response decode_rsp out s =
     map_option (\<lambda>(res, s). case res of
         Inl e \<Rightarrow> go_bind (close_stream s) (\<lambda>s. Inr (Inl (ErrWrap ''cannot read response: '' e), s))
       | Inr rsp \<Rightarrow> Inr (Inr rsp, s))
       (ctx_read_msg decode_rsp out s)"

section \<open>Connecting\<close>

text \<open>
  \<^verbatim>\<open>net.ParseIP\<close>: without a colon a text is an IPv4 address when it has four decimal fields without
  leading zeros, and no address otherwise. What has a colon is left to \<open>parse_ipv6\<close>, whose result can be
  an IPv4 address in the notation of IPv6.
\<close>

datatype ip_kind = IPv4 | IPv6

definition ipv4_field :: "string \<Rightarrow> bool" where
  "ipv4_field s \<longleftrightarrow> s \<noteq> [] \<and> (hd s = CHR ''0'' \<longrightarrow> s = ''0'') \<and>
     (case digits_value 0 s of None \<Rightarrow> False | Some n \<Rightarrow> n \<le> 255)"

definition parse_ip :: "(string \<Rightarrow> ip_kind option) \<Rightarrow> string \<Rightarrow> ip_kind option" where
  "parse_ip parse_ipv6 s =
     (if CHR '':'' \<in> set s then parse_ipv6 s
      else let fields = split_on CHR ''.'' s
           in if length fields = 4 \<and> list_all ipv4_field fields then Some IPv4 else None)"

definition default_p2p_port :: int where
  "default_p2p_port = 3003"

text \<open>The address \<open>Connect\<close> dials for a host or a host and a port.\<close>

definition host_port :: "(string \<Rightarrow> string) \<Rightarrow> string \<Rightarrow> string + string \<times> int" where
  "host_port quote s =
     (let host = takeWhile (\<lambda>c. c \<noteq> CHR '':'') s
      in if host = s then Inr (s, default_p2p_port)
         else map_sum id (\<lambda>port. (host, port)) (parse_decimal quote ''Atoi'' (drop (Suc (length host)) s)))"

definition connect_addr ::
    "(string \<Rightarrow> string) \<Rightarrow> (string \<Rightarrow> ip_kind option) \<Rightarrow> string \<Rightarrow> string + string" where
  "connect_addr quote parse_ipv6 hostname =
     (case (if hostname = [] then Inr (''ip4'', ''127.0.0.1'', default_p2p_port)
            else map_sum id (\<lambda>(host, port). (
                case parse_ip parse_ipv6 host of None \<Rightarrow> ''dns'' | Some IPv4 \<Rightarrow> ''ip4'' | Some IPv6 \<Rightarrow> ''ip6'',
                host, port)) (host_port quote hostname)) of
        Inl e \<Rightarrow> Inl e
      | Inr (proto, host, port) \<Rightarrow> Inr (''/'' @ proto @ ''/'' @ host @ ''/tcp/'' @ show_int port))"

text \<open>\<open>dial\<close> connects the host to the addresses of a peer.\<close>

definition connect_addrs :: "(addr_info \<Rightarrow> go_error option) \<Rightarrow> peer_id \<Rightarrow> multiaddr list \<Rightarrow> go_error option" where
  "connect_addrs dial p addrs = dial \<lparr>ai_id = p, ai_addrs = addrs\<rparr>"

definition p2p_connect ::
    "lib \<Rightarrow> (string \<Rightarrow> string) \<Rightarrow> (string \<Rightarrow> ip_kind option) \<Rightarrow> (addr_info \<Rightarrow> go_error option) \<Rightarrow> peer_id \<Rightarrow> string \<Rightarrow>
       go_error option" where
  "p2p_connect L quote parse_ipv6 dial p hostname =
     (case connect_addr quote parse_ipv6 hostname of
        Inl e \<Rightarrow> Some (ErrMsg e)
      | Inr s \<Rightarrow>
          (case lib_new_multiaddr L s of
             Inl e \<Rightarrow> Some (ErrMsg e)
           | Inr a \<Rightarrow> connect_addrs dial p [a]))"

text \<open>
  An IPv6 address cannot be given, since the text up to its first colon is taken for the host: whatever
  is dialled is an IPv4 address or a name.
\<close>

lemma host_port_host: "host_port quote s = Inr (host, port) \<Longrightarrow> CHR '':'' \<notin> set host"
  by (auto simp: host_port_def Let_def map_sum_eq_Inr split: if_split_asm dest: set_takeWhileD)

lemma parse_ip_no_colon: "CHR '':'' \<notin> set s \<Longrightarrow> parse_ip parse_ipv6 s \<in> {None, Some IPv4}"
  by (simp add: parse_ip_def Let_def)

lemma connect_addr_no_ipv6:
  assumes "connect_addr quote parse_ipv6 hostname = Inr s"
  shows "take 5 s \<in> {''/ip4/'', ''/dns/''}"
proof (cases "hostname = []")
  case True
  then show ?thesis using assms by (auto simp: connect_addr_def)
next
  case False
  then obtain host port where host: "host_port quote hostname = Inr (host, port)"
    using assms by (cases "host_port quote hostname") (auto simp: connect_addr_def)
  then consider "parse_ip parse_ipv6 host = None" | "parse_ip parse_ipv6 host = Some IPv4"
    using parse_ip_no_colon [OF host_port_host [OF host], of parse_ipv6] by auto
  then show ?thesis using assms False host by cases (auto simp: connect_addr_def)
qed

section \<open>Callers, the network and the server\<close>

text \<open>
  A call of \<open>SendRequest\<close> waits for the mutex, sends, and waits for the response; it is over with an
  error or the response. The mutex is released as the call ends.
\<close>

datatype caller =
    Idle
  | Waiting bytes
  | Locked bytes
  | Sent bytes
  | Answered bytes "go_error + bytes"

record p2p_sys =
  py_link :: p2p_link
  py_callers :: "nat \<Rightarrow> caller"
  py_panicked :: bool

definition p2p_start :: p2p_sys where
  "p2p_start = \<lparr>py_link = \<lparr>pn_client = \<lparr>pc_locked = False, pc_stream = None\<rparr>, pn_streams = []\<rparr>,
     py_callers = (\<lambda>_. Idle), py_panicked = False\<rparr>"

definition set_locked :: "bool \<Rightarrow> p2p_link \<Rightarrow> p2p_link" where
  "set_locked b s = s\<lparr>pn_client := (pn_client s)\<lparr>pc_locked := b\<rparr>\<rparr>"

text \<open>A call ends: the deferred unlocking, and the answer.\<close>

definition return_call :: "nat \<Rightarrow> bytes \<Rightarrow> go_error + bytes \<Rightarrow> p2p_link \<Rightarrow> p2p_sys \<Rightarrow> p2p_sys" where
  "return_call c m res l s =
     (case ctx_unlock (pc_locked (pn_client l)) of
        Inl p \<Rightarrow> s\<lparr>py_panicked := True\<rparr>
      | Inr b \<Rightarrow> s\<lparr>py_link := set_locked b l, py_callers := (py_callers s)(c := Answered m res)\<rparr>)"

definition after_lock :: "nat \<Rightarrow> bytes \<Rightarrow> go_error option \<times> bool \<Rightarrow> p2p_sys \<Rightarrow> p2p_sys" where
  "after_lock c m out s =
     (case out of
        (Some e, b) \<Rightarrow> s\<lparr>py_callers := (py_callers s)(c := Answered m (Inl e))\<rparr>
      | (None, b) \<Rightarrow> s\<lparr>py_link := set_locked b (py_link s), py_callers := (py_callers s)(c := Locked m)\<rparr>)"

definition after_send :: "nat \<Rightarrow> bytes \<Rightarrow> (go_error option \<times> p2p_link) go \<Rightarrow> p2p_sys \<Rightarrow> p2p_sys" where
  "after_send c m out s =
     (case out of
        Inl p \<Rightarrow> s\<lparr>py_panicked := True\<rparr>
      | Inr (Some e, l) \<Rightarrow> return_call c m (Inl (ErrWrap ''cannot sent request: '' e)) l s
      | Inr (None, l) \<Rightarrow> s\<lparr>py_link := l, py_callers := (py_callers s)(c := Sent m)\<rparr>)"

definition after_receive :: "nat \<Rightarrow> bytes \<Rightarrow> ((go_error + bytes) \<times> p2p_link) go \<Rightarrow> p2p_sys \<Rightarrow> p2p_sys" where
  "after_receive c m out s =
     (case out of
        Inl p \<Rightarrow> s\<lparr>py_panicked := True\<rparr>
      | Inr (res, l) \<Rightarrow> return_call c m res l s)"

text \<open>\<open>Close\<close> holds the mutex while it resets the stream, which no other step can be in between.\<close>

definition close_client :: "p2p_link \<Rightarrow> p2p_link go" where
  "close_client s = (if pc_stream (pn_client s) \<noteq> None then close_stream s else Inr s)"

inductive p2p_step ::
    "(bytes \<Rightarrow> go_error + bytes) \<Rightarrow> (bytes \<Rightarrow> go_error option) \<Rightarrow> p2p_sys \<Rightarrow> p2p_sys \<Rightarrow> bool"
  for handle decode_rsp where
  call: "py_callers s c = Idle \<Longrightarrow> p2p_step handle decode_rsp s (s\<lparr>py_callers := (py_callers s)(c := Waiting m)\<rparr>)"
| again: "py_callers s c = Answered m res \<Longrightarrow>
    p2p_step handle decode_rsp s (s\<lparr>py_callers := (py_callers s)(c := Idle)\<rparr>)"
| lock: "py_callers s c = Waiting m \<Longrightarrow> out \<in> set (ctx_lock ended (pc_locked (pn_client (py_link s)))) \<Longrightarrow>
    p2p_step handle decode_rsp s (after_lock c m out s)"
| send: "py_callers s c = Locked m \<Longrightarrow>
    p2p_step handle decode_rsp s (after_send c m (send_message opened written delivered m (py_link s)) s)"
| receive: "py_callers s c = Sent m \<Longrightarrow> receive_response decode_rsp outcome (py_link s) = Some out \<Longrightarrow>
    p2p_step handle decode_rsp s (after_receive c m out s)"
| serve: "n < length (pn_streams (py_link s)) \<Longrightarrow>
    p2p_step handle decode_rsp s (s\<lparr>py_link := (py_link s)\<lparr>
      pn_streams := (pn_streams (py_link s))[n := serve_stream handle (pn_streams (py_link s) ! n)]\<rparr>\<rparr>)"
| close: "\<not> pc_locked (pn_client (py_link s)) \<Longrightarrow> close_client (py_link s) = Inr l \<Longrightarrow>
    p2p_step handle decode_rsp s (s\<lparr>py_link := l\<rparr>)"

section \<open>The invariant\<close>

definition link_clear :: "p2p_link \<Rightarrow> bool" where
  "link_clear l \<longleftrightarrow> (\<forall>n. pc_stream (pn_client l) = Some n \<longrightarrow> n < length (pn_streams l) \<and>
     sm_requests (pn_streams l ! n) = [] \<and> sm_replies (pn_streams l ! n) = [])"

text \<open>Of the open stream: the message is still to be read, or was, and only its response can be there.\<close>

definition stream_serving :: "(bytes \<Rightarrow> go_error + bytes) \<Rightarrow> bytes \<Rightarrow> stream \<Rightarrow> bool" where
  "stream_serving handle m st \<longleftrightarrow>
     sm_requests st = [m] \<and> sm_replies st = [] \<or>
     sm_requests st = [] \<and> (\<forall>rsp \<in> set (sm_replies st). handle m = Inr rsp) \<and> length (sm_replies st) \<le> 1"

definition link_serving :: "(bytes \<Rightarrow> go_error + bytes) \<Rightarrow> bytes \<Rightarrow> p2p_link \<Rightarrow> bool" where
  "link_serving handle m l \<longleftrightarrow> (\<exists>n. pc_stream (pn_client l) = Some n \<and> n < length (pn_streams l) \<and>
     stream_serving handle m (pn_streams l ! n))"

fun holds :: "caller \<Rightarrow> bool" where
  "holds (Locked m) = True"
| "holds (Sent m) = True"
| "holds _ = False"

fun caller_link :: "(bytes \<Rightarrow> go_error + bytes) \<Rightarrow> caller \<Rightarrow> p2p_link \<Rightarrow> bool" where
  "caller_link handle (Sent m) l = link_serving handle m l"
| "caller_link handle _ l = link_clear l"

definition answer_ok ::
    "(bytes \<Rightarrow> go_error + bytes) \<Rightarrow> (bytes \<Rightarrow> go_error option) \<Rightarrow> caller \<Rightarrow> bool" where
  "answer_ok handle decode_rsp k \<longleftrightarrow> (\<forall>m rsp. k = Answered m (Inr rsp) \<longrightarrow> handle m = Inr rsp \<and> decode_rsp rsp = None)"

definition p2p_inv :: "(bytes \<Rightarrow> go_error + bytes) \<Rightarrow> (bytes \<Rightarrow> go_error option) \<Rightarrow> p2p_sys \<Rightarrow> bool" where
  "p2p_inv handle decode_rsp s \<longleftrightarrow> \<not> py_panicked s \<and> (\<forall>c. answer_ok handle decode_rsp (py_callers s c)) \<and>
     (if pc_locked (pn_client (py_link s))
      then \<exists>h. (\<forall>c. holds (py_callers s c) \<longleftrightarrow> c = h) \<and> caller_link handle (py_callers s h) (py_link s)
      else (\<forall>c. \<not> holds (py_callers s c)) \<and> link_clear (py_link s))"

lemma answer_ok_simps [simp]:
  "answer_ok handle decode_rsp Idle" "answer_ok handle decode_rsp (Waiting m)" "answer_ok handle decode_rsp (Locked m)"
  "answer_ok handle decode_rsp (Sent m)" "answer_ok handle decode_rsp (Answered m (Inl e))"
  "answer_ok handle decode_rsp (Answered m (Inr rsp)) \<longleftrightarrow> handle m = Inr rsp \<and> decode_rsp rsp = None"
  by (auto simp: answer_ok_def)

lemma link_lock [simp]:
  "link_clear (set_locked b l) = link_clear l" "link_serving handle m (set_locked b l) = link_serving handle m l"
  "pc_locked (pn_client (set_locked b l)) = b" "caller_link handle k (set_locked b l) = caller_link handle k l"
  by (simp_all add: set_locked_def link_clear_def link_serving_def caller_link.cases [of "(handle, k, l)"])
    (cases k; simp add: link_clear_def link_serving_def)

lemma close_stream_open:
  "pc_stream (pn_client l) = Some n \<Longrightarrow> \<exists>l'. close_stream l = Inr l' \<and> link_clear l' \<and>
     pc_locked (pn_client l') = pc_locked (pn_client l)"
  by (simp add: close_stream_def link_clear_def)

lemma prep_stream_clear:
  assumes "link_clear l" and "prep_stream_reader opened l = (res, l')"
  shows "link_clear l'" and "pc_locked (pn_client l') = pc_locked (pn_client l)"
    and "res = Inr n \<Longrightarrow> pc_stream (pn_client l') = Some n"
  using assms
  by (auto simp: prep_stream_reader_def link_clear_def new_stream_def Let_def split: option.splits)

lemma send_message_clear:
  assumes "link_clear l" and "send_message opened written delivered m l = out"
  obtains e l' where "out = Inr (Some e, l')" "link_clear l'" "pc_locked (pn_client l') = pc_locked (pn_client l)"
    | l' where "out = Inr (None, l')" "link_serving handle m l'" "pc_locked (pn_client l') = pc_locked (pn_client l)"
proof -
  obtain res l1 where prep: "prep_stream_reader opened l = (res, l1)" by fastforce
  note l1 = prep_stream_clear [OF assms(1) prep]
  show ?thesis
  proof (cases res)
    case (Inl e)
    then show ?thesis using assms(2) prep l1 that(1) by (auto simp: send_message_def)
  next
    case (Inr n)
    let ?deliver = "l1\<lparr>pn_streams := (pn_streams l1)[n := (pn_streams l1 ! n)\<lparr>
      sm_requests := sm_requests (pn_streams l1 ! n) @ [m]\<rparr>]\<rparr>"
    have n: "pc_stream (pn_client l1) = Some n" "pc_stream (pn_client ?deliver) = Some n"
      using l1(3) [OF Inr] by simp_all
    show ?thesis
    proof (cases written)
      case None
      have "link_serving handle m ?deliver"
        using n l1(1) by (auto simp: link_serving_def link_clear_def stream_serving_def)
      then show ?thesis using assms(2) prep Inr None l1(2) that(2) by (auto simp: send_message_def Let_def)
    next
      case (Some e)
      let ?s = "if delivered then ?deliver else l1"
      have "pc_stream (pn_client ?s) = Some n" using n by simp
      from close_stream_open [OF this] obtain l' where "close_stream ?s = Inr l'" "link_clear l'"
        "pc_locked (pn_client l') = pc_locked (pn_client ?s)"
        by blast
      moreover have "pc_locked (pn_client ?s) = pc_locked (pn_client l1)" by simp
      ultimately show ?thesis using assms(2) prep Inr Some l1(2) that(1) by (auto simp: send_message_def Let_def)
    qed
  qed
qed

lemma receive_response_serving:
  assumes "link_serving handle m l" and "receive_response decode_rsp outcome l = Some out"
  obtains res l' where "out = Inr (res, l')" "link_clear l'" "pc_locked (pn_client l') = pc_locked (pn_client l)"
    "answer_ok handle decode_rsp (Answered m res)"
  using assms
  by (cases outcome)
    (auto simp: receive_response_def ctx_read_msg_def link_serving_def close_stream_def link_clear_def
      stream_serving_def split: list.splits option.splits)

lemma serve_stream_serving: "stream_serving handle m st \<Longrightarrow> stream_serving handle m (serve_stream handle st)"
  by (auto simp: serve_stream_def stream_serving_def split: list.split sum.split)

lemma serve_link:
  assumes "n < length (pn_streams l)"
    and "l' = l\<lparr>pn_streams := (pn_streams l)[n := serve_stream handle (pn_streams l ! n)]\<rparr>"
  shows "caller_link handle k l \<Longrightarrow> caller_link handle k l'" "link_clear l \<Longrightarrow> link_clear l'"
    "pc_locked (pn_client l') = pc_locked (pn_client l)"
proof -
  have serving: "link_serving handle m l'" if "link_serving handle m l" for m
    using that assms serve_stream_serving by (fastforce simp: link_serving_def nth_list_update)
  show clear: "link_clear l'" if "link_clear l"
    using that assms by (auto simp: link_clear_def nth_list_update serve_stream_def)
  show "caller_link handle k l \<Longrightarrow> caller_link handle k l'"
    using serving clear by (cases k) auto
qed (simp add: assms(2))

text \<open>The mutex is held by exactly one call, or by none.\<close>

lemma p2p_inv_holder:
  assumes "p2p_inv handle decode_rsp s" and "holds (py_callers s c)"
  shows "pc_locked (pn_client (py_link s))" and "holds (py_callers s d) \<longleftrightarrow> d = c"
    and "caller_link handle (py_callers s c) (py_link s)"
  using assms by (auto simp: p2p_inv_def split: if_splits)

lemma p2p_inv_return:
  assumes "p2p_inv handle decode_rsp s" and "holds (py_callers s c)" and "link_clear l"
    and "pc_locked (pn_client l) = pc_locked (pn_client (py_link s))" and "answer_ok handle decode_rsp (Answered m res)"
  shows "p2p_inv handle decode_rsp (return_call c m res l s)"
  using assms p2p_inv_holder(1,2) [OF assms(1,2)]
  by (auto simp: p2p_inv_def return_call_def ctx_unlock_def)

lemma p2p_inv_idle:
  assumes "p2p_inv handle decode_rsp s" and "\<not> holds (py_callers s c)" and "\<not> holds k"
    and "answer_ok handle decode_rsp k"
  shows "p2p_inv handle decode_rsp (s\<lparr>py_callers := (py_callers s)(c := k)\<rparr>)"
proof -
  have "\<exists>h. (\<forall>d. holds (((py_callers s)(c := k)) d) \<longleftrightarrow> d = h) \<and>
      caller_link handle (((py_callers s)(c := k)) h) (py_link s)" if locked: "pc_locked (pn_client (py_link s))"
  proof -
    obtain h where h: "\<forall>d. holds (py_callers s d) \<longleftrightarrow> d = h" "caller_link handle (py_callers s h) (py_link s)"
      using assms(1) locked by (auto simp: p2p_inv_def)
    then have "h \<noteq> c" using assms(2) by blast
    then show ?thesis using h assms(3) by (intro exI [of _ h]) auto
  qed
  then show ?thesis using assms by (auto simp: p2p_inv_def)
qed

lemma p2p_step_inv:
  assumes "p2p_step handle decode_rsp s t" and "p2p_inv handle decode_rsp s"
  shows "p2p_inv handle decode_rsp t"
  using assms
proof cases
  case (call c m)
  then show ?thesis using p2p_inv_idle [OF assms(2), of c "Waiting m"] by simp
next
  case (again c m res)
  then show ?thesis using p2p_inv_idle [OF assms(2), of c Idle] by simp
next
  case (lock c m out ended)
  show ?thesis
  proof (cases "fst out")
    case None
    then have free: "\<not> pc_locked (pn_client (py_link s))" "snd out"
      using lock(3) by (auto simp: ctx_lock_def split: if_splits option.splits)
    then have "(\<forall>c. \<not> holds (py_callers s c)) \<and> link_clear (py_link s)"
      using assms(2) by (simp add: p2p_inv_def)
    then show ?thesis
      using lock(1) None free assms(2) by (auto simp: after_lock_def p2p_inv_def case_prod_unfold)
  next
    case (Some e)
    then show ?thesis
      using lock(1,2) p2p_inv_idle [OF assms(2), of c "Answered m (Inl e)"]
      by (simp add: after_lock_def case_prod_unfold)
  qed
next
  case (send c m opened written delivered)
  have holds: "holds (py_callers s c)" using send(2) by simp
  have clear: "link_clear (py_link s)" using p2p_inv_holder(3) [OF assms(2) holds] send(2) by simp
  obtain out where out: "send_message opened written delivered m (py_link s) = out" by blast
  from clear out show ?thesis
  proof (cases rule: send_message_clear [where handle = handle])
    case (1 e l)
    then show ?thesis
      using p2p_inv_return [OF assms(2) holds, of l m "Inl (ErrWrap ''cannot sent request: '' e)"] send(1) out
      by (simp add: after_send_def)
  next
    case (2 l)
    then show ?thesis
      using send(1) out assms(2) p2p_inv_holder(1,2) [OF assms(2) holds]
      by (auto simp: after_send_def p2p_inv_def)
  qed
next
  case (receive c m outcome out)
  have holds: "holds (py_callers s c)" using receive(2) by simp
  have "link_serving handle m (py_link s)" using p2p_inv_holder(3) [OF assms(2) holds] receive(2) by simp
  then obtain res l where "out = Inr (res, l)" "link_clear l"
    "pc_locked (pn_client l) = pc_locked (pn_client (py_link s))" "answer_ok handle decode_rsp (Answered m res)"
    using receive_response_serving receive(3) by metis
  then show ?thesis
    using p2p_inv_return [OF assms(2) holds] receive(1) by (simp add: after_receive_def)
next
  case (serve n)
  then show ?thesis
    using serve_link [OF serve(2) refl, of handle] assms(2) by (fastforce simp: p2p_inv_def)
next
  case (close l)
  then have "link_clear l \<and> \<not> pc_locked (pn_client l)"
    using assms(2) by (auto simp: close_client_def close_stream_def link_clear_def p2p_inv_def split: if_splits option.splits)
  then show ?thesis using close assms(2) by (simp add: p2p_inv_def)
qed

lemma p2p_start_inv: "p2p_inv handle decode_rsp p2p_start"
  by (simp add: p2p_inv_def p2p_start_def link_clear_def)

text \<open>C18: Every response belongs to its own request. Whatever the interleaving of callers, the network and
  the server, and however requests are cancelled, time out or fail while the client goes on to use its
  stream, a request that returns a response returns the server's answer to its own message, never the
  late answer to another one. At most one call uses the stream at a time, and nothing panics.
\<close>

theorem responses_match_requests:
  assumes "(p2p_step handle decode_rsp)\<^sup>*\<^sup>* p2p_start s"
  shows "\<not> py_panicked s \<and>
    (\<forall>c m rsp. py_callers s c = Answered m (Inr rsp) \<longrightarrow> handle m = Inr rsp \<and> decode_rsp rsp = None) \<and>
    (\<forall>c d. holds (py_callers s c) \<and> holds (py_callers s d) \<longrightarrow> c = d)"
proof -
  have "p2p_inv handle decode_rsp s"
    using assms by (induction rule: rtranclp_induct) (auto intro: p2p_start_inv p2p_step_inv)
  then show ?thesis
    by (auto simp: p2p_inv_def answer_ok_def split: if_splits)
qed

section \<open>A concrete run\<close>

text \<open>
  A request whose response comes after the time-out, and a second one on a new stream: the late
  response stays behind in the first stream.
\<close>

definition echo :: "bytes \<Rightarrow> go_error + bytes" where
  "echo m = (if m = [] then Inl (ErrMsg ''no message'') else Inr (''re: '' @ m))"

definition accept_all :: "bytes \<Rightarrow> go_error option" where
  "accept_all rsp = None"

definition late :: p2p_sys where
  "late =
     \<lparr>py_link = \<lparr>pn_client = \<lparr>pc_locked = False, pc_stream = None\<rparr>,
        pn_streams = [\<lparr>sm_requests = [], sm_replies = [''re: a''], sm_ended = False\<rparr>]\<rparr>,
      py_callers = (\<lambda>_. Idle)(0 := Answered ''a'' (Inl (ErrWrap ''cannot read response: '' err_read_timeout))),
      py_panicked = False\<rparr>"

lemmas p2p_ops = after_lock_def after_send_def after_receive_def return_call_def ctx_unlock_def set_locked_def
  send_message_def prep_stream_reader_def new_stream_def close_stream_def receive_response_def ctx_read_msg_def
  serve_stream_def echo_def accept_all_def Let_def

lemma late_reached: "(p2p_step echo accept_all)\<^sup>*\<^sup>* p2p_start late"
proof -
  let ?s1 = "p2p_start\<lparr>py_callers := (py_callers p2p_start)(0 := Waiting ''a'')\<rparr>"
  let ?s2 = "after_lock 0 ''a'' (None, True) ?s1"
  let ?s3 = "after_send 0 ''a'' (send_message None None True ''a'' (py_link ?s2)) ?s2"
  let ?s4 = "?s3\<lparr>py_link := (py_link ?s3)\<lparr>
      pn_streams := (pn_streams (py_link ?s3))[0 := serve_stream echo (pn_streams (py_link ?s3) ! 0)]\<rparr>\<rparr>"
  have "p2p_step echo accept_all p2p_start ?s1" by (rule p2p_step.call) (simp add: p2p_start_def)
  moreover have "p2p_step echo accept_all ?s1 ?s2"
    by (rule p2p_step.lock [where ended = None]) (simp_all add: p2p_start_def ctx_lock_def)
  moreover have "p2p_step echo accept_all ?s2 ?s3"
    by (rule p2p_step.send) (simp add: p2p_ops p2p_start_def)
  moreover have "p2p_step echo accept_all ?s3 ?s4"
    by (rule p2p_step.serve) (simp add: p2p_ops p2p_start_def)
  moreover have "p2p_step echo accept_all ?s4 late"
  proof -
    have "py_callers ?s4 0 = Sent ''a''" by (simp add: p2p_ops p2p_start_def)
    moreover have "receive_response accept_all Timed_Out (py_link ?s4) = Some (Inr
        (Inl (ErrWrap ''cannot read response: '' err_read_timeout),
         (py_link ?s4)\<lparr>pn_client := (pn_client (py_link ?s4))\<lparr>pc_stream := None\<rparr>\<rparr>))" (is "_ = Some ?out")
      by (simp add: p2p_ops p2p_start_def)
    ultimately have "p2p_step echo accept_all ?s4 (after_receive 0 ''a'' ?out ?s4)"
      by (rule p2p_step.receive)
    moreover have "after_receive 0 ''a'' ?out ?s4 = late"
      by (simp add: p2p_ops p2p_start_def late_def fun_eq_iff)
    ultimately show ?thesis by simp
  qed
  ultimately show ?thesis by (meson rtranclp.rtrancl_refl rtranclp.rtrancl_into_rtrancl)
qed

lemma second_answer_reached:
  "\<exists>s. (p2p_step echo accept_all)\<^sup>*\<^sup>* late s \<and> py_callers s 1 = Answered ''b'' (Inr ''re: b'') \<and>
     py_callers s 0 = py_callers late 0"
proof -
  let ?s1 = "late\<lparr>py_callers := (py_callers late)(1 := Waiting ''b'')\<rparr>"
  let ?s2 = "after_lock 1 ''b'' (None, True) ?s1"
  let ?s3 = "after_send 1 ''b'' (send_message None None True ''b'' (py_link ?s2)) ?s2"
  let ?s4 = "?s3\<lparr>py_link := (py_link ?s3)\<lparr>
      pn_streams := (pn_streams (py_link ?s3))[1 := serve_stream echo (pn_streams (py_link ?s3) ! 1)]\<rparr>\<rparr>"
  have "p2p_step echo accept_all late ?s1" by (rule p2p_step.call) (simp add: late_def)
  moreover have "p2p_step echo accept_all ?s1 ?s2"
    by (rule p2p_step.lock [where ended = None]) (simp_all add: late_def ctx_lock_def)
  moreover have "p2p_step echo accept_all ?s2 ?s3"
    by (rule p2p_step.send) (simp add: p2p_ops late_def)
  moreover have "p2p_step echo accept_all ?s3 ?s4"
    by (rule p2p_step.serve) (simp add: p2p_ops late_def)
  moreover obtain out where out: "receive_response accept_all Message (py_link ?s4) = Some out"
    and answers: "py_callers (after_receive 1 ''b'' out ?s4) 1 = Answered ''b'' (Inr ''re: b'')"
      "py_callers (after_receive 1 ''b'' out ?s4) 0 = py_callers late 0"
    by (simp add: p2p_ops late_def)
  moreover have "p2p_step echo accept_all ?s4 (after_receive 1 ''b'' out ?s4)"
    by (rule p2p_step.receive [OF _ out]) (simp add: p2p_ops late_def)
  ultimately show ?thesis by (meson rtranclp.rtrancl_refl rtranclp.rtrancl_into_rtrancl)
qed

theorem responses_match_requests_witness:
  "\<exists>s. (p2p_step echo accept_all)\<^sup>*\<^sup>* p2p_start s \<and> py_callers s 1 = Answered ''b'' (Inr ''re: b'') \<and>
     echo ''b'' = Inr ''re: b'' \<and> \<not> py_panicked s"
proof -
  obtain s where s: "(p2p_step echo accept_all)\<^sup>*\<^sup>* late s" "py_callers s 1 = Answered ''b'' (Inr ''re: b'')"
    using second_answer_reached by blast
  have run: "(p2p_step echo accept_all)\<^sup>*\<^sup>* p2p_start s" using late_reached s(1) by (rule rtranclp_trans)
  show ?thesis using responses_match_requests [OF run] run s(2) by blast
qed

section \<open>Messages without a response\<close>

text \<open>
  \<open>SendMessage\<close>, which the clients do not use: it sends and does not wait. \<open>lock\<close> is the outcome of locking.
\<close>

definition send_one_way ::
    "go_error option \<times> bool \<Rightarrow> go_error option \<Rightarrow> go_error option \<Rightarrow> bool \<Rightarrow> bytes \<Rightarrow> p2p_link \<Rightarrow>
       (go_error option \<times> p2p_link) go" where
  "send_one_way lock opened written delivered m s =
     (case lock of
        (Some e, b) \<Rightarrow> Inr (Some e, s)
      | (None, b) \<Rightarrow>
          go_bind (send_message opened written delivered m (set_locked b s)) (\<lambda>(e, s).
          go_bind (ctx_unlock (pc_locked (pn_client s))) (\<lambda>b. Inr (e, set_locked b s))))"

definition serve_link :: "(bytes \<Rightarrow> go_error + bytes) \<Rightarrow> nat \<Rightarrow> p2p_link \<Rightarrow> p2p_link" where
  "serve_link handle n s = s\<lparr>pn_streams := (pn_streams s)[n := serve_stream handle (pn_streams s ! n)]\<rparr>"

text \<open>
  The server replies to every message, and nobody reads the reply to one that was sent without waiting: the
  next request on the stream takes it for its own.
\<close>

lemma one_way_message_mixes_replies:
  "\<exists>l1 l2 l3. send_one_way (None, True) None None True ''a'' (py_link p2p_start) = Inr (None, l1) \<and>
     send_message None None True ''b'' (set_locked True (serve_link echo 0 l1)) = Inr (None, l2) \<and>
     receive_response accept_all Message (serve_link echo 0 l2) = Some (Inr (Inr ''re: a'', l3))"
  by (simp add: send_one_way_def serve_link_def p2p_start_def go_bind_def p2p_ops)

end
