(* ===== verification/Ingest_Close.thy ===== *)
theory Ingest_Close
  imports Prelude Machines
begin

text \<open>
  Closing the ingester (\<open>Ingester.Close\<close> of \<^verbatim>\<open>internal/ingest/ingest.go\<close>) against everything that runs:
  the loop that stages assignments, the workers, the distributor of events, and the explicit syncs. Of
  an assignment only the publishers of the events it gives rise to are kept: what the workers do with it
  is modelled in the theories on the workers.
\<close>

section \<open>What runs\<close>

text \<open>A worker at its select, with events still to send, or stopped.\<close>

datatype worker_state = Selecting | Ingesting "peer_id list" | Stopped

text \<open>
  A call of \<open>Sync\<close> starts, subscribes to the events of its publisher, fetches, awaits its event, leaves
  (the deferred cancellation of its subscription) and has returned. It has a channel with room for one
  event, which is listed among the subscribers' until it leaves or is dismissed.
\<close>

datatype sync_phase = Starting | Fetching | Awaiting | Leaving | Returned

record sync_call =
  sc_publisher :: peer_id
  sc_phase :: sync_phase
  sc_listed :: bool
  sc_full :: bool
  sc_closed :: bool

text \<open>
  \<open>Close\<close> first dismisses the subscribers, ends the loop and closes \<open>closeWorkers\<close>; it waits for the
  workers, closes \<open>closePendingSyncs\<close>, waits for the syncs, and closes the two channels \<open>inEvents\<close> and
  \<open>sigUpdate\<close>, on which the distributor and the metrics updater end.
\<close>

datatype close_phase = Open | Stopping_Workers | Stopping_Syncs | Closed

text \<open>
  \<open>ig_staged\<close> holds the assignments of finished syncs that no worker has taken, \<open>ig_event\<close> the event in
  \<open>inEvents\<close>, which has room for one, and \<open>ig_distributing\<close> the syncs to which the distributor has still
  to copy its event; it holds \<open>outEventsMutex\<close> meanwhile.
\<close>

record ingest_close =
  ig_phase :: close_phase
  ig_staged :: "peer_id list list"
  ig_workers :: "worker_state list"
  ig_event :: "peer_id option"
  ig_distributing :: "nat list option"
  ig_syncs :: "sync_call list"
  ig_panicked :: bool

definition close_workers_closed :: "close_phase \<Rightarrow> bool" where
  "close_workers_closed ph \<longleftrightarrow> ph \<noteq> Open"

definition close_pending_syncs_closed :: "close_phase \<Rightarrow> bool" where
  "close_pending_syncs_closed ph \<longleftrightarrow> ph = Stopping_Syncs \<or> ph = Closed"

text \<open>Sending on a channel once it is closed panics.\<close>

definition emit :: "peer_id \<Rightarrow> ingest_close \<Rightarrow> ingest_close" where
  "emit p s = (if ig_phase s = Closed then s\<lparr>ig_panicked := True\<rparr> else s\<lparr>ig_event := Some p\<rparr>)"

definition signal_metrics :: "ingest_close \<Rightarrow> ingest_close" where
  "signal_metrics s = (if ig_phase s = Closed then s\<lparr>ig_panicked := True\<rparr> else s)"

definition set_worker :: "nat \<Rightarrow> worker_state \<Rightarrow> ingest_close \<Rightarrow> ingest_close" where
  "set_worker i w s = s\<lparr>ig_workers := (ig_workers s)[i := w]\<rparr>"

definition set_sync :: "nat \<Rightarrow> sync_call \<Rightarrow> ingest_close \<Rightarrow> ingest_close" where
  "set_sync j y s = s\<lparr>ig_syncs := (ig_syncs s)[j := y]\<rparr>"

text \<open>The subscribers to the events of a publisher, and copying an event to one.\<close>

definition listed_syncs :: "peer_id \<Rightarrow> sync_call list \<Rightarrow> nat list" where
  "listed_syncs p ys = filter (\<lambda>j. sc_listed (ys ! j) \<and> sc_publisher (ys ! j) = p) [0..<length ys]"

definition deliver_to :: "nat \<Rightarrow> ingest_close \<Rightarrow> ingest_close" where
  "deliver_to j s =
     (if sc_closed (ig_syncs s ! j) then s\<lparr>ig_panicked := True\<rparr>
      else set_sync j ((ig_syncs s ! j)\<lparr>sc_full := True\<rparr>) s)"

definition dismiss_sync :: "sync_call \<Rightarrow> sync_call" where
  "dismiss_sync y = (if sc_listed y then y\<lparr>sc_listed := False, sc_closed := True\<rparr> else y)"

definition new_sync :: "peer_id \<Rightarrow> sync_call" where
  "new_sync p = \<lparr>sc_publisher = p, sc_phase = Starting, sc_listed = False, sc_full = False, sc_closed = False\<rparr>"

text \<open>
  \<open>External\<close> labels what comes from outside: a finished sync, a new call of \<open>Sync\<close>, the cancellation of
  its context, and the call of \<open>Close\<close>, which can dismiss the subscribers when the distributor has not
  locked the mutex. A worker at its select may still take an assignment when \<open>closeWorkers\<close> is closed. A
  sync whose channel was closed reads empty events from it and goes on waiting, which is no step. Any
  sync in the subscriber may fail.
\<close>

inductive close_step :: "ingest_close \<Rightarrow> step_label \<Rightarrow> ingest_close \<Rightarrow> bool" where
  stage: "ig_phase s = Open \<Longrightarrow> close_step s External (s\<lparr>ig_staged := ig_staged s @ [ps]\<rparr>)"
| sync: "close_step s External (s\<lparr>ig_syncs := ig_syncs s @ [new_sync p]\<rparr>)"
| cancel: "j < length (ig_syncs s) \<Longrightarrow> ig_syncs s ! j = y \<Longrightarrow> sc_phase y = Awaiting \<Longrightarrow>
    close_step s External (set_sync j (y\<lparr>sc_phase := Leaving\<rparr>) s)"
| close: "ig_phase s = Open \<Longrightarrow> ig_distributing s = None \<Longrightarrow>
    close_step s External (s\<lparr>ig_phase := Stopping_Workers, ig_syncs := map dismiss_sync (ig_syncs s)\<rparr>)"
| take: "i < length (ig_workers s) \<Longrightarrow> ig_workers s ! i = Selecting \<Longrightarrow> ig_staged s = ps # pss \<Longrightarrow>
    close_step s Internal (set_worker i (Ingesting ps) (s\<lparr>ig_staged := pss\<rparr>))"
| send: "i < length (ig_workers s) \<Longrightarrow> ig_workers s ! i = Ingesting (p # ps) \<Longrightarrow>
    ig_event s = None \<or> ig_phase s = Closed \<Longrightarrow> close_step s Internal (emit p (set_worker i (Ingesting ps) s))"
| ingested: "i < length (ig_workers s) \<Longrightarrow> ig_workers s ! i = Ingesting [] \<Longrightarrow>
    close_step s Internal (set_worker i Selecting s)"
| stop: "i < length (ig_workers s) \<Longrightarrow> ig_workers s ! i = Selecting \<Longrightarrow> close_workers_closed (ig_phase s) \<Longrightarrow>
    close_step s Internal (set_worker i Stopped s)"
| distribute: "ig_event s = Some p \<Longrightarrow> ig_distributing s = None \<Longrightarrow>
    close_step s Internal (s\<lparr>ig_event := None, ig_distributing := Some (listed_syncs p (ig_syncs s))\<rparr>)"
| deliver: "ig_distributing s = Some (j # js) \<Longrightarrow> \<not> sc_full (ig_syncs s ! j) \<Longrightarrow>
    close_step s Internal (deliver_to j (s\<lparr>ig_distributing := Some js\<rparr>))"
| distributed: "ig_distributing s = Some [] \<Longrightarrow> close_step s Internal (s\<lparr>ig_distributing := None\<rparr>)"
| not_started: "j < length (ig_syncs s) \<Longrightarrow> ig_syncs s ! j = y \<Longrightarrow> sc_phase y = Starting \<Longrightarrow>
    close_step s Internal (set_sync j (y\<lparr>sc_phase := Returned\<rparr>) s)"
| subscribe: "j < length (ig_syncs s) \<Longrightarrow> ig_syncs s ! j = y \<Longrightarrow> sc_phase y = Starting \<Longrightarrow>
    ig_distributing s = None \<Longrightarrow>
    close_step s Internal (set_sync j (y\<lparr>sc_phase := Fetching, sc_listed := True\<rparr>) s)"
| fetched: "j < length (ig_syncs s) \<Longrightarrow> ig_syncs s ! j = y \<Longrightarrow> sc_phase y = Fetching \<Longrightarrow>
    ph \<in> {Awaiting, Leaving} \<Longrightarrow> close_step s Internal (set_sync j (y\<lparr>sc_phase := ph\<rparr>) s)"
| own_event: "j < length (ig_syncs s) \<Longrightarrow> ig_syncs s ! j = y \<Longrightarrow> sc_phase y = Awaiting \<Longrightarrow> sc_full y \<Longrightarrow>
    close_step s Internal (signal_metrics (set_sync j (y\<lparr>sc_phase := Leaving, sc_full := False\<rparr>) s))"
| other_event: "j < length (ig_syncs s) \<Longrightarrow> ig_syncs s ! j = y \<Longrightarrow> sc_phase y = Awaiting \<Longrightarrow> sc_full y \<Longrightarrow>
    close_step s Internal (set_sync j (y\<lparr>sc_full := False\<rparr>) s)"
| dismissed: "j < length (ig_syncs s) \<Longrightarrow> ig_syncs s ! j = y \<Longrightarrow> sc_phase y = Awaiting \<Longrightarrow>
    close_pending_syncs_closed (ig_phase s) \<Longrightarrow> close_step s Internal (set_sync j (y\<lparr>sc_phase := Leaving\<rparr>) s)"
| leave: "j < length (ig_syncs s) \<Longrightarrow> ig_syncs s ! j = y \<Longrightarrow> sc_phase y = Leaving \<Longrightarrow> ig_distributing s = None \<Longrightarrow>
    close_step s Internal (set_sync j (y\<lparr>sc_phase := Returned, sc_listed := False\<rparr>) s)"
| workers_stopped: "ig_phase s = Stopping_Workers \<Longrightarrow> set (ig_workers s) \<subseteq> {Stopped} \<Longrightarrow>
    close_step s Internal (s\<lparr>ig_phase := Stopping_Syncs\<rparr>)"
| syncs_returned: "ig_phase s = Stopping_Syncs \<Longrightarrow> (\<forall>y \<in> set (ig_syncs s). sc_phase y = Returned) \<Longrightarrow>
    close_step s Internal (s\<lparr>ig_phase := Closed\<rparr>)"

section \<open>The invariant\<close>

text \<open>
  What an event is copied to is listed and open; no worker is left once \<open>Close\<close> is past them; and a sync
  that runs when everything is closed is a late one, which subscribed after \<open>Close\<close> dismissed the others.
\<close>

definition close_inv :: "ingest_close \<Rightarrow> bool" where
  "close_inv s \<longleftrightarrow>
     (ig_panicked s \<longrightarrow> ig_phase s = Closed) \<and>
     (ig_phase s \<in> {Stopping_Syncs, Closed} \<longrightarrow> set (ig_workers s) \<subseteq> {Stopped}) \<and>
     (\<forall>j < length (ig_syncs s). sc_listed (ig_syncs s ! j) \<longrightarrow> \<not> sc_closed (ig_syncs s ! j)) \<and>
     (\<forall>j < length (ig_syncs s). sc_phase (ig_syncs s ! j) = Starting \<longrightarrow>
       \<not> sc_closed (ig_syncs s ! j) \<and> \<not> sc_listed (ig_syncs s ! j)) \<and>
     (\<forall>j < length (ig_syncs s). ig_phase s = Closed \<and> \<not> sc_listed (ig_syncs s ! j) \<longrightarrow>
       sc_phase (ig_syncs s ! j) \<in> {Starting, Returned}) \<and>
     (\<forall>js. ig_distributing s = Some js \<longrightarrow> (\<forall>j \<in> set js. j < length (ig_syncs s) \<and> sc_listed (ig_syncs s ! j)))"

definition close_start :: "nat \<Rightarrow> ingest_close" where
  "close_start n = \<lparr>ig_phase = Open, ig_staged = [], ig_workers = replicate n Selecting, ig_event = None,
     ig_distributing = None, ig_syncs = [], ig_panicked = False\<rparr>"

lemma close_start_inv: "close_inv (close_start n)"
  by (simp add: close_inv_def close_start_def)

lemmas close_ops = emit_def signal_metrics_def set_worker_def set_sync_def close_workers_closed_def
  close_pending_syncs_closed_def deliver_to_def

lemma all_updated: "set xs \<subseteq> A \<Longrightarrow> y \<in> A \<Longrightarrow> set (xs[i := y]) \<subseteq> A"
  using set_update_subset_insert [of xs i y] by blast

lemma working_phase:
  assumes "close_inv s" and "i < length (ig_workers s)" and "ig_workers s ! i \<noteq> Stopped"
  shows "ig_phase s \<notin> {Stopping_Syncs, Closed}"
  using assms by (auto simp: close_inv_def dest: nth_mem)

lemma close_step_inv: "close_step s l t \<Longrightarrow> close_inv s \<Longrightarrow> close_inv t"
proof (induction rule: close_step.induct)
  case (take i s ps pss)
  then have "ig_phase s \<notin> {Stopping_Syncs, Closed}" using working_phase [of s i] by simp
  then show ?case using take by (simp add: close_inv_def close_ops)
next
  case (send i s p ps)
  then have "ig_phase s \<notin> {Stopping_Syncs, Closed}" using working_phase [of s i] by simp
  then show ?case using send by (simp add: close_inv_def close_ops)
next
  case (ingested i s)
  then have "ig_phase s \<notin> {Stopping_Syncs, Closed}" using working_phase [of s i] by simp
  then show ?case using ingested by (simp add: close_inv_def close_ops)
next
  case (stop i s)
  then have "ig_phase s \<notin> {Stopping_Syncs, Closed}" using working_phase [of s i] by simp
  then show ?case using stop by (simp add: close_inv_def close_ops)
next
  case (sync s p)
  then show ?case by (auto simp: close_inv_def new_sync_def nth_append less_Suc_eq)
next
  case (close s)
  then show ?case by (auto simp: close_inv_def dismiss_sync_def)
next
  case (distribute s p)
  then show ?case by (simp add: close_inv_def listed_syncs_def)
next
  case (syncs_returned s)
  then show ?case by (simp add: close_inv_def)
qed (auto simp: close_inv_def close_ops nth_list_update split: if_split_asm)


section \<open>Closing ends\<close>

text \<open>
  A late sync subscribes, or has subscribed, after \<open>Close\<close> dismissed the subscribers. The distributor can
  block on its channel, with the mutex that the sync needs to leave.
\<close>

definition late_sync :: "sync_call \<Rightarrow> bool" where
  "late_sync y \<longleftrightarrow> sc_phase y = Starting \<or> sc_listed y"

definition closing_down :: "ingest_close \<Rightarrow> bool" where
  "closing_down s \<longleftrightarrow> ig_phase s \<noteq> Open \<and> \<not> ig_panicked s \<and> (\<forall>j < length (ig_syncs s). \<not> late_sync (ig_syncs s ! j))"

fun worker_weight :: "worker_state \<Rightarrow> nat" where
  "worker_weight Stopped = 0"
| "worker_weight Selecting = 1"
| "worker_weight (Ingesting ps) = 3 * length ps + 2"

fun sync_phase_weight :: "sync_phase \<Rightarrow> nat" where
  "sync_phase_weight Starting = 4"
| "sync_phase_weight Fetching = 3"
| "sync_phase_weight Awaiting = 2"
| "sync_phase_weight Leaving = 1"
| "sync_phase_weight Returned = 0"

definition sync_weight :: "sync_call \<Rightarrow> nat" where
  "sync_weight y = sync_phase_weight (sc_phase y) + of_bool (sc_full y)"

fun phase_weight :: "close_phase \<Rightarrow> nat" where
  "phase_weight Open = 3"
| "phase_weight Stopping_Workers = 2"
| "phase_weight Stopping_Syncs = 1"
| "phase_weight Closed = 0"

definition close_distance :: "ingest_close \<Rightarrow> nat" where
  "close_distance s = sum_list (map worker_weight (ig_workers s)) + sum_list (map sync_weight (ig_syncs s)) +
     sum_list (map (\<lambda>ps. 3 * length ps + 2) (ig_staged s)) + 2 * of_bool (ig_event s \<noteq> None) +
     of_bool (ig_distributing s \<noteq> None) + phase_weight (ig_phase s)"

lemma sum_list_map_update:
  fixes f :: "'a \<Rightarrow> nat"
  shows "i < length xs \<Longrightarrow> sum_list (map f (xs[i := y])) + f (xs ! i) = sum_list (map f xs) + f y"
proof (induction xs arbitrary: i)
  case (Cons x xs)
  then show ?case by (cases i) auto
qed simp

lemma closing_distributor:
  assumes "close_inv s" and "closing_down s" and "ig_distributing s = Some js"
  shows "js = []"
proof (rule ccontr)
  assume "js \<noteq> []"
  then have "hd js \<in> set js" by simp
  then show False using assms unfolding close_inv_def closing_down_def late_sync_def by blast
qed

lemma closing_step_stays:
  assumes "close_step s Internal t" and "close_inv s" and "closing_down s"
  shows "closing_down t"
  using assms(1)
proof (cases rule: close_step.cases)
  case (send i p ps)
  then have "ig_phase s \<noteq> Closed" using working_phase [OF assms(2), of i] by simp
  then show ?thesis using send assms(3) by (simp add: closing_down_def close_ops)
next
  case (deliver j js)
  then show ?thesis using closing_distributor [OF assms(2,3)] by simp
next
  case (own_event j y)
  then have "ig_phase s \<noteq> Closed" using assms(2,3) by (auto simp: close_inv_def closing_down_def late_sync_def)
  then show ?thesis using own_event assms(3)
    by (auto simp: closing_down_def close_ops nth_list_update late_sync_def)
qed (use assms(3) in \<open>auto simp: closing_down_def close_ops nth_list_update late_sync_def\<close>)

lemma closing_step_distance:
  assumes "close_step s Internal t" and "close_inv s" and "closing_down s"
  shows "close_distance t < close_distance s"
proof -
  note worker = sum_list_map_update [of _ "ig_workers s" worker_weight]
  note sync = sum_list_map_update [of _ "ig_syncs s" sync_weight]
  note unfold = close_distance_def close_ops sync_weight_def
  show ?thesis
    using assms(1)
  proof (cases rule: close_step.cases)
    case (take i ps pss)
    then show ?thesis using worker [of i "Ingesting ps"] by (simp add: unfold)
  next
    case (send i p ps)
    then have "ig_phase s \<noteq> Closed" using working_phase [OF assms(2), of i] by simp
    then show ?thesis using send worker [of i "Ingesting ps"] by (simp add: unfold)
  next
    case (ingested i)
    then show ?thesis using worker [of i Selecting] by (simp add: unfold)
  next
    case (stop i)
    then show ?thesis using worker [of i Stopped] by (simp add: unfold)
  next
    case (deliver j js)
    then show ?thesis using closing_distributor [OF assms(2,3)] by simp
  next
    case (not_started j y)
    then show ?thesis using assms(3) by (auto simp: closing_down_def late_sync_def)
  next
    case (subscribe j y)
    then show ?thesis using assms(3) by (auto simp: closing_down_def late_sync_def)
  next
    case (fetched j y ph)
    then show ?thesis using sync [of j "y\<lparr>sc_phase := ph\<rparr>"] by (auto simp: unfold)
  next
    case (own_event j y)
    then have "ig_phase s \<noteq> Closed" using assms(2,3) by (auto simp: close_inv_def closing_down_def late_sync_def)
    then show ?thesis using own_event sync [of j "y\<lparr>sc_phase := Leaving, sc_full := False\<rparr>"] by (simp add: unfold)
  next
    case (other_event j y)
    then show ?thesis using sync [of j "y\<lparr>sc_full := False\<rparr>"] by (simp add: unfold)
  next
    case (dismissed j y)
    then show ?thesis using sync [of j "y\<lparr>sc_phase := Leaving\<rparr>"] by (simp add: unfold)
  next
    case (leave j y)
    then show ?thesis using sync [of j "y\<lparr>sc_phase := Returned, sc_listed := False\<rparr>"] by (simp add: unfold)
  qed (simp_all add: close_distance_def)
qed

lemma not_all_equal: "\<not> set xs \<subseteq> {y} \<Longrightarrow> \<exists>i < length xs. xs ! i \<noteq> y"
  by (auto simp: in_set_conv_nth)

text \<open>While the distributor can be waited for, it goes on.\<close>

lemma distributor_progress:
  assumes "close_inv s" and "closing_down s"
  shows "(\<exists>t. close_step s Internal t) \<or> ig_distributing s = None \<and> ig_event s = None"
proof (cases "ig_distributing s")
  case None
  then show ?thesis using close_step.distribute [of s] by (cases "ig_event s") auto
next
  case (Some js)
  then show ?thesis using close_step.distributed [of s] closing_distributor [OF assms] by blast
qed

lemma sync_progress:
  assumes "close_inv s" and "closing_down s" and "ig_phase s \<in> {Stopping_Syncs, Closed}"
    and "j < length (ig_syncs s)" and "sc_phase (ig_syncs s ! j) \<noteq> Returned"
  shows "\<exists>t. close_step s Internal t"
proof (cases "sc_phase (ig_syncs s ! j)")
  case Starting
  then show ?thesis using assms(2,4) by (auto simp: closing_down_def late_sync_def)
next
  case Fetching
  then show ?thesis using close_step.fetched [OF assms(4) refl, of Leaving] by blast
next
  case Awaiting
  then show ?thesis using close_step.dismissed [OF assms(4) refl] assms(3)
    by (auto simp: close_pending_syncs_closed_def)
next
  case Leaving
  then show ?thesis using close_step.leave [OF assms(4) refl] distributor_progress [OF assms(1,2)] by auto
qed (use assms(5) in simp)

lemma worker_progress:
  assumes "close_inv s" and "closing_down s"
    and "i < length (ig_workers s)" and "ig_workers s ! i \<noteq> Stopped"
  shows "\<exists>t. close_step s Internal t"
proof (cases "ig_workers s ! i")
  case Selecting
  then show ?thesis using close_step.stop [OF assms(3)] assms(2)
    by (auto simp: close_workers_closed_def closing_down_def)
next
  case (Ingesting ps)
  then show ?thesis
    using close_step.ingested [OF assms(3)] close_step.send [OF assms(3)] distributor_progress [OF assms(1,2)]
    by (cases ps) blast+
qed (use assms(4) in simp)

lemma close_progress:
  assumes "close_inv s" and "closing_down s" and "ig_phase s \<noteq> Closed"
  shows "\<exists>t. close_step s Internal t"
proof (cases "ig_phase s")
  case Stopping_Workers
  show ?thesis
  proof (cases "set (ig_workers s) \<subseteq> {Stopped}")
    case False
    then show ?thesis using not_all_equal [OF False] worker_progress [OF assms(1,2)] by blast
  qed (use Stopping_Workers close_step.workers_stopped in blast)
next
  case Stopping_Syncs
  show ?thesis
  proof (cases "\<forall>y \<in> set (ig_syncs s). sc_phase y = Returned")
    case False
    then obtain j where "j < length (ig_syncs s)" "sc_phase (ig_syncs s ! j) \<noteq> Returned"
      by (auto simp: in_set_conv_nth)
    then show ?thesis using sync_progress [OF assms(1,2)] Stopping_Syncs by blast
  qed (use Stopping_Syncs close_step.syncs_returned in blast)
qed (use assms in \<open>auto simp: closing_down_def\<close>)

interpretation ingest_closing: closing_machine close_step close_inv "\<lambda>l. l = Internal"
  closing_down "\<lambda>s. ig_phase s = Closed" close_distance
  by unfold_locales (auto intro: close_step_inv closing_step_stays closing_step_distance dest: close_progress)


text \<open>
  Right after \<open>Close\<close> dismissed the subscribers, no sync is late unless one has still to subscribe.
\<close>

lemma dismissal_leaves_late_syncs:
  assumes "close_inv s" and "ig_phase s = Open" and "\<forall>y \<in> set (ig_syncs s). sc_phase y \<noteq> Starting"
  shows "closing_down (s\<lparr>ig_phase := Stopping_Workers, ig_syncs := map dismiss_sync (ig_syncs s)\<rparr>)"
  using assms by (auto simp: closing_down_def close_inv_def late_sync_def dismiss_sync_def)

text \<open>C17: Closing the ingester ends, and nothing panics. In no interleaving of the loop, the workers, the
  distributor, the syncs and \<open>Close\<close> does anything send on a channel that \<open>Close\<close> has closed before all
  channels are. Once \<open>Close\<close> has dismissed the subscribers, and no sync subscribes after that, a bounded
  number of steps is left without new syncs, whatever their order; none of them panics, and when no more
  can be done \<open>Close\<close> has returned, every worker has stopped and every sync has returned.
\<close>

theorem ingester_close_terminates:
  assumes "run close_step (close_start n) ls s"
  shows "(ig_panicked s \<longrightarrow> ig_phase s = Closed) \<and>
    (closing_down s \<longrightarrow> (\<forall>ms t. run close_step s ms t \<and> list_all (\<lambda>l. l = Internal) ms \<longrightarrow>
      \<not> ig_panicked t \<and> length ms \<le> close_distance s \<and>
      ((\<nexists>u. close_step t Internal u) \<longrightarrow> ig_phase t = Closed \<and> set (ig_workers t) \<subseteq> {Stopped} \<and>
        (\<forall>y \<in> set (ig_syncs t). sc_phase y = Returned))))"
proof -
  have inv: "close_inv s" by (rule ingest_closing.run_inv [OF assms close_start_inv])
  have "\<not> ig_panicked t \<and> length ms \<le> close_distance s \<and>
      ((\<nexists>u. close_step t Internal u) \<longrightarrow> ig_phase t = Closed \<and> set (ig_workers t) \<subseteq> {Stopped} \<and>
        (\<forall>y \<in> set (ig_syncs t). sc_phase y = Returned))"
    if run: "run close_step s ms t" "closing_down s" "list_all (\<lambda>l. l = Internal) ms" for ms t
  proof -
    have t: "close_inv t" "closing_down t" "length ms \<le> close_distance s"
      using ingest_closing.bounded [OF run(1) inv run(2,3)] by simp_all
    have closed: "ig_phase t = Closed" if "\<nexists>u. close_step t Internal u"
      using that close_progress [OF t(1,2)] by blast
    have "sc_phase (ig_syncs t ! j) = Returned"
      if "\<nexists>u. close_step t Internal u" "j < length (ig_syncs t)" for j
      using that sync_progress [OF t(1,2), of j] closed by blast
    then show ?thesis using t closed by (auto simp: close_inv_def closing_down_def in_set_conv_nth)
  qed
  then show ?thesis using inv by (auto simp: close_inv_def)
qed

section \<open>A concrete run\<close>

lemma run_snoc: "run step s ls t \<Longrightarrow> step t l u \<Longrightarrow> ms = ls @ [l] \<Longrightarrow> run step s ms u"
  using run_step [of step s ls t l u] by simp

abbreviation busy_sync :: "sync_phase \<Rightarrow> bool \<Rightarrow> sync_call" where
  "busy_sync ph closed \<equiv> \<lparr>sc_publisher = ''P'', sc_phase = ph, sc_listed = (ph = Fetching \<and> \<not> closed), sc_full = False,
     sc_closed = closed\<rparr>"

abbreviation busy_close :: "close_phase \<Rightarrow> peer_id list list \<Rightarrow> worker_state list \<Rightarrow> sync_call list \<Rightarrow> ingest_close" where
  "busy_close ph staged ws ys \<equiv>
     \<lparr>ig_phase = ph, ig_staged = staged, ig_workers = ws, ig_event = None, ig_distributing = None, ig_syncs = ys,
      ig_panicked = False\<rparr>"

text \<open>One worker, one assignment that gives one event, and one sync, when \<open>Close\<close> is called.\<close>

lemma busy_close_reached:
  "run close_step (close_start 1) [External, External, Internal, External]
     (busy_close Stopping_Workers [[''P'']] [Selecting] [busy_sync Fetching True])"
proof -
  have 1: "close_step (close_start 1) External (busy_close Open [[''P'']] [Selecting] [])"
    using close_step.stage [of "close_start 1" "[''P'']"] by (simp add: close_start_def)
  have 2: "close_step (busy_close Open [[''P'']] [Selecting] []) External
      (busy_close Open [[''P'']] [Selecting] [busy_sync Starting False])"
    using close_step.sync [of "busy_close Open [[''P'']] [Selecting] []" "''P''"] by (simp add: new_sync_def)
  have 3: "close_step (busy_close Open [[''P'']] [Selecting] [busy_sync Starting False]) Internal
      (busy_close Open [[''P'']] [Selecting] [busy_sync Fetching False])"
    using close_step.subscribe [of 0 "busy_close Open [[''P'']] [Selecting] [busy_sync Starting False]"]
    by (simp add: set_sync_def)
  have 4: "close_step (busy_close Open [[''P'']] [Selecting] [busy_sync Fetching False]) External
      (busy_close Stopping_Workers [[''P'']] [Selecting] [busy_sync Fetching True])"
    using close_step.close [of "busy_close Open [[''P'']] [Selecting] [busy_sync Fetching False]"]
    by (simp add: dismiss_sync_def)
  have "run close_step (close_start 1) [External] (busy_close Open [[''P'']] [Selecting] [])"
    by (rule run_snoc [where step = close_step, OF run_refl [of close_step] 1]) simp
  then have "run close_step (close_start 1) [External, External]
      (busy_close Open [[''P'']] [Selecting] [busy_sync Starting False])"
    by (rule run_snoc [where step = close_step, OF _ 2]) simp
  then have "run close_step (close_start 1) [External, External, Internal]
      (busy_close Open [[''P'']] [Selecting] [busy_sync Fetching False])"
    by (rule run_snoc [where step = close_step, OF _ 3]) simp
  then show ?thesis
    by (rule run_snoc [where step = close_step, OF _ 4]) simp
qed

lemma busy_close_runs:
  "run close_step (busy_close Stopping_Workers [[''P'']] [Selecting] [busy_sync Fetching True]) [Internal]
     (busy_close Stopping_Workers [] [Ingesting [''P'']] [busy_sync Fetching True])"
proof (rule run_snoc [where step = close_step, OF run_refl [of close_step]])
  show "close_step (busy_close Stopping_Workers [[''P'']] [Selecting] [busy_sync Fetching True]) Internal
      (busy_close Stopping_Workers [] [Ingesting [''P'']] [busy_sync Fetching True])"
    using close_step.take [of 0 "busy_close Stopping_Workers [[''P'']] [Selecting] [busy_sync Fetching True]"]
    by (simp add: set_worker_def)
qed simp

lemma busy_closing_down:
  "closing_down (busy_close Stopping_Workers [[''P'']] [Selecting] [busy_sync Fetching True])"
  by (simp add: closing_down_def late_sync_def)

theorem ingester_close_terminates_witness:
  "closing_down (busy_close Stopping_Workers [[''P'']] [Selecting] [busy_sync Fetching True]) \<and>
   \<not> ig_panicked (busy_close Stopping_Workers [] [Ingesting [''P'']] [busy_sync Fetching True]) \<and>
   length [Internal] \<le> close_distance (busy_close Stopping_Workers [[''P'']] [Selecting] [busy_sync Fetching True])"
proof -
  have "list_all (\<lambda>l. l = Internal) [Internal]" by simp
  then show ?thesis
    using ingester_close_terminates [OF busy_close_reached] busy_close_runs busy_closing_down by blast
qed

end
