(* ===== verification/Ingest_Clients.thy ===== *)
theory Ingest_Clients
  imports Ingest_Server
begin

text \<open>
  The clients of the ingest server (\<^verbatim>\<open>api/v0/ingest/client\<close>) over libp2p, announces over HTTP, and the
  clients against the servers: a provider that registers over either protocol is registered in the
  same way, and an announce that is sent over HTTP is the one the ingester is told.
\<close>

section \<open>The libp2p client\<close>

fun ingest_type_name :: "ingest_type \<Rightarrow> string" where
  "ingest_type_name IgErrorResponse = ''ERROR_RESPONSE''"
| "ingest_type_name IgDiscover = ''DISCOVER_PROVIDER''"
| "ingest_type_name IgDiscoverResponse = ''DISCOVER_PROVIDER_RESPONSE''"
| "ingest_type_name IgRegister = ''REGISTER_PROVIDER''"
| "ingest_type_name IgRegisterResponse = ''REGISTER_PROVIDER_RESPONSE''"
| "ingest_type_name IgRemove = ''REMOVE_PROVIDER''"
| "ingest_type_name IgRemoveResponse = ''REMOVE_PROVIDER_RESPONSE''"
| "ingest_type_name IgIndexContent = ''INDEX_CONTENT''"
| "ingest_type_name IgIndexContentResponse = ''INDEX_CONTENT_RESPONSE''"
| "ingest_type_name (IgOther n) = show_int n"

text \<open>A transport answers the bytes of a response, or why there are none, and the server changes.\<close>

type_synonym 's ingest_transport = "bytes \<Rightarrow> 's \<Rightarrow> ((string + bytes) \<times> 's) go"

definition ingest_response ::
    "(bytes \<Rightarrow> string + error_message) \<Rightarrow> ingest_type \<Rightarrow> string + ingest_message \<Rightarrow> go_error + bytes" where
  "ingest_response unmarshal expect out =
     (case out of
        Inl e \<Rightarrow> Inl (ErrMsg (''failed to send request to indexer: '' @ e))
      | Inr resp \<Rightarrow>
          if ig_type resp \<noteq> expect then
            (if ig_type resp = IgErrorResponse
             then (case decode_error unmarshal (ig_data resp) of Some e \<Rightarrow> Inl e | None \<Rightarrow> Inr [])
             else Inl (ErrMsg (''response type is not '' @ ingest_type_name expect)))
          else Inr (ig_data resp))"

definition ingest_send_recv ::
    "ingest_message codec \<Rightarrow> (bytes \<Rightarrow> string + error_message) \<Rightarrow> 's ingest_transport \<Rightarrow> ingest_message \<Rightarrow>
       ingest_type \<Rightarrow> 's \<Rightarrow> ((go_error + bytes) \<times> 's) go" where
  "ingest_send_recv P unmarshal net req expect s =
     (case cd_marshal P req of
        Inl e \<Rightarrow> Inr (ingest_response unmarshal expect (Inl e), s)
      | Inr b \<Rightarrow>
          go_bind (net b s) (\<lambda>(rb, s). Inr
            (ingest_response unmarshal expect (case rb of Inl e \<Rightarrow> Inl e | Inr rb \<Rightarrow> cd_unmarshal P rb), s)))"

text \<open>Both requests: \<open>data\<close> is the signed request, or why it cannot be made.\<close>

definition p2p_client_request ::
    "ingest_message codec \<Rightarrow> (bytes \<Rightarrow> string + error_message) \<Rightarrow> 's ingest_transport \<Rightarrow> ingest_type \<Rightarrow>
       ingest_type \<Rightarrow> go_error + bytes \<Rightarrow> 's \<Rightarrow> (go_error option \<times> 's) go" where
  "p2p_client_request P unmarshal net type expect data s =
     (case data of
        Inl e \<Rightarrow> Inr (Some e, s)
      | Inr b \<Rightarrow>
          go_bind (ingest_send_recv P unmarshal net \<lparr>ig_type = type, ig_data = b\<rparr> expect s) (\<lambda>(res, s). Inr
            (case res of Inl e \<Rightarrow> Some e | Inr d \<Rightarrow> None, s)))"

definition p2p_client_register ::
    "ingest_message codec \<Rightarrow> (bytes \<Rightarrow> string + error_message) \<Rightarrow> 's ingest_transport \<Rightarrow>
       ('k, 'e, 'p) envelopes \<Rightarrow> lib \<Rightarrow> 64 word \<Rightarrow> peer_id \<Rightarrow> 'k \<Rightarrow> string list \<Rightarrow> 's \<Rightarrow>
       (go_error option \<times> 's) go" where
  "p2p_client_register P unmarshal net W L seq provider key addrs =
     p2p_client_request P unmarshal net IgRegister IgRegisterResponse (make_register_request W L seq provider key addrs)"

definition p2p_client_index_content ::
    "ingest_message codec \<Rightarrow> (bytes \<Rightarrow> string + error_message) \<Rightarrow> 's ingest_transport \<Rightarrow>
       ('k, 'e, 'p) envelopes \<Rightarrow> 64 word \<Rightarrow> peer_id \<Rightarrow> 'k \<Rightarrow> multihash \<Rightarrow> bytes \<Rightarrow> bytes \<Rightarrow> string list \<Rightarrow> 's \<Rightarrow>
       (go_error option \<times> 's) go" where
  "p2p_client_index_content P unmarshal net W seq provider key m context_id metadata addrs =
     p2p_client_request P unmarshal net IgIndexContent IgIndexContentResponse
       (make_ingest_request W seq provider key m context_id metadata addrs)"

definition p2p_client_announce :: "addr_info \<Rightarrow> cid \<Rightarrow> go_error option" where
  "p2p_client_announce provider root = Some (ErrMsg ''note implemented'')"

section \<open>Announces over HTTP\<close>

text \<open>The addresses of a peer with its ID, and the message with a CID and addresses as CBOR.\<close>

record announce_client_lib =
  ac_p2p_addrs :: "addr_info \<Rightarrow> string + multiaddr list"
  ac_marshal :: "cid \<Rightarrow> multiaddr list \<Rightarrow> string + bytes"

definition http_client_announce ::
    "(http_request \<Rightarrow> 's \<Rightarrow> (response_writer \<times> 's) go) \<Rightarrow> announce_client_lib \<Rightarrow> addr_info \<Rightarrow> cid \<Rightarrow> 's \<Rightarrow>
       (go_error option \<times> 's) go" where
  "http_client_announce server X provider root s =
     (case ac_p2p_addrs X provider of
        Inl e \<Rightarrow> Inr (Some (ErrMsg e), s)
      | Inr addrs \<Rightarrow>
          (case ac_marshal X root addrs of
             Inl e \<Rightarrow> Inr (Some (ErrMsg e), s)
           | Inr b \<Rightarrow>
               go_bind (server \<lparr>hr_method = PUT, hr_path = [''ingest'', ''announce''], hr_body = b\<rparr> s) (\<lambda>(w, s). Inr
                 (if client_status w \<noteq> 200 \<and> client_status w \<noteq> 204
                  then Some (read_error (client_status w) (rw_body w)) else None, s))))"

section \<open>Clients and servers together\<close>

definition ingest_net ::
    "ingest_message codec \<Rightarrow> (bytes \<Rightarrow> 's \<Rightarrow> ((go_error + ingest_message) \<times> 's) go) \<Rightarrow> 's ingest_transport" where
  "ingest_net P server b s =
     go_bind (server b s) (\<lambda>(res, s). Inr (case res of Inl e \<Rightarrow> Inl ''EOF'' | Inr rsp \<Rightarrow> cd_marshal P rsp, s))"

text \<open>
  What both sides agree on for an announce: the addresses of the peer with its ID can be made, and the
  message with them is read as it was written.
\<close>

definition announce_laws :: "announce_lib \<Rightarrow> announce_client_lib \<Rightarrow> addr_info \<Rightarrow> cid \<Rightarrow> bool" where
  "announce_laws A X info c \<longleftrightarrow>
     (\<exists>as b bs. ac_p2p_addrs X info = Inr as \<and> ac_marshal X c as = Inr b \<and>
        al_decode A b = Inr \<lparr>am_cid = c, am_addrs = bs\<rparr> \<and> bs \<noteq> [] \<and> al_get_addrs A bs = Inr as \<and>
        al_infos A as = Inr [info])"

text \<open>What the protobuf messages keep: every type that has a name, and the data.\<close>

definition ingest_proto_laws :: "ingest_message codec \<Rightarrow> bool" where
  "ingest_proto_laws P \<longleftrightarrow>
     (\<forall>m. (\<forall>n. ig_type m \<noteq> IgOther n) \<longrightarrow> (\<exists>b. cd_marshal P m = Inr b \<and> cd_unmarshal P b = Inr m))"

lemma ingest_proto_lawsD:
  assumes "ingest_proto_laws P" and "\<And>n. t \<noteq> IgOther n"
  obtains b where "cd_marshal P \<lparr>ig_type = t, ig_data = d\<rparr> = Inr b" "cd_unmarshal P b = Inr \<lparr>ig_type = t, ig_data = d\<rparr>"
  using assms unfolding ingest_proto_laws_def by (metis ingest_message.select_convs(1))

lemma register_check_status:
  "register_check info r = Some e \<Longrightarrow> as_api_error e = Some a \<Longrightarrow> error_status a = 403"
  by (auto simp: register_check_def peer_id_validate_def new_error_def error_status_def err_empty_peer_id_def
      split: if_splits)

lemma sync_register_status:
  "fst (sync_register D L J info r) = Some e \<Longrightarrow> as_api_error e = Some a \<Longrightarrow> error_status a = 500"
  by (auto simp: sync_register_def new_error_def error_status_def Let_def split: option.splits prod.splits)

lemma register_status:
  "fst (register D L J info r) = Some e \<Longrightarrow> as_api_error e = Some a \<Longrightarrow> error_status a \<noteq> 200"
  using register_check_status [of info r e a] sync_register_status [of D L J info r e a]
  by (auto simp: register_result split: option.splits)

lemma handle_register_status:
  assumes "fst (handle_register E W now data s) = Some e" and "as_api_error e = Some a"
  shows "error_status a \<noteq> 200"
  using assms
  by (auto simp: handle_register_def check_sequence_def sequences_check_def Let_def register_status
      split: sum.splits if_splits option.splits prod.splits signed_record.splits
      dest: arg_cong [where f = fst])

text \<open>What a registration that succeeded has done.\<close>

lemma handle_register_registers:
  assumes "fst (handle_register E W now data s) = None" and "read_register_request W data = Inr rec"
  shows "rg_providers (in_reg (snd (handle_register E W now data s))) (pe_peer rec) =
      Some (new_provider_info \<lparr>ai_id = pe_peer rec, ai_addrs = pe_addrs rec\<rparr>) \<and>
    allowed (in_reg s) (pe_peer rec)"
proof -
  obtain r where "pe_peer rec \<noteq> []" and r: "check_sequence now (pe_peer rec) (pe_seq rec) (in_reg s) = (None, r)"
    using assms by (auto simp: handle_register_def split: if_splits option.splits prod.splits)
  then have out: "handle_register E W now data s =
      (let (e, r) = register (en_ds E) (en_lib E) (en_json E)
         (new_provider_info \<lparr>ai_id = pe_peer rec, ai_addrs = pe_addrs rec\<rparr>) r in (e, s\<lparr>in_reg := r\<rparr>))"
    using assms(2) by (simp add: handle_register_def)
  have "rg_policy r = rg_policy (in_reg s)"
    using r by (auto simp: check_sequence_def split: prod.splits)
  then show ?thesis
    using assms(1) out register_result [of "en_ds E" "en_lib E" "en_json E"] register_state [of "en_ds E" "en_lib E" "en_json E"]
    by (auto simp: case_prod_unfold Let_def register_check_None allowed_def new_provider_info_def split: option.splits)
qed

lemma p2p_register_round:
  assumes "ingest_proto_laws P" and "codec_ok marshal unmarshal" and "make_register_request W L seq p key addrs = Inr data"
  shows "\<exists>e'. p2p_client_register P unmarshal
      (ingest_net P (ingest_handle_message E W marshal se P now now')) W L seq p key addrs s =
    Inr (e', snd (handle_register E W now data s)) \<and> (e' = None \<longleftrightarrow> fst (handle_register E W now data s) = None)"
proof -
  let ?req = "\<lparr>ig_type = IgRegister, ig_data = data\<rparr>"
  obtain b where b: "cd_marshal P ?req = Inr b" "cd_unmarshal P b = Inr ?req"
    using ingest_proto_lawsD [OF assms(1), of IgRegister data] by blast
  obtain e s' where h: "handle_register E W now data s = (e, s')" by fastforce
  show ?thesis
  proof (cases e)
    case None
    obtain rb where rb: "cd_marshal P \<lparr>ig_type = IgRegisterResponse, ig_data = []\<rparr> = Inr rb"
        "cd_unmarshal P rb = Inr \<lparr>ig_type = IgRegisterResponse, ig_data = []\<rparr>"
      using ingest_proto_lawsD [OF assms(1), of IgRegisterResponse "[]"] by blast
    show ?thesis
      by (simp add: p2p_client_register_def p2p_client_request_def assms(3) ingest_send_recv_def b rb h None
          ingest_net_def ingest_handle_message_def ingest_handle_def ingest_response_def)
  next
    case (Some err)
    define d where "d = encode_error marshal se (Some (ErrApi (fst (p2p_handle_error err)) (snd (p2p_handle_error err))))"
    obtain rb where rb: "cd_marshal P \<lparr>ig_type = IgErrorResponse, ig_data = d\<rparr> = Inr rb"
        "cd_unmarshal P rb = Inr \<lparr>ig_type = IgErrorResponse, ig_data = d\<rparr>"
      using ingest_proto_lawsD [OF assms(1), of IgErrorResponse d] by blast
    show ?thesis
      using decode_encode_message [OF assms(2)]
      by (simp add: p2p_client_register_def p2p_client_request_def assms(3) ingest_send_recv_def b rb h Some
          ingest_net_def ingest_handle_message_def ingest_handle_def ingest_response_def case_prod_unfold
          d_def [symmetric]) (simp add: d_def)
  qed
qed

lemma http_register_round:
  assumes "make_register_request W L seq p key addrs = Inr data"
  shows "\<exists>e'. http_client_register (ingest_http E W A tell now now') W L seq p key addrs s =
    Inr (e', snd (handle_register E W now data s)) \<and> (e' = None \<longleftrightarrow> fst (handle_register E W now data s) = None)"
proof -
  obtain e s' where h: "handle_register E W now data s = (e, s')" by fastforce
  have "client_status (http_handle_error err new_response) \<noteq> 200" if "e = Some err" for err
    using handle_register_status [of E W now data s err] that h http_handle_error_status [of new_response err]
    by (fastforce simp: client_status_def new_response_def split: option.splits)
  moreover have "client_status (write_header 200 new_response) = 200"
    by (simp add: client_status_def rw_defs)
  ultimately show ?thesis
    using h by (cases e) (simp_all add: http_client_register_def http_client_post_def assms ingest_http_def
        http_register_def Let_def)
qed

text \<open>The registry answers a client's announce with an error that no success is taken for.\<close>

lemma announce_error_status:
  assumes "as_api_error e = None \<or> (\<exists>a. as_api_error e = Some a \<and> error_status a = 403)"
  shows "client_status (http_handle_error e (set_header k v new_response)) \<notin> {200, 204}"
  using assms http_handle_error_status [of "set_header k v new_response" e]
  by (auto simp: client_status_def rw_defs split: option.splits)

section \<open>Properties\<close>

text \<open>C28: Registering over HTTP and over libp2p is the same. From the same state, with the same request, both
  clients leave the server in the same state, and both succeed or both fail. When they succeed the
  provider was allowed, and is registered with the addresses that were given.
\<close>

theorem register_clients_agree:
  assumes "ingest_proto_laws P" and "codec_ok marshal unmarshal" and "envelope_laws W pub"
    and "make_register_request W L seq p key addrs = Inr data"
  shows "\<exists>e1 e2 s'.
    p2p_client_register P unmarshal (ingest_net P (ingest_handle_message E W marshal se P now now')) W L seq p key addrs s =
      Inr (e1, s') \<and>
    http_client_register (ingest_http E W A tell now now') W L seq p key addrs s = Inr (e2, s') \<and>
    (e1 = None \<longleftrightarrow> e2 = None) \<and>
    (e1 = None \<longrightarrow> (\<exists>as. map (lib_new_multiaddr L) addrs = map Inr as \<and> allowed (in_reg s) p \<and>
      rg_providers (in_reg s') p = Some (new_provider_info \<lparr>ai_id = p, ai_addrs = as\<rparr>)))"
proof -
  obtain as where as: "map (lib_new_multiaddr L) addrs = map Inr as"
      "read_register_request W data = Inr \<lparr>pe_peer = p, pe_seq = seq, pe_addrs = as\<rparr>"
    using read_made_requests(3) [OF assms(3,4)] by blast
  obtain e1 where e1: "p2p_client_register P unmarshal
      (ingest_net P (ingest_handle_message E W marshal se P now now')) W L seq p key addrs s =
        Inr (e1, snd (handle_register E W now data s))"
      "e1 = None \<longleftrightarrow> fst (handle_register E W now data s) = None"
    using p2p_register_round [OF assms(1,2,4)] by blast
  obtain e2 where e2: "http_client_register (ingest_http E W A tell now now') W L seq p key addrs s =
        Inr (e2, snd (handle_register E W now data s))"
      "e2 = None \<longleftrightarrow> fst (handle_register E W now data s) = None"
    using http_register_round [OF assms(4)] by blast
  show ?thesis
    using e1 e2 as(1) handle_register_registers [OF _ as(2), of E now s] by auto
qed

text \<open>C29: An announce that a provider makes over HTTP is the one the ingester is told. It is told the CID and
  the peer, unless the peer is not allowed or the CID is its latest sync already; the client gets no
  error exactly when the peer is allowed and the ingester, if it was told, had none. The announce changes
  nothing by itself.
\<close>

theorem announce_reaches_ingester:
  assumes "announce_laws A X info c" and "\<And>e. tell c info = Some e \<Longrightarrow> as_api_error e = None"
  shows "\<exists>e. http_client_announce (ingest_http E W A tell now now') X info c s = Inr (e, s) \<and>
    (e = None \<longleftrightarrow> allowed (in_reg s) (ai_id info) \<and>
      (get_latest_sync (en_ds E) (en_lib E) (ai_id info) (in_ds s) = Inr c \<or> tell c info = None))"
proof -
  obtain as b bs where laws: "ac_p2p_addrs X info = Inr as" "ac_marshal X c as = Inr b"
      "al_decode A b = Inr \<lparr>am_cid = c, am_addrs = bs\<rparr>" "bs \<noteq> []" "al_get_addrs A bs = Inr as"
      "al_infos A as = Inr [info]"
    using assms(1) unfolding announce_laws_def by blast
  have ok: "client_status (write_header 204 (set_header k v new_response)) = 204" for k v
    by (simp add: client_status_def rw_defs)
  have told: "as_api_error e = None \<Longrightarrow>
      client_status (http_handle_error e (set_header k v new_response)) \<noteq> 200 \<and>
      client_status (http_handle_error e (set_header k v new_response)) \<noteq> 204" for e k v
    using announce_error_status [of e k v] by simp
  have refused: "client_status (http_handle_error (new_error m 403) (set_header k v new_response)) \<noteq> 200 \<and>
      client_status (http_handle_error (new_error m 403) (set_header k v new_response)) \<noteq> 204" for m k v
    using announce_error_status [of "new_error m 403" k v] by (simp add: new_error_def error_status_def)
  show ?thesis
  proof (cases "allowed (in_reg s) (ai_id info)")
    case False
    then show ?thesis
      using laws refused by (simp add: http_client_announce_def ingest_http_def http_announce_def handle_announce_def Let_def)
  next
    case True
    then have out: "handle_announce E A b s = Inr (Inr
        (if get_latest_sync (en_ds E) (en_lib E) (ai_id info) (in_ds s) = Inr c then None else Some (c, info)))"
      using laws by (auto simp: handle_announce_def split: sum.splits)
    show ?thesis
      using True laws(1,2) ok told assms(2)
      by (cases "tell c info") (auto simp: http_client_announce_def ingest_http_def http_announce_def out Let_def)
  qed
qed

section \<open>Concrete clients\<close>

definition digit_proto :: "ingest_message codec" where
  "digit_proto =
     \<lparr>cd_marshal = (\<lambda>m. Inr (char_of (nat (ingest_type_number (ig_type m))) # ig_data m)),
      cd_unmarshal = (\<lambda>b. Inr \<lparr>ig_type = [IgErrorResponse, IgDiscover, IgDiscoverResponse, IgRegister,
        IgRegisterResponse, IgRemove, IgRemoveResponse, IgIndexContent, IgIndexContentResponse] ! of_char (hd b),
        ig_data = tl b\<rparr>)\<rparr>"

lemma digit_proto_laws: "ingest_proto_laws digit_proto"
proof -
  have "\<exists>b. cd_marshal digit_proto m = Inr b \<and> cd_unmarshal digit_proto b = Inr m"
    if "\<And>n. ig_type m \<noteq> IgOther n" for m
    using that by (cases m; cases "ig_type m") (simp_all add: digit_proto_def)
  then show ?thesis by (simp add: ingest_proto_laws_def)
qed

abbreviation register_server :: "((string \<times> bytes) list, contents) ingester" where
  "register_server \<equiv> (fresh_ingester open_policy)\<lparr>in_reg := (start_registry (Some []) open_policy)
     \<lparr>rg_sequences := \<lparr>sq_max_age = 1, sq_seqs = Map.empty\<rparr>\<rparr>\<rparr>"

theorem register_clients_agree_witness:
  "\<exists>e1 e2 s'.
    p2p_client_register digit_proto unary_unmarshal
      (ingest_net digit_proto (ingest_handle_message (table_env plain_indexer chain_table) clear_envelopes
        unary_marshal [] digit_proto 5 5)) clear_envelopes hex_lib 5 ''p'' ''key'' [hex_string ''a''] register_server =
      Inr (e1, s') \<and>
    http_client_register (ingest_http (table_env plain_indexer chain_table) clear_envelopes
       \<lparr>al_decode = (\<lambda>b. Inl []), al_get_addrs = (\<lambda>b. Inl []), al_infos = (\<lambda>b. Inl [])\<rparr> (\<lambda>c i. None) 5 5)
      clear_envelopes hex_lib 5 ''p'' ''key'' [hex_string ''a''] register_server = Inr (e2, s') \<and>
    (e1 = None \<longleftrightarrow> e2 = None)"
  using register_clients_agree [OF digit_proto_laws unary_codec_ok clear_envelopes_laws clear_makes(2)] by blast

definition one_announce_lib :: "cid \<Rightarrow> addr_info \<Rightarrow> announce_lib" where
  "one_announce_lib c info =
     \<lparr>al_decode = (\<lambda>b. Inr \<lparr>am_cid = c, am_addrs = [''a'']\<rparr>), al_get_addrs = (\<lambda>bs. Inr (ai_addrs info)),
      al_infos = (\<lambda>as. Inr [info])\<rparr>"

definition one_announce_client :: announce_client_lib where
  "one_announce_client = \<lparr>ac_p2p_addrs = (\<lambda>info. Inr (ai_addrs info)), ac_marshal = (\<lambda>c as. Inr ''m'')\<rparr>"

theorem announce_reaches_ingester_witness:
  "\<exists>e. http_client_announce (ingest_http (table_env plain_indexer chain_table) clear_envelopes
      (one_announce_lib ''c'' \<lparr>ai_id = ''p'', ai_addrs = []\<rparr>) (\<lambda>c i. Some (ErrMsg ''closed'')) 5 5)
      one_announce_client \<lparr>ai_id = ''p'', ai_addrs = []\<rparr> ''c'' (fresh_ingester open_policy) =
    Inr (Some e, fresh_ingester open_policy)"
proof -
  have laws: "announce_laws (one_announce_lib c info) one_announce_client info c" for c info
    by (simp add: announce_laws_def one_announce_lib_def one_announce_client_def)
  have "get_latest_sync (en_ds (table_env plain_indexer chain_table)) (en_lib (table_env plain_indexer chain_table)) ''p''
      (in_ds (fresh_ingester open_policy)) = Inr cid_undef"
    by code_simp
  then show ?thesis
    using announce_reaches_ingester [OF laws, where tell = "\<lambda>c i. Some (ErrMsg ''closed'')" and c = "''c''"
        and info = "\<lparr>ai_id = ''p'', ai_addrs = []\<rparr>" and s = "fresh_ingester open_policy"
        and E = "table_env plain_indexer chain_table" and W = clear_envelopes and now = 5 and now' = 5]
    by auto
qed

end
