(* ===== verification/Flags.thy ===== *)
theory Flags
  imports Prelude
begin

text \<open>
  The flags of the commands (\<^verbatim>\<open>command/flags.go\<close>) and how a command reads them. Which flags are required is
  checked before a command runs and not modelled.
\<close>

text \<open>
  The context of a command knows the names of the flags the command defines, with their aliases; any
  other name has the value of a flag that is not given.
\<close>

record cli_context =
  cx_flags :: "string list"
  cx_string :: "string \<Rightarrow> string"
  cx_strings :: "string \<Rightarrow> string list"
  cx_int :: "string \<Rightarrow> int"
  cx_bool :: "string \<Rightarrow> bool"

definition flag_string :: "cli_context \<Rightarrow> string \<Rightarrow> string" where
  "flag_string C name = (if name \<in> set (cx_flags C) then cx_string C name else [])"

definition flag_strings :: "cli_context \<Rightarrow> string \<Rightarrow> string list" where
  "flag_strings C name = (if name \<in> set (cx_flags C) then cx_strings C name else [])"

definition flag_int :: "cli_context \<Rightarrow> string \<Rightarrow> int" where
  "flag_int C name = (if name \<in> set (cx_flags C) then cx_int C name else 0)"

definition flag_bool :: "cli_context \<Rightarrow> string \<Rightarrow> bool" where
  "flag_bool C name = (if name \<in> set (cx_flags C) then cx_bool C name else False)"

definition indexer_host_flag :: "string list" where "indexer_host_flag = [''indexer'', ''i'']"
definition file_flag :: "string list" where "file_flag = [''file'', ''f'']"
definition provider_flag :: "string list" where "provider_flag = [''provider'', ''p'']"

definition find_flags :: "string list" where
  "find_flags = [''mh'', ''cid''] @ indexer_host_flag @ [''indexerid'', ''iid'', ''protocol'']"

definition import_flags :: "string list" where
  "import_flags = provider_flag @ [''ctxid'', ''c'', ''metadata'', ''m''] @ file_flag @ indexer_host_flag"

definition admin_policy_flags :: "string list" where
  "admin_policy_flags = [''peer'', ''p''] @ indexer_host_flag"

definition admin_reload_config_flags :: "string list" where
  "admin_reload_config_flags = indexer_host_flag"

definition admin_sync_flags :: "string list" where
  "admin_sync_flags = indexer_host_flag @ [''pubid'', ''p'', ''addr'', ''depth'', ''resync'']"

definition providers_get_flags :: "string list" where
  "providers_get_flags = [''provid'', ''p''] @ indexer_host_flag"

definition providers_list_flags :: "string list" where
  "providers_list_flags = indexer_host_flag"

definition import_providers_flags :: "string list" where
  "import_providers_flags = [''from'', ''f''] @ indexer_host_flag"

definition synthetic_flags :: "string list" where
  "synthetic_flags = file_flag @ [''type'', ''t'', ''num'', ''n'', ''size'', ''s'']"

definition register_flags :: "string list" where
  "register_flags = [''config''] @ indexer_host_flag @ [''provider-addr'', ''pa'']"

lemmas flag_defs = indexer_host_flag_def file_flag_def provider_flag_def find_flags_def import_flags_def
  admin_policy_flags_def admin_reload_config_flags_def admin_sync_flags_def providers_get_flags_def
  providers_list_flags_def import_providers_flags_def register_flags_def
  synthetic_flags_def

lemmas flag_values = flag_string_def flag_strings_def flag_int_def flag_bool_def

end
