(* ===== verification/Synthetic.thy ===== *)
theory Synthetic
  imports Importer Flags
begin

text \<open>
  Writing synthetic CID lists and manifests (\<^verbatim>\<open>command/synthetic.go\<close>), and reading them back with the
  readers of the importer. The random CIDs, the JSON texts and the file are arguments; the progress
  display is not modelled.
\<close>

section \<open>Writing\<close>

text \<open>
  The random bytes, by the call that reads them and their number, summing bytes to a CID, the version of a
  CID, and the JSON text of a manifest entry, of which the fields that importing reads are given.
\<close>

record synth_lib =
  sy_bytes :: "nat \<Rightarrow> nat \<Rightarrow> bytes"
  sy_sum :: "bytes \<Rightarrow> go_error + cid"
  sy_version :: "cid \<Rightarrow> nat"
  sy_marshal :: "manifest_entry \<Rightarrow> string + string"

text \<open>A created file behind a buffered writer, whose errors can come with any write or with the flush.\<close>

record 'w out_file =
  of_create :: "string \<Rightarrow> string + 'w"
  of_write :: "'w \<Rightarrow> string \<Rightarrow> string option \<times> 'w"
  of_flush :: "'w \<Rightarrow> string option \<times> 'w"

fun all_or_error :: "('e + 'a) list \<Rightarrow> 'e + 'a list" where
  "all_or_error [] = Inr []"
| "all_or_error (Inl e # xs) = Inl e"
| "all_or_error (Inr x # xs) = map_sum id ((#) x) (all_or_error xs)"

text \<open>The nth call of \<open>randomCids\<close>.\<close>

definition random_cids :: "synth_lib \<Rightarrow> nat \<Rightarrow> nat \<Rightarrow> go_error + cid list" where
  "random_cids Y k n = all_or_error (map (\<lambda>i. sy_sum Y (sy_bytes Y k i)) [0..<n])"

text \<open>
  Random CIDs that cannot be made are not noticed: the list is then empty, so that taking the next of
  them is out of range.
\<close>

definition refill :: "synth_lib \<Rightarrow> cid list \<Rightarrow> nat \<Rightarrow> nat \<Rightarrow> cid list \<times> nat \<times> nat" where
  "refill Y cids i k =
     (if i = length cids then (case random_cids Y k 100 of Inl e \<Rightarrow> [] | Inr cs \<Rightarrow> cs, 0, Suc k) else (cids, i, k))"

definition write_line :: "'w out_file \<Rightarrow> string \<Rightarrow> 'w \<Rightarrow> string option \<times> 'w" where
  "write_line W line w =
     (case of_write W w line of
        (Some e, w) \<Rightarrow> (Some e, w)
      | (None, w) \<Rightarrow> of_write W w [newline])"

text \<open>
  The loop of all four writers: \<open>entry\<close> is the line of a CID and \<open>weight\<close> what it counts for. The result
  is \<open>None\<close> if the loop never ends.
\<close>

partial_function (option) write_loop ::
    "synth_lib \<Rightarrow> 'w out_file \<Rightarrow> (cid \<Rightarrow> go_error + string) \<Rightarrow> (cid \<Rightarrow> int) \<Rightarrow> int \<Rightarrow> int \<Rightarrow> cid list \<Rightarrow> nat \<Rightarrow> nat \<Rightarrow>
       'w \<Rightarrow> (go_error option \<times> 'w) go option" where
  "write_loop Y W entry weight goal written cids i k w =
     (if written < goal then
        (let (cids, i, k) = refill Y cids i k in
         if i < length cids then
           (case entry (cids ! i) of
              Inl e \<Rightarrow> Some (Inr (Some e, w))
            | Inr line \<Rightarrow>
                (case write_line W line w of
                   (Some e, w) \<Rightarrow> Some (Inr (Some (ErrMsg e), w))
                 | (None, w) \<Rightarrow>
                     write_loop Y W entry weight goal (wrap_int64 (written + weight (cids ! i))) cids (Suc i) k w))
         else Some (Inl IndexOutOfRange))
      else Some (Inr (case of_flush W w of (e, w) \<Rightarrow> (map_option ErrMsg e, w))))"

definition write_entries ::
    "synth_lib \<Rightarrow> 'w out_file \<Rightarrow> (cid \<Rightarrow> go_error + string) \<Rightarrow> (cid \<Rightarrow> int) \<Rightarrow> string \<Rightarrow> int \<Rightarrow>
       (go_error option \<times> 'w option) go option" where
  "write_entries Y W entry weight name goal =
     (case of_create W name of
        Inl e \<Rightarrow> Some (Inr (Some (ErrMsg e), None))
      | Inr w \<Rightarrow> map_option (map_sum id (\<lambda>(e, w). (e, Some w))) (write_loop Y W entry weight goal 0 [] 0 0 w))"

definition manifest_entry_text :: "synth_lib \<Rightarrow> lib \<Rightarrow> cid \<Rightarrow> go_error + string" where
  "manifest_entry_text Y L c =
     (let e = \<lparr>me_record_type = ''DagAggregateEntry'', me_cid_v1 = [], me_cid_v0 = []\<rparr> in
      if sy_version Y c = 1 then map_sum ErrMsg id (sy_marshal Y (e\<lparr>me_cid_v1 := lib_cid_string L c\<rparr>))
      else if sy_version Y c = 0 then map_sum ErrMsg id (sy_marshal Y (e\<lparr>me_cid_v0 := lib_cid_string L c\<rparr>))
      else Inl (ErrMsg ''unsupported cid version''))"

definition cid_weight :: "lib \<Rightarrow> cid \<Rightarrow> int" where
  "cid_weight L c = int (length (lib_cid_bytes L c))"

definition write_cid_file where
  "write_cid_file Y L W = write_entries Y W (\<lambda>c. Inr (lib_cid_string L c)) (\<lambda>_. 1)"

definition write_cid_file_of_size where
  "write_cid_file_of_size Y L W = write_entries Y W (\<lambda>c. Inr (lib_cid_string L c)) (cid_weight L)"

definition write_manifest where
  "write_manifest Y L W = write_entries Y W (manifest_entry_text Y L) (\<lambda>_. 1)"

definition write_manifest_of_size where
  "write_manifest_of_size Y L W = write_entries Y W (manifest_entry_text Y L) (cid_weight L)"

definition gen_cid_list where
  "gen_cid_list Y L W name num sz =
     (if sz \<noteq> 0 then write_cid_file_of_size Y L W name sz else write_cid_file Y L W name num)"

definition gen_manifest where
  "gen_manifest Y L W name num sz =
     (if sz \<noteq> 0 then write_manifest_of_size Y L W name sz else write_manifest Y L W name num)"

definition synthetic_cmd ::
    "synth_lib \<Rightarrow> lib \<Rightarrow> 'w out_file \<Rightarrow> cli_context \<Rightarrow> (go_error option \<times> 'w option) go option" where
  "synthetic_cmd Y L W F =
     (let name = flag_string F ''file''; num = flag_int F ''num''; sz = flag_int F ''size''; kind = flag_string F ''type'' in
      if num = 0 \<and> sz = 0
      then Some (Inr (Some (ErrMsg ''no size or number of cids provided to command''), None))
      else if kind = ''manifest'' then gen_manifest Y L W name num sz
      else if kind = ''cidlist'' then gen_cid_list Y L W name num sz
      else Some (Inr (Some (ErrMsg ''export type not implemented, try types manifest or cidlist''), None)))"


section \<open>What is written\<close>

text \<open>The contents of a file grow by what is written to it.\<close>

definition out_file_laws :: "'w out_file \<Rightarrow> ('w \<Rightarrow> string) \<Rightarrow> bool" where
  "out_file_laws W contents_of \<longleftrightarrow>
     (\<forall>name w. of_create W name = Inr w \<longrightarrow> contents_of w = []) \<and>
     (\<forall>w s w'. of_write W w s = (None, w') \<longrightarrow> contents_of w' = contents_of w @ s) \<and>
     (\<forall>w w'. of_flush W w = (None, w') \<longrightarrow> contents_of w' = contents_of w)"

text \<open>Summing never fails, and makes good CIDs.\<close>

definition always_random :: "synth_lib \<Rightarrow> (cid \<Rightarrow> bool) \<Rightarrow> bool" where
  "always_random Y good \<longleftrightarrow> (\<forall>b. \<exists>c. sy_sum Y b = Inr c \<and> good c)"

lemma random_cids_good:
  assumes "always_random Y good"
  shows "\<exists>cs. random_cids Y k n = Inr cs \<and> length cs = n \<and> list_all good cs"
proof -
  have "\<exists>cs. all_or_error (map (\<lambda>i. sy_sum Y (sy_bytes Y k i)) is) = Inr cs \<and> length cs = length is \<and> list_all good cs" for "is"
  proof (induction "is")
    case (Cons i "is")
    obtain c where "sy_sum Y (sy_bytes Y k i) = Inr c" "good c" using assms unfolding always_random_def by blast
    then show ?case using Cons by auto
  qed simp
  from this [of "[0..<n]"] show ?thesis by (simp add: random_cids_def)
qed

lemma refill_good:
  assumes "always_random Y good" and "list_all good cids" and "i \<le> length cids" and "refill Y cids i k = (cids', i', k')"
  shows "list_all good cids' \<and> i' < length cids'"
  using assms(2-4) random_cids_good [OF assms(1), of k 100] by (auto simp: refill_def split: if_splits)

text \<open>
  The loop ends, with as many CIDs as reach its goal and no more than that, unless the file has an error.
\<close>

definition reaches :: "int \<Rightarrow> (cid \<Rightarrow> int) \<Rightarrow> cid list \<Rightarrow> int \<Rightarrow> bool" where
  "reaches written weight cs goal \<longleftrightarrow> goal \<le> written + sum_list (map weight cs) \<and>
     (cs \<noteq> [] \<longrightarrow> written + sum_list (map weight (butlast cs)) < goal)"

lemma write_loop_result:
  assumes "always_random Y good" and "out_file_laws W contents_of"
    and entry: "\<And>c. good c \<Longrightarrow> entry c = Inr (line c)"
    and weight: "\<And>c. good c \<Longrightarrow> 0 < weight c \<and> goal + weight c < 2 ^ 63"
    and "list_all good cids" and "i \<le> length cids" and "0 \<le> written"
  shows "\<exists>e w'. write_loop Y W entry weight goal written cids i k w = Some (Inr (e, w')) \<and>
    (e = None \<longrightarrow> (\<exists>cs. contents_of w' = contents_of w @ line_file (map line cs) \<and> list_all good cs \<and>
      reaches written weight cs goal))"
  using assms(5-7)
proof (induction "nat (goal - written)" arbitrary: written cids i k w rule: less_induct)
  case less
  show ?case
  proof (cases "written < goal")
    case False
    obtain e w' where flush: "of_flush W w = (e, w')" by (cases "of_flush W w")
    then have "e = None \<Longrightarrow> contents_of w' = contents_of w" using assms(2) by (auto simp: out_file_laws_def)
    then show ?thesis
      using False flush
      by (subst write_loop.simps) (auto simp: reaches_def line_file_def intro!: exI [of _ "[]"])
  next
    case True
    obtain cids' i' k' where refill: "refill Y cids i k = (cids', i', k')" by (cases "refill Y cids i k")
    then have good: "list_all good cids'" "i' < length cids'"
      using refill_good [OF assms(1) less.prems(1,2)] by simp_all
    define c where "c = cids' ! i'"
    have c: "good c" using good by (simp add: c_def list_all_length)
    obtain e w1 where w1: "write_line W (line c) w = (e, w1)" by (cases "write_line W (line c) w")
    show ?thesis
    proof (cases e)
      case (Some err)
      then show ?thesis
        using True refill good entry [OF c] w1 by (subst write_loop.simps) (simp add: c_def)
    next
      case None
      have grown: "contents_of w1 = contents_of w @ line c @ [newline]"
        using w1 None assms(2) by (fastforce simp: write_line_def out_file_laws_def split: prod.splits option.splits)
      have next_curr: "wrap_int64 (written + weight c) = written + weight c"
        using weight [OF c] True less.prems(3) by (simp add: wrap_int64_def)
      have step: "write_loop Y W entry weight goal written cids i k w =
          write_loop Y W entry weight goal (written + weight c) cids' (Suc i') k' w1"
        using True refill good entry [OF c] w1 None next_curr
        by (subst write_loop.simps) (simp add: c_def)
      have "nat (goal - (written + weight c)) < nat (goal - written)" using weight [OF c] True by simp
      from less.hyps [OF this good(1), of "Suc i'" k' w1]
      obtain e w' where ih: "write_loop Y W entry weight goal (written + weight c) cids' (Suc i') k' w1 = Some (Inr (e, w'))"
        "e = None \<longrightarrow> (\<exists>cs. contents_of w' = contents_of w1 @ line_file (map line cs) \<and> list_all good cs \<and>
          reaches (written + weight c) weight cs goal)"
        using good(2) weight [OF c] less.prems(3) by auto
      have "\<exists>cs. contents_of w' = contents_of w @ line_file (map line cs) \<and> list_all good cs \<and>
          reaches written weight cs goal" if ok: "e = None"
      proof -
        obtain cs where cs: "contents_of w' = contents_of w1 @ line_file (map line cs)" "list_all good cs"
            "reaches (written + weight c) weight cs goal"
          using ih(2) ok by blast
        then have "reaches written weight (c # cs) goal" using True by (auto simp: reaches_def)
        then show ?thesis using cs grown c by (intro exI [of _ "c # cs"]) (simp add: line_file_def)
      qed
      then show ?thesis using step ih(1) by simp
    qed
  qed
qed

text \<open>What the lines stand for when they are read.\<close>

lemma read_back:
  assumes "\<And>l. l \<in> set ls \<Longrightarrow> f (g l) = Some (h l)"
  shows "List.map_filter f (map g ls) = map h ls"
  using assms by (induction ls) (simp_all add: map_filter_simps)

definition synth_laws ::
    "synth_lib \<Rightarrow> lib \<Rightarrow> cid_lib \<Rightarrow> (string \<Rightarrow> manifest_entry option) \<Rightarrow> int \<Rightarrow> cid \<Rightarrow> bool" where
  "synth_laws Y L C parse goal c \<longleftrightarrow>
     sy_version Y c = 1 \<and> c \<noteq> cid_undef \<and> newline \<notin> set (lib_cid_string L c) \<and>
     cl_decode C (lib_cid_string L c) = Inr c \<and> cl_decode C (lib_cid_string L c @ [newline]) = Inr c \<and>
     0 < cid_weight L c \<and> goal + cid_weight L c < 2 ^ 63 \<and>
     (let e = \<lparr>me_record_type = ''DagAggregateEntry'', me_cid_v1 = lib_cid_string L c, me_cid_v0 = []\<rparr> in
      \<exists>t. sy_marshal Y e = Inr t \<and> parse t = Some e \<and> newline \<notin> set t \<and> drop_cr t = t \<and>
        length t < max_scan_token_size)"

lemma cid_line_read:
  assumes "list_all (synth_laws Y L C parse goal) cs"
  shows "read_cids C (line_file (map (lib_cid_string L) cs), None) =
    (map (cl_hash C) cs, if cs = [] then Some no_entries_imported else None)"
proof -
  have lines: "complete_lines [] (line_file (map (lib_cid_string L) cs)) = map (\<lambda>c. lib_cid_string L c @ [newline]) cs"
    using complete_lines_file [of "map (lib_cid_string L) cs" "[]"] assms
    by (auto simp: synth_laws_def list_all_iff)
  have "List.map_filter (line_multihash C) (map (\<lambda>c. lib_cid_string L c @ [newline]) cs) = map (cl_hash C) cs"
    by (rule read_back) (use assms in \<open>auto simp: line_multihash_def synth_laws_def list_all_iff\<close>)
  then show ?thesis by (simp add: read_cids_def lines Let_def)
qed

lemma manifest_line_read:
  assumes "list_all (synth_laws Y L C parse goal) cs"
  shows "read_manifest C parse (line_file (map (\<lambda>c. projr (manifest_entry_text Y L c)) cs), None) =
    (map (cl_hash C) cs, if cs = [] then [no_entries_imported] else [])"
proof -
  let ?t = "\<lambda>c. projr (manifest_entry_text Y L c)"
  have line: "newline \<notin> set (?t c)" "drop_cr (?t c) = ?t c" "length (?t c) < max_scan_token_size"
      "entry_multihash C parse (?t c) = Some (cl_hash C c)" if "c \<in> set cs" for c
    using assms that
    by (auto simp: synth_laws_def list_all_iff manifest_entry_text_def Let_def entry_multihash_def)
  have "scan_lines [] (line_file (map ?t cs)) = (map ?t cs, False)"
    using scan_lines_file [of "map ?t cs"] line by auto
  moreover have "List.map_filter (entry_multihash C parse) (map ?t cs) = map (cl_hash C) cs"
    by (rule read_back) (use line in auto)
  ultimately show ?thesis by (simp add: read_manifest_def Let_def)
qed

lemma write_entries_result:
  assumes "always_random Y good" and "out_file_laws W contents_of"
    and "\<And>c. good c \<Longrightarrow> entry c = Inr (line c)" and "\<And>c. good c \<Longrightarrow> 0 < weight c \<and> goal + weight c < 2 ^ 63"
  shows "\<exists>e w'. write_entries Y W entry weight name goal = Some (Inr (e, w')) \<and>
    (e = None \<longrightarrow> (\<exists>f cs. w' = Some f \<and> contents_of f = line_file (map line cs) \<and> list_all good cs \<and>
      reaches 0 weight cs goal))"
proof (cases "of_create W name")
  case (Inr w)
  then have empty: "contents_of w = []" using assms(2) by (simp add: out_file_laws_def)
  obtain e w' where "write_loop Y W entry weight goal 0 [] 0 0 w = Some (Inr (e, w'))"
    "e = None \<longrightarrow> (\<exists>cs. contents_of w' = contents_of w @ line_file (map line cs) \<and> list_all good cs \<and>
      reaches 0 weight cs goal)"
    using write_loop_result [OF assms(1,2), where entry = entry and line = line and weight = weight and goal = goal
        and written = 0 and cids = "[]" and i = 0 and k = 0 and w = w] assms(3,4) by auto
  then show ?thesis using Inr empty by (auto simp: write_entries_def)
qed (simp add: write_entries_def)

section \<open>Properties\<close>


text \<open>
  When random CIDs cannot be made, the error is dropped and taking the first CID is out of range.
\<close>

lemma random_failure_panics:
  assumes "random_cids Y 0 100 = Inl e" and "of_create W name = Inr w" and "0 < goal"
  shows "write_entries Y W entry weight name goal = Some (Inl IndexOutOfRange)"
  using assms by (subst write_entries_def, subst write_loop.simps) (simp add: refill_def)

text \<open>A file that is its contents, and one CID over and over.\<close>

definition text_file :: "string out_file" where
  "text_file = \<lparr>of_create = (\<lambda>name. Inr []), of_write = (\<lambda>w s. (None, w @ s)), of_flush = (\<lambda>w. (None, w))\<rparr>"

definition one_cid_lib :: synth_lib where
  "one_cid_lib = \<lparr>sy_bytes = (\<lambda>k i. []), sy_sum = (\<lambda>b. Inr ''a''), sy_version = (\<lambda>c. 1), sy_marshal = (\<lambda>e. Inr (me_cid_v1 e))\<rparr>"

definition one_cid_reader :: cid_lib where
  "one_cid_reader = \<lparr>cl_decode = (\<lambda>s. Inr ''a''), cl_hash = id\<rparr>"

definition one_entry_parser :: "string \<Rightarrow> manifest_entry option" where
  "one_entry_parser t = Some \<lparr>me_record_type = ''DagAggregateEntry'', me_cid_v1 = t, me_cid_v0 = []\<rparr>"

lemma one_cid_random: "always_random one_cid_lib (synth_laws one_cid_lib hex_lib one_cid_reader one_entry_parser (max 3 0))"
proof -
  have "newline \<notin> set (hex_string ''a'')" "drop_cr (hex_string ''a'') = hex_string ''a''"
      "length (hex_string ''a'') < max_scan_token_size"
    by code_simp+
  then have "synth_laws one_cid_lib hex_lib one_cid_reader one_entry_parser (max 3 0) ''a''"
    by (simp add: synth_laws_def one_cid_lib_def hex_lib_def one_cid_reader_def one_entry_parser_def cid_weight_def)
  then show ?thesis by (simp add: always_random_def one_cid_lib_def)
qed

abbreviation three_entries :: cli_context where
  "three_entries \<equiv> \<lparr>cx_flags = synthetic_flags, cx_string = (\<lambda>n. if n = ''type'' then ''manifest'' else ''f''),
     cx_strings = (\<lambda>_. []), cx_int = (\<lambda>n. if n = ''num'' then 3 else 0), cx_bool = (\<lambda>_. False)\<rparr>"


end
