(* ===== verification/Commands.thy ===== *)
theory Commands
  imports Admin_Client Init Lotus Ingest_Clients P2p_Client Flags
begin

text \<open>
  The commands that call a running indexer (\<^verbatim>\<open>command/admin.go\<close>, \<^verbatim>\<open>config.go\<close>, \<^verbatim>\<open>find.go\<close>, \<^verbatim>\<open>import.go\<close>,
  \<^verbatim>\<open>providers.go\<close>, \<^verbatim>\<open>register.go\<close>), with the clients they use.
  A command answers its error and what the servers have become; what it prints is not modelled, but
  the results it prints are answered.
\<close>

section \<open>The indexer to call\<close>

text \<open>
  What the commands need besides: the configuration, the values of the protocols in a multiaddr, and
  parsing URLs, as the scheme and the text of the URL with another path.
\<close>

record parsed_url =
  pu_scheme :: string
  pu_with_path :: "string \<Rightarrow> string"

record 'f cli_env =
  ci_config :: "'f config_env"
  ci_value :: "multiaddr \<Rightarrow> string \<Rightarrow> string option"
  ci_parse_url :: "string \<Rightarrow> string + parsed_url"

definition multiaddr_host :: "(multiaddr \<Rightarrow> string \<Rightarrow> string option) \<Rightarrow> multiaddr \<Rightarrow> string" where
  "multiaddr_host val a =
     (case (case val a ''ip4'' of Some h \<Rightarrow> Some h | None \<Rightarrow> val a ''ip6'') of
        None \<Rightarrow> []
      | Some h \<Rightarrow> (case val a ''tcp'' of Some port \<Rightarrow> h @ '':'' @ port | None \<Rightarrow> h))"

definition indexer_host :: "'f cli_env \<Rightarrow> 'f \<Rightarrow> string \<Rightarrow> string go" where
  "indexer_host E f kind =
     go_bind (load_config (ci_config E) [] f) (\<lambda>res. Inr
       (case res of
          Inl e \<Rightarrow> []
        | Inr cfg \<Rightarrow>
            (let addrs = cf_addresses cfg;
                 addr = (if kind = ''finder'' then Some (la_finder addrs)
                         else if kind = ''admin'' then Some (la_admin addrs)
                         else if kind = ''ingest'' then Some (la_ingest addrs) else None)
             in if la_finder addrs = [] then []
                else
                  (case addr of
                     None \<Rightarrow> []
                   | Some s \<Rightarrow>
                       (case lib_new_multiaddr (ce_lib (ci_config E)) s of
                          Inl e \<Rightarrow> []
                        | Inr a \<Rightarrow> multiaddr_host (ci_value E) a)))))"

definition cli_indexer :: "'f cli_env \<Rightarrow> 'f \<Rightarrow> cli_context \<Rightarrow> string \<Rightarrow> string go" where
  "cli_indexer E f C kind =
     (let indexer = flag_string C ''indexer''
      in if indexer \<noteq> [] then Inr indexer
         else go_bind (indexer_host E f kind) (\<lambda>h. Inr (if h \<noteq> [] then h else ''localhost'')))"

text \<open>\<open>New\<close> of \<^verbatim>\<open>httpclient/client.go\<close>: the base URL of a client.\<close>

definition http_client_new :: "'f cli_env \<Rightarrow> string \<Rightarrow> string \<Rightarrow> go_error + string" where
  "http_client_new E base_url resource =
     (let url = (if take 7 base_url = ''http://'' \<or> take 8 base_url = ''https://'' then base_url
                 else ''http://'' @ base_url)
      in case ci_parse_url E url of
           Inl e \<Rightarrow> Inl (ErrMsg e)
         | Inr u \<Rightarrow>
             if pu_scheme u = [] then Inl (ErrMsg ''url missing scheme'') else Inr (pu_with_path u resource))"

text \<open>
  Every command makes its client first: \<open>at\<close> gives the server at a base URL, \<open>k\<close> is the rest of the
  command with it, and \<open>s\<close> the servers as they are.
\<close>

definition with_client ::
    "'f cli_env \<Rightarrow> 'f \<Rightarrow> cli_context \<Rightarrow> string \<Rightarrow> (string \<Rightarrow> 'v) \<Rightarrow> ('v \<Rightarrow> 's \<Rightarrow> ((go_error + 'r) \<times> 's) go) \<Rightarrow> 's \<Rightarrow>
       ((go_error + 'r) \<times> 's) go" where
  "with_client E f C kind at k s =
     go_bind (cli_indexer E f C kind) (\<lambda>host.
       case http_client_new E host [] of
         Inl e \<Rightarrow> Inr (Inl e, s)
       | Inr base \<Rightarrow> k (at base) s)"

text \<open>The error of a call as the result of the command.\<close>

definition as_result :: "(go_error option \<times> 's) go \<Rightarrow> ((go_error + unit) \<times> 's) go" where
  "as_result m = go_bind m (\<lambda>(e, s). Inr (case e of Some e \<Rightarrow> Inl e | None \<Rightarrow> Inr (), s))"

definition with_peer :: "lib \<Rightarrow> string \<Rightarrow> (peer_id \<Rightarrow> 's \<Rightarrow> ((go_error + 'r) \<times> 's) go) \<Rightarrow> 's \<Rightarrow> ((go_error + 'r) \<times> 's) go" where
  "with_peer L text k s = (case lib_peer_decode L text of Inl e \<Rightarrow> Inr (Inl (ErrMsg e), s) | Inr p \<Rightarrow> k p s)"

section \<open>Administration\<close>

definition sync_cmd ::
    "'f cli_env \<Rightarrow> admin_client_env \<Rightarrow> 'f \<Rightarrow> cli_context \<Rightarrow> (string \<Rightarrow> 's admin_server) \<Rightarrow> 's \<Rightarrow>
       ((go_error + unit) \<times> 's) go" where
  "sync_cmd E X f C at =
     (let L = ce_lib (ci_config E) in
      with_client E f C ''admin'' at (\<lambda>server. with_peer L (flag_string C ''pubid'') (\<lambda>p s.
        case (if flag_string C ''addr'' \<noteq> [] then map_sum id Some (lib_new_multiaddr L (flag_string C ''addr'')) else Inr None) of
          Inl e \<Rightarrow> Inr (Inl (ErrMsg e), s)
        | Inr addr \<Rightarrow>
            as_result (admin_client_sync server X L p addr (flag_int C ''depth'') (flag_bool C ''resync'') s))))"

definition allow_cmd ::
    "'f cli_env \<Rightarrow> 'f \<Rightarrow> cli_context \<Rightarrow> (string \<Rightarrow> 's admin_server) \<Rightarrow> 's \<Rightarrow> ((go_error + unit) \<times> 's) go" where
  "allow_cmd E f C at =
     (let L = ce_lib (ci_config E) in
      with_client E f C ''admin'' at (\<lambda>server. with_peer L (flag_string C ''peer'') (\<lambda>p s.
        as_result (admin_client_allow server L p s))))"

definition block_cmd ::
    "'f cli_env \<Rightarrow> 'f \<Rightarrow> cli_context \<Rightarrow> (string \<Rightarrow> 's admin_server) \<Rightarrow> 's \<Rightarrow> ((go_error + unit) \<times> 's) go" where
  "block_cmd E f C at =
     (let L = ce_lib (ci_config E) in
      with_client E f C ''admin'' at (\<lambda>server. with_peer L (flag_string C ''peer'') (\<lambda>p s.
        as_result (admin_client_block server L p s))))"

definition import_providers_cmd ::
    "'f cli_env \<Rightarrow> admin_client_env \<Rightarrow> 'f \<Rightarrow> cli_context \<Rightarrow> (string \<Rightarrow> 's admin_server) \<Rightarrow> 's \<Rightarrow>
       ((go_error + unit) \<times> 's) go" where
  "import_providers_cmd E X f C at =
     (let url = ''http://'' @ escape_host (flag_string C ''from'') @ ''/providers'' in
      with_client E f C ''admin'' at (\<lambda>server s. as_result (admin_client_import_providers server X url s)))"

definition reload_config_cmd ::
    "'f cli_env \<Rightarrow> 'f \<Rightarrow> cli_context \<Rightarrow> (string \<Rightarrow> 's admin_server) \<Rightarrow> 's \<Rightarrow> ((go_error + unit) \<times> 's) go" where
  "reload_config_cmd E f C at =
     with_client E f C ''admin'' at (\<lambda>server s. as_result (admin_client_reload_config server s))"

text \<open>The address of the indexer for the logging commands is the flag as it is.\<close>

definition flag_client ::
    "'f cli_env \<Rightarrow> cli_context \<Rightarrow> (string \<Rightarrow> 'v) \<Rightarrow> ('v \<Rightarrow> 's \<Rightarrow> ((go_error + 'r) \<times> 's) go) \<Rightarrow> 's \<Rightarrow>
       ((go_error + 'r) \<times> 's) go" where
  "flag_client E C at k s =
     (case http_client_new E (flag_string C ''indexer'') [] of Inl e \<Rightarrow> Inr (Inl e, s) | Inr base \<Rightarrow> k (at base) s)"

fun arg_pairs :: "string list \<Rightarrow> (string \<times> string) list" where
  "arg_pairs (k # v # args) = (k, v) # arg_pairs args"
| "arg_pairs _ = []"

text \<open>The levels in a map, which is encoded in the order of the subsystems.\<close>

definition level_map :: "string list \<Rightarrow> (string \<times> string) list" where
  "level_map args = sort_key fst (fold (\<lambda>(k, v). AList.update k v) (arg_pairs args) [])"

definition set_log_levels_cmd ::
    "'f cli_env \<Rightarrow> cli_context \<Rightarrow> string list \<Rightarrow> (string \<Rightarrow> 's admin_server) \<Rightarrow> 's \<Rightarrow> ((go_error + unit) \<times> 's) go" where
  "set_log_levels_cmd E C args at =
     flag_client E C at (\<lambda>server s.
       if args = []
       then Inr (Inl (ErrMsg ''at least one <sub-system> <level> argument pair must be specified''), s)
       else if odd (length args)
       then Inr (Inl (ErrMsg ''<sub-system> <level> argument must be specified as pairs''), s)
       else as_result (admin_client_set_log_levels server (level_map args) s))"

definition list_log_subsystems_cmd ::
    "'f cli_env \<Rightarrow> cli_context \<Rightarrow> (string \<Rightarrow> 's admin_server) \<Rightarrow> 's \<Rightarrow> ((go_error + string list) \<times> 's) go" where
  "list_log_subsystems_cmd E C at = flag_client E C at admin_client_list_log_subsystems"

section \<open>Importing\<close>

definition import_list_cmd ::
    "'f cli_env \<Rightarrow> admin_client_env \<Rightarrow> 'f \<Rightarrow> cli_context \<Rightarrow> (string \<Rightarrow> 's admin_server) \<Rightarrow> 's \<Rightarrow>
       ((go_error + unit) \<times> 's) go" where
  "import_list_cmd E X f C at =
     (let L = ce_lib (ci_config E) in
      with_client E f C ''admin'' at (\<lambda>server. with_peer L (flag_string C ''provider'') (\<lambda>p s.
        as_result (admin_client_import_cid_list server X L (flag_string C ''file'') p
          (flag_string C ''ctxid'') (flag_string C ''metadata'') s))))"

definition import_manifest_cmd ::
    "'f cli_env \<Rightarrow> admin_client_env \<Rightarrow> 'f \<Rightarrow> cli_context \<Rightarrow> (string \<Rightarrow> 's admin_server) \<Rightarrow> 's \<Rightarrow>
       ((go_error + unit) \<times> 's) go" where
  "import_manifest_cmd E X f C at =
     (let L = ce_lib (ci_config E) in
      with_client E f C ''admin'' at (\<lambda>server. with_peer L (flag_string C ''provider'') (\<lambda>p s.
        as_result (admin_client_import_manifest server X L (flag_string C ''file'') p
          (flag_string C ''ctxid'') (flag_string C ''metadata'') s))))"

definition import_car_cmd :: go_error where
  "import_car_cmd = ErrMsg ''importing from car not implemented yet''"

section \<open>Finding\<close>

text \<open>
  Reading the texts of multihashes and CIDs, the finder's formats, and the libp2p side: making a host,
  connecting it, and the stream to a peer.
\<close>

record find_env =
  fc_multihash :: "string \<Rightarrow> string + multihash"
  fc_cids :: cid_lib
  fc_formats :: finder_env
  fc_messages :: "finder_message codec"
  fc_errors :: "bytes \<Rightarrow> string + error_message"
  fc_host :: "go_error option"
  fc_quote :: "string \<Rightarrow> string"
  fc_parse_ipv6 :: "string \<Rightarrow> ip_kind option"
  fc_dial :: "addr_info \<Rightarrow> go_error option"
  fc_stream :: "peer_id \<Rightarrow> p2p_transport"

fun read_args :: "('a \<Rightarrow> string + 'b) \<Rightarrow> 'a list \<Rightarrow> go_error + 'b list" where
  "read_args parse [] = Inr []"
| "read_args parse (x # xs) =
     (case parse x of
        Inl e \<Rightarrow> Inl (ErrMsg e)
      | Inr y \<Rightarrow> (case read_args parse xs of Inl e \<Rightarrow> Inl e | Inr ys \<Rightarrow> Inr (y # ys)))"

definition find_args :: "find_env \<Rightarrow> cli_context \<Rightarrow> go_error + multihash list" where
  "find_args F C =
     (case read_args (fc_multihash F) (flag_strings C ''mh'') of
        Inl e \<Rightarrow> Inl e
      | Inr mhs \<Rightarrow>
          (case read_args (cl_decode (fc_cids F)) (flag_strings C ''cid'') of
             Inl e \<Rightarrow> Inl e
           | Inr cs \<Rightarrow> Inr (mhs @ map (cl_hash (fc_cids F)) cs)))"

definition find_over_libp2p ::
    "'f cli_env \<Rightarrow> find_env \<Rightarrow> 'f \<Rightarrow> cli_context \<Rightarrow> multihash list \<Rightarrow> (go_error + multihash_result list) go" where
  "find_over_libp2p E F f C mhs =
     (let L = ce_lib (ci_config E) in
      case lib_peer_decode L (flag_string C ''peerid'') of
        Inl e \<Rightarrow> Inr (Inl (ErrMsg e))
      | Inr p \<Rightarrow>
          (case fc_host F of
             Some e \<Rightarrow> Inr (Inl e)
           | None \<Rightarrow>
               go_bind (cli_indexer E f C ''finder'') (\<lambda>host. Inr
                 (case p2p_connect L (fc_quote F) (fc_parse_ipv6 F) (fc_dial F) p host of
                    Some e \<Rightarrow> Inl e
                  | None \<Rightarrow> p2p_client_find_batch (fc_formats F) (fc_messages F) (fc_errors F) (fc_stream F p) mhs))))"

definition find_over_http ::
    "'f cli_env \<Rightarrow> find_env \<Rightarrow> 'f \<Rightarrow> cli_context \<Rightarrow> (string \<Rightarrow> http_transport) \<Rightarrow> multihash list \<Rightarrow>
       (go_error + multihash_result list) go" where
  "find_over_http E F f C at mhs =
     go_bind (cli_indexer E f C ''finder'') (\<lambda>host. Inr
       (case http_client_new E host [] of
          Inl e \<Rightarrow> Inl e
        | Inr base \<Rightarrow> http_client_find_batch (fc_formats F) (at base) mhs))"

definition find_cmd ::
    "'f cli_env \<Rightarrow> find_env \<Rightarrow> 'f \<Rightarrow> cli_context \<Rightarrow> (string \<Rightarrow> http_transport) \<Rightarrow>
       (go_error + multihash_result list) go" where
  "find_cmd E F f C at =
     (case find_args F C of
        Inl e \<Rightarrow> Inr (Inl e)
      | Inr mhs \<Rightarrow>
          (let protocol = flag_string C ''protocol'' in
           if protocol = ''http'' then find_over_http E F f C at mhs
           else if protocol = ''libp2p'' then find_over_libp2p E F f C mhs
           else Inr (Inl (ErrMsg (''unrecognized protocol type for client interaction: '' @ protocol)))))"

section \<open>Providers\<close>

definition get_providers_cmd ::
    "'f cli_env \<Rightarrow> finder_env \<Rightarrow> 'f \<Rightarrow> cli_context \<Rightarrow> (string \<Rightarrow> http_transport) \<Rightarrow> (go_error + model_provider) go" where
  "get_providers_cmd E V f C at =
     (let L = ce_lib (ci_config E) in
      go_bind (cli_indexer E f C ''finder'') (\<lambda>host. Inr
        (case http_client_new E host [] of
           Inl e \<Rightarrow> Inl e
         | Inr base \<Rightarrow>
             (case lib_peer_decode L (flag_string C ''provid'') of
                Inl e \<Rightarrow> Inl (ErrMsg e)
              | Inr p \<Rightarrow> http_client_get_provider V (lib_peer_string L) (at base) p))))"

definition list_providers_cmd ::
    "'f cli_env \<Rightarrow> finder_env \<Rightarrow> 'f \<Rightarrow> cli_context \<Rightarrow> (string \<Rightarrow> http_transport) \<Rightarrow>
       (go_error + model_provider list) go" where
  "list_providers_cmd E V f C at =
     go_bind (cli_indexer E f C ''finder'') (\<lambda>host. Inr
       (case http_client_new E host [] of
          Inl e \<Rightarrow> Inl e
        | Inr base \<Rightarrow> http_client_list_providers V (at base)))"

text \<open>\<open>seq\<close> is the sequence number of the request, from the clock.\<close>

definition register_command ::
    "'f cli_env \<Rightarrow> ('k, 'p) key_lib \<Rightarrow> ('k, 'e, 'q) envelopes \<Rightarrow> 64 word \<Rightarrow> 'f \<Rightarrow> cli_context \<Rightarrow>
       (string \<Rightarrow> http_request \<Rightarrow> 's \<Rightarrow> (response_writer \<times> 's) go) \<Rightarrow> 's \<Rightarrow> ((go_error + unit) \<times> 's) go" where
  "register_command E K W seq f C at s =
     go_bind (load_config (ci_config E) (flag_string C ''config'') f) (\<lambda>res.
       case res of
         Inl e \<Rightarrow> Inr (Inl (ErrWrap ''cannot load config file: ''
           (if e = err_not_initialized then ErrMsg ''config file not found'' else e)), s)
       | Inr cfg \<Rightarrow>
           (case decode_identity (ci_config E) K f (cf_identity cfg) of
              Inl e \<Rightarrow> Inr (Inl e, s)
            | Inr (p, key) \<Rightarrow>
                with_client E f C ''admin'' at (\<lambda>server s.
                  go_bind (http_client_register server W (ce_lib (ci_config E)) seq p key (flag_strings C ''addr'') s) (\<lambda>(e, s). Inr
                    (case e of
                       Some e \<Rightarrow> Inl (ErrMsg (''failed to register providers: '' @ error_string e))
                     | None \<Rightarrow> Inr (), s))) s))"

section \<open>Commands and the server together\<close>

lemma cli_indexer_flag:
  "flag_string C ''indexer'' = host \<Longrightarrow> host \<noteq> [] \<Longrightarrow> cli_indexer E f C kind = Inr host"
  by (simp add: cli_indexer_def)

lemma with_client_flag:
  "flag_string C ''indexer'' = host \<Longrightarrow> host \<noteq> [] \<Longrightarrow> http_client_new E host [] = Inr base \<Longrightarrow>
     with_client E f C kind at k s = k (at base) s"
  by (simp add: with_client_def cli_indexer_flag)

text \<open>A command that succeeded has made its client and called it.\<close>

lemma with_client_Inr:
  "with_client E f C kind (\<lambda>base. server) k s = Inr (Inr r, s') \<Longrightarrow> k server s = Inr (Inr r, s')"
  by (auto simp: with_client_def go_bind_def split: sum.splits)

lemma as_result_Inr: "as_result m = Inr (Inr r, s') \<Longrightarrow> m = Inr (None, s')"
  by (auto simp: as_result_def go_bind_def split: sum.splits option.splits prod.splits)

lemma with_peer_string:
  "lib_laws L \<Longrightarrow> peer_valid p \<Longrightarrow> with_peer L (lib_peer_string L p) k s = k p s"
  by (simp add: with_peer_def lib_lawsD(1))

text \<open>
  The libp2p protocol of the find command cannot be used either. The identifier of the indexer is read from
  a flag the command does not define, and an empty identifier does not decode: whatever the flags, a
  search over libp2p ends with an error before it connects.
\<close>

lemma find_over_libp2p_impossible:
  assumes "cx_flags C = find_flags" and "cx_string C ''protocol'' = ''libp2p''"
    and "lib_peer_decode (ce_lib (ci_config E)) [] = Inl e"
  shows "find_cmd E F f C at =
    Inr (Inl (case find_args F C of Inl e' \<Rightarrow> e' | Inr mhs \<Rightarrow> ErrMsg e))"
proof -
  have "flag_string C ''peerid'' = []" "flag_string C ''protocol'' = ''libp2p''"
    using assms by (simp_all add: flag_values flag_defs)
  then show ?thesis
    using assms(3) by (simp add: find_cmd_def find_over_libp2p_def Let_def split: sum.split)
qed

section \<open>Properties\<close>

text \<open>The command to register a provider cannot do it. It reads the provider's addresses from a flag it
  does not define, so that there are none, and a request without addresses is not made: whatever its
  flags, configuration and keys, the command fails or panics, and no server is called.
\<close>

theorem register_command_never_registers:
  fixes s :: 's
  assumes "cx_flags C = register_flags"
  shows "case register_command E K W seq f C at s of Inl p \<Rightarrow> True | Inr (res, s') \<Rightarrow> isl res \<and> s' = s"
proof -
  have "flag_strings C ''addr'' = []" using assms by (simp add: flag_values flag_defs)
  then have "http_client_register server W L seq p key (flag_strings C ''addr'') s =
      Inr (Some (ErrMsg ''missing address''), s)" for server L p key and s :: 's
    by (simp add: http_client_register_def http_client_post_def make_register_request_def)
  then show ?thesis
    by (auto simp: register_command_def with_client_def go_bind_def split: sum.split)
qed

text \<open>The sync command starts the sync it is asked for. Called with the address of an indexer, and with the
  texts of a valid publisher and, if any, of an address, it ends without an error, and the indexer starts
  the sync of that publisher at that address, with the depth and the kind of the flags, and does nothing
  else.
\<close>

theorem sync_command_starts_sync:
  assumes "lib_laws (en_lib E)" and "admin_wire_laws (en_lib E) V X" and "ce_lib (ci_config CE) = en_lib E"
    and "cx_flags C = admin_sync_flags"
    and "cx_string C ''indexer'' = host" and "host \<noteq> []" and "http_client_new CE host [] = Inr base"
    and "cx_string C ''pubid'' = lib_peer_string (en_lib E) p" and "peer_valid p"
    and "cx_string C ''addr'' = (case addr of None \<Rightarrow> [] | Some a \<Rightarrow> lib_multiaddr_string (en_lib E) a)"
    and "in_int64 (cx_int C ''depth'')"
  shows "sync_cmd CE X cf C (\<lambda>base. admin_net E V G other reload order) (s, g, effs) =
    Inr (Inr (), s, g, effs @ [StartSync (p, addr, cx_int C ''depth'', cx_bool C ''resync'')])"
proof -
  have flags: "flag_string C ''indexer'' = host" "flag_string C ''pubid'' = lib_peer_string (en_lib E) p"
      "flag_string C ''addr'' = (case addr of None \<Rightarrow> [] | Some a \<Rightarrow> lib_multiaddr_string (en_lib E) a)"
      "flag_int C ''depth'' = cx_int C ''depth''" "flag_bool C ''resync'' = cx_bool C ''resync''"
    using assms(4,5,8,10) by (simp_all add: flag_values flag_defs)
  have address: "(if flag_string C ''addr'' \<noteq> [] then map_sum id Some (lib_new_multiaddr (en_lib E) (flag_string C ''addr''))
      else Inr None) = Inr addr"
    unfolding flags(3) using lib_lawsD(3,4) [OF assms(1)] by (cases addr) simp_all
  show ?thesis
    unfolding sync_cmd_def Let_def assms(3) with_client_flag [OF flags(1) assms(6,7)] flags(2)
      with_peer_string [OF assms(1,9)] address sum.case flags(4,5)
      admin_sync_request_arrives [OF assms(1,2,9,11)]
    by (simp add: as_result_def)
qed

text \<open>C30: The import command indexes the file. When importing a CID list ends without an error, the multihashes
  of the lines of the file that decode, and no others, are mapped to the provider, the context and the
  metadata of the flags; nothing else has changed at the indexer.
\<close>

theorem import_command_indexes:
  assumes "indexer_laws (en_indexer E) absv" and "lib_laws (en_lib E)" and "admin_wire_laws (en_lib E) V X"
    and "ce_lib (ci_config CE) = en_lib E" and "cx_flags C = import_flags"
    and "cx_string C ''provider'' = lib_peer_string (en_lib E) p" and "peer_valid p"
    and "am_open V (cx_string C ''file'') = Inr (line_file ls @ rest, None)"
    and "newline \<notin> (\<Union>l\<in>set ls. set l)" and "newline \<notin> set rest"
    and "import_list_cmd CE X cf C (\<lambda>base. admin_net E V G other reload order) (s, g, effs) = Inr (Inr (), s', g', effs')"
  shows "\<exists>mhs. mhs = List.map_filter (\<lambda>l. line_multihash (am_cids V) (l @ [newline])) ls \<and> mhs \<noteq> [] \<and>
    absv (in_indexer s') = contents_put \<lparr>iv_provider = p, iv_context = cx_string C ''ctxid'',
      iv_metadata = cx_string C ''metadata''\<rparr> mhs (absv (in_indexer s)) \<and>
    s' = s\<lparr>in_indexer := in_indexer s'\<rparr> \<and> g' = g"
proof -
  have flags: "flag_string C ''provider'' = lib_peer_string (en_lib E) p" "flag_string C ''file'' = cx_string C ''file''"
      "flag_string C ''ctxid'' = cx_string C ''ctxid''" "flag_string C ''metadata'' = cx_string C ''metadata''"
    using assms(5,6) by (simp_all add: flag_values flag_defs)
  have "admin_client_import_cid_list (admin_net E V G other reload order) X (en_lib E) (cx_string C ''file'') p
      (cx_string C ''ctxid'') (cx_string C ''metadata'') (s, g, effs) = Inr (None, s', g', effs')"
    using as_result_Inr [OF with_client_Inr [OF assms(11) [unfolded import_list_cmd_def Let_def assms(4)],
        unfolded flags with_peer_string [OF assms(2,7)]]] .
  from admin_client_import_indexes [OF assms(1-3,7-10) this] show ?thesis by simp
qed

section \<open>Concrete commands\<close>

definition example_cli :: "(string \<times> bytes) list cli_env" where
  "example_cli =
     \<lparr>ci_config = example_env\<lparr>ce_lib := hex_lib\<rparr>, ci_value = (\<lambda>_ _. None),
      ci_parse_url = (\<lambda>s. Inr \<lparr>pu_scheme = ''http'', pu_with_path = (\<lambda>p. s @ p)\<rparr>)\<rparr>"

definition example_context :: "string list \<Rightarrow> (string \<times> string) list \<Rightarrow> cli_context" where
  "example_context flags values =
     \<lparr>cx_flags = flags, cx_string = (\<lambda>n. case map_of values n of None \<Rightarrow> [] | Some v \<Rightarrow> v), cx_strings = (\<lambda>_. []),
      cx_int = (\<lambda>_. 5), cx_bool = (\<lambda>_. True)\<rparr>"

lemma example_cli_values [simp]:
  "ce_lib (ci_config example_cli) = hex_lib"
  "http_client_new example_cli ''h'' [] = Inr ''http://h''"
  by (simp_all add: example_cli_def http_client_new_def)

theorem register_command_never_registers_witness:
  "case register_command example_cli example_keys clear_envelopes 5 []
      (example_context register_flags []) (\<lambda>base. ingest_http (table_env plain_indexer chain_table) clear_envelopes
        (one_announce_lib [] \<lparr>ai_id = [], ai_addrs = []\<rparr>) (\<lambda>c i. None) 5 5) register_server of
     Inl p \<Rightarrow> True | Inr (res, s') \<Rightarrow> isl res \<and> s' = register_server"
  by (rule register_command_never_registers) (simp add: example_context_def)

theorem sync_command_starts_sync_witness:
  "sync_cmd example_cli example_admin_client [] (example_context admin_sync_flags
      [(''indexer'', ''h''), (''pubid'', lib_peer_string hex_lib ''p1'')])
     (\<lambda>base. admin_net example_site example_admin silent_log (\<lambda>_. new_response) None [])
     (fresh_ingester open_policy, (), []) =
   Inr (Inr (), fresh_ingester open_policy, (), [StartSync (''p1'', None, 5, True)])"
proof -
  have lib: "en_lib example_site = hex_lib" by (simp add: table_env_def)
  have laws: "lib_laws (en_lib example_site)" "admin_wire_laws (en_lib example_site) example_admin example_admin_client"
      "ce_lib (ci_config example_cli) = en_lib example_site"
    unfolding lib using hex_lib_laws example_wire by simp_all
  show ?thesis
    using sync_command_starts_sync [OF laws, where C = "example_context admin_sync_flags
        [(''indexer'', ''h''), (''pubid'', lib_peer_string hex_lib ''p1'')]" and host = "''h''" and base = "''http://h''"
        and p = "''p1''" and addr = None and cf = "[]" and G = silent_log and other = "\<lambda>_. new_response"
        and reload = None and order = "[]" and s = "fresh_ingester open_policy" and g = "()" and effs = "[]"] lib
    by (simp add: example_context_def in_int64_def)
qed

abbreviation import_context :: cli_context where
  "import_context \<equiv> example_context import_flags [(''indexer'', ''h''), (''provider'', lib_peer_string hex_lib ''p1''),
     (''file'', ''list''), (''ctxid'', ''ctx''), (''metadata'', ''meta'')]"

lemma import_context_values:
  "flag_string import_context ''indexer'' = ''h''"
  "flag_string import_context ''provider'' = lib_peer_string hex_lib ''p1''" "flag_string import_context ''file'' = ''list''"
  "flag_string import_context ''ctxid'' = ''ctx''" "flag_string import_context ''metadata'' = ''meta''"
  by (simp_all add: example_context_def flag_values flag_defs)

theorem import_command_indexes_witness:
  "\<exists>s' effs'. import_list_cmd example_cli example_admin_client [] import_context
       (\<lambda>base. admin_net example_site example_admin silent_log (\<lambda>_. new_response) None [])
       (fresh_ingester open_policy, (), []) = Inr (Inr (), s', (), effs') \<and>
     in_indexer s' = contents_put \<lparr>iv_provider = ''p1'', iv_context = ''ctx'', iv_metadata = ''meta''\<rparr>
       [''c1'', ''c2''] empty_contents"
proof -
  let ?server = "admin_net example_site example_admin silent_log (\<lambda>_. new_response) None []"
  have lib: "en_lib example_site = hex_lib" by (simp add: table_env_def)
  obtain s' effs' where client: "admin_client_import_cid_list ?server example_admin_client hex_lib ''list'' ''p1'' ''ctx''
      ''meta'' (fresh_ingester open_policy, (), []) = Inr (None, s', (), effs')"
    using admin_client_import_indexes_witness by blast
  have run: "import_list_cmd example_cli example_admin_client [] import_context (\<lambda>base. ?server)
      (fresh_ingester open_policy, (), []) = Inr (Inr (), s', (), effs')"
    unfolding import_list_cmd_def Let_def example_cli_values(1)
      with_client_flag [OF import_context_values(1) list.distinct(2) [where ?x21.0 = "CHR ''h''" and ?x22.0 = "[]"] example_cli_values(2)]
      import_context_values(2-5) with_peer_string [OF hex_lib_laws peer_valid_Cons] client
    by (simp add: as_result_def)
  have laws: "indexer_laws (en_indexer example_site) id" "lib_laws (en_lib example_site)"
      "admin_wire_laws (en_lib example_site) example_admin example_admin_client"
      "ce_lib (ci_config example_cli) = en_lib example_site"
    unfolding lib using plain_indexer_laws hex_lib_laws example_wire by (simp_all add: table_env_def)
  have given: "cx_flags import_context = import_flags" "cx_string import_context ''file'' = ''list''"
      "cx_string import_context ''provider'' = lib_peer_string (en_lib example_site) ''p1''"
      "cx_string import_context ''ctxid'' = ''ctx''" "cx_string import_context ''metadata'' = ''meta''"
    unfolding lib by (simp_all add: example_context_def)
  have opened: "am_open example_admin (cx_string import_context ''file'') = Inr (line_file [''c1'', ''bad'', ''c2''] @ ''c3'', None)"
    unfolding given(2) by (rule example_list_read(1))
  from import_command_indexes [OF laws given(1,3) peer_valid_Cons opened example_list_read(2,3) run]
  have "in_indexer s' = contents_put \<lparr>iv_provider = ''p1'', iv_context = ''ctx'', iv_metadata = ''meta''\<rparr>
       [''c1'', ''c2''] (in_indexer (fresh_ingester open_policy))"
    unfolding example_list_read(4) given(4,5) by auto
  then show ?thesis using run by (auto simp: fresh_ingester_def)
qed

end
