(* ===== verification/Publish_Find.thy ===== *)
theory Publish_Find
  imports Registry_Properties Ingest_Ad_Properties Finder
begin

text \<open>
  From a publisher to a client: what the ingester makes of an advertisement, and what the finder answers
  afterwards. The finder is proved to implement a lookup in the contents of the index and the registered
  providers; the entries of a chain of chunks are tied to the multihashes that the publisher's blocks
  hold.
\<close>

section \<open>The lookup that the finder implements\<close>

definition lookup_results :: "contents \<Rightarrow> 'd registry \<Rightarrow> multihash \<Rightarrow> provider_result set" where
  "lookup_results c r m =
     {provider_result_from_value \<lparr>iv_provider = p, iv_context = k, iv_metadata = md\<rparr> (pi_addrs info) |p k md info.
        (m, (p, k)) \<in> ct_entries c \<and> ct_meta c (p, k) = Some md \<and> lookup_provider r p = Some info}"

definition found_results :: "multihash_result list \<Rightarrow> multihash \<Rightarrow> provider_result set" where
  "found_results mrs m = (\<Union>mr \<in> {mr \<in> set mrs. mr_multihash mr = m}. set (mr_results mr))"

text \<open>
  What an indexer documents of a query that does not fail: the values of a multihash are its contexts with
  their metadata.
\<close>

definition content_get_laws :: "'i indexer \<Rightarrow> ('i \<Rightarrow> contents) \<Rightarrow> bool" where
  "content_get_laws X absv \<longleftrightarrow>
     (\<forall>i m vs. ix_get X i m = Inr vs \<longrightarrow> set (found_values vs) =
        {v. (m, value_key v) \<in> ct_entries (absv i) \<and> ct_meta (absv i) (value_key v) = Some (iv_metadata v)})"

lemma in_value_results:
  "x \<in> set (value_results r vs) \<longleftrightarrow> (\<exists>v \<in> set vs. \<exists>info. lookup_provider r (iv_provider v) = Some info \<and>
     x = provider_result_from_value v (pi_addrs info))"
proof -
  have "x \<in> set (case o' of None \<Rightarrow> [] | Some info \<Rightarrow> [g info]) \<longleftrightarrow> (\<exists>info. o' = Some info \<and> x = g info)"
    for o' :: "provider_info option" and g
    by (cases o') auto
  then show ?thesis by (simp add: value_results_def)
qed

lemma lookup_results_values:
  "lookup_results c r m =
     {provider_result_from_value v (pi_addrs info) |v info. (m, value_key v) \<in> ct_entries c \<and>
        ct_meta c (value_key v) = Some (iv_metadata v) \<and> lookup_provider r (iv_provider v) = Some info}"
  (is "_ = ?R")
proof (intro set_eqI iffI)
  fix x assume "x \<in> lookup_results c r m"
  then obtain p k md info where x: "x = provider_result_from_value \<lparr>iv_provider = p, iv_context = k, iv_metadata = md\<rparr> (pi_addrs info)"
      "(m, (p, k)) \<in> ct_entries c" "ct_meta c (p, k) = Some md" "lookup_provider r p = Some info"
    by (auto simp: lookup_results_def)
  then show "x \<in> ?R"
    by (intro CollectI exI [of _ "\<lparr>iv_provider = p, iv_context = k, iv_metadata = md\<rparr>"] exI [of _ info])
      (simp add: value_key_def)
next
  fix x assume "x \<in> ?R"
  then obtain v info where x: "x = provider_result_from_value v (pi_addrs info)" "(m, value_key v) \<in> ct_entries c"
      "ct_meta c (value_key v) = Some (iv_metadata v)" "lookup_provider r (iv_provider v) = Some info"
    by blast
  show "x \<in> lookup_results c r m"
    unfolding lookup_results_def
    by (intro CollectI, rule exI [of _ "iv_provider v"], rule exI [of _ "iv_context v"], rule exI [of _ "iv_metadata v"],
        rule exI [of _ info]) (use x in \<open>simp add: value_key_def provider_result_from_value_def\<close>)
qed

lemma value_results_lookup:
  assumes "content_get_laws (fd_indexer F) absv" and "answered F (m, i)"
  shows "set (value_results r (values_of F (m, i))) = lookup_results (absv i) r m"
proof -
  obtain vs where vs: "ix_get (fd_indexer F) i m = Inr vs"
    using assms(2) by (cases "ix_get (fd_indexer F) i m") (simp_all add: answered_def)
  have "values_of F (m, i) = found_values vs"
    by (cases vs) (simp_all add: values_of_def vs found_values_def)
  moreover have "set (found_values vs) =
      {v. (m, value_key v) \<in> ct_entries (absv i) \<and> ct_meta (absv i) (value_key v) = Some (iv_metadata v)}"
    using assms(1) vs unfolding content_get_laws_def by blast
  ultimately show ?thesis
    unfolding lookup_results_values set_eq_iff in_value_results mem_Collect_eq by metis
qed

lemma find_Inr:
  assumes "find F r qs = (Inr mrs, rms)"
  shows "(\<forall>q \<in> set qs. answered F q) \<and> mrs = filter (\<lambda>mr. mr_results mr \<noteq> []) (map (query_result F r) qs)"
  using assms by (auto simp: find_eq response_def dropWhile_eq_Nil_conv split: list.splits prod.splits)

lemma find_results_lookup:
  assumes "content_get_laws (fd_indexer F) absv" and "find F r (map (\<lambda>m. (m, i)) mhs) = (Inr mrs, rms)"
  shows "found_results mrs m = (if m \<in> set mhs then lookup_results (absv i) r m else {})"
proof -
  note ok = find_Inr [OF assms(2)]
  have "found_results mrs m = (\<Union>q \<in> {q \<in> set mhs. q = m}. set (value_results r (values_of F (q, i))))"
    using ok by (auto simp: found_results_def query_result_def)
  moreover have "set (value_results r (values_of F (m, i))) = lookup_results (absv i) r m" if "m \<in> set mhs"
    using value_results_lookup [OF assms(1), of m i r] ok that by simp
  ultimately show ?thesis by auto
qed

section \<open>Chains of entry chunks\<close>

text \<open>
  What the CIDs of a publisher stand for: the chunk of a CID, if it is that of a chunk; and the multihashes
  of a chain of chunks, from the first on.
\<close>

type_synonym chunk_graph = "cid \<rightharpoonup> entry_chunk"

inductive chain_entries :: "chunk_graph \<Rightarrow> cid \<Rightarrow> multihash list \<Rightarrow> bool" for G where
  chain_last: "G c = Some ch \<Longrightarrow> ch_next ch = None \<Longrightarrow> chain_entries G c (ch_entries ch)"
| chain_more: "G c = Some ch \<Longrightarrow> ch_next ch = Some n \<Longrightarrow> n \<noteq> cid_undef \<Longrightarrow> chain_entries G n ms \<Longrightarrow>
    chain_entries G c (ch_entries ch @ ms)"

lemma chain_entries_unique: "chain_entries G c ms \<Longrightarrow> chain_entries G c ms' \<Longrightarrow> ms = ms'"
proof (induction arbitrary: ms' rule: chain_entries.induct)
  case (chain_last c ch)
  from chain_last.prems show ?case
    by (cases rule: chain_entries.cases) (use chain_last.hyps in auto)
next
  case (chain_more c ch n ms)
  note \<open>G c = Some ch\<close> \<open>ch_next ch = Some n\<close>
  note IH = chain_more.IH
  from chain_more.prems show ?case
  proof (cases rule: chain_entries.cases)
    case (chain_more ch' n' ms'')
    then have "ch' = ch" "n' = n" using \<open>G c = Some ch\<close> \<open>ch_next ch = Some n\<close> by simp_all
    then show ?thesis using chain_more IH [of ms''] by simp
  qed (use \<open>G c = Some ch\<close> \<open>ch_next ch = Some n\<close> in simp)
qed

text \<open>
  What go-legs promises of a sync that succeeds without a limit to its depth. A block is verified against its
  CID before it is stored, so what is read back under the CID is what the CID stands for; the hook is
  called for every block in turn, beginning with the one that was asked for, and ends the sync by setting
  the undefined CID. Between the calls blocks are stored and nothing else.
\<close>

definition served :: "('d, 'i, 'n, 'h) env \<Rightarrow> chunk_graph \<Rightarrow> cid \<Rightarrow> ('d, 'i) ad_scope \<Rightarrow> bool" where
  "served E G c sc \<longleftrightarrow>
     (\<forall>ch. load_entry_chunk E c (in_ds (sc_ing sc)) = Inr ch \<longrightarrow> G c = Some ch) \<and>
     (\<forall>node. load_node E c AnyPrototype (in_ds (sc_ing sc)) = Inr node \<longrightarrow> is_hamt (en_ipld E) node \<longrightarrow> G c = None)"

inductive chain_served ::
    "('d, 'i, 'n, 'h) env \<Rightarrow> chunk_graph \<Rightarrow> (cid \<Rightarrow> ('d, 'i) ad_scope \<Rightarrow> hook_action \<times> ('d, 'i) ad_scope) \<Rightarrow>
       cid \<Rightarrow> ('d, 'i) ad_scope \<Rightarrow> ('d, 'i) ad_scope \<Rightarrow> bool"
  for E G h where
  served_last: "sync_steps E None sc sc1 \<Longrightarrow> served E G c sc1 \<Longrightarrow> h c sc1 = (SetNextSyncCid cid_undef, sc2) \<Longrightarrow>
    sync_steps E None sc2 sc3 \<Longrightarrow> chain_served E G h c sc sc3"
| served_more: "sync_steps E None sc sc1 \<Longrightarrow> served E G c sc1 \<Longrightarrow> h c sc1 = (SetNextSyncCid n, sc2) \<Longrightarrow>
    n \<noteq> cid_undef \<Longrightarrow> chain_served E G h n sc2 sc3 \<Longrightarrow> chain_served E G h c sc sc3"

definition chain_laws :: "('d, 'i, 'n, 'h) env \<Rightarrow> chunk_graph \<Rightarrow> ('d, 'i) ad_scope legs_sync \<Rightarrow> bool" where
  "chain_laws E G sync \<longleftrightarrow>
     (\<forall>rq sc c sc'. sync rq sc = (Inr c, sc') \<longrightarrow>
        (rq_hook rq = None \<longrightarrow> c = rq_cid rq \<and> sync_steps E None sc sc' \<and> served E G c sc') \<and>
        (\<forall>h. rq_hook rq = Some h \<longrightarrow> rq_sel rq = Some (SelEntries LimitNone) \<longrightarrow> (\<forall>c sc. fst (h c sc) \<noteq> NoAction) \<longrightarrow>
          chain_served E G h (rq_cid rq) sc sc'))"

lemma stored_blocks_frame:
  "sync_steps E None sc sc' \<Longrightarrow>
     in_indexer (sc_ing sc') = in_indexer (sc_ing sc) \<and> sc_errs sc' = sc_errs sc \<and> in_reg (sc_ing sc') = in_reg (sc_ing sc)"
  by (induction rule: sync_steps.induct) (simp_all add: store_block_def)

text \<open>One chunk, in the hook.\<close>

lemma chunk_hook_next:
  assumes "ad_env E absv ad p" and "served E G c sc" and "chunk_hook E ad c sc = (SetNextSyncCid n, sc')"
  shows "\<exists>ch. G c = Some ch \<and> n = (case ch_next ch of None \<Rightarrow> cid_undef | Some n \<Rightarrow> n) \<and> sc_errs sc' = sc_errs sc \<and>
    absv (in_indexer (sc_ing sc')) =
      stored (ad_is_rm ad) (ad_value p ad) (filter (en_mh_ok E) (ch_entries ch)) (absv (in_indexer (sc_ing sc)))"
proof -
  obtain ch where ch: "load_entry_chunk E c (in_ds (sc_ing sc)) = Inr ch"
    using assms(3) by (auto simp: chunk_hook_def split: sum.splits)
  obtain e s1 where idx: "index_ad_multihashes E ad (ch_entries ch) (sc_ing sc) = (e, s1)"
    by (cases "index_ad_multihashes E ad (ch_entries ch) (sc_ing sc)")
  have none: "e = None" and n: "n = (case ch_next ch of None \<Rightarrow> cid_undef | Some n \<Rightarrow> n)"
      and sc': "sc' = sc\<lparr>sc_ing := delete_block E c s1\<rparr>"
    using assms(3) ch idx by (auto simp: chunk_hook_def ingest_entry_chunk_def Let_def split: option.splits)
  have "absv (in_indexer s1) =
      stored (ad_is_rm ad) (ad_value p ad) (filter (en_mh_ok E) (ch_entries ch)) (absv (in_indexer (sc_ing sc)))"
    using index_ad_multihashes_contents [of E absv ad "ch_entries ch" "sc_ing sc" s1] assms(1) idx none
    by (auto simp: stored_def Let_def ad_env_def)
  then show ?thesis using ch assms(2) n sc' by (auto simp: served_def)
qed

lemma chunk_hook_acts: "fst (chunk_hook E ad c sc) \<noteq> NoAction"
  by (simp add: chunk_hook_def split: sum.splits prod.splits option.splits)

lemma chain_served_contents:
  assumes "chain_served E G (chunk_hook E ad) c sc sc'" and "ad_env E absv ad p"
    and "\<And>c ch. G c = Some ch \<Longrightarrow> ch_next ch \<noteq> Some cid_undef"
  shows "\<exists>ms. chain_entries G c ms \<and> sc_errs sc' = sc_errs sc \<and>
    absv (in_indexer (sc_ing sc')) =
      stored (ad_is_rm ad) (ad_value p ad) (filter (en_mh_ok E) ms) (absv (in_indexer (sc_ing sc)))"
  using assms(1)
proof (induction rule: chain_served.induct)
  case (served_last sc sc1 c sc2 sc3)
  from chunk_hook_next [OF assms(2) served_last(2,3)] obtain ch where
    ch: "G c = Some ch" "cid_undef = (case ch_next ch of None \<Rightarrow> cid_undef | Some n \<Rightarrow> n)" "sc_errs sc2 = sc_errs sc1"
      "absv (in_indexer (sc_ing sc2)) =
        stored (ad_is_rm ad) (ad_value p ad) (filter (en_mh_ok E) (ch_entries ch)) (absv (in_indexer (sc_ing sc1)))"
    by blast
  have "ch_next ch = None" using ch(2) assms(3) [OF ch(1)] by (cases "ch_next ch") auto
  then show ?case
    using ch chain_last [of G c ch] stored_blocks_frame [OF served_last(1)] stored_blocks_frame [OF served_last(4)]
    by (intro exI [of _ "ch_entries ch"]) simp
next
  case (served_more sc sc1 c n sc2 sc3)
  from chunk_hook_next [OF assms(2) served_more(2,3)] obtain ch where
    ch: "G c = Some ch" "n = (case ch_next ch of None \<Rightarrow> cid_undef | Some n \<Rightarrow> n)" "sc_errs sc2 = sc_errs sc1"
      "absv (in_indexer (sc_ing sc2)) =
        stored (ad_is_rm ad) (ad_value p ad) (filter (en_mh_ok E) (ch_entries ch)) (absv (in_indexer (sc_ing sc1)))"
    by blast
  have "ch_next ch = Some n" using ch(2) served_more(4) by (cases "ch_next ch") auto
  moreover obtain ms where "chain_entries G n ms" "sc_errs sc3 = sc_errs sc2"
      "absv (in_indexer (sc_ing sc3)) =
        stored (ad_is_rm ad) (ad_value p ad) (filter (en_mh_ok E) ms) (absv (in_indexer (sc_ing sc2)))"
    using served_more.IH by blast
  ultimately show ?case
    using ch served_more(4) chain_more [of G c ch n] stored_blocks_frame [OF served_more(1)]
    by (intro exI [of _ "ch_entries ch @ ms"]) (simp add: stored_append)
qed

text \<open>The whole chain: the first chunk was synced before, the rest is ingested by the hook.\<close>

lemma first_chunk_ok:
  assumes "ad_env E absv ad p" and "served E G c sc" and "first_chunk E ad c sc = (chunk, sc')" and "sc_errs sc' = []"
  shows "\<exists>ch. chunk = Some ch \<and> G c = Some ch \<and> absv (in_indexer (sc_ing sc')) =
    stored (ad_is_rm ad) (ad_value p ad) (filter (en_mh_ok E) (ch_entries ch)) (absv (in_indexer (sc_ing sc)))"
proof -
  obtain ch where ch: "load_entry_chunk E c (in_ds (sc_ing sc)) = Inr ch"
    using assms(3,4) by (auto simp: first_chunk_def add_err_def split: sum.splits)
  obtain e s1 where idx: "index_ad_multihashes E ad (ch_entries ch) (sc_ing sc) = (e, s1)"
    by (cases "index_ad_multihashes E ad (ch_entries ch) (sc_ing sc)")
  have none: "e = None" and sc': "chunk = Some ch" "sc' = sc\<lparr>sc_ing := delete_block E c s1\<rparr>"
    using assms(3,4) ch idx
    by (auto simp: first_chunk_def ingest_entry_chunk_def add_err_def Let_def split: option.splits)
  have "absv (in_indexer s1) =
      stored (ad_is_rm ad) (ad_value p ad) (filter (en_mh_ok E) (ch_entries ch)) (absv (in_indexer (sc_ing sc)))"
    using index_ad_multihashes_contents [of E absv ad "ch_entries ch" "sc_ing sc" s1] assms(1) idx none
    by (auto simp: stored_def Let_def ad_env_def)
  then show ?thesis using ch assms(2) sc' by (auto simp: served_def)
qed

definition links_defined :: "chunk_graph \<Rightarrow> bool" where
  "links_defined G \<longleftrightarrow> (\<forall>c ch. G c = Some ch \<longrightarrow> ch_next ch \<noteq> Some cid_undef)"

lemma chunk_chain_contents:
  assumes "ad_env E absv ad p" and "chain_laws E G sync" and "en_entries_limit E = LimitNone" and "links_defined G"
    and "served E G c sc" and "ingest_chunk_chain E sync publisher ad c sc = (None, sc')" and "sc_errs sc' = []"
  shows "\<exists>ms. chain_entries G c ms \<and> absv (in_indexer (sc_ing sc')) =
    stored (ad_is_rm ad) (ad_value p ad) (filter (en_mh_ok E) ms) (absv (in_indexer (sc_ing sc)))"
proof -
  obtain chunk sc1 where first: "first_chunk E ad c sc = (chunk, sc1)" by (cases "first_chunk E ad c sc")
  show ?thesis
  proof (cases "\<exists>ch n. chunk = Some ch \<and> ch_next ch = Some n")
    case False
    then have "sc' = sc1" using assms(6) first by (auto simp: ingest_chunk_chain_def split: option.splits)
    then obtain ch where ch: "chunk = Some ch" "G c = Some ch" "absv (in_indexer (sc_ing sc')) =
        stored (ad_is_rm ad) (ad_value p ad) (filter (en_mh_ok E) (ch_entries ch)) (absv (in_indexer (sc_ing sc)))"
      using first_chunk_ok [OF assms(1,5) first] assms(7) by blast
    then show ?thesis using False chain_last [of G c ch] by (intro exI [of _ "ch_entries ch"]) auto
  next
    case True
    then obtain ch n where n: "chunk = Some ch" "ch_next ch = Some n" by blast
    define rq where "rq = \<lparr>rq_peer = publisher, rq_cid = n,
        rq_sel = Some (SelEntries (en_entries_limit E)), rq_addr = None,
        rq_hook = Some (chunk_hook E ad), rq_segment = None, rq_update_latest = False\<rparr>"
    obtain x where sync: "sync rq sc1 = (Inr x, sc')"
      using assms(6) first n by (auto simp: ingest_chunk_chain_def rq_def [symmetric] split: sum.splits prod.splits)
    have "chain_served E G (chunk_hook E ad) n sc1 sc'"
      using assms(2) [unfolded chain_laws_def, rule_format, OF sync]
      by (simp add: rq_def assms(3) chunk_hook_acts)
    then obtain ms where ms: "chain_entries G n ms" "sc_errs sc' = sc_errs sc1" "absv (in_indexer (sc_ing sc')) =
        stored (ad_is_rm ad) (ad_value p ad) (filter (en_mh_ok E) ms) (absv (in_indexer (sc_ing sc1)))"
      using chain_served_contents [OF _ assms(1)] assms(4) unfolding links_defined_def by blast
    obtain ch' where ch: "chunk = Some ch'" "G c = Some ch'" "absv (in_indexer (sc_ing sc1)) =
        stored (ad_is_rm ad) (ad_value p ad) (filter (en_mh_ok E) (ch_entries ch')) (absv (in_indexer (sc_ing sc)))"
      using first_chunk_ok [OF assms(1,5) first] ms(2) assms(7) by auto
    have "n \<noteq> cid_undef" using assms(4) n ch by (auto simp: links_defined_def)
    then show ?thesis
      using ms ch n chain_more [of G c ch n ms] by (intro exI [of _ "ch_entries ch @ ms"]) (simp add: stored_append)
  qed
qed

lemma entries_contents:
  assumes "ad_env E absv ad p" and "chain_laws E G sync" and "en_entries_limit E = LimitNone" and "links_defined G"
    and "G c \<noteq> None" and "ingest_entries E sync publisher ad c s = (None, s')"
  shows "\<exists>ms. chain_entries G c ms \<and> absv (in_indexer s') =
    stored (ad_is_rm ad) (ad_value p ad) (filter (en_mh_ok E) ms) (absv (in_indexer s))"
proof -
  let ?sc = "\<lparr>sc_ing = s, sc_errs = [], sc_hamt = []\<rparr>"
  obtain x sc1 where one: "sync (sync_one publisher c) ?sc = (Inr x, sc1)"
    using assms(6) by (auto simp: ingest_entries_def split: sum.splits prod.splits)
  have first: "x = c" "sync_steps E None ?sc sc1" "served E G c sc1"
    using assms(2) one unfolding chain_laws_def by (fastforce simp: sync_one_def)+
  obtain node where node: "load_node E c AnyPrototype (in_ds (sc_ing sc1)) = Inr node"
    using assms(6) one first(1) by (auto simp: ingest_entries_def split: sum.splits)
  have "\<not> is_hamt (en_ipld E) node" using first(3) node assms(5) by (auto simp: served_def)
  then obtain sc2 where "ingest_chunk_chain E sync publisher ad c sc1 = (None, sc2)" "sc_errs sc2 = []" "s' = sc_ing sc2"
    using assms(6) one first(1) node
    by (auto simp: ingest_entries_def Let_def split: prod.splits option.splits if_splits)
  then show ?thesis
    using chunk_chain_contents [OF assms(1-4) first(3), of publisher sc2] stored_blocks_frame [OF first(2)] by simp
qed

section \<open>One advertisement, in the index and the registry\<close>

lemma ingested_provider_active:
  assumes "register_or_update D L J now p addrs ad publisher r = Inr (None, r')"
  shows "\<exists>info. lookup_provider r' p = Some info \<and>
    (addrs \<noteq> [] \<longrightarrow> pi_addrs info = map (\<lambda>s. projr (lib_new_multiaddr L s)) addrs)"
proof -
  obtain info where "rg_providers r' p = Some info" "\<not> pi_inactive info"
      "addrs \<noteq> [] \<longrightarrow> pi_addrs info = map (\<lambda>s. projr (lib_new_multiaddr L s)) addrs"
    using register_or_update_stores [OF assms] by auto
  then show ?thesis by (auto simp: lookup_provider_def provider_inactive_def)
qed

lemma ingest_chain_contents:
  assumes "indexer_laws (en_indexer E) absv" and "chain_laws E G sync" and "en_entries_limit E = LimitNone"
    and "links_defined G" and "\<not> ad_is_rm ad" and "ad_entries ad = Some c" and "c \<noteq> no_entries"
    and "chain_entries G c ms" and "ingest_ad E sync now publisher ad_cid ad s = Inr (None, s')"
  shows "\<exists>p. lib_peer_decode (en_lib E) (ad_provider ad) = Inr p \<and>
    absv (in_indexer s') = stored False (ad_value p ad) (filter (en_mh_ok E) ms) (absv (in_indexer s))"
proof -
  obtain p where p: "lib_peer_decode (en_lib E) (ad_provider ad) = Inr p"
    using assms(9) by (auto simp: ingest_ad_def split: sum.splits)
  obtain r where r: "register_or_update (en_ds E) (en_lib E) (en_json E) now p (ad_addresses ad) ad_cid
       (publisher_info E publisher) (in_reg s) = Inr (None, r)"
    using assms(9) p by (auto simp: ingest_ad_def go_bind_eq_Inr Let_def split: option.splits)
  have run: "ingest_entries E sync publisher ad c (s\<lparr>in_reg := r\<rparr>) = (None, s')"
    using assms(5-7,9) p r by (auto simp: ingest_ad_def Let_def split: if_splits)
  have "G c \<noteq> None" using assms(8) by (cases rule: chain_entries.cases) auto
  moreover have "ad_env E absv ad p" using assms(1) p by (simp add: ad_env_def)
  ultimately obtain ms' where "chain_entries G c ms'"
      "absv (in_indexer s') = stored False (ad_value p ad) (filter (en_mh_ok E) ms') (absv (in_indexer s))"
    using entries_contents [OF _ assms(2-4) _ run] assms(5) by fastforce
  then show ?thesis using p chain_entries_unique [OF assms(8)] by blast
qed

lemma stored_looked_up:
  assumes "m \<in> set ms" and "lookup_provider r (iv_provider v) = Some info"
  shows "provider_result_from_value v (pi_addrs info) \<in> lookup_results (stored False v ms c) r m"
proof -
  have "(m, value_key v) \<in> ct_entries (stored False v ms c) \<and>
      ct_meta (stored False v ms c) (value_key v) = Some (iv_metadata v)"
    using assms(1) by (cases ms) (auto simp: stored_def contents_put_def)
  then show ?thesis using assms(2) unfolding lookup_results_values by blast
qed

lemma lookup_without_context:
  "lookup_results (contents_remove_context (p, k) c) r m =
     {x \<in> lookup_results c r m. \<not> (ai_id (pr_provider x) = p \<and> pr_context x = k)}"
  by (auto simp: lookup_results_def contents_remove_context_def provider_result_from_value_def) metis+

section \<open>An indexer and a publisher\<close>

text \<open>
  An indexer that is a list of contexts with their metadata and a list of entries; and the graph of the
  blocks that a publisher serves.
\<close>

type_synonym listing = "(context_key \<times> bytes) list \<times> (multihash \<times> context_key) list"

fun listed_values :: "(context_key \<times> bytes) list \<Rightarrow> (multihash \<times> context_key) list \<Rightarrow> multihash \<Rightarrow> index_value list" where
  "listed_values ks [] m = []"
| "listed_values ks ((m', k) # es) m =
     (case map_of ks k of
        Some md \<Rightarrow> (if m' = m then [\<lparr>iv_provider = fst k, iv_context = snd k, iv_metadata = md\<rparr>] else [])
      | None \<Rightarrow> []) @ listed_values ks es m"

definition listing_indexer :: "listing indexer" where
  "listing_indexer =
     \<lparr>ix_get = (\<lambda>(ks, es) m. Inr (Some (listed_values ks es m))),
      ix_put = (\<lambda>(ks, es) v mhs. (None, ((value_key v, iv_metadata v) # ks, es @ map (\<lambda>m. (m, value_key v)) mhs))),
      ix_remove = (\<lambda>(ks, es) v mhs. (None, (ks, filter (\<lambda>e. \<not> (fst e \<in> set mhs \<and> snd e = value_key v)) es))),
      ix_remove_context = (\<lambda>(ks, es) p c. (None, (filter (\<lambda>x. fst x \<noteq> (p, c)) ks, filter (\<lambda>e. snd e \<noteq> (p, c)) es))),
      ix_size = (\<lambda>(ks, es). Inr (int (length es)))\<rparr>"

definition listing_contents :: "listing \<Rightarrow> contents" where
  "listing_contents i = \<lparr>ct_meta = map_of (fst i), ct_entries = set (snd i)\<rparr>"

lemma map_of_without: "map_of (filter (\<lambda>x. fst x \<noteq> k) xs) = (map_of xs)(k := None)"
  by (induction xs) auto

lemma listing_indexer_laws: "indexer_laws listing_indexer listing_contents"
  by (auto simp: indexer_laws_def listing_indexer_def listing_contents_def contents_put_def contents_remove_def
      contents_remove_context_def map_of_without)

lemma in_listed_values:
  "v \<in> set (listed_values ks es m) \<longleftrightarrow> (m, value_key v) \<in> set es \<and> map_of ks (value_key v) = Some (iv_metadata v)"
proof (induction ks es m rule: listed_values.induct)
  case (2 ks m' k es m)
  have "(v = \<lparr>iv_provider = fst k, iv_context = snd k, iv_metadata = md\<rparr>) \<longleftrightarrow> value_key v = k \<and> iv_metadata v = md" for md
    by (cases v) (auto simp: value_key_def)
  then show ?case
    using 2 by (cases "map_of ks k"; cases "m' = m"; cases "value_key v = k") auto
qed simp

lemma listing_get_laws: "content_get_laws listing_indexer listing_contents"
  by (auto simp: content_get_laws_def listing_indexer_def listing_contents_def found_values_def in_listed_values)

definition block_graph :: "(cid \<rightharpoonup> bytes) \<Rightarrow> (bytes \<rightharpoonup> table_node) \<Rightarrow> chunk_graph" where
  "block_graph blocks T c =
     (case blocks c of
        None \<Rightarrow> None
      | Some b \<Rightarrow> (case T b of Some (ChunkNode ch) \<Rightarrow> Some ch | _ \<Rightarrow> None))"

lemma load_stored:
  "load_node (table_env X T) c p (in_ds (sc_ing (store_block (table_env X T) c b sc))) =
     decode_ipld_node (table_ipld T) 0 b p"
  by (simp add: load_node_def read_opener_def store_block_def table_env_def alist_ds_def table_ipld_def)

lemma table_env_sel [simp]: "en_ipld (table_env X T) = table_ipld T"
  by (simp add: table_env_def)

lemma table_served:
  assumes "blocks c = Some b"
  shows "served (table_env X T) (block_graph blocks T) c (store_block (table_env X T) c b sc)"
  using assms
  by (auto simp: served_def load_entry_chunk_def load_stored decode_ipld_node_def table_ipld_def block_graph_def
      unwrap_entry_chunk_def as_prototype_def is_hamt_def split: option.splits table_node.splits if_splits)

lemma serve_chain_served:
  assumes "\<And>c sc. fst (h c sc) \<noteq> NoAction"
  shows "serve_chain (table_env X T) blocks n h c sc = (Inr x, sc') \<Longrightarrow>
    chain_served (table_env X T) (block_graph blocks T) h c sc sc'"
proof (induction n arbitrary: c sc)
  case (Suc n)
  obtain b where b: "blocks c = Some b" using Suc.prems by (auto split: option.splits)
  have stored: "sync_steps (table_env X T) None sc (store_block (table_env X T) c b sc)"
    by (rule sync_store [OF sync_none])
  obtain a sc2 where h: "h c (store_block (table_env X T) c b sc) = (a, sc2)"
    by (cases "h c (store_block (table_env X T) c b sc)")
  then obtain n' where a: "a = SetNextSyncCid n'"
    using Suc.prems assms [of c "store_block (table_env X T) c b sc"] b by (cases a) auto
  show ?case
  proof (cases "n' = cid_undef")
    case True
    then show ?thesis
      using Suc.prems b h a served_last [OF stored table_served [of blocks c b X T sc] _ sync_none] by auto
  next
    case False
    then show ?thesis
      using Suc.IH [of n' sc2] Suc.prems b h a served_more [OF stored table_served [of blocks c b X T sc]] by auto
  qed
qed simp

lemma table_chain_laws: "chain_laws (table_env X T) (block_graph blocks T) (table_sync (table_env X T) blocks)"
  unfolding chain_laws_def table_sync_def
  by (auto simp: table_served intro: serve_chain_served sync_store [OF sync_none] split: option.splits)

lemma chain_links_defined: "links_defined (block_graph chain_blocks chain_table)"
  by (auto simp: links_defined_def block_graph_def chain_blocks_def chain_table_def split: if_splits)

lemma chain_block_entries:
  "chain_entries (block_graph chain_blocks chain_table) ''c1'' [''x'', ''bad'', ''y'', ''z'', ''w'']"
  using chain_more [of "block_graph chain_blocks chain_table" "''c1''"
      "\<lparr>ch_entries = [''x'', ''bad'', ''y'', ''z''], ch_next = Some ''c2''\<rparr>" "''c2''" "[''w'']"]
    chain_last [of "block_graph chain_blocks chain_table" "''c2''" "\<lparr>ch_entries = [''w''], ch_next = None\<rparr>"]
  by (simp add: block_graph_def chain_blocks_def chain_table_def)

definition listing_env :: "((string \<times> bytes) list, listing, table_node, multihash list) env" where
  "listing_env = table_env listing_indexer chain_table"

definition listing_finder :: "listing finder" where
  "listing_finder = \<lparr>fd_indexer = listing_indexer, fd_quote = id\<rparr>"

definition empty_listing_ingester :: "((string \<times> bytes) list, listing) ingester" where
  "empty_listing_ingester =
     \<lparr>in_ds = [], in_indexer = ([], []), in_reg = start_registry (Some []) open_policy, in_batch_size = 2\<rparr>"

definition publish_run :: "(ad_ingest_error option \<times> ((string \<times> bytes) list, listing) ingester) go" where
  "publish_run = ingest_ad listing_env (table_sync listing_env chain_blocks) 5 ''pub'' ''ad1'' chain_ad
     empty_listing_ingester"

definition withdraw_run :: "(ad_ingest_error option \<times> ((string \<times> bytes) list, listing) ingester) go" where
  "withdraw_run = ingest_ad listing_env (table_sync listing_env chain_blocks) 6 ''pub'' ''ad2''
     (chain_ad\<lparr>ad_is_rm := True, ad_entries := Some no_entries\<rparr>) (snd (projr publish_run))"

lemma publish_run_ok: "\<not> isl publish_run \<and> fst (projr publish_run) = None"
  by code_simp

lemma withdraw_run_ok: "\<not> isl withdraw_run \<and> fst (projr withdraw_run) = None"
  by code_simp

section \<open>Properties\<close>

text \<open>C8: The finder is a lookup in what the index contains. Whenever a query is answered, the results for a
multihash are exactly its values in the index whose provider the registry has, each with its context, its
metadata and the provider's registered addresses; and nothing is answered for a multihash that was not
asked for. The order of the values, empty results and the cache of addresses do not matter.\<close>

theorem find_refines_contents:
  assumes "content_get_laws (fd_indexer F) absv" and "find F r (map (\<lambda>m. (m, i)) mhs) = (Inr mrs, rms)"
  shows "found_results mrs m = (if m \<in> set mhs then lookup_results (absv i) r m else {})"
  by (rule find_results_lookup [OF assms])

theorem find_refines_contents_witness:
  "found_results (projr (fst (find listing_finder (in_reg (snd (projr publish_run)))
       [(''x'', in_indexer (snd (projr publish_run)))]))) ''x'' =
     lookup_results (listing_contents (in_indexer (snd (projr publish_run)))) (in_reg (snd (projr publish_run))) ''x''"
proof -
  let ?s = "snd (projr publish_run)"
  have "\<not> isl (fst (find listing_finder (in_reg ?s) [(''x'', in_indexer ?s)]))"
    by (simp add: find_def listing_finder_def listing_indexer_def split: prod.splits)
  then obtain mrs rms where "find listing_finder (in_reg ?s) [(''x'', in_indexer ?s)] = (Inr mrs, rms)"
    by (metis prod.collapse sum.collapse(2))
  then show ?thesis
    using find_refines_contents [of listing_finder listing_contents "in_reg ?s" "in_indexer ?s" "[''x'']" mrs rms "''x''"]
      listing_get_laws by (simp add: listing_finder_def)
qed

text \<open>C7: What is published is found. Once an advertisement of a chain of chunks has been ingested, the
provider it names is registered, and active, with the addresses that the advertisement gives, if it gives any;
and the answer to a query is the lookup in the index as it was before, with every decodable multihash of the
publisher's whole chain, of the first block and of all that follow, mapped to the provider's context and the
advertisement's metadata. So each of these multihashes is found.\<close>

theorem published_content_is_found:
  assumes "indexer_laws (en_indexer E) absv" and "content_get_laws (en_indexer E) absv" and "legs_laws E sync"
    and "chain_laws E G sync" and "en_entries_limit E = LimitNone" and "links_defined G" and "\<not> ad_is_rm ad"
    and "ad_entries ad = Some c" and "c \<noteq> no_entries" and "chain_entries G c ms"
    and "ingest_ad E sync now publisher ad_cid ad s = Inr (None, s')"
    and "find \<lparr>fd_indexer = en_indexer E, fd_quote = quote\<rparr> (in_reg s') (map (\<lambda>m. (m, in_indexer s')) mhs) = (Inr mrs, rms)"
    and "m \<in> set mhs"
  shows "\<exists>p info. lib_peer_decode (en_lib E) (ad_provider ad) = Inr p \<and> lookup_provider (in_reg s') p = Some info \<and>
     (ad_addresses ad \<noteq> [] \<longrightarrow> pi_addrs info = map (\<lambda>a. projr (lib_new_multiaddr (en_lib E) a)) (ad_addresses ad)) \<and>
     found_results mrs m =
       lookup_results (stored False (ad_value p ad) (filter (en_mh_ok E) ms) (absv (in_indexer s))) (in_reg s') m \<and>
     (m \<in> set ms \<and> en_mh_ok E m \<longrightarrow> provider_result_from_value (ad_value p ad) (pi_addrs info) \<in> found_results mrs m)"
proof -
  obtain p where p: "lib_peer_decode (en_lib E) (ad_provider ad) = Inr p" "absv (in_indexer s') =
      stored False (ad_value p ad) (filter (en_mh_ok E) ms) (absv (in_indexer s))"
    using ingest_chain_contents [OF assms(1,4-11)] by blast
  obtain info where info: "lookup_provider (in_reg s') p = Some info"
      "ad_addresses ad \<noteq> [] \<longrightarrow> pi_addrs info = map (\<lambda>a. projr (lib_new_multiaddr (en_lib E) a)) (ad_addresses ad)"
    using ingest_ad_success [OF assms(1,3,11)] p(1) ingested_provider_active by force
  have found: "found_results mrs m = lookup_results (absv (in_indexer s')) (in_reg s') m"
    using find_results_lookup [OF _ assms(12), of absv m] assms(2,13) by simp
  have "provider_result_from_value (ad_value p ad) (pi_addrs info) \<in>
      lookup_results (absv (in_indexer s')) (in_reg s') m" if "m \<in> set ms" "en_mh_ok E m"
    unfolding p(2) using that info(1) by (intro stored_looked_up) (simp_all add: ad_value_def)
  then show ?thesis using p info found by auto
qed

theorem published_content_is_found_witness:
  "\<exists>info. lookup_provider (in_reg (snd (projr publish_run))) ''p1'' = Some info \<and>
     provider_result_from_value (ad_value ''p1'' chain_ad) (pi_addrs info) \<in> found_results
       (projr (fst (find listing_finder (in_reg (snd (projr publish_run))) [(''w'', in_indexer (snd (projr publish_run)))]))) ''w''"
proof -
  define s where "s = snd (projr publish_run)"
  let ?G = "block_graph chain_blocks chain_table"
  have "publish_run = Inr (None, s)" unfolding s_def using publish_run_ok by (blast intro: go_success)
  note run = this [unfolded publish_run_def]
  have "\<not> isl (fst (find listing_finder (in_reg s) [(''w'', in_indexer s)]))"
    by (simp add: find_def listing_finder_def listing_indexer_def split: prod.splits)
  then obtain mrs rms where found: "find listing_finder (in_reg s) [(''w'', in_indexer s)] = (Inr mrs, rms)"
    by (metis prod.collapse sum.collapse(2))
  have env: "indexer_laws (en_indexer listing_env) listing_contents" "content_get_laws (en_indexer listing_env) listing_contents"
      "chain_laws listing_env ?G (table_sync listing_env chain_blocks)" "en_entries_limit listing_env = LimitNone"
      "en_indexer listing_env = listing_indexer" "en_lib listing_env = hex_lib" "en_mh_ok listing_env ''w''"
    using listing_indexer_laws listing_get_laws table_chain_laws by (simp_all add: listing_env_def table_env_def)
  have "\<not> ad_is_rm chain_ad" "ad_entries chain_ad = Some ''c1''" "''c1'' \<noteq> no_entries"
      "lib_peer_decode hex_lib (ad_provider chain_ad) = Inr ''p1''"
    by (simp_all add: chain_ad_def hex_lib_def no_entries_def)
  from published_content_is_found [OF env(1,2) table_sync_laws env(3,4) chain_links_defined this(1-3) chain_block_entries run,
      of id "[''w'']" mrs rms "''w''"] this(4) env(5-7) found found [unfolded listing_finder_def]
  show ?thesis unfolding s_def [symmetric] by simp blast
qed

text \<open>What is withdrawn is gone. Once a removal advertisement has been ingested, no answer has a result of
its provider with its context, for any multihash, whatever the chunks of that context were; every other
result of the index as it was before is still answered.\<close>

theorem withdrawn_content_is_gone:
  assumes "indexer_laws (en_indexer E) absv" and "content_get_laws (en_indexer E) absv" and "legs_laws E sync"
    and "ad_is_rm ad" and "ingest_ad E sync now publisher ad_cid ad s = Inr (None, s')"
    and "find \<lparr>fd_indexer = en_indexer E, fd_quote = quote\<rparr> (in_reg s') (map (\<lambda>m. (m, in_indexer s')) mhs) = (Inr mrs, rms)"
    and "m \<in> set mhs"
  shows "\<exists>p. lib_peer_decode (en_lib E) (ad_provider ad) = Inr p \<and>
     found_results mrs m = {x \<in> lookup_results (absv (in_indexer s)) (in_reg s') m.
       \<not> (ai_id (pr_provider x) = p \<and> pr_context x = ad_context ad)}"
proof -
  obtain p where p: "lib_peer_decode (en_lib E) (ad_provider ad) = Inr p"
      "absv (in_indexer s') = contents_remove_context (p, ad_context ad) (absv (in_indexer s))"
    using ingest_ad_success [OF assms(1,3,5)] assms(4) by (auto simp: ad_effect_def)
  then show ?thesis
    using find_results_lookup [OF _ assms(6), of absv m] assms(2,7) lookup_without_context by simp
qed

theorem withdrawn_content_is_gone_witness:
  "found_results (projr (fst (find listing_finder (in_reg (snd (projr withdraw_run)))
       [(''w'', in_indexer (snd (projr withdraw_run)))]))) ''w'' \<inter> {x. ai_id (pr_provider x) = ''p1'' \<and> pr_context x = ''ctx''} = {}"
proof -
  define s where "s = snd (projr withdraw_run)"
  let ?ad = "chain_ad\<lparr>ad_is_rm := True, ad_entries := Some no_entries\<rparr>"
  have "withdraw_run = Inr (None, s)" unfolding s_def using withdraw_run_ok by (blast intro: go_success)
  note run = this [unfolded withdraw_run_def]
  have "\<not> isl (fst (find listing_finder (in_reg s) [(''w'', in_indexer s)]))"
    by (simp add: find_def listing_finder_def listing_indexer_def split: prod.splits)
  then obtain mrs rms where found: "find listing_finder (in_reg s) [(''w'', in_indexer s)] = (Inr mrs, rms)"
    by (metis prod.collapse sum.collapse(2))
  have env: "indexer_laws (en_indexer listing_env) listing_contents" "content_get_laws (en_indexer listing_env) listing_contents"
      "en_indexer listing_env = listing_indexer" "en_lib listing_env = hex_lib"
    using listing_indexer_laws listing_get_laws by (simp_all add: listing_env_def table_env_def)
  have "ad_is_rm ?ad" "lib_peer_decode hex_lib (ad_provider ?ad) = Inr ''p1''" "ad_context ?ad = ''ctx''"
    by (simp_all add: chain_ad_def hex_lib_def)
  from withdrawn_content_is_gone [OF env(1,2) table_sync_laws this(1) run, of id "[''w'']" mrs rms "''w''"] this(2,3)
    env(3,4) found found [unfolded listing_finder_def]
  show ?thesis unfolding s_def [symmetric] by auto
qed

end
