(* ===== verification/Pipeline.thy ===== *)
theory Pipeline
  imports Publish_Find Ingest_Worker_Properties
begin

text \<open>
  From a chain of advertisements to the answers of the finder: the worker ingests the advertisements that a sync
  has staged, and afterwards the finder answers what their publisher's blocks say.
\<close>

section \<open>What an advertisement publishes\<close>

text \<open>The multihashes of its chain of chunks; a removal and an update of metadata publish none.\<close>

definition ad_publishes :: "chunk_graph \<Rightarrow> advertisement \<Rightarrow> multihash list \<Rightarrow> bool" where
  "ad_publishes G ad ms \<longleftrightarrow>
     (if ad_is_rm ad \<or> ad_entries ad = Some no_entries then ms = []
      else (\<exists>c. ad_entries ad = Some c \<and> chain_entries G c ms))"

definition chain_hashes :: "('d, 'i, 'n, 'h) env \<Rightarrow> chunk_graph \<Rightarrow> ad_info \<Rightarrow> multihash list \<Rightarrow> bool" where
  "chain_hashes E G ai ms \<longleftrightarrow> (\<forall>ms0. ad_publishes G (inf_ad ai) ms0 \<longrightarrow> ms = filter (en_mh_ok E) ms0)"

lemma ad_publishes_unique: "ad_publishes G ad ms \<Longrightarrow> ad_publishes G ad ms' \<Longrightarrow> ms = ms'"
  by (auto simp: ad_publishes_def dest: chain_entries_unique split: if_splits)

lemma chain_hashesI: "ad_publishes G (inf_ad ai) ms \<Longrightarrow> chain_hashes E G ai (filter (en_mh_ok E) ms)"
  using ad_publishes_unique by (auto simp: chain_hashes_def)

lemma ad_effect_without_entries:
  "ad_is_rm ad \<or> ad_entries ad = Some no_entries \<Longrightarrow> ad_effect p ad ms c = ad_effect p ad [] c"
  by (auto simp: ad_effect_def)

lemma ingests_chains:
  assumes env: "worker_env E absv sync" and "chain_laws E G sync" and "en_entries_limit E = LimitNone"
    and "links_defined G"
  shows "ingests_as E absv sync (chain_hashes E G)"
  unfolding ingests_as_def
proof (intro allI impI)
  fix now publisher p s s' and ai :: ad_info
  assume run: "ingest_ad E sync now publisher (inf_cid ai) (inf_ad ai) s = Inr (None, s')"
    and p: "lib_peer_decode (en_lib E) (ad_provider (inf_ad ai)) = Inr p"
  let ?ad = "inf_ad ai"
  obtain ms where ms: "absv (in_indexer s') = ad_effect p ?ad ms (absv (in_indexer s))"
    using ingest_ad_success [OF worker_envD(1,2) [OF env] run] p by fastforce
  show "\<exists>ms. chain_hashes E G ai ms \<and> absv (in_indexer s') = ad_effect p ?ad ms (absv (in_indexer s))"
  proof (cases "\<exists>ms0. ad_publishes G ?ad ms0")
    case False
    then show ?thesis using ms by (auto simp: chain_hashes_def)
  next
    case True
    then obtain ms0 where ms0: "ad_publishes G ?ad ms0" by blast
    show ?thesis
    proof (cases "ad_is_rm ?ad \<or> ad_entries ?ad = Some no_entries")
      case True
      then have "ms0 = []" using ms0 by (simp add: ad_publishes_def)
      then have "chain_hashes E G ai []" using chain_hashesI [OF ms0] by simp
      then show ?thesis using ms ad_effect_without_entries [OF True] by metis
    next
      case False
      then obtain c where c: "\<not> ad_is_rm ?ad" "ad_entries ?ad = Some c" "c \<noteq> no_entries" "chain_entries G c ms0"
        using ms0 by (auto simp: ad_publishes_def)
      have "absv (in_indexer s') = stored False (ad_value p ?ad) (filter (en_mh_ok E) ms0) (absv (in_indexer s))"
        using ingest_chain_contents [OF worker_envD(1) [OF env] assms(2-4) c run] p by auto
      then have "absv (in_indexer s') = ad_effect p ?ad (filter (en_mh_ok E) ms0) (absv (in_indexer s))"
        using c by (simp add: ad_effect_def)
      then show ?thesis using chain_hashesI [OF ms0] by blast
    qed
  qed
qed

lemma worker_contents:
  assumes "worker_env E absv sync" and "chain_laws E G sync" and "en_entries_limit E = LimitNone"
    and "links_defined G" and "ws_staging ws p = Some (Some a)" and "assignment_ok E p a"
    and "records E done latest (in_ds (ws_ing ws))" and "ingest_worker_logic E sync nows p ws = Inr ws'"
    and "ws_skipped ws' = ws_skipped ws" and "\<forall>ev\<in>set (ws_events ws'). ev_err ev = None"
    and "list_all2 (\<lambda>ai. ad_publishes G (inf_ad ai)) (fresh_ads done (as_ads a)) mss"
  shows "absv (in_indexer (ws_ing ws')) =
    apply_ads p (zip (fresh_ads done (as_ads a)) (map (filter (en_mh_ok E)) mss)) (absv (in_indexer (ws_ing ws)))"
proof -
  let ?fresh = "fresh_ads done (as_ads a)"
  obtain mss1 where mss1: "length mss1 = length ?fresh"
    "\<forall>i<length ?fresh. \<not> skip_flags {} ?fresh ! i \<longrightarrow> chain_hashes E G (?fresh ! i) (mss1 ! i)"
    "\<And>mss'. length mss' = length ?fresh \<Longrightarrow> \<forall>i<length ?fresh. \<not> skip_flags {} ?fresh ! i \<longrightarrow> mss' ! i = mss1 ! i \<Longrightarrow>
      absv (in_indexer (ws_ing ws')) = apply_ads p (zip ?fresh mss') (absv (in_indexer (ws_ing ws)))"
    using worker_applies [OF assms(1,5-8) ingests_chains [OF assms(1-4)] assms(9,10) refl] by blast
  have "length (map (filter (en_mh_ok E)) mss) = length ?fresh"
    using assms(11) by (simp add: list_all2_lengthD)
  moreover have "map (filter (en_mh_ok E)) mss ! i = mss1 ! i" if "i < length ?fresh" "\<not> skip_flags {} ?fresh ! i" for i
    using that mss1(2) list_all2_nthD [OF assms(11), of i] list_all2_lengthD [OF assms(11)]
    by (auto simp: chain_hashes_def)
  ultimately show ?thesis using mss1(3) by blast
qed

section \<open>Properties\<close>

text \<open>What a worker has ingested is what the finder answers. When a worker's run ends without an error and without
giving an advertisement up, a query is answered from the index as it was before with the unprocessed
advertisements of the assignment applied from the oldest to the newest, each with exactly the decodable multihashes
of its chain of chunks: a removal takes its context away, an update of metadata replaces the metadata, and anything
else adds its multihashes. The advertisements that the worker skips and the batches in which it indexes make
no difference, and nothing else is found.\<close>

theorem worker_publishes_chain:
  assumes "worker_env E absv sync" and "chain_laws E G sync" and "en_entries_limit E = LimitNone"
    and "links_defined G" and "content_get_laws (en_indexer E) absv"
    and "ws_staging ws p = Some (Some a)" and "assignment_ok E p a"
    and "records E done latest (in_ds (ws_ing ws))" and "ingest_worker_logic E sync nows p ws = Inr ws'"
    and "ws_skipped ws' = ws_skipped ws" and "\<forall>ev\<in>set (ws_events ws'). ev_err ev = None"
    and "list_all2 (\<lambda>ai. ad_publishes G (inf_ad ai)) (fresh_ads done (as_ads a)) mss"
    and "find \<lparr>fd_indexer = en_indexer E, fd_quote = quote\<rparr> r (map (\<lambda>m. (m, in_indexer (ws_ing ws'))) mhs) = (Inr mrs, rms)"
    and "m \<in> set mhs"
  shows "found_results mrs m =
    lookup_results (apply_ads p (zip (fresh_ads done (as_ads a)) (map (filter (en_mh_ok E)) mss))
      (absv (in_indexer (ws_ing ws)))) r m"
  using find_results_lookup [OF _ assms(13), of absv m] assms(5,14) worker_contents [OF assms(1-4,6-12)] by simp

text \<open>
  An assignment whose oldest advertisement removes a context, the next publishes a chain in it and the newest
  sets the metadata of another context.
\<close>

definition publishing_assignment :: assignment where
  "publishing_assignment =
     \<lparr>as_ads = [\<lparr>inf_cid = ''ad3'', inf_ad = metadata_ad\<rparr>, \<lparr>inf_cid = ''ad2'', inf_ad = chain_ad\<rparr>,
                \<lparr>inf_cid = ''ad1'', inf_ad = removal_ad\<rparr>],
      as_publisher = ''pub'', as_provider = ''p1''\<rparr>"

definition publishing_workers :: "((string \<times> bytes) list, listing) workers" where
  "publishing_workers =
     \<lparr>ws_ing = empty_listing_ingester, ws_staging = [''p1'' \<mapsto> Some publishing_assignment],
      ws_busy = [''p1'' \<mapsto> True], ws_queue = [], ws_events = [], ws_success = 0, ws_skipped = 0,
      ws_load_errors = 0\<rparr>"

definition publishing_run :: "((string \<times> bytes) list, listing) workers go" where
  "publishing_run = ingest_worker_logic listing_env (table_sync listing_env chain_blocks) (\<lambda>_. 5) ''p1'' publishing_workers"

lemma publishing_run_ok: "\<not> isl publishing_run \<and> ws_skipped (projr publishing_run) = 0"
  by code_simp

lemma publishing_events: "map ev_err (ws_events (projr publishing_run)) = [None, None, None]"
  by code_simp

lemma listing_worker_env: "worker_env listing_env listing_contents (table_sync listing_env chain_blocks)"
  using listing_indexer_laws alist_ds_laws alist_ds_reliable hex_lib_laws table_sync_laws
  by (simp add: worker_env_def listing_env_def table_env_def)

lemma publishing_assignment_ok: "assignment_ok listing_env ''p1'' publishing_assignment"
  by (simp add: assignment_ok_def publishing_assignment_def removal_ad_def metadata_ad_def chain_ad_def
      listing_env_def table_env_def hex_lib_def peer_valid_def)

lemma publishing_records:
  "records listing_env (\<lambda>_. False) (\<lambda>_. Inr cid_undef) (in_ds (ws_ing publishing_workers))"
  by (simp add: records_def publishing_workers_def empty_listing_ingester_def listing_env_def table_env_def alist_ds_def
      ad_already_processed_def get_latest_sync_def)

lemma publishing_fresh: "fresh_ads (\<lambda>_. False) (as_ads publishing_assignment) = as_ads publishing_assignment"
  by (simp add: fresh_ads_def)

lemma publishing_publishes:
  "list_all2 (\<lambda>ai. ad_publishes (block_graph chain_blocks chain_table) (inf_ad ai)) (as_ads publishing_assignment)
     [[], [''x'', ''bad'', ''y'', ''z'', ''w''], []]"
  using chain_block_entries
  by (simp add: publishing_assignment_def ad_publishes_def removal_ad_def metadata_ad_def chain_ad_def no_entries_def)

theorem worker_publishes_chain_witness:
  "found_results (projr (fst (find listing_finder (in_reg (ws_ing (projr publishing_run)))
       [(''w'', in_indexer (ws_ing (projr publishing_run)))]))) ''w'' =
     lookup_results (apply_ads ''p1'' (zip (as_ads publishing_assignment) [[], [''x'', ''y'', ''z'', ''w''], []])
       (listing_contents ([], []))) (in_reg (ws_ing (projr publishing_run))) ''w''"
proof -
  define ws where "ws = projr publishing_run"
  let ?r = "in_reg (ws_ing ws)"
  have run: "ingest_worker_logic listing_env (table_sync listing_env chain_blocks) (\<lambda>_. 5) ''p1'' publishing_workers = Inr ws"
    using publishing_run_ok sum.collapse(2) [of publishing_run] by (simp add: ws_def publishing_run_def)
  have events: "\<forall>ev\<in>set (ws_events ws). ev_err ev = None"
    using arg_cong [OF publishing_events, of set] by (auto simp: image_iff ws_def)
  have skipped: "ws_skipped ws = ws_skipped publishing_workers"
    using publishing_run_ok by (simp add: publishing_workers_def ws_def)
  have "\<not> isl (fst (find listing_finder ?r [(''w'', in_indexer (ws_ing ws))]))"
    by (simp add: find_def listing_finder_def listing_indexer_def split: prod.splits)
  then obtain mrs rms where found: "find listing_finder ?r [(''w'', in_indexer (ws_ing ws))] = (Inr mrs, rms)"
    by (metis prod.collapse sum.collapse(2))
  have env: "chain_laws listing_env (block_graph chain_blocks chain_table) (table_sync listing_env chain_blocks)"
      "en_entries_limit listing_env = LimitNone" "content_get_laws (en_indexer listing_env) listing_contents"
      "en_indexer listing_env = listing_indexer" "en_mh_ok listing_env = (\<lambda>m. m \<noteq> ''bad'')"
    using listing_get_laws table_chain_laws by (simp_all add: listing_env_def table_env_def)
  have staged: "ws_staging publishing_workers ''p1'' = Some (Some publishing_assignment)"
      "in_indexer (ws_ing publishing_workers) = ([], [])"
    by (simp_all add: publishing_workers_def empty_listing_ingester_def)
  have published: "list_all2 (\<lambda>ai. ad_publishes (block_graph chain_blocks chain_table) (inf_ad ai))
      (fresh_ads (\<lambda>_. False) (as_ads publishing_assignment)) [[], [''x'', ''bad'', ''y'', ''z'', ''w''], []]"
    unfolding publishing_fresh by (rule publishing_publishes)
  from worker_publishes_chain [OF listing_worker_env env(1,2) chain_links_defined env(3) staged(1)
      publishing_assignment_ok publishing_records run skipped events published,
      of id ?r "[''w'']" mrs rms "''w''"] found found [unfolded listing_finder_def] env(4,5) staged(2)
  show ?thesis unfolding ws_def [symmetric] by (simp add: publishing_fresh)
qed

end
