(* ===== verification/Staging.thy ===== *)
theory Staging
  imports Ingest_Worker_Properties
begin

text \<open>
  What a sync hands to the workers: the advertisements of each provider among the unprocessed ones that were
  synced, as one assignment.
\<close>

text \<open>The advertisements of a provider among those of a chain that can be loaded, the newest first.\<close>

definition provider_ads :: "('d, 'i, 'n, 'h) env \<Rightarrow> 'd \<Rightarrow> peer_id \<Rightarrow> cid list \<Rightarrow> ad_info list" where
  "provider_ads E d p cs =
     concat (map (\<lambda>c. case load_ad E c d of
        Inl e \<Rightarrow> []
      | Inr ad \<Rightarrow> if lib_peer_decode (en_lib E) (ad_provider ad) = Inr p then [\<lparr>inf_cid = c, inf_ad = ad\<rparr>] else []) cs)"

lemma provider_ads_simps [simp]:
  "provider_ads E d p [] = []"
  "provider_ads E d p (c # cs) =
     (case load_ad E c d of
        Inl e \<Rightarrow> []
      | Inr ad \<Rightarrow> if lib_peer_decode (en_lib E) (ad_provider ad) = Inr p then [\<lparr>inf_cid = c, inf_ad = ad\<rparr>] else []) @
     provider_ads E d p cs"
  by (simp_all add: provider_ads_def)

lemma in_provider_ads:
  "ai \<in> set (provider_ads E d p cs) \<Longrightarrow>
     inf_cid ai \<in> set cs \<and> load_ad E (inf_cid ai) d = Inr (inf_ad ai) \<and>
     lib_peer_decode (en_lib E) (ad_provider (inf_ad ai)) = Inr p"
  by (auto simp: provider_ads_def split: sum.splits if_splits)

definition unprocessed :: "(cid \<Rightarrow> bool) \<Rightarrow> cid list \<Rightarrow> cid list" where
  "unprocessed done cs = takeWhile (\<lambda>c. \<not> done c) cs"

lemma fresh_provider_ads:
  "fresh_ads done (provider_ads E d p (unprocessed done cs)) = provider_ads E d p (unprocessed done cs)"
  unfolding fresh_ads_def
  by (rule takeWhile_eq_all_conv [THEN iffD2])
    (auto simp: unprocessed_def dest!: in_provider_ads set_takeWhileD)

text \<open>The groups of \<open>runIngestStep\<close>: a map from the providers to their advertisements.\<close>

definition add_group :: "(peer_id \<Rightarrow> ad_info list) \<Rightarrow> (peer_id \<rightharpoonup> ad_info list) \<Rightarrow> peer_id \<rightharpoonup> ad_info list" where
  "add_group f g p =
     (if f p = [] then g p else Some ((case g p of None \<Rightarrow> [] | Some xs \<Rightarrow> xs) @ f p))"

lemma group_ads_spec:
  assumes "\<And>c. ad_already_processed (en_ds E) (en_lib E) c d = Inr (done c)"
  shows "\<exists>errs'. group_ads E d cs errs g =
    Inr (errs', add_group (\<lambda>p. provider_ads E d p (unprocessed done cs)) g)"
proof (induction cs arbitrary: errs g)
  case Nil
  then show ?case by (simp add: unprocessed_def add_group_def fun_eq_iff)
next
  case (Cons c cs)
  show ?case
  proof (cases "done c")
    case True
    then show ?thesis using assms by (simp add: unprocessed_def add_group_def fun_eq_iff go_bind_def)
  next
    case False
    then have next_cs: "unprocessed done (c # cs) = c # unprocessed done cs" by (simp add: unprocessed_def)
    show ?thesis
    proof (cases "\<exists>ad p. load_ad E c d = Inr ad \<and> lib_peer_decode (en_lib E) (ad_provider ad) = Inr p")
      case True
      then obtain ad p where ad: "load_ad E c d = Inr ad" "lib_peer_decode (en_lib E) (ad_provider ad) = Inr p" by blast
      let ?g = "g(p \<mapsto> (case g p of None \<Rightarrow> [] | Some xs \<Rightarrow> xs) @ [\<lparr>inf_cid = c, inf_ad = ad\<rparr>])"
      have "add_group (\<lambda>q. provider_ads E d q (unprocessed done cs)) ?g =
          add_group (\<lambda>q. provider_ads E d q (c # unprocessed done cs)) g"
        using ad by (auto simp: add_group_def fun_eq_iff)
      moreover have "group_ads E d (c # cs) errs g = group_ads E d cs errs ?g"
        using False ad assms by (simp add: go_bind_def)
      ultimately show ?thesis using Cons.IH [of errs ?g] unfolding next_cs by metis
    next
      case none: False
      then have "group_ads E d (c # cs) errs g = group_ads E d cs (if isl (load_ad E c d) then errs + 1 else errs) g"
        using False assms by (auto simp: go_bind_def isl_def split: sum.splits)
      moreover have "provider_ads E d q (c # unprocessed done cs) = provider_ads E d q (unprocessed done cs)" for q
        using none by (auto split: sum.splits)
      ultimately show ?thesis using Cons.IH by (simp only: next_cs)
    qed
  qed
qed

lemma stage_all_frame [simp]:
  "ws_ing (stage_all publisher g order ws) = ws_ing ws"
  "ws_skipped (stage_all publisher g order ws) = ws_skipped ws"
  "ws_events (stage_all publisher g order ws) = ws_events ws"
  by (induction order arbitrary: ws; simp add: stage_def Let_def split: option.splits)+

text \<open>A provider without an assignment, for which a worker has to be asked.\<close>

definition unassigned :: "('d, 'i) workers \<Rightarrow> peer_id \<Rightarrow> bool" where
  "unassigned ws p \<longleftrightarrow> (\<forall>a. ws_staging ws p \<noteq> Some (Some a))"

lemma stage_all_staging:
  "distinct order \<Longrightarrow>
   ws_staging (stage_all publisher g order ws) p =
     (if p \<in> set order \<and> g p \<noteq> None
      then Some (Some \<lparr>as_ads = the (g p), as_publisher = publisher, as_provider = p\<rparr>) else ws_staging ws p) \<and>
   ws_queue (stage_all publisher g order ws) = ws_queue ws @ filter (\<lambda>p. g p \<noteq> None \<and> unassigned ws p) order"
proof (induction order arbitrary: ws)
  case (Cons q order)
  let ?ws = "case g q of None \<Rightarrow> ws | Some ads \<Rightarrow> stage publisher ads q ws"
  have staged: "ws_staging ?ws = (case g q of None \<Rightarrow> ws_staging ws
      | Some ads \<Rightarrow> (ws_staging ws)(q \<mapsto> Some \<lparr>as_ads = ads, as_publisher = publisher, as_provider = q\<rparr>))"
    "ws_queue ?ws = ws_queue ws @ filter (\<lambda>p. g p \<noteq> None \<and> unassigned ws p) [q]"
    by (auto simp: stage_def Let_def unassigned_def split: option.splits)
  have "filter (\<lambda>p. g p \<noteq> None \<and> unassigned ?ws p) order = filter (\<lambda>p. g p \<noteq> None \<and> unassigned ws p) order"
    using Cons.prems by (intro filter_cong) (auto simp: unassigned_def staged(1) split: option.splits)
  then show ?case
    using Cons.IH [of ?ws] Cons.prems staged by (auto split: option.splits)
qed simp

text \<open>
  The step of the ingester's loop after a sync: every provider with unprocessed advertisements that load
  gets an assignment of them, whatever it was assigned before; the other providers keep theirs.
\<close>

lemma run_ingest_step_stages:
  assumes "records E done latest (in_ds (ws_ing ws))" and "distinct order"
    and "run_ingest_step E order publisher cids ws = Inr ws'"
    and "(\<lambda>p. provider_ads E (in_ds (ws_ing ws)) p (unprocessed done cids)) = ads"
  shows "ws_staging ws' p =
      (if p \<in> set order \<and> ads p \<noteq> [] then Some (Some \<lparr>as_ads = ads p, as_publisher = publisher, as_provider = p\<rparr>)
       else ws_staging ws p)"
    and "ws_queue ws' = ws_queue ws @ filter (\<lambda>p. ads p \<noteq> [] \<and> unassigned ws p) order"
    and "ws_ing ws' = ws_ing ws" and "ws_skipped ws' = ws_skipped ws" and "ws_events ws' = ws_events ws"
proof -
  let ?g = "add_group ads Map.empty"
  obtain errs where "group_ads E (in_ds (ws_ing ws)) cids 0 Map.empty = Inr (errs, ?g)"
    using group_ads_spec [of E "in_ds (ws_ing ws)" "done" cids 0 Map.empty] assms(1,4) by (auto simp: records_def)
  then have ws': "ws' = stage_all publisher ?g order (ws\<lparr>ws_load_errors := ws_load_errors ws + errs\<rparr>)"
    using assms(3) by (simp add: run_ingest_step_def go_bind_def)
  note staged = stage_all_staging [OF assms(2), of publisher ?g "ws\<lparr>ws_load_errors := ws_load_errors ws + errs\<rparr>"]
  have groups: "(\<exists>xs. ?g p = Some xs) \<longleftrightarrow> ads p \<noteq> []" for p by (simp add: add_group_def)
  show "ws_staging ws' p =
      (if p \<in> set order \<and> ads p \<noteq> [] then Some (Some \<lparr>as_ads = ads p, as_publisher = publisher, as_provider = p\<rparr>)
       else ws_staging ws p)"
    using staged [of p] by (simp add: ws' add_group_def)
  show "ws_queue ws' = ws_queue ws @ filter (\<lambda>p. ads p \<noteq> [] \<and> unassigned ws p) order"
    using staged by (simp add: ws' groups unassigned_def)
  show "ws_ing ws' = ws_ing ws" "ws_skipped ws' = ws_skipped ws" "ws_events ws' = ws_events ws"
    by (simp_all add: ws')
qed

lemma staged_assignment_ok:
  assumes "provider_ads E d p (unprocessed done cids) \<noteq> []" and "peer_valid publisher" and "cid_undef \<notin> set cids"
  shows "assignment_ok E p \<lparr>as_ads = provider_ads E d p (unprocessed done cids), as_publisher = publisher, as_provider = p\<rparr>"
proof -
  have "inf_cid ai \<noteq> cid_undef \<and> lib_peer_decode (en_lib E) (ad_provider (inf_ad ai)) = Inr p"
    if "ai \<in> set (provider_ads E d p (unprocessed done cids))" for ai
    using in_provider_ads [OF that] assms(3) set_takeWhileD unfolding unprocessed_def by metis
  then show ?thesis using assms(1,2) by (simp add: assignment_ok_def)
qed

end
