(* ===== verification/Synced.thy ===== *)
theory Synced
  imports Pipeline Staging
begin

text \<open>
  From a sync to the answers of the finder: what the step of the ingester's loop stages is what the worker of a
  provider ingests, and afterwards the finder answers it.
\<close>

section \<open>The worker after the step\<close>

lemma worker_completes:
  assumes env: "worker_env E absv sync" and "chain_laws E G sync" and "en_entries_limit E = LimitNone"
    and "links_defined G" and rec: "records E done latest (in_ds (ws_ing ws))"
    and staged: "ws_staging ws p = Some (Some \<lparr>as_ads = ads, as_publisher = publisher, as_provider = p\<rparr>)"
    and ok: "assignment_ok E p \<lparr>as_ads = ads, as_publisher = publisher, as_provider = p\<rparr>"
    and fresh: "fresh_ads done ads = ads"
    and work: "ingest_worker_logic E sync nows p ws = Inr ws'"
    and "ws_skipped ws' = ws_skipped ws" and good: "\<forall>ev\<in>set (ws_events ws'). ev_err ev = None"
    and "list_all2 (\<lambda>ai. ad_publishes G (inf_ad ai)) ads mss"
  shows "absv (in_indexer (ws_ing ws')) =
      apply_ads p (zip ads (map (filter (en_mh_ok E)) mss)) (absv (in_indexer (ws_ing ws)))"
    and "records E (\<lambda>c. done c \<or> c \<in> inf_cid ` set ads) (latest(publisher := Inr (inf_cid (hd ads)))) (in_ds (ws_ing ws'))"
proof -
  let ?a = "\<lparr>as_ads = ads, as_publisher = publisher, as_provider = p\<rparr>"
  show "absv (in_indexer (ws_ing ws')) =
      apply_ads p (zip ads (map (filter (en_mh_ok E)) mss)) (absv (in_indexer (ws_ing ws)))"
    using worker_contents [OF assms(1-4) staged ok rec work assms(10,11)] assms(12) fresh by simp
  obtain k where k: "pass_outcome E absv (decodable E) ?a p (skip_flags {} ads) ads done latest
      (ws\<lparr>ws_staging := (ws_staging ws)(p \<mapsto> None)\<rparr>) ws' k"
    using worker_outcome [OF env staged ok rec work ingests_decodable [OF env]] fresh by auto
  then have "k = 0"
    using good by (auto simp: pass_outcome_def outcome_events_def ad_event_of_def split: if_splits)
  moreover have "ads \<noteq> []" using ok by (simp add: assignment_ok_def)
  ultimately show "records E (\<lambda>c. done c \<or> c \<in> inf_cid ` set ads) (latest(publisher := Inr (inf_cid (hd ads))))
      (in_ds (ws_ing ws'))"
    using k by (simp add: pass_outcome_def hd_conv_nth)
qed

lemma worker_after_step:
  assumes env: "worker_env E absv sync" "chain_laws E G sync" "en_entries_limit E = LimitNone" "links_defined G"
    and rec: "records E done latest (in_ds (ws_ing ws))"
    and step: "run_ingest_step E order publisher cids ws = Inr ws1" and order: "distinct order" "p \<in> set order"
    and pub: "peer_valid publisher" "cid_undef \<notin> set cids"
    and ads: "provider_ads E (in_ds (ws_ing ws)) p (unprocessed done cids) = ads" "ads \<noteq> []"
    and work: "ingest_worker_logic E sync nows p ws1 = Inr ws2"
    and good: "ws_skipped ws2 = ws_skipped ws" "\<forall>ev\<in>set (ws_events ws2). ev_err ev = None"
    and pubs: "list_all2 (\<lambda>ai. ad_publishes G (inf_ad ai)) ads mss"
  shows "absv (in_indexer (ws_ing ws2)) =
      apply_ads p (zip ads (map (filter (en_mh_ok E)) mss)) (absv (in_indexer (ws_ing ws)))"
    and "records E (\<lambda>c. done c \<or> c \<in> inf_cid ` set ads) (latest(publisher := Inr (inf_cid (hd ads)))) (in_ds (ws_ing ws2))"
proof -
  note stages = run_ingest_step_stages [OF rec order(1) step refl]
  have "ws_staging ws1 p = Some (Some \<lparr>as_ads = ads, as_publisher = publisher, as_provider = p\<rparr>)"
    using stages(1) [of p] order ads by simp
  moreover have "assignment_ok E p \<lparr>as_ads = ads, as_publisher = publisher, as_provider = p\<rparr>"
    using staged_assignment_ok [of E "in_ds (ws_ing ws)" p "done" cids publisher] pub ads by simp
  moreover have "fresh_ads done ads = ads" using fresh_provider_ads ads(1) by fastforce
  moreover have "records E done latest (in_ds (ws_ing ws1))" using rec stages(3) by simp
  ultimately show "absv (in_indexer (ws_ing ws2)) =
      apply_ads p (zip ads (map (filter (en_mh_ok E)) mss)) (absv (in_indexer (ws_ing ws)))"
    "records E (\<lambda>c. done c \<or> c \<in> inf_cid ` set ads) (latest(publisher := Inr (inf_cid (hd ads)))) (in_ds (ws_ing ws2))"
    using worker_completes [OF env _ _ _ _ work _ good(2) pubs] stages(3,4) good(1) by simp_all
qed

section \<open>A chain of two providers\<close>

text \<open>
  The oldest advertisement is of another provider than the three newer ones. The sync has stored them all.
\<close>

definition other_ad :: advertisement where
  "other_ad = chain_ad\<lparr>ad_provider := hex_string ''p2''\<rparr>"

definition synced_table :: "bytes \<rightharpoonup> table_node" where
  "synced_table = chain_table(''a0'' \<mapsto> AdNode other_ad, ''a1'' \<mapsto> AdNode removal_ad, ''a2'' \<mapsto> AdNode chain_ad,
     ''a3'' \<mapsto> AdNode metadata_ad)"

definition synced_env :: "((string \<times> bytes) list, listing, table_node, multihash list) env" where
  "synced_env = table_env listing_indexer synced_table"

definition synced_cids :: "cid list" where
  "synced_cids = [''ad3'', ''ad2'', ''ad1'', ''ad0'']"

definition synced_ds :: "(string \<times> bytes) list" where
  "synced_ds = fold (\<lambda>(c, b) d. snd (ds_put alist_ds d (block_key hex_lib c) b))
     [(''ad0'', ''a0''), (''ad1'', ''a1''), (''ad2'', ''a2''), (''ad3'', ''a3'')] []"

text \<open>The policy allows the other provider or not.\<close>

definition synced_workers :: "bool \<Rightarrow> ((string \<times> bytes) list, listing) workers" where
  "synced_workers b =
     \<lparr>ws_ing = \<lparr>in_ds = synced_ds, in_indexer = ([], []),
        in_reg = start_registry (Some []) (open_policy\<lparr>rp_allow := \<lparr>pol_value = True, pol_except = (if b then {||} else {|''p2''|})\<rparr>\<rparr>),
        in_batch_size = 2\<rparr>,
      ws_staging = Map.empty, ws_busy = Map.empty, ws_queue = [], ws_events = [], ws_success = 0, ws_skipped = 0,
      ws_load_errors = 0\<rparr>"

definition synced_step :: "((string \<times> bytes) list, listing) workers \<Rightarrow> ((string \<times> bytes) list, listing) workers go" where
  "synced_step = run_ingest_step synced_env [''p1'', ''p2''] ''pub'' synced_cids"

definition synced_worker ::
    "peer_id \<Rightarrow> ((string \<times> bytes) list, listing) workers \<Rightarrow> ((string \<times> bytes) list, listing) workers go" where
  "synced_worker = ingest_worker_logic synced_env (table_sync synced_env chain_blocks) (\<lambda>_. 5)"


definition staged_workers :: "bool \<Rightarrow> ((string \<times> bytes) list, listing) workers" where
  "staged_workers b = (synced_workers b)\<lparr>
     ws_staging := [''p1'' \<mapsto> Some \<lparr>as_ads = [\<lparr>inf_cid = ''ad3'', inf_ad = metadata_ad\<rparr>, \<lparr>inf_cid = ''ad2'', inf_ad = chain_ad\<rparr>,
         \<lparr>inf_cid = ''ad1'', inf_ad = removal_ad\<rparr>], as_publisher = ''pub'', as_provider = ''p1''\<rparr>,
       ''p2'' \<mapsto> Some \<lparr>as_ads = [\<lparr>inf_cid = ''ad0'', inf_ad = other_ad\<rparr>], as_publisher = ''pub'', as_provider = ''p2''\<rparr>],
     ws_busy := [''p1'' \<mapsto> False, ''p2'' \<mapsto> False], ws_queue := [''p1'', ''p2'']\<rparr>"

lemma synced_load:
  "load_ad synced_env ''ad0'' synced_ds = Inr other_ad" "load_ad synced_env ''ad1'' synced_ds = Inr removal_ad"
  "load_ad synced_env ''ad2'' synced_ds = Inr chain_ad" "load_ad synced_env ''ad3'' synced_ds = Inr metadata_ad"
  by (simp_all add: load_ad_def load_node_def synced_env_def synced_ds_def table_env_def alist_ds_def key_eqs hex_lib_laws decode_ipld_node_def
    synced_table_def chain_table_def unwrap_advertisement_def as_prototype_def table_ipld_def)

lemma synced_worker_env: "worker_env synced_env listing_contents (table_sync synced_env chain_blocks)"
  using listing_indexer_laws alist_ds_laws alist_ds_reliable hex_lib_laws table_sync_laws
  by (simp add: worker_env_def synced_env_def table_env_def)

lemma synced_records: "records synced_env (\<lambda>_. False) (\<lambda>_. Inr cid_undef) synced_ds"
proof -
  have "block_closed synced_env (records synced_env (\<lambda>_. False) (\<lambda>_. Inr cid_undef))"
    by (rule records_block_closed [OF synced_worker_env])
  moreover have "records synced_env (\<lambda>_. False) (\<lambda>_. Inr cid_undef) []"
    by (simp add: records_def synced_env_def table_env_def alist_ds_def ad_already_processed_def get_latest_sync_def)
  ultimately show ?thesis
    unfolding synced_ds_def by (simp add: block_closed_def synced_env_def table_env_def)
qed

lemma synced_providers:
  "lib_peer_decode hex_lib (hex_string ''p1'') = Inr ''p1''" "lib_peer_decode hex_lib (hex_string ''p2'') = Inr ''p2''"
  by (simp_all add: hex_lib_def)

lemma synced_ad_providers:
  "ad_provider chain_ad = hex_string ''p1''" "ad_provider removal_ad = hex_string ''p1''"
  "ad_provider metadata_ad = hex_string ''p1''" "ad_provider other_ad = hex_string ''p2''"
  by (simp_all add: other_ad_def chain_ad_def removal_ad_def metadata_ad_def)

lemma synced_step_value: "synced_step (synced_workers b) = Inr (staged_workers b)"
proof -
  have "ad_already_processed alist_ds hex_lib c synced_ds = Inr False" for c
    using synced_records by (simp add: records_def synced_env_def table_env_def)
  moreover have "en_lib synced_env = hex_lib" "en_ds synced_env = alist_ds"
    by (simp_all add: synced_env_def table_env_def)
  ultimately show ?thesis
    by (simp add: synced_step_def run_ingest_step_def synced_cids_def synced_workers_def staged_workers_def
        synced_load go_bind_def synced_ad_providers synced_providers stage_def)
qed

definition synced_run :: "((string \<times> bytes) list, listing) workers" where
  "synced_run = projr (synced_worker ''p1'' (staged_workers True))"

lemma synced_run_ok:
  "map_sum id (\<lambda>ws. (ws_skipped ws, map ev_err (ws_events ws))) (synced_worker ''p1'' (staged_workers True)) =
     Inr (0, [None, None, None])"
  by code_simp

text \<open>
  The policy does not allow the other provider, so that its worker stops. After the
  newer advertisements have been ingested, the next sync finds the latest one processed: the oldest is
  not staged again, although it is not processed and nothing is assigned to its provider.
\<close>

definition left_behind_run :: "((string \<times> bytes) list, listing) workers go" where
  "left_behind_run =
     go_bind (synced_worker ''p2'' (staged_workers False)) (\<lambda>ws. go_bind (synced_worker ''p1'' ws) synced_step)"

lemma left_behind:
  "map_sum id (\<lambda>ws. (ws_staging ws ''p2'', ad_already_processed alist_ds hex_lib ''ad0'' (in_ds (ws_ing ws)),
       get_latest_sync alist_ds hex_lib ''pub'' (in_ds (ws_ing ws)), map ev_ad (ws_events ws), ws_queue ws)) left_behind_run =
     Inr (Some None, Inr False, Inr ''ad3'', [''ad0'', ''ad1'', ''ad2'', ''ad3''], [''p1'', ''p2''])"
  by code_simp

section \<open>Properties\<close>

text \<open>What the sync relies on: the environment of the worker, a blockstore that serves the chains of chunks \<open>G\<close>,
no limit of their depth, and an indexer that answers what it contains.\<close>

definition index_env ::
    "('d, 'i, 'n, 'h) env \<Rightarrow> ('i \<Rightarrow> contents) \<Rightarrow> chunk_graph \<Rightarrow> ('d, 'i) ad_scope legs_sync \<Rightarrow> bool" where
  "index_env E absv G sync \<longleftrightarrow>
     worker_env E absv sync \<and> chain_laws E G sync \<and> en_entries_limit E = LimitNone \<and> links_defined G \<and>
     content_get_laws (en_indexer E) absv"

text \<open>C1: What a sync brings is what the finder answers. After a sync, the ingester's step hands each provider its
unprocessed advertisements of the chain; when the worker of a provider has run on them without an error and without
giving one up, every query is answered from the index as it was before with exactly these advertisements applied, from
the oldest to the newest, each with the decodable multihashes of its chain of chunks. They are then processed, no
other advertisement is, and the newest of them is the publisher's latest sync.\<close>

theorem synced_chain_is_found:
  assumes "index_env E absv G sync" and "records E done latest (in_ds (ws_ing ws))"
    and "run_ingest_step E order publisher cids ws = Inr ws1" and "distinct order" and "p \<in> set order"
    and "peer_valid publisher" and "cid_undef \<notin> set cids"
    and "provider_ads E (in_ds (ws_ing ws)) p (unprocessed done cids) = ads" and "ads \<noteq> []"
    and "ingest_worker_logic E sync nows p ws1 = Inr ws2"
    and "ws_skipped ws2 = ws_skipped ws" and "\<forall>ev\<in>set (ws_events ws2). ev_err ev = None"
    and "list_all2 (\<lambda>ai. ad_publishes G (inf_ad ai)) ads mss"
    and "find \<lparr>fd_indexer = en_indexer E, fd_quote = quote\<rparr> r (map (\<lambda>m. (m, in_indexer (ws_ing ws2))) mhs) = (Inr mrs, rms)"
    and "m \<in> set mhs"
  shows "found_results mrs m =
      lookup_results (apply_ads p (zip ads (map (filter (en_mh_ok E)) mss)) (absv (in_indexer (ws_ing ws)))) r m \<and>
    ad_already_processed (en_ds E) (en_lib E) c (in_ds (ws_ing ws2)) = Inr (done c \<or> c \<in> inf_cid ` set ads) \<and>
    get_latest_sync (en_ds E) (en_lib E) publisher (in_ds (ws_ing ws2)) = Inr (inf_cid (hd ads))"
proof -
  from assms(1) have env: "worker_env E absv sync" "chain_laws E G sync" "en_entries_limit E = LimitNone" "links_defined G"
      "content_get_laws (en_indexer E) absv"
    by (simp_all add: index_env_def)
  note completes = worker_after_step [OF env(1-4) assms(2-13)]
  have "found_results mrs m = lookup_results (absv (in_indexer (ws_ing ws2))) r m"
    using find_results_lookup [OF _ assms(14), of absv m] env(5) assms(15) by simp
  then show ?thesis using completes assms(6) by (simp add: records_def)
qed

theorem synced_chain_is_found_witness:
  "found_results (projr (fst (find listing_finder (in_reg (ws_ing synced_run))
       [(''w'', in_indexer (ws_ing synced_run))]))) ''w'' =
     lookup_results (apply_ads ''p1''
         [(\<lparr>inf_cid = ''ad3'', inf_ad = metadata_ad\<rparr>, []), (\<lparr>inf_cid = ''ad2'', inf_ad = chain_ad\<rparr>, [''x'', ''y'', ''z'', ''w'']),
          (\<lparr>inf_cid = ''ad1'', inf_ad = removal_ad\<rparr>, [])]
         (listing_contents ([], []))) (in_reg (ws_ing synced_run)) ''w'' \<and>
   get_latest_sync alist_ds hex_lib ''pub'' (in_ds (ws_ing synced_run)) = Inr ''ad3''"
proof -
  let ?r = "in_reg (ws_ing synced_run)"
  let ?ads = "[\<lparr>inf_cid = ''ad3'', inf_ad = metadata_ad\<rparr>, \<lparr>inf_cid = ''ad2'', inf_ad = chain_ad\<rparr>,
      \<lparr>inf_cid = ''ad1'', inf_ad = removal_ad\<rparr>]"
  have run: "synced_worker ''p1'' (staged_workers True) = Inr synced_run"
    using synced_run_ok by (cases "synced_worker ''p1'' (staged_workers True)") (simp_all add: synced_run_def)
  have events: "map ev_err (ws_events synced_run) = [None, None, None]" and skipped: "ws_skipped synced_run = 0"
    using synced_run_ok by (simp_all add: run)
  have good: "\<forall>ev\<in>set (ws_events synced_run). ev_err ev = None"
    using arg_cong [OF events, of set] by (auto simp: image_iff)
  have "\<not> isl (fst (find listing_finder ?r [(''w'', in_indexer (ws_ing synced_run))]))"
    by (simp add: find_def listing_finder_def listing_indexer_def split: prod.splits)
  then obtain mrs rms where found: "find listing_finder ?r [(''w'', in_indexer (ws_ing synced_run))] = (Inr mrs, rms)"
    by (metis prod.collapse sum.collapse(2))
  have graph: "block_graph chain_blocks synced_table = block_graph chain_blocks chain_table"
    by (auto simp: fun_eq_iff block_graph_def chain_blocks_def synced_table_def split: option.splits)
  have sel: "en_indexer synced_env = listing_indexer" "en_mh_ok synced_env = (\<lambda>m. m \<noteq> ''bad'')"
      "en_ds synced_env = alist_ds" "en_lib synced_env = hex_lib" "en_entries_limit synced_env = LimitNone"
    by (simp_all add: synced_env_def table_env_def)
  have env: "index_env synced_env listing_contents (block_graph chain_blocks chain_table) (table_sync synced_env chain_blocks)"
    using synced_worker_env listing_get_laws chain_links_defined table_chain_laws [of listing_indexer synced_table chain_blocks]
    by (simp add: index_env_def sel graph) (simp add: synced_env_def)
  have ads: "provider_ads synced_env (in_ds (ws_ing (synced_workers True))) ''p1'' (unprocessed (\<lambda>_. False) synced_cids) = ?ads"
    by (simp add: unprocessed_def synced_cids_def synced_workers_def synced_load synced_ad_providers sel synced_providers)
  have published: "list_all2 (\<lambda>ai. ad_publishes (block_graph chain_blocks chain_table) (inf_ad ai)) ?ads
      [[], [''x'', ''bad'', ''y'', ''z'', ''w''], []]"
    using publishing_publishes by (simp add: publishing_assignment_def)
  have start: "records synced_env (\<lambda>_. False) (\<lambda>_. Inr cid_undef) (in_ds (ws_ing (synced_workers True)))"
      "in_indexer (ws_ing (synced_workers True)) = ([], [])" "ws_skipped synced_run = ws_skipped (synced_workers True)"
    using synced_records skipped by (simp_all add: synced_workers_def)
  have ids: "distinct [''p1'', ''p2'']" "''p1'' \<in> set [''p1'', ''p2'']" "peer_valid ''pub''" "cid_undef \<notin> set synced_cids"
    by (simp_all add: peer_valid_def synced_cids_def)
  from synced_chain_is_found [OF env start(1) synced_step_value [unfolded synced_step_def] ids ads _
      run [unfolded synced_worker_def] start(3) good published, of id ?r "[''w'']" mrs rms "''w''"]
    found found [unfolded listing_finder_def] sel start(2)
  show ?thesis by simp
qed

text \<open>C10: What a sync stages. After a sync every provider that has unprocessed advertisements in the chain, newer than
the first processed one, is assigned exactly those that can be loaded, the newest first, in place of whatever was assigned to it
before; a worker is asked for it unless it already had an assignment. Other providers keep theirs, and nothing is ingested yet.
So an unprocessed advertisement that is older than a processed one of any provider is not staged.\<close>

theorem ingest_step_stages:
  assumes "records E done latest (in_ds (ws_ing ws))" and "distinct order"
    and "run_ingest_step E order publisher cids ws = Inr ws'"
    and "(\<lambda>p. provider_ads E (in_ds (ws_ing ws)) p (unprocessed done cids)) = ads"
  shows "ws_staging ws' p =
      (if p \<in> set order \<and> ads p \<noteq> [] then Some (Some \<lparr>as_ads = ads p, as_publisher = publisher, as_provider = p\<rparr>)
       else ws_staging ws p) \<and>
    ws_queue ws' = ws_queue ws @ filter (\<lambda>p. ads p \<noteq> [] \<and> unassigned ws p) order \<and> ws_ing ws' = ws_ing ws \<and>
    (done c \<and> cids = newer @ c # older \<longrightarrow> inf_cid ` set (ads p) \<subseteq> set newer)"
proof -
  have "set (unprocessed done cids) \<subseteq> set newer" if "done c" "cids = newer @ c # older"
    using that by (auto simp: unprocessed_def takeWhile_append dest: set_takeWhileD)
  then have "done c \<and> cids = newer @ c # older \<longrightarrow> inf_cid ` set (ads p) \<subseteq> set newer"
    by (auto simp: assms(4) [symmetric] dest!: in_provider_ads)
  then show ?thesis using run_ingest_step_stages [OF assms] by blast
qed

theorem ingest_step_stages_witness:
  "ws_queue (staged_workers True) = [''p1'', ''p2'']"
proof -
  have start: "records synced_env (\<lambda>_. False) (\<lambda>_. Inr cid_undef) (in_ds (ws_ing (synced_workers True)))"
      "ws_queue (synced_workers True) = []" "unassigned (synced_workers True) p" for p
    using synced_records by (simp_all add: synced_workers_def unassigned_def)
  have sel: "en_lib synced_env = hex_lib" by (simp add: synced_env_def table_env_def)
  have ads: "provider_ads synced_env (in_ds (ws_ing (synced_workers True))) p (unprocessed (\<lambda>_. False) synced_cids) \<noteq> []"
    if "p = ''p1'' \<or> p = ''p2''" for p
    using that by (auto simp: unprocessed_def synced_cids_def synced_workers_def synced_load synced_ad_providers sel synced_providers)
  from ingest_step_stages [OF start(1) _ synced_step_value [unfolded synced_step_def] refl] start(2,3) ads
  show ?thesis by simp
qed

end
