(* ===== verification/Interleaved.thy ===== *)
theory Interleaved
  imports Synced
begin

text \<open>
  Workers ingest advertisements of different providers at the same time. However their advertisements take turns,
  what is found of a provider is what its own advertisements say, in their order.
\<close>

section \<open>The contents of one provider\<close>

definition own_contents :: "peer_id \<Rightarrow> contents \<Rightarrow> contents" where
  "own_contents p c =
     \<lparr>ct_meta = (\<lambda>k. if fst k = p then ct_meta c k else None), ct_entries = {e \<in> ct_entries c. fst (snd e) = p}\<rparr>"

lemma own_effect_other: "p \<noteq> q \<Longrightarrow> own_contents p (ad_effect q ad ms c) = own_contents p c"
  by (auto simp: own_contents_def ad_effect_def stored_def contents_put_def contents_remove_context_def
      ad_value_def value_key_def fun_eq_iff)

lemma own_effect: "own_contents p (ad_effect p ad ms c) = ad_effect p ad ms (own_contents p c)"
  by (auto simp: own_contents_def ad_effect_def stored_def contents_put_def contents_remove_context_def
      ad_value_def value_key_def fun_eq_iff)

definition provider_results :: "peer_id \<Rightarrow> provider_result set \<Rightarrow> provider_result set" where
  "provider_results p xs = {x \<in> xs. ai_id (pr_provider x) = p}"

lemma provider_lookup: "provider_results p (lookup_results c r m) = lookup_results (own_contents p c) r m"
  by (auto simp: provider_results_def lookup_results_def own_contents_def provider_result_from_value_def)

section \<open>Advertisements in turns\<close>

text \<open>
  Calls of \<open>ingestAd\<close> that succeed, for any publishers and providers. Between them the datastore and the
  registry may change, the index does not.
\<close>

inductive ingest_turns ::
    "('d, 'i, 'n, 'h) env \<Rightarrow> ('d, 'i) ad_scope legs_sync \<Rightarrow> ('d, 'i) ingester \<Rightarrow> ad_info list \<Rightarrow> ('d, 'i) ingester \<Rightarrow> bool"
  for E sync s where
  turns_none: "ingest_turns E sync s [] s"
| turns_next: "ingest_turns E sync s ais t \<Longrightarrow> in_indexer t' = in_indexer t \<Longrightarrow>
    ingest_ad E sync now publisher (inf_cid ai) (inf_ad ai) t' = Inr (None, u) \<Longrightarrow> ingest_turns E sync s (ais @ [ai]) u"

text \<open>The effect of a provider's advertisements, the oldest first, with the multihashes they publish.\<close>

definition provider_of :: "('d, 'i, 'n, 'h) env \<Rightarrow> ad_info \<Rightarrow> string + peer_id" where
  "provider_of E ai = lib_peer_decode (en_lib E) (ad_provider (inf_ad ai))"

definition provider_effects ::
    "('d, 'i, 'n, 'h) env \<Rightarrow> peer_id \<Rightarrow> (ad_info \<times> multihash list) list \<Rightarrow> contents \<Rightarrow> contents" where
  "provider_effects E p as =
     fold (\<lambda>(ai, ms). ad_effect p (inf_ad ai) (filter (en_mh_ok E) ms)) (filter (\<lambda>(ai, ms). provider_of E ai = Inr p) as)"

lemma provider_effects_append:
  "provider_effects E p (as @ bs) c = provider_effects E p bs (provider_effects E p as c)"
  by (simp add: provider_effects_def)

lemma turns_own_contents:
  assumes "ingest_turns E sync s ais u" and "worker_env E absv sync" and "chain_laws E G sync"
    and "en_entries_limit E = LimitNone" and "links_defined G"
    and "list_all2 (\<lambda>ai. ad_publishes G (inf_ad ai)) ais mss"
  shows "own_contents p (absv (in_indexer u)) = provider_effects E p (zip ais mss) (own_contents p (absv (in_indexer s)))"
  using assms(1,6)
proof (induction arbitrary: mss rule: ingest_turns.induct)
  case turns_none
  then show ?case by (simp add: provider_effects_def)
next
  case (turns_next ais t t' now publisher ai u)
  obtain mss1 ms where mss: "mss = mss1 @ [ms]" "list_all2 (\<lambda>ai. ad_publishes G (inf_ad ai)) ais mss1"
      "ad_publishes G (inf_ad ai) ms"
    using turns_next.prems by (auto simp: list_all2_append1 list_all2_Cons1)
  have len: "length ais = length mss1" using mss(2) by (rule list_all2_lengthD)
  obtain q where q: "lib_peer_decode (en_lib E) (ad_provider (inf_ad ai)) = Inr q"
    using ingest_ad_success [OF worker_envD(1,2) [OF assms(2)] turns_next.hyps(3)] by blast
  from ingests_chains [OF assms(2-5), unfolded ingests_as_def, rule_format, OF turns_next.hyps(3) q]
  obtain ms' where "chain_hashes E G ai ms'" "absv (in_indexer u) = ad_effect q (inf_ad ai) ms' (absv (in_indexer t'))"
    by blast
  then have u: "absv (in_indexer u) = ad_effect q (inf_ad ai) (filter (en_mh_ok E) ms) (absv (in_indexer t))"
    using mss(3) turns_next.hyps(2) by (simp add: chain_hashes_def)
  show ?case
  proof (cases "q = p")
    case True
    then show ?thesis
      using turns_next.IH [OF mss(2)] q len
      by (simp add: u mss(1) provider_effects_append own_effect) (simp add: provider_effects_def provider_of_def)
  next
    case False
    then show ?thesis
      using turns_next.IH [OF mss(2)] q len own_effect_other [of p q]
      by (simp add: u mss(1) provider_effects_append) (simp add: provider_effects_def provider_of_def)
  qed
qed

text \<open>An advertisement of one provider and then one of another, with the same chain of chunks.\<close>

definition turns_run :: "(ad_ingest_error option \<times> ((string \<times> bytes) list, listing) ingester) go" where
  "turns_run = ingest_ad listing_env (table_sync listing_env chain_blocks) 6 ''pub'' ''ad2'' other_ad (snd (projr publish_run))"

lemma turns_run_ok: "\<not> isl turns_run \<and> fst (projr turns_run) = None"
  by code_simp

section \<open>Properties\<close>

text \<open>C9: Providers do not interfere. However the advertisements of several providers take turns in the workers, a
query finds for a provider what its own advertisements publish, applied in their order to what the index had of the
provider before: the same as if no other provider had been ingested at all.\<close>

theorem providers_do_not_interfere:
  assumes "index_env E absv G sync" and "ingest_turns E sync s ais u"
    and "list_all2 (\<lambda>ai. ad_publishes G (inf_ad ai)) ais mss"
    and "find \<lparr>fd_indexer = en_indexer E, fd_quote = quote\<rparr> r (map (\<lambda>m. (m, in_indexer u)) mhs) = (Inr mrs, rms)"
    and "m \<in> set mhs"
  shows "provider_results p (found_results mrs m) =
    lookup_results (provider_effects E p (zip ais mss) (own_contents p (absv (in_indexer s)))) r m"
proof -
  from assms(1) have env: "worker_env E absv sync" "chain_laws E G sync" "en_entries_limit E = LimitNone" "links_defined G"
      "content_get_laws (en_indexer E) absv"
    by (simp_all add: index_env_def)
  show ?thesis
    using find_results_lookup [OF _ assms(4), of absv m] env(5) assms(5) turns_own_contents [OF assms(2) env(1-4) assms(3), of p]
    by (simp add: provider_lookup)
qed

theorem providers_do_not_interfere_witness:
  "provider_results ''p1'' (found_results (projr (fst (find listing_finder (in_reg (snd (projr turns_run)))
       [(''w'', in_indexer (snd (projr turns_run)))]))) ''w'') =
     lookup_results (ad_effect ''p1'' chain_ad [''x'', ''y'', ''z'', ''w''] (own_contents ''p1'' (listing_contents ([], []))))
       (in_reg (snd (projr turns_run))) ''w''"
proof -
  define s where "s = snd (projr publish_run)"
  define u where "u = snd (projr turns_run)"
  let ?ads = "[\<lparr>inf_cid = ''ad1'', inf_ad = chain_ad\<rparr>, \<lparr>inf_cid = ''ad2'', inf_ad = other_ad\<rparr>]"
  have runs: "publish_run = Inr (None, s)" "turns_run = Inr (None, u)"
    unfolding s_def u_def using publish_run_ok turns_run_ok by (blast intro: go_success)+
  note runs = this [unfolded publish_run_def turns_run_def, folded publish_run_def, folded s_def]
  have "ingest_turns listing_env (table_sync listing_env chain_blocks) empty_listing_ingester
      ([] @ [\<lparr>inf_cid = ''ad1'', inf_ad = chain_ad\<rparr>]) s"
    by (rule turns_next [OF turns_none refl]) (use runs(1) in \<open>simp add: publish_run_def\<close>)
  from turns_next [OF this refl, of 6 "''pub''" "\<lparr>inf_cid = ''ad2'', inf_ad = other_ad\<rparr>" u] runs(2)
  have turns: "ingest_turns listing_env (table_sync listing_env chain_blocks) empty_listing_ingester ?ads u"
    by simp
  have sel: "en_indexer listing_env = listing_indexer" "en_mh_ok listing_env = (\<lambda>m. m \<noteq> ''bad'')"
      "en_lib listing_env = hex_lib" "en_entries_limit listing_env = LimitNone"
    by (simp_all add: listing_env_def table_env_def)
  have env: "index_env listing_env listing_contents (block_graph chain_blocks chain_table) (table_sync listing_env chain_blocks)"
    using listing_worker_env listing_get_laws chain_links_defined table_chain_laws [of listing_indexer chain_table chain_blocks]
    by (simp add: index_env_def sel) (simp add: listing_env_def)
  have "\<not> isl (fst (find listing_finder (in_reg u) [(''w'', in_indexer u)]))"
    by (simp add: find_def listing_finder_def listing_indexer_def split: prod.splits)
  then obtain mrs rms where found: "find listing_finder (in_reg u) [(''w'', in_indexer u)] = (Inr mrs, rms)"
    by (metis prod.collapse sum.collapse(2))
  have published: "list_all2 (\<lambda>ai. ad_publishes (block_graph chain_blocks chain_table) (inf_ad ai)) ?ads
      [[''x'', ''bad'', ''y'', ''z'', ''w''], [''x'', ''bad'', ''y'', ''z'', ''w'']]"
    using chain_block_entries by (simp add: ad_publishes_def other_ad_def chain_ad_def no_entries_def)
  from providers_do_not_interfere [OF env turns published, of id "in_reg u" "[''w'']" mrs rms "''w''" "''p1''"]
    found found [unfolded listing_finder_def] sel
  show ?thesis
    unfolding u_def [symmetric]
    by (simp add: provider_effects_def provider_of_def synced_ad_providers synced_providers empty_listing_ingester_def)
qed

end
