(* ===== verification/Ingest_Drain.thy ===== *)
theory Ingest_Drain
  imports Ingest_Pool Machines Synced
begin

text \<open>
  The pool gets its work done: the steps of the workers against the syncs and announces that come from outside, with a bound
  on the workers. Without further syncs and announces, a bounded number of steps is left until nothing is staged.
\<close>

section \<open>A shutting machine reaches its end\<close>

context closing_machine begin

lemma reaches_end: "inv s \<Longrightarrow> closing s \<Longrightarrow> \<exists>ls t. run step s ls t \<and> list_all own ls \<and> ended t"
proof (induction "distance s" arbitrary: s rule: less_induct)
  case less
  show ?case
  proof (cases "ended s")
    case True
    then show ?thesis using run_refl [of step s] by (intro exI [of _ "[]"] exI [of _ s]) simp
  next
    case False
    then obtain l u where u: "own l" "step s l u" using progress less.prems by blast
    then obtain ls t where "run step u ls t" "list_all own ls" "ended t"
      using less.hyps [of u] nearer stays step_inv less.prems by blast
    moreover have "run step s [l] u" using run_step [where step = step and ls = "[]", OF run_refl u(2)] by simp
    ultimately show ?thesis using run_append [of step u ls t s "[l]"] u(1) by (intro exI [of _ "[l] @ ls"] exI [of _ t]) simp
  qed
qed

end

section \<open>The steps of the workers\<close>

text \<open>The goroutines that are workers, not announcing.\<close>

definition active_workers :: "('d, 'i) pool \<Rightarrow> nat" where
  "active_workers s = length (filter (\<lambda>(p, f). f \<noteq> Announcing) (pl_jobs s))"

text \<open>
  Syncs stage, announces begin, and ingesting changes what it changes from outside; the steps of the pool are
  taking a provider, if one of the \<open>n\<close> workers is free, getting hold of its channel, taking its assignment, and
  letting go of the channel.
\<close>

inductive work_step :: "('d, 'i, 'n, 'h) env \<Rightarrow> nat \<Rightarrow> ('d, 'i) pool \<Rightarrow> step_label \<Rightarrow> ('d, 'i) pool \<Rightarrow> bool" for E n where
  work_stage: "run_ingest_step E order publisher cids (pl_ws s) = Inr ws' \<Longrightarrow> distinct order \<Longrightarrow>
    work_step E n s External (s\<lparr>pl_ws := ws'\<rparr>)"
| work_ingest: "(p, Running) \<in> set (pl_jobs s) \<Longrightarrow> same_control (pl_ws s) ws' \<Longrightarrow>
    work_step E n s External (s\<lparr>pl_ws := ws'\<rparr>)"
| work_announce: "ws_busy (pl_ws s) p \<noteq> Some True \<Longrightarrow>
    work_step E n s External (s\<lparr>pl_ws := set_busy p True (pl_ws s), pl_jobs := (p, Announcing) # pl_jobs s\<rparr>)"
| work_take: "ws_queue (pl_ws s) = p # q \<Longrightarrow> active_workers s < n \<Longrightarrow>
    work_step E n s Internal (s\<lparr>pl_ws := (pl_ws s)\<lparr>ws_queue := q\<rparr>, pl_jobs := (p, Waiting) # pl_jobs s\<rparr>)"
| work_acquire: "pl_jobs s = js @ (p, Waiting) # ks \<Longrightarrow> ws_busy (pl_ws s) p = Some False \<Longrightarrow>
    work_step E n s Internal (s\<lparr>pl_ws := set_busy p True (pl_ws s), pl_jobs := js @ (p, Holding) # ks\<rparr>)"
| work_swap: "pl_jobs s = js @ (p, Holding) # ks \<Longrightarrow>
    work_step E n s Internal (s\<lparr>pl_ws := swap_out p (pl_ws s), pl_jobs := js @ (p, Running) # ks\<rparr>)"
| work_release: "pl_jobs s = js @ (p, f) # ks \<Longrightarrow> f = Running \<or> f = Announcing \<Longrightarrow>
    work_step E n s Internal (s\<lparr>pl_ws := set_busy p False (pl_ws s), pl_jobs := js @ ks\<rparr>)"

lemma work_step_pool: "work_step E n s l t \<Longrightarrow> pool_step E s t"
  by (induction rule: work_step.induct) (auto intro: pool_step.intros)

section \<open>It ends\<close>

fun job_distance :: "peer_id \<times> phase \<Rightarrow> nat" where
  "job_distance (p, Waiting) = 3"
| "job_distance (p, Holding) = 2"
| "job_distance (p, Running) = 1"
| "job_distance (p, Announcing) = 1"

definition work_left :: "('d, 'i) pool \<Rightarrow> nat" where
  "work_left s = 4 * length (ws_queue (pl_ws s)) + sum_list (map job_distance (pl_jobs s))"

definition drained :: "('d, 'i) pool \<Rightarrow> bool" where
  "drained s \<longleftrightarrow> ws_queue (pl_ws s) = [] \<and> pl_jobs s = []"

lemma work_left_less:
  assumes "work_step E n s l t" and "l = Internal"
  shows "work_left t < work_left s"
  using assms by (induction rule: work_step.induct) (auto simp: work_left_def set_busy_def swap_out_def)

lemma count_jobs_zero: "count_jobs ph p js = 0 \<longleftrightarrow> (\<forall>f\<in>ph. (p, f) \<notin> set js)"
  by (induction ph p js rule: count_jobs.induct) auto

lemma work_progress:
  assumes "pool_inv s" and "0 < n" and "\<not> drained s"
  shows "\<exists>t. work_step E n s Internal t"
proof (cases "pl_jobs s")
  case Nil
  then obtain p q where "ws_queue (pl_ws s) = p # q" using assms(3) by (auto simp: drained_def neq_Nil_conv)
  then show ?thesis using work_take [of s p q n E] Nil assms(2) by (auto simp: active_workers_def)
next
  case (Cons job jobs)
  show ?thesis
  proof (cases "\<exists>p f. (p, f) \<in> set (pl_jobs s) \<and> f \<noteq> Waiting")
    case True
    then obtain p f js ks where "pl_jobs s = js @ (p, f) # ks" "f \<noteq> Waiting" by (metis split_list)
    then show ?thesis using work_swap [of s js p ks E n] work_release [of s js p f ks E n] by (cases f) auto
  next
    case False
    obtain p f where job: "job = (p, f)" by fastforce
    then have waiting: "pl_jobs s = [] @ (p, Waiting) # jobs" using False Cons by auto
    have "count_jobs {Holding, Running, Announcing} p (pl_jobs s) = 0"
      unfolding count_jobs_zero using False by blast
    moreover have "count_jobs {Waiting, Holding} p (pl_jobs s) \<noteq> 0" using waiting by simp
    ultimately have "ws_busy (pl_ws s) p = Some False"
      using assms(1) unfolding pool_inv_def pool_inv_at_def by (metis (full_types) add_is_0 not_None_eq zero_neq_one)
    then show ?thesis using work_acquire [OF waiting] by blast
  qed
qed

lemma drained_clean:
  assumes "pool_inv s" and "drained s"
  shows "\<not> pending (pl_ws s) p" and "ws_busy (pl_ws s) p \<noteq> Some True"
  using assms unfolding pool_inv_def pool_inv_at_def drained_def
  by (metis add_0 count_jobs.simps(1) count_list.simps(1) zero_neq_one)+

interpretation pool_work: closing_machine "work_step E n" pool_inv "\<lambda>l. l = Internal" "\<lambda>s. 0 < n" drained work_left
  for E :: "('d, 'i, 'n, 'h) env" and n
proof
  fix s t :: "('d, 'i) pool" and l
  show "pool_inv t" if "work_step E n s l t" "pool_inv s"
    using work_step_pool [OF that(1)] that(2) by (auto simp: pool_inv_def intro: pool_step_inv_at)
  show "work_left t < work_left s" if "work_step E n s l t" "l = Internal" by (rule work_left_less [OF that])
  show "\<exists>l t. l = Internal \<and> work_step E n s l t" if "pool_inv s" "0 < n" "\<not> drained s"
    using work_progress [OF that] by blast
qed

lemma idle_inv:
  assumes "pl_jobs s = []" and "ws_queue (pl_ws s) = []" and "ws_busy (pl_ws s) = Map.empty"
    and "ws_staging (pl_ws s) = Map.empty"
  shows "pool_inv s"
  using assms by (simp add: pool_inv_def pool_inv_at_def pending_def)

lemma drained_stops: "drained s \<Longrightarrow> \<not> work_step E n s Internal u"
  by (auto simp: drained_def elim: work_step.cases)

section \<open>Properties\<close>


text \<open>Two workers after a sync that has staged advertisements of two providers.\<close>

definition synced_pool :: "((string \<times> bytes) list, listing) pool" where
  "synced_pool = \<lparr>pl_ws = staged_workers True, pl_jobs = []\<rparr>"


end
