(* ===== verification/Wire.thy ===== *)
theory Wire
  imports Finder_Protocols
begin

text \<open>
  The bytes of the libp2p protocols: how a message is written to a stream (\<^verbatim>\<open>message_writer.go\<close>, of which
  \<^verbatim>\<open>internal/libp2pserver\<close> and \<^verbatim>\<open>api/v0/libp2pclient\<close> have the same copy), and the server's side of a
  stream with its idle timer.
\<close>

section \<open>Buffered writers\<close>

text \<open>
  What the code uses of \<^verbatim>\<open>io.Writer\<close> and \<^verbatim>\<open>bufio.Writer\<close>. A sink is given bytes and answers how many it
  took and an error; a buffered writer keeps bytes that are not written, and the first error.
\<close>

type_synonym 'o sink = "'o \<Rightarrow> bytes \<Rightarrow> (nat \<times> string option) \<times> 'o"

definition sink_laws :: "'o sink \<Rightarrow> ('o \<Rightarrow> bytes) \<Rightarrow> bool" where
  "sink_laws W written \<longleftrightarrow>
     (\<forall>out p n e out'. W out p = ((n, e), out') \<longrightarrow>
        n \<le> length p \<and> (n < length p \<longrightarrow> e \<noteq> None) \<and> written out' = written out @ take n p)"

record buffered =
  bf_bytes :: bytes
  bf_error :: "string option"

definition buffer_size :: nat where
  "buffer_size = 4096"

definition buffer_reset :: "buffered \<Rightarrow> buffered" where
  "buffer_reset b = b\<lparr>bf_bytes := [], bf_error := None\<rparr>"

definition flush :: "'o sink \<Rightarrow> buffered \<Rightarrow> 'o \<Rightarrow> string option \<times> buffered \<times> 'o" where
  "flush W b out =
     (if bf_error b \<noteq> None then (bf_error b, b, out)
      else if bf_bytes b = [] then (None, b, out)
      else
        (let ((n, e), out) = W out (bf_bytes b);
             e = (if n < length (bf_bytes b) \<and> e = None then Some ''short write'' else e)
         in case e of
              Some e \<Rightarrow> (Some e, \<lparr>bf_bytes = drop n (bf_bytes b), bf_error = Some e\<rparr>, out)
            | None \<Rightarrow> (None, b\<lparr>bf_bytes := []\<rparr>, out)))"

text \<open>The loop of \<^verbatim>\<open>Write\<close> need not end for a sink that takes nothing and has no error.\<close>

partial_function (option) buffer_write ::
    "'o sink \<Rightarrow> bytes \<Rightarrow> buffered \<Rightarrow> 'o \<Rightarrow> (string option \<times> buffered \<times> 'o) option" where
  "buffer_write W p b out =
     (if length p > buffer_size - length (bf_bytes b) \<and> bf_error b = None then
        (if bf_bytes b = [] then
           (let ((n, e), out) = W out p in buffer_write W (drop n p) (b\<lparr>bf_error := e\<rparr>) out)
         else
           (let n = buffer_size - length (bf_bytes b);
                (_, b, out) = flush W (b\<lparr>bf_bytes := bf_bytes b @ take n p\<rparr>) out
            in buffer_write W (drop n p) b out))
      else if bf_error b \<noteq> None then Some (bf_error b, b, out)
      else Some (None, b\<lparr>bf_bytes := bf_bytes b @ p\<rparr>, out))"

text \<open>Several writes, up to the first that fails.\<close>

fun buffer_writes ::
    "'o sink \<Rightarrow> bytes list \<Rightarrow> buffered \<Rightarrow> 'o \<Rightarrow> (string option \<times> buffered \<times> 'o) option" where
  "buffer_writes W [] b out = Some (None, b, out)"
| "buffer_writes W (p # ps) b out =
     (case buffer_write W p b out of
        None \<Rightarrow> None
      | Some (Some e, b, out) \<Rightarrow> Some (Some e, b, out)
      | Some (None, b, out) \<Rightarrow> buffer_writes W ps b out)"

section \<open>Writing a message\<close>

text \<open>
  The stream and the message are None for nil. The delimited writer of \<^verbatim>\<open>go-msgio\<close> is a parameter: it
  gives the pieces that it writes one after another, the length and the message, or the error of
  marshalling. The buffered writer comes from a pool and goes back to it, so its contents are those that
  an earlier use has left. The result is the error, the writer for the pool and the stream.
\<close>

definition write_msg ::
    "'o sink \<Rightarrow> ('m \<Rightarrow> string + bytes list) \<Rightarrow> 'o option \<Rightarrow> 'm option \<Rightarrow> buffered \<Rightarrow>
       (go_error option \<times> buffered \<times> 'o option) option" where
  "write_msg W delimited stream msg b =
     (case (stream, msg) of
        (None, _) \<Rightarrow> Some (Some (ErrMsg ''io writer is nil''), b, None)
      | (Some out, None) \<Rightarrow> Some (Some (ErrMsg ''msg is nil''), b, Some out)
      | (Some out, Some m) \<Rightarrow>
          (case delimited m of
             Inl e \<Rightarrow> Some (Some (ErrMsg e), buffer_reset (buffer_reset b), Some out)
           | Inr pieces \<Rightarrow>
               (case buffer_writes W pieces (buffer_reset b) out of
                  None \<Rightarrow> None
                | Some (Some e, b, out) \<Rightarrow> Some (Some (ErrMsg e), buffer_reset b, Some out)
                | Some (None, b, out) \<Rightarrow>
                    (let (e, b, out) = flush W b out
                     in Some (map_option ErrMsg e, buffer_reset b, Some out)))))"

definition buffer_clean :: "buffered \<Rightarrow> bool" where
  "buffer_clean b \<longleftrightarrow> bf_bytes b = [] \<and> bf_error b = None"

lemma buffer_reset_clean [simp]: "buffer_clean (buffer_reset b)"
  by (simp add: buffer_clean_def buffer_reset_def)

lemma buffer_reset_eq: "buffer_reset b = \<lparr>bf_bytes = [], bf_error = None\<rparr>"
  by (simp add: buffer_reset_def)

text \<open>
  The invariant of a buffered writer: what the sink has and what is kept are the bytes given so far, as
  long as there is no error; in any case the sink has a beginning of them.
\<close>

definition buffer_inv :: "('o \<Rightarrow> bytes) \<Rightarrow> bytes \<Rightarrow> buffered \<Rightarrow> 'o \<Rightarrow> bool" where
  "buffer_inv written given b out \<longleftrightarrow> length (bf_bytes b) \<le> buffer_size \<and>
     (if bf_error b = None then written out @ bf_bytes b = given else \<exists>rest. given = written out @ rest)"

lemma flush_inv:
  assumes "sink_laws W written" and "buffer_inv written given b out" and "flush W b out = (e, b', out')"
  shows "e = bf_error b' \<and> buffer_inv written given b' out' \<and> (e = None \<longrightarrow> bf_bytes b' = [])"
proof (cases "bf_error b \<noteq> None \<or> bf_bytes b = []")
  case False
  obtain n w out2 where w: "W out (bf_bytes b) = ((n, w), out2)" by (metis prod.collapse)
  have sink: "n \<le> length (bf_bytes b)" "n < length (bf_bytes b) \<longrightarrow> w \<noteq> None"
      "written out2 = written out @ take n (bf_bytes b)"
    using assms(1) w unfolding sink_laws_def by blast+
  have given: "written out @ bf_bytes b = given" using False assms(2) by (simp add: buffer_inv_def)
  then have "given = written out2 @ drop n (bf_bytes b)" using sink(3) by auto
  moreover have "length (bf_bytes b) \<le> buffer_size" using assms(2) by (simp add: buffer_inv_def)
  ultimately show ?thesis
    using False assms(3) w sink given by (cases w) (auto simp: flush_def buffer_inv_def intro: append_take_drop_id [symmetric])
next
  case True
  then show ?thesis using assms(2,3) by (cases "bf_error b") (auto simp: flush_def)
qed

lemma buffer_write_failed: "bf_error b = Some e \<Longrightarrow> buffer_write W p b out = Some (Some e, b, out)"
  by (simp add: buffer_write.simps)

lemma buffer_write_fits:
  "bf_error b = None \<Longrightarrow> length p \<le> buffer_size - length (bf_bytes b) \<Longrightarrow>
     buffer_write W p b out = Some (None, b\<lparr>bf_bytes := bf_bytes b @ p\<rparr>, out)"
  by (simp add: buffer_write.simps)

definition buffer_written ::
    "('o \<Rightarrow> bytes) \<Rightarrow> bytes \<Rightarrow> (string option \<times> buffered \<times> 'o) option \<Rightarrow> bool" where
  "buffer_written written given res \<longleftrightarrow>
     (\<exists>b out. res = Some (bf_error b, b, out) \<and> buffer_inv written given b out)"

lemma buffer_write_easy:
  assumes "sink_laws W written" and "buffer_inv written given b out" and "bf_error b = None \<Longrightarrow> bf_bytes b = []"
  shows "buffer_written written (given @ p) (buffer_write W p b out)"
proof (cases "bf_error b")
  case (Some e)
  then show ?thesis
    using assms(2) by (auto simp: buffer_written_def buffer_inv_def buffer_write_failed)
next
  case None
  show ?thesis
  proof (cases "length p \<le> buffer_size")
    case True
    then show ?thesis using None assms by (auto simp: buffer_written_def buffer_inv_def buffer_write_fits)
  next
    case False
    obtain n w out2 where w: "W out p = ((n, w), out2)" by (metis prod.collapse)
    have sink: "n \<le> length p" "n < length p \<longrightarrow> w \<noteq> None" "written out2 = written out @ take n p"
      using assms(1) w unfolding sink_laws_def by blast+
    have run: "buffer_write W p b out = buffer_write W (drop n p) (b\<lparr>bf_error := w\<rparr>) out2"
      using False None assms(3) w by (subst buffer_write.simps) simp
    have given: "written out = given" using None assms(2,3) by (simp add: buffer_inv_def)
    show ?thesis
    proof (cases w)
      case w_none: None
      then have "drop n p = []" "take n p = p" using sink by auto
      then show ?thesis
        using run w_none None assms(3) given sink(3) by (auto simp: buffer_write_fits buffer_written_def buffer_inv_def)
    next
      case (Some e)
      have "given @ p = written out2 @ drop n p" using given sink(3) by simp
      then show ?thesis
        using run Some None assms(3) by (auto simp: buffer_write_failed buffer_written_def buffer_inv_def)
    qed
  qed
qed

lemma buffer_write_written:
  assumes "sink_laws W written" and "buffer_inv written given b out"
  shows "buffer_written written (given @ p) (buffer_write W p b out)"
proof (cases "bf_error b = None \<and> bf_bytes b \<noteq> []")
  case False
  then show ?thesis using buffer_write_easy [OF assms] by auto
next
  case None: True
  let ?n = "buffer_size - length (bf_bytes b)"
  show ?thesis
  proof (cases "length p \<le> ?n")
    case True
    then show ?thesis using None assms(2) by (auto simp: buffer_written_def buffer_inv_def buffer_write_fits)
  next
    case False
    obtain e b2 out2 where f: "flush W (b\<lparr>bf_bytes := bf_bytes b @ take ?n p\<rparr>) out = (e, b2, out2)"
      by (metis prod.collapse)
    have run: "buffer_write W p b out = buffer_write W (drop ?n p) b2 out2"
      using False None f by (subst buffer_write.simps) simp
    have "buffer_inv written (given @ take ?n p) (b\<lparr>bf_bytes := bf_bytes b @ take ?n p\<rparr>) out"
      using None assms(2) by (auto simp: buffer_inv_def)
    from flush_inv [OF assms(1) this f]
    have b2: "e = bf_error b2" "buffer_inv written (given @ take ?n p) b2 out2" "e = None \<longrightarrow> bf_bytes b2 = []"
      by simp_all
    then show ?thesis
      unfolding run using buffer_write_easy [OF assms(1) b2(2), of "drop ?n p"] by simp
  qed
qed

lemma buffer_writes_written:
  assumes "sink_laws W written"
  shows "buffer_inv written given b out \<Longrightarrow> bf_error b = None \<Longrightarrow>
    \<exists>b' out'. buffer_writes W ps b out = Some (bf_error b', b', out') \<and> buffer_inv written (given @ concat ps) b' out'"
proof (induction ps arbitrary: given b out)
  case (Cons p ps)
  obtain b1 out1 where w: "buffer_write W p b out = Some (bf_error b1, b1, out1)" "buffer_inv written (given @ p) b1 out1"
    using buffer_write_written [OF assms Cons.prems(1), of p] by (auto simp: buffer_written_def)
  show ?case
  proof (cases "bf_error b1")
    case None
    then show ?thesis using Cons.IH [OF w(2) None] w(1) by simp
  next
    case (Some e)
    then show ?thesis using w by (auto simp: buffer_inv_def) (metis append_assoc)
  qed
qed simp

text \<open>C19: Writing a message to a stream ends, whatever the stream does. When it reports success the stream has got
exactly the bytes of the message after what it had; when it fails the stream has got a beginning of them.
The buffered writer goes back to the pool without bytes or an error that the next message could meet, and what an
earlier message left in it makes no difference.\<close>

theorem write_msg_delivers:
  assumes "sink_laws W written" and "delimited m = Inr pieces"
  shows "\<exists>e b' out'. write_msg W delimited (Some out) (Some m) b = Some (e, b', Some out') \<and> buffer_clean b' \<and>
     (\<exists>rest. written out @ concat pieces = written out' @ rest \<and> (e = None \<longrightarrow> rest = [])) \<and>
     write_msg W delimited (Some out) (Some m) fresh = write_msg W delimited (Some out) (Some m) b"
proof -
  have "buffer_inv written (written out) (buffer_reset b) out" "bf_error (buffer_reset b) = None"
    by (simp_all add: buffer_inv_def buffer_reset_def)
  from buffer_writes_written [OF assms(1) this, of pieces] obtain b1 out1 where
    w: "buffer_writes W pieces (buffer_reset b) out = Some (bf_error b1, b1, out1)"
       "buffer_inv written (written out @ concat pieces) b1 out1" by blast
  obtain e b2 out2 where f: "flush W b1 out1 = (e, b2, out2)" by (metis prod.collapse)
  note flushed = flush_inv [OF assms(1) w(2) f]
  have same: "write_msg W delimited (Some out) (Some m) fresh = write_msg W delimited (Some out) (Some m) b"
    unfolding write_msg_def buffer_reset_eq [of fresh] buffer_reset_eq [of b] by simp
  show ?thesis
  proof (cases "bf_error b1")
    case None
    then have "write_msg W delimited (Some out) (Some m) b = Some (map_option ErrMsg e, buffer_reset b2, Some out2)"
      using assms(2) w(1) f by (simp add: write_msg_def)
    then show ?thesis using flushed same by (cases "bf_error b2") (auto simp: buffer_inv_def)
  next
    case (Some x)
    then have "write_msg W delimited (Some out) (Some m) b = Some (Some (ErrMsg x), buffer_reset b1, Some out1)"
      using assms(2) w(1) by (simp add: write_msg_def)
    then show ?thesis using w(2) Some same by (auto simp: buffer_inv_def)
  qed
qed

text \<open>A sink that takes what there is room for, and a message in two pieces.\<close>

definition room_sink :: "nat \<Rightarrow> bytes sink" where
  "room_sink room out p =
     (let n = min (length p) (room - length out)
      in ((n, if n < length p then Some ''no room'' else None), out @ take n p))"

lemma room_sink_laws: "sink_laws (room_sink room) id"
  by (auto simp: sink_laws_def room_sink_def Let_def)

definition two_pieces :: "bytes \<Rightarrow> string + bytes list" where
  "two_pieces m = Inr [CHR ''#'' # [], m]"

theorem write_msg_delivers_witness:
  "\<exists>e b' out'. write_msg (room_sink 3) two_pieces (Some ''a'') (Some ''hello'')
       \<lparr>bf_bytes = ''old'', bf_error = Some ''reset''\<rparr> = Some (e, b', Some out') \<and> buffer_clean b' \<and>
     (\<exists>rest. ''a#hello'' = out' @ rest)"
  using write_msg_delivers [OF room_sink_laws, of two_pieces "''hello''" "[''#'', ''hello'']" 3 "''a''"
    "\<lparr>bf_bytes = ''old'', bf_error = Some ''reset''\<rparr>" "\<lparr>bf_bytes = [], bf_error = None\<rparr>"]
  by (fastforce simp: two_pieces_def)

section \<open>The server's side of a stream\<close>

text \<open>
  What the server meets on a stream: after some time a read returns, a message is handled for some time. The
  idle timer is started with the stream and again when a message was read; when it fires it resets the
  stream, whatever the server is doing. Handling messages answers whether the stream is to be closed, None
  while it waits, and whether the timer has fired.
\<close>

datatype stream_read = ReadMessage bytes | ReadEnd | ReadError

record arrival =
  ar_wait :: duration
  ar_read :: stream_read
  ar_work :: duration

definition stream_idle_timeout :: duration where
  "stream_idle_timeout = minute"

fun handle_new_messages ::
    "(bytes \<Rightarrow> go_error + 'b) \<Rightarrow> ('b \<Rightarrow> bool) \<Rightarrow> duration \<Rightarrow> arrival list \<Rightarrow> 'b list \<times> bool option \<times> bool" where
  "handle_new_messages handle send idle [] = ([], None, False)"
| "handle_new_messages handle send idle (a # as) =
     (if stream_idle_timeout \<le> idle + ar_wait a then ([], Some False, True)
      else
        (case ar_read a of
           ReadEnd \<Rightarrow> ([], Some True, False)
         | ReadError \<Rightarrow> ([], Some False, False)
         | ReadMessage m \<Rightarrow>
             (let fired = stream_idle_timeout \<le> ar_work a
              in case handle m of
                   Inl e \<Rightarrow> ([], Some True, fired)
                 | Inr rsp \<Rightarrow>
                     if fired \<or> \<not> send rsp then ([], Some False, fired)
                     else
                       (let (rsps, res) = handle_new_messages handle send (ar_work a) as in (rsp # rsps, res)))))"

datatype stream_fate = Waiting_Read | Was_Closed | Was_Reset

definition handle_new_stream ::
    "(bytes \<Rightarrow> go_error + 'b) \<Rightarrow> ('b \<Rightarrow> bool) \<Rightarrow> arrival list \<Rightarrow> 'b list \<times> stream_fate" where
  "handle_new_stream handle send as =
     (let (rsps, graceful, fired) = handle_new_messages handle send 0 as
      in (rsps, case graceful of
            None \<Rightarrow> Waiting_Read
          | Some True \<Rightarrow> if fired then Was_Reset else Was_Closed
          | Some False \<Rightarrow> Was_Reset))"

text \<open>A peer that sends its next message soon enough, and a handler that is quick, are never met by the timer.\<close>

fun in_time :: "duration \<Rightarrow> arrival list \<Rightarrow> bool" where
  "in_time idle [] \<longleftrightarrow> True"
| "in_time idle (a # as) \<longleftrightarrow>
     idle + ar_wait a < stream_idle_timeout \<and> ar_work a < stream_idle_timeout \<and> in_time (ar_work a) as"

text \<open>A stream whose peer and handler are in time is served as the loop over its messages: the replies are those of
the messages in their order, up to the first that cannot be handled or whose reply cannot be written. The stream
is reset exactly when a reply could not be written; otherwise it is closed once the peer has ended it or a
message could not be handled, and stays open while there is neither.\<close>

theorem handle_new_stream_in_time:
  assumes "in_time 0 as" and "map ar_read as = map ReadMessage ms @ ends" and "ends = [] \<or> ends = [ReadEnd]"
  shows "handle_new_stream handle send as =
    (let (rsps, graceful) = handle_messages handle send ms
     in (rsps, if \<not> graceful then Was_Reset
               else if ends = [] \<and> length rsps = length ms then Waiting_Read else Was_Closed))"
proof -
  have "handle_new_messages handle send idle as =
    (let (rsps, graceful) = handle_messages handle send ms
     in (rsps, if \<not> graceful then Some False else if ends = [] \<and> length rsps = length ms then None else Some True, False))"
    if "in_time idle as" "map ar_read as = map ReadMessage ms @ ends" for idle
    using that assms(3)
  proof (induction as arbitrary: ms idle)
    case (Cons a as)
    show ?case
    proof (cases ms)
      case Nil
      then show ?thesis using Cons.prems by auto
    next
      case (Cons m ms')
      then show ?thesis
        using Cons.IH [of "ar_work a" ms'] Cons.prems
        by (auto split: sum.splits prod.splits)
    qed
  qed auto
  from this [OF assms(1,2)] show ?thesis
    by (auto simp: handle_new_stream_def Let_def split: prod.splits)
qed

text \<open>Two messages, the second while the peer still has half a minute, and the end of the stream.\<close>

definition two_requests :: "arrival list" where
  "two_requests =
     [\<lparr>ar_wait = 1, ar_read = ReadMessage ''a'', ar_work = second\<rparr>,
      \<lparr>ar_wait = 30 * second, ar_read = ReadMessage ''b'', ar_work = second\<rparr>,
      \<lparr>ar_wait = 1, ar_read = ReadEnd, ar_work = 0\<rparr>]"

theorem handle_new_stream_in_time_witness:
  "handle_new_stream (\<lambda>m. Inr (m @ ''!'')) (\<lambda>_. True) two_requests = ([''a!'', ''b!''], Was_Closed)"
  using handle_new_stream_in_time [of two_requests "[''a'', ''b'']" "[ReadEnd]" "\<lambda>m. Inr (m @ ''!'')" "\<lambda>_. True"]
  by (simp add: two_requests_def stream_idle_timeout_def minute_def second_def)

text \<open>
  The timer runs while a message is handled, and is not an idle timer then: the reply of a handler that takes a
  minute is lost, although the peer is waiting for it.
\<close>

lemma slow_handler_loses_reply:
  assumes "ar_wait a < stream_idle_timeout" and "ar_read a = ReadMessage m" and "stream_idle_timeout \<le> ar_work a"
  shows "handle_new_stream handle send (a # as) = ([], Was_Reset)"
  using assms by (simp add: handle_new_stream_def Let_def split: sum.split)

end
