(* ===== verification/Metrics.thy ===== *)
theory Metrics
  imports Machines Prelude
begin

text \<open>
  The metrics: the measures and the views they are shown by (\<^verbatim>\<open>internal/metrics/server.go\<close>), and the goroutine
  of the ingester that keeps the size of the value store up to date. The recording of the other measures is
  left out of the operations that do it.
\<close>

section \<open>Measures and views\<close>

datatype metric = Find_Latency | Ingest_Change | Ad_Ingest_Latency | Ad_Ingest_Error_Count | Ad_Ingest_Success_Count
  | Ad_Ingest_Skipped_Count | Ad_Load_Error | Provider_Count | Entries_Sync_Latency

datatype tag_key = Err_Kind | Method_Key | Found_Key | Version_Key

datatype aggregation = Distribution "nat list" | Count | Last_Value

record view =
  vw_measure :: metric
  vw_aggregation :: aggregation
  vw_tags :: "tag_key list"

fun tag_name :: "tag_key \<Rightarrow> string" where
  "tag_name Err_Kind = ''errKind''"
| "tag_name Method_Key = ''method''"
| "tag_name Found_Key = ''found''"
| "tag_name Version_Key = ''version''"

fun measure_name :: "metric \<Rightarrow> string" where
  "measure_name Find_Latency = ''find/latency''"
| "measure_name Ingest_Change = ''ingest/change''"
| "measure_name Ad_Ingest_Latency = ''ingest/adsynclatency''"
| "measure_name Ad_Ingest_Error_Count = ''ingest/adingestError''"
| "measure_name Ad_Ingest_Success_Count = ''ingest/adingestSuccess''"
| "measure_name Ad_Ingest_Skipped_Count = ''ingest/adingestSkipped''"
| "measure_name Ad_Load_Error = ''ingest/adLoadError''"
| "measure_name Provider_Count = ''provider/count''"
| "measure_name Entries_Sync_Latency = ''ingest/entriessynclatency''"

definition latencies :: aggregation where
  "latencies = Distribution
     [0, 1, 10, 20, 30, 40, 50, 60, 70, 80, 90, 100, 200, 300, 400, 500, 1000, 2000, 5000]"

fun measure_view :: "metric \<Rightarrow> view" where
  "measure_view Find_Latency = \<lparr>vw_measure = Find_Latency, vw_aggregation = latencies, vw_tags = [Method_Key, Found_Key]\<rparr>"
| "measure_view Ad_Ingest_Latency = \<lparr>vw_measure = Ad_Ingest_Latency, vw_aggregation = latencies, vw_tags = []\<rparr>"
| "measure_view Ingest_Change = \<lparr>vw_measure = Ingest_Change, vw_aggregation = Count, vw_tags = [Method_Key]\<rparr>"
| "measure_view Provider_Count = \<lparr>vw_measure = Provider_Count, vw_aggregation = Last_Value, vw_tags = []\<rparr>"
| "measure_view Entries_Sync_Latency = \<lparr>vw_measure = Entries_Sync_Latency, vw_aggregation = latencies, vw_tags = []\<rparr>"
| "measure_view Ad_Ingest_Error_Count = \<lparr>vw_measure = Ad_Ingest_Error_Count, vw_aggregation = Count, vw_tags = [Err_Kind]\<rparr>"
| "measure_view Ad_Ingest_Success_Count = \<lparr>vw_measure = Ad_Ingest_Success_Count, vw_aggregation = Count, vw_tags = []\<rparr>"
| "measure_view Ad_Ingest_Skipped_Count = \<lparr>vw_measure = Ad_Ingest_Skipped_Count, vw_aggregation = Count, vw_tags = []\<rparr>"
| "measure_view Ad_Load_Error = \<lparr>vw_measure = Ad_Load_Error, vw_aggregation = Count, vw_tags = []\<rparr>"

text \<open>
  Registering views is the library's: a function from the views to an error and the new views. So is making the
  exporter of the metrics, for a registry or without one. An error is logged, and nothing else comes of it but
  that the exporter is nil.
\<close>

definition metrics_start ::
    "(view list \<Rightarrow> 'v \<Rightarrow> string option \<times> 'v) \<Rightarrow> 'r option \<Rightarrow> string \<Rightarrow> ('r option \<Rightarrow> string \<Rightarrow> string + 'x) \<Rightarrow> view list \<Rightarrow> 'v \<Rightarrow>
       string list \<times> 'v \<times> 'x option" where
  "metrics_start register registry registry_type exporter views v =
     (let (e1, v) = register (map measure_view
            [Find_Latency, Ingest_Change, Provider_Count, Entries_Sync_Latency, Ad_Ingest_Latency,
             Ad_Ingest_Error_Count, Ad_Ingest_Skipped_Count, Ad_Ingest_Success_Count, Ad_Load_Error]) v;
          (e2, v) = register views v;
          x = exporter registry ''storetheindex''
      in ((case e1 of Some e \<Rightarrow> [''cannot register metrics default views: '' @ e] | None \<Rightarrow> []) @
          (case e2 of Some e \<Rightarrow> [''cannot register metrics views: '' @ e] | None \<Rightarrow> []) @
          (if registry = None then [''failed to export default prometheus registry; some metrics will be unavailable; unexpected type: '' @
             registry_type] else []) @
          (case x of Inl e \<Rightarrow> [''could not create the prometheus stats exporter: '' @ e] | Inr _ \<Rightarrow> []),
          v, case x of Inl e \<Rightarrow> None | Inr h \<Rightarrow> Some h))"

lemma metrics_start_shows_all:
  "set (fst (snd (metrics_start (\<lambda>vs v. (None, v @ vs)) r t x views []))) = range measure_view \<union> set views"
proof -
  have "range measure_view = measure_view ` {Find_Latency, Ingest_Change, Provider_Count, Entries_Sync_Latency,
      Ad_Ingest_Latency, Ad_Ingest_Error_Count, Ad_Ingest_Skipped_Count, Ad_Ingest_Success_Count, Ad_Load_Error}"
    using metric.exhaust by (intro arg_cong [where f = "\<lambda>A. measure_view ` A"]) blast
  then show ?thesis by (simp add: metrics_start_def Let_def)
qed

lemma names_differ: "measure_name m = measure_name m' \<Longrightarrow> m = m'" and measured: "vw_measure (measure_view m) = m"
  by (cases m; cases m'; simp) (cases m; simp)

section \<open>Profiling\<close>

text \<open>
  The pages of \<open>WithProfile\<close>. The longest pattern that matches a path decides; a pattern that ends in a slash matches
  every path that begins with it, any other only itself.
\<close>

datatype profile_page = Profile_Index | Profile_Cmdline | Cpu_Profile | Profile_Symbol | Profile_Trace | Collect_Garbage

definition profile_routes :: "(string \<times> profile_page) list" where
  "profile_routes =
     [(''/debug/pprof/'', Profile_Index), (''/debug/pprof/cmdline'', Profile_Cmdline), (''/debug/pprof/profile'', Cpu_Profile),
      (''/debug/pprof/symbol'', Profile_Symbol), (''/debug/pprof/trace'', Profile_Trace), (''/debug/pprof/gc'', Collect_Garbage)]"

definition pattern_matches :: "string \<Rightarrow> string \<Rightarrow> bool" where
  "pattern_matches pat path \<longleftrightarrow> path = pat \<or> (last pat = CHR ''/'' \<and> take (length pat) path = pat)"

definition profile_at :: "string \<Rightarrow> profile_page option" where
  "profile_at path =
     (case filter (\<lambda>r. pattern_matches (fst r) path) profile_routes of
        [] \<Rightarrow> None
      | r # rs \<Rightarrow> Some (snd (foldl (\<lambda>r r'. if length (fst r) < length (fst r') then r' else r) r rs)))"

lemma profile_routed: "(path, page) \<in> set profile_routes \<Longrightarrow> profile_at path = Some page"
  by (auto simp: profile_routes_def profile_at_def pattern_matches_def)

lemma profile_prefix: "profile_at path \<noteq> None \<longleftrightarrow> take (length ''/debug/pprof/'') path = ''/debug/pprof/''"
  by (auto simp: profile_routes_def profile_at_def pattern_matches_def split: list.splits)

section \<open>The size of the value store\<close>

text \<open>
  The goroutine of \<^verbatim>\<open>metricsUpdater\<close> with its channel of capacity one and its timer. The size is what the
  indexer answers when asked; \<open>up_unsaid\<close> says whether it has changed since the goroutine was last
  signalled. Signals, changes, the timer and closing the channel come from outside.
\<close>

record updater =
  up_running :: bool
  up_signalled :: bool
  up_closed :: bool
  up_due :: bool
  up_has_update :: bool
  up_recorded :: "int option"
  up_size :: "string + int"
  up_unsaid :: bool

definition updater_start :: "string + int \<Rightarrow> updater" where
  "updater_start n = \<lparr>up_running = True, up_signalled = False, up_closed = False, up_due = False,
     up_has_update = True, up_recorded = None, up_size = n, up_unsaid = False\<rparr>"

definition update_size :: "updater \<Rightarrow> updater" where
  "update_size s =
     (if \<not> up_has_update s then s\<lparr>up_due := False\<rparr>
      else
        (case up_size s of
           Inl e \<Rightarrow> s\<lparr>up_running := False\<rparr>
         | Inr n \<Rightarrow> s\<lparr>up_recorded := Some n, up_has_update := False, up_due := False\<rparr>))"

inductive updater_step :: "updater \<Rightarrow> step_label \<Rightarrow> updater \<Rightarrow> bool" where
  changed: "updater_step s External (s\<lparr>up_size := n, up_unsaid := True\<rparr>)"
| signal: "\<not> up_closed s \<Longrightarrow> updater_step s External (s\<lparr>up_signalled := True, up_unsaid := False\<rparr>)"
| tick: "updater_step s External (s\<lparr>up_due := True\<rparr>)"
| close_channel: "\<not> up_closed s \<Longrightarrow> updater_step s External (s\<lparr>up_closed := True\<rparr>)"
| signalled: "up_running s \<Longrightarrow> up_signalled s \<Longrightarrow>
    updater_step s Internal (s\<lparr>up_signalled := False, up_has_update := True\<rparr>)"
| close: "up_running s \<Longrightarrow> \<not> up_signalled s \<Longrightarrow> up_closed s \<Longrightarrow> updater_step s Internal (s\<lparr>up_running := False\<rparr>)"
| due: "up_running s \<Longrightarrow> up_due s \<Longrightarrow> updater_step s Internal (update_size s)"

text \<open>What was recorded is the size, unless the goroutine has ended, was told of a change, or was not told.\<close>

definition size_fresh :: "updater \<Rightarrow> bool" where
  "size_fresh s \<longleftrightarrow> (up_running s \<and> \<not> up_has_update s \<and> \<not> up_signalled s \<and> \<not> up_unsaid s \<longrightarrow>
     map_option Inr (up_recorded s) = Some (up_size s))"

lemma updater_step_fresh: "updater_step s l t \<Longrightarrow> size_fresh s \<Longrightarrow> size_fresh t"
  by (cases rule: updater_step.cases, assumption) (auto simp: size_fresh_def update_size_def split: sum.splits)

interpretation metrics_updater: machine updater_step size_fresh
  by unfold_locales (rule updater_step_fresh)

text \<open>However changes of the index, signals, the timer and the closing of the ingester come, the size that was
recorded last is the size of the value store whenever nothing is left to do: the goroutine runs, was signalled
after the last change, and has taken the signal and a tick of its timer since.\<close>

theorem recorded_size_is_fresh:
  assumes "run updater_step (updater_start n) ls s" and "up_running s" and "\<not> up_has_update s"
    and "\<not> up_signalled s" and "\<not> up_unsaid s"
  shows "map_option Inr (up_recorded s) = Some (up_size s)"
proof -
  have "size_fresh (updater_start n)" by (simp add: size_fresh_def updater_start_def)
  then show ?thesis using metrics_updater.run_inv [OF assms(1)] assms(2-) by (simp add: size_fresh_def)
qed

text \<open>A tick that finds the size changed after the first record.\<close>

theorem recorded_size_is_fresh_witness:
  "\<exists>ls s. run updater_step (updater_start (Inr 3)) ls s \<and> map_option Inr (up_recorded s) = Some (up_size s)"
proof -
  let ?s = "update_size ((updater_start (Inr 3))\<lparr>up_due := True\<rparr>)"
  have "run updater_step (updater_start (Inr 3)) ([] @ [External]) ((updater_start (Inr 3))\<lparr>up_due := True\<rparr>)"
    using tick by (rule run_step [where ls = "[]", OF run_refl])
  moreover have "updater_step ((updater_start (Inr 3))\<lparr>up_due := True\<rparr>) Internal ?s"
    by (rule due) (simp_all add: updater_start_def)
  ultimately have steps: "run updater_step (updater_start (Inr 3)) (([] @ [External]) @ [Internal]) ?s" by (rule run_step)
  have "up_running ?s" "\<not> up_has_update ?s" "\<not> up_signalled ?s" "\<not> up_unsaid ?s"
    by (simp_all add: update_size_def updater_start_def)
  from recorded_size_is_fresh [OF steps this] steps show ?thesis by blast
qed

text \<open>
  An indexer that fails once to tell its size ends the goroutine, and nothing starts it again: the metric keeps
  the size it had.
\<close>

lemma updater_never_restarts:
  "run updater_step s ls t \<Longrightarrow> \<not> up_running s \<Longrightarrow> \<not> up_running t \<and> up_recorded t = up_recorded s"
proof (induction rule: run.induct)
  case (run_step ls t l u)
  from run_step.hyps(2) show ?case by (cases rule: updater_step.cases) (use run_step in auto)
qed simp

lemma failed_size_ends_updater:
  assumes "up_running s" and "up_due s" and "up_has_update s" and "up_size s = Inl e"
  shows "\<exists>t. updater_step s Internal t \<and> (\<forall>ls u. run updater_step t ls u \<longrightarrow> up_recorded u = up_recorded s)"
  using assms updater_step.due [of s] updater_never_restarts [of "update_size s"]
  by (intro exI [of _ "update_size s"]) (simp add: update_size_def)

end
