(* ===== verification/Http_Servers.thy ===== *)
theory Http_Servers
  imports Errors
begin

text \<open>
  The options of the HTTP servers (\<^verbatim>\<open>options.go\<close> of the finder, the ingest and the admin server) and of the
  HTTP client (\<^verbatim>\<open>api/v0/httpclient/options.go\<close>): functions on a configuration that may fail, applied in order
  after the defaults; and how the servers are made, served and shut down (their \<^verbatim>\<open>server.go\<close>).
\<close>

type_synonym 'c config_option = "'c \<Rightarrow> go_error option \<times> 'c"

record server_settings =
  ss_write_timeout :: duration
  ss_read_timeout :: duration

record finder_settings = server_settings +
  ss_max_conns :: int

record client_settings =
  cl_timeout :: duration

text \<open>The loop over the options, with the position of the first.\<close>

fun apply_options :: "string \<Rightarrow> nat \<Rightarrow> 'c config_option list \<Rightarrow> 'c \<Rightarrow> go_error option \<times> 'c" where
  "apply_options what i [] c = (None, c)"
| "apply_options what i (opt # opts) c =
     (case opt c of
        (Some e, c) \<Rightarrow> (Some (ErrMsg (what @ '' option '' @ show_nat i @ '' failed: '' @ error_string e)), c)
      | (None, c) \<Rightarrow> apply_options what (Suc i) opts c)"

definition api_timeout :: duration where
  "api_timeout = 30 * second"

definition server_defaults :: "'a server_settings_scheme config_option" where
  "server_defaults c = (None, c\<lparr>ss_write_timeout := api_timeout, ss_read_timeout := api_timeout\<rparr>)"

definition finder_defaults :: "finder_settings config_option" where
  "finder_defaults c =
     (None, c\<lparr>ss_write_timeout := api_timeout, ss_read_timeout := api_timeout, ss_max_conns := 8000\<rparr>)"

definition client_defaults :: "client_settings config_option" where
  "client_defaults c = (None, c\<lparr>cl_timeout := minute\<rparr>)"

text \<open>The finder server and the client apply their defaults first, and panic if they fail.\<close>

definition apply_with_defaults :: "string \<Rightarrow> 'c config_option \<Rightarrow> 'c config_option list \<Rightarrow> 'c \<Rightarrow> (go_error option \<times> 'c) go" where
  "apply_with_defaults what defaults opts c =
     (case defaults c of
        (Some e, _) \<Rightarrow> Inl (ExplicitPanic (''default option failed: '' @ error_string e))
      | (None, c) \<Rightarrow> Inr (apply_options what 0 opts c))"

definition finder_apply :: "finder_settings config_option list \<Rightarrow> finder_settings \<Rightarrow> (go_error option \<times> finder_settings) go" where
  "finder_apply = apply_with_defaults ''httpserver'' finder_defaults"

definition client_apply :: "client_settings config_option list \<Rightarrow> client_settings \<Rightarrow> (go_error option \<times> client_settings) go" where
  "client_apply = apply_with_defaults ''httpclient'' client_defaults"

text \<open>The ingest and the admin server give the defaults to \<^verbatim>\<open>apply\<close> as the first option.\<close>

definition server_apply :: "server_settings config_option list \<Rightarrow> server_settings \<Rightarrow> go_error option \<times> server_settings" where
  "server_apply opts = apply_options ''httpserver'' 0 opts"

definition write_timeout :: "duration \<Rightarrow> 'a server_settings_scheme config_option" where
  "write_timeout t c = (None, c\<lparr>ss_write_timeout := t\<rparr>)"

definition read_timeout :: "duration \<Rightarrow> 'a server_settings_scheme config_option" where
  "read_timeout t c = (None, c\<lparr>ss_read_timeout := t\<rparr>)"

definition client_timeout :: "duration \<Rightarrow> client_settings config_option" where
  "client_timeout t c = (None, c\<lparr>cl_timeout := t\<rparr>)"

text \<open>What is set at the end does not depend on what the configuration was before.\<close>

lemma apply_options_append:
  "apply_options what i (xs @ ys) c =
     (case apply_options what i xs c of (Some e, c) \<Rightarrow> (Some e, c) | (None, c) \<Rightarrow> apply_options what (i + length xs) ys c)"
  by (induction xs arbitrary: i c) (auto split: prod.split option.split)

lemma finder_apply_fresh: "finder_apply opts c = finder_apply opts c'"
  by (cases c; cases c') (simp add: finder_apply_def apply_with_defaults_def finder_defaults_def)

lemma client_apply_fresh: "client_apply opts c = client_apply opts c'"
  by (cases c; cases c') (simp add: client_apply_def apply_with_defaults_def client_defaults_def)

lemma server_apply_fresh: "server_apply (server_defaults # opts) c = server_apply (server_defaults # opts) c'"
  by (cases c; cases c') (simp add: server_apply_def server_defaults_def)

lemma timeouts_set:
  "server_apply [server_defaults, write_timeout t, read_timeout u] c = (None, \<lparr>ss_write_timeout = t, ss_read_timeout = u\<rparr>)"
  "finder_apply [write_timeout t, read_timeout u] f =
     Inr (None, \<lparr>ss_write_timeout = t, ss_read_timeout = u, ss_max_conns = 8000\<rparr>)"
  by (simp_all add: server_apply_def server_defaults_def finder_apply_def apply_with_defaults_def finder_defaults_def
      write_timeout_def read_timeout_def)

section \<open>The servers\<close>

text \<open>
  A server has its listener, for the finder with a limit of connections, its timeouts, and for the admin
  server whether the context of its syncs is cancelled. Listening and the HTTP server are the standard library's:
  \<open>listen\<close> answers a listener or an error, \<open>limit\<close> bounds the connections of a listener.
\<close>

record 'l http_server =
  hv_listener :: 'l
  hv_write_timeout :: duration
  hv_read_timeout :: duration

record 'l admin_server = "'l http_server" +
  hv_cancelled :: bool

definition zero_settings :: server_settings where
  "zero_settings = \<lparr>ss_write_timeout = 0, ss_read_timeout = 0\<rparr>"

definition zero_finder_settings :: finder_settings where
  "zero_finder_settings = \<lparr>ss_write_timeout = 0, ss_read_timeout = 0, ss_max_conns = 0\<rparr>"

definition new_finder_server ::
    "(string \<Rightarrow> go_error + 'l) \<Rightarrow> (int \<Rightarrow> 'l \<Rightarrow> 'l) \<Rightarrow> finder_settings config_option list \<Rightarrow> string \<Rightarrow>
       (go_error + 'l http_server) go" where
  "new_finder_server listen limit opts addr =
     go_bind (finder_apply opts zero_finder_settings) (\<lambda>(e, cfg). Inr
       (case e of
          Some e \<Rightarrow> Inl e
        | None \<Rightarrow>
            (case listen addr of
               Inl e \<Rightarrow> Inl e
             | Inr l \<Rightarrow> Inr \<lparr>hv_listener = limit (ss_max_conns cfg) l, hv_write_timeout = ss_write_timeout cfg,
                 hv_read_timeout = ss_read_timeout cfg\<rparr>)))"

definition new_ingest_server ::
    "(string \<Rightarrow> go_error + 'l) \<Rightarrow> server_settings config_option list \<Rightarrow> string \<Rightarrow> go_error + 'l http_server" where
  "new_ingest_server listen opts addr =
     (case server_apply (server_defaults # opts) zero_settings of
        (Some e, _) \<Rightarrow> Inl e
      | (None, cfg) \<Rightarrow>
          (case listen addr of
             Inl e \<Rightarrow> Inl e
           | Inr l \<Rightarrow> Inr \<lparr>hv_listener = l, hv_write_timeout = ss_write_timeout cfg, hv_read_timeout = ss_read_timeout cfg\<rparr>))"

definition new_admin_server ::
    "(string \<Rightarrow> go_error + 'l) \<Rightarrow> bool \<Rightarrow> server_settings config_option list \<Rightarrow> string \<Rightarrow> (go_error + 'l admin_server) go" where
  "new_admin_server listen ingester opts addr =
     (if \<not> ingester then Inl (ExplicitPanic ''ingester cannot be nil'')
      else Inr
        (case server_apply (server_defaults # opts) zero_settings of
           (Some e, _) \<Rightarrow> Inl e
         | (None, cfg) \<Rightarrow>
             (case listen addr of
                Inl e \<Rightarrow> Inl e
              | Inr l \<Rightarrow> Inr \<lparr>hv_listener = l, hv_write_timeout = ss_write_timeout cfg,
                  hv_read_timeout = ss_read_timeout cfg, hv_cancelled = False\<rparr>)))"

text \<open>Shutting down: the admin server first ends the syncs that its requests have started.\<close>

definition shutdown_server :: "('l http_server \<Rightarrow> go_error option) \<Rightarrow> 'l http_server \<Rightarrow> go_error option" where
  "shutdown_server stop s = stop s"

definition shutdown_admin ::
    "('l admin_server \<Rightarrow> go_error option) \<Rightarrow> 'l admin_server \<Rightarrow> go_error option \<times> 'l admin_server" where
  "shutdown_admin stop s = (let s = s\<lparr>hv_cancelled := True\<rparr> in (stop s, s))"

text \<open>
  The daemon gives no options: then only listening can fail, and every server has the timeouts of the
  defaults.
\<close>

lemma servers_without_options:
  "new_ingest_server listen [] addr = map_sum id (\<lambda>l. \<lparr>hv_listener = l, hv_write_timeout = api_timeout,
     hv_read_timeout = api_timeout\<rparr>) (listen addr)"
  "new_finder_server listen limit [] addr = Inr (map_sum id (\<lambda>l. \<lparr>hv_listener = limit 8000 l,
     hv_write_timeout = api_timeout, hv_read_timeout = api_timeout\<rparr>) (listen addr))"
  "new_admin_server listen True [] addr = Inr (map_sum id (\<lambda>l. \<lparr>hv_listener = l, hv_write_timeout = api_timeout,
     hv_read_timeout = api_timeout, hv_cancelled = False\<rparr>) (listen addr))"
  by (simp_all add: new_ingest_server_def new_finder_server_def new_admin_server_def server_apply_def server_defaults_def
      finder_apply_def apply_with_defaults_def finder_defaults_def zero_settings_def zero_finder_settings_def go_bind_def
      split: sum.split)

end
