(* ===== verification/Progress.thy ===== *)
theory Progress
  imports Synthetic
begin

text \<open>
  The progress display of the synthetic writers (\<^verbatim>\<open>command/synthetic.go\<close>): a dot for every two per cent.
  The floating-point numbers are a parameter, nothing is assumed of them.
\<close>

record 'x floats =
  fl_of_int :: "int \<Rightarrow> 'x"
  fl_add :: "'x \<Rightarrow> 'x \<Rightarrow> 'x"
  fl_div :: "'x \<Rightarrow> 'x \<Rightarrow> 'x"
  fl_le :: "'x \<Rightarrow> 'x \<Rightarrow> bool"

record 'x progress =
  pr_count :: nat
  pr_incr :: 'x
  pr_next :: 'x

definition percent_incr :: int where "percent_incr = 2"

text \<open>The results are what is printed and the display.\<close>

definition new_progress :: "'x floats \<Rightarrow> int \<Rightarrow> string \<times> 'x progress" where
  "new_progress F n =
     (let incr = fl_div F (fl_of_int F (n * percent_incr)) (fl_of_int F 100)
      in (''|         25%|        50%|         75%|        100%|'' @ [newline] @ ''|'',
          \<lparr>pr_count = nat (100 div percent_incr), pr_incr = incr, pr_next = incr\<rparr>))"

fun update_dots :: "'x floats \<Rightarrow> int \<Rightarrow> 'x \<Rightarrow> nat \<Rightarrow> 'x \<Rightarrow> string \<times> nat \<times> 'x" where
  "update_dots F at incr 0 next = ([], 0, next)"
| "update_dots F at incr (Suc n) next =
     (if fl_le F next (fl_of_int F at) then
        (let (out, rest) = update_dots F at incr n (fl_add F next incr) in (CHR ''.'' # out, rest))
      else ([], Suc n, next))"

definition progress_update :: "'x floats \<Rightarrow> int \<Rightarrow> 'x progress \<Rightarrow> string \<times> 'x progress" where
  "progress_update F at p =
     (let (out, n, next) = update_dots F at (pr_incr p) (pr_count p) (pr_next p)
      in (out, p\<lparr>pr_count := n, pr_next := next\<rparr>))"

definition progress_done :: "'x progress \<Rightarrow> string \<times> 'x progress" where
  "progress_done p = (replicate (pr_count p) CHR ''.'' @ ''|'' @ [newline], p\<lparr>pr_count := 0\<rparr>)"

fun progress_updates :: "'x floats \<Rightarrow> int list \<Rightarrow> 'x progress \<Rightarrow> string \<times> 'x progress" where
  "progress_updates F [] p = ([], p)"
| "progress_updates F (c # cs) p =
     (let (out, p) = progress_update F c p; (outs, p) = progress_updates F cs p in (out @ outs, p))"

lemma update_dots_count:
  "update_dots F at incr n next = (out, m, next') \<Longrightarrow> out = replicate (n - m) CHR ''.'' \<and> m \<le> n"
proof (induction n arbitrary: "next" out)
  case (Suc n)
  show ?case
  proof (cases "fl_le F next (fl_of_int F at)")
    case True
    then obtain out' where "update_dots F at incr n (fl_add F next incr) = (out', m, next')" "out = CHR ''.'' # out'"
      using Suc.prems by (auto split: prod.splits)
    then show ?thesis using Suc.IH [of "fl_add F next incr" out'] by (simp add: Suc_diff_le)
  next
    case False
    then show ?thesis using Suc.prems by simp
  qed
qed simp

lemma progress_updates_count:
  "progress_updates F cs p = (out, p') \<Longrightarrow>
     out = replicate (pr_count p - pr_count p') CHR ''.'' \<and> pr_count p' \<le> pr_count p"
proof (induction cs arbitrary: p out)
  case (Cons c cs)
  obtain o1 p1 where one: "progress_update F c p = (o1, p1)" by fastforce
  then have "o1 = replicate (pr_count p - pr_count p1) CHR ''.'' \<and> pr_count p1 \<le> pr_count p"
    by (auto simp: progress_update_def split: prod.splits dest: update_dots_count)
  then show ?case
    using Cons.IH [of p1] Cons.prems one by (auto split: prod.splits simp: replicate_add [symmetric])
qed simp

text \<open>Whatever is counted and however floating-point numbers are rounded, the display is full at the end: fifty dots.\<close>

theorem progress_is_full:
  assumes "new_progress F n = (head, p)" and "progress_updates F cs p = (out, p')"
  shows "out @ fst (progress_done p') = replicate 50 CHR ''.'' @ ''|'' @ [newline]"
  using progress_updates_count [OF assms(2)] assms(1)
  by (auto simp: progress_done_def new_progress_def percent_incr_def Let_def replicate_add [symmetric] append_assoc [symmetric]
      simp del: append_assoc)

end
