(* ===== verification/Program.thy ===== *)
theory Program
  imports Machines Flags
begin

text \<open>
  The program (\<^verbatim>\<open>main.go\<close>): the tree of its commands, and how signals and the end of the command end it.
\<close>

section \<open>The commands\<close>

datatype command_action = Sync_Action | Allow_Action | Block_Action | Import_Providers_Action | Reload_Config_Action
  | Daemon_Action | Find_Action | Import_Cid_List_Action | Import_Car_Action | Import_Manifest_Action | Init_Action | Register_Action
  | Synthetic_Action | Set_Log_Levels_Action | List_Log_Subsystems_Action | Get_Providers_Action | List_Providers_Action

text \<open>A command with its name and aliases, its action or none, and its subcommands.\<close>

datatype cli_command = Cli_Command (cm_names: "string list") (cm_action: "command_action option") (cm_subs: "cli_command list")

abbreviation leaf :: "string list \<Rightarrow> command_action \<Rightarrow> cli_command" where
  "leaf ns a \<equiv> Cli_Command ns (Some a) []"

text \<open>A command that has only subcommands.\<close>

abbreviation branch :: "string \<Rightarrow> cli_command list \<Rightarrow> cli_command" where
  "branch n cs \<equiv> Cli_Command [n] None cs"

definition admin_entry :: cli_command where
  "admin_entry = branch ''admin''
     [leaf [''allow''] Allow_Action, leaf [''block''] Block_Action, leaf [''import-providers''] Import_Providers_Action,
      leaf [''reload-config''] Reload_Config_Action, leaf [''sync''] Sync_Action]"

definition import_entry :: cli_command where
  "import_entry = branch ''import''
     [leaf [''cidlist''] Import_Cid_List_Action, leaf [''car''] Import_Car_Action, leaf [''manifest''] Import_Manifest_Action]"

definition config_entry :: cli_command where
  "config_entry = branch ''config''
     [branch ''set'' [leaf [''log.level'', ''ll''] Set_Log_Levels_Action],
      branch ''get'' [leaf [''log.subsystems'', ''lss''] List_Log_Subsystems_Action]]"

definition providers_entry :: cli_command where
  "providers_entry = branch ''providers''
     [leaf [''get''] Get_Providers_Action, leaf [''list''] List_Providers_Action]"

definition daemon_entry :: cli_command where
  "daemon_entry = leaf [''daemon''] Daemon_Action"

definition find_entry :: cli_command where
  "find_entry = leaf [''find''] Find_Action"

definition init_entry :: cli_command where
  "init_entry = leaf [''init''] Init_Action"

definition register_entry :: cli_command where
  "register_entry = leaf [''register''] Register_Action"

definition synthetic_entry :: cli_command where
  "synthetic_entry = leaf [''synthetic''] Synthetic_Action"

definition app_commands :: "cli_command list" where
  "app_commands =
     [admin_entry, daemon_entry, find_entry, import_entry, init_entry, register_entry, synthetic_entry,
      config_entry, providers_entry]"

text \<open>The action that a sequence of names leads to, as the library finds it, and the names that lead to an action.\<close>

fun action_at :: "cli_command list \<Rightarrow> string list \<Rightarrow> command_action option" where
  "action_at cs [] = None"
| "action_at cs (n # ns) =
     (case find (\<lambda>c. n \<in> set (cm_names c)) cs of
        None \<Rightarrow> None
      | Some c \<Rightarrow> if ns = [] then cm_action c else action_at (cm_subs c) ns)"

fun action_path :: "command_action \<Rightarrow> string list" where
  "action_path Allow_Action = [''admin'', ''allow'']"
| "action_path Block_Action = [''admin'', ''block'']"
| "action_path Import_Providers_Action = [''admin'', ''import-providers'']"
| "action_path Reload_Config_Action = [''admin'', ''reload-config'']"
| "action_path Sync_Action = [''admin'', ''sync'']"
| "action_path Daemon_Action = [''daemon'']"
| "action_path Find_Action = [''find'']"
| "action_path Import_Cid_List_Action = [''import'', ''cidlist'']"
| "action_path Import_Car_Action = [''import'', ''car'']"
| "action_path Import_Manifest_Action = [''import'', ''manifest'']"
| "action_path Init_Action = [''init'']"
| "action_path Register_Action = [''register'']"
| "action_path Synthetic_Action = [''synthetic'']"
| "action_path Set_Log_Levels_Action = [''config'', ''set'', ''log.level'']"
| "action_path List_Log_Subsystems_Action = [''config'', ''get'', ''log.subsystems'']"
| "action_path Get_Providers_Action = [''providers'', ''get'']"
| "action_path List_Providers_Action = [''providers'', ''list'']"

lemmas command_defs = app_commands_def admin_entry_def import_entry_def config_entry_def providers_entry_def
  daemon_entry_def find_entry_def init_entry_def register_entry_def synthetic_entry_def

lemma every_action_has_a_command: "action_at app_commands (action_path a) = Some a"
  by (cases a) (simp_all add: command_defs)

section \<open>Signals and the end of the program\<close>

text \<open>
  The goroutine that handles signals first asks for them, then waits, and asks for no more after the first. A signal
  that comes while nobody asked for it kills the process; the channel holds one, and a signal is dropped when the channel
  is full. The command runs until it answers; its context ends before only by a signal.
\<close>

datatype handler_phase = Not_Notified | Selecting | Cancelled_Once | Notify_Stopped

datatype program_end = Running | Exited nat | Killed

record program =
  pg_handler :: handler_phase
  pg_interrupt :: bool
  pg_cancelled :: bool
  pg_end :: program_end
  pg_stderr :: "string list"

definition program_start :: program where
  "program_start = \<lparr>pg_handler = Not_Notified, pg_interrupt = False, pg_cancelled = False, pg_end = Running, pg_stderr = []\<rparr>"

datatype program_event = Signal | Handler | Command_Returns "string option"

text \<open>What \<open>main\<close> does with the result of the command: with an error, the deferred cancellation is not reached.\<close>

definition main_ends :: "string option \<Rightarrow> program \<Rightarrow> program" where
  "main_ends r s =
     (case r of
        None \<Rightarrow> s\<lparr>pg_cancelled := True, pg_end := Exited 0\<rparr>
      | Some e \<Rightarrow> s\<lparr>pg_stderr := pg_stderr s @ [e], pg_end := Exited 1\<rparr>)"

inductive program_step :: "program \<Rightarrow> program_event \<Rightarrow> program \<Rightarrow> bool" where
  signal_kills: "pg_end s = Running \<Longrightarrow> pg_handler s = Not_Notified \<or> pg_handler s = Notify_Stopped \<Longrightarrow>
    program_step s Signal (s\<lparr>pg_end := Killed\<rparr>)"
| signal_kept: "pg_end s = Running \<Longrightarrow> pg_handler s = Selecting \<or> pg_handler s = Cancelled_Once \<Longrightarrow>
    program_step s Signal (s\<lparr>pg_interrupt := True\<rparr>)"
| notify: "pg_end s = Running \<Longrightarrow> pg_handler s = Not_Notified \<Longrightarrow>
    program_step s Handler (s\<lparr>pg_handler := Selecting\<rparr>)"
| interrupted: "pg_end s = Running \<Longrightarrow> pg_handler s = Selecting \<Longrightarrow> pg_interrupt s \<Longrightarrow>
    program_step s Handler (s\<lparr>pg_interrupt := False, pg_cancelled := True, pg_handler := Cancelled_Once\<rparr>)"
| stop_notify: "pg_end s = Running \<Longrightarrow> pg_handler s = Cancelled_Once \<Longrightarrow>
    program_step s Handler (s\<lparr>pg_handler := Notify_Stopped\<rparr>)"
| returned: "pg_end s = Running \<Longrightarrow> program_step s (Command_Returns r) (main_ends r s)"

inductive_cases program_stepE: "program_step s e t"

text \<open>The signals of a run, and what they can have done.\<close>

definition signals :: "program_event list \<Rightarrow> nat" where
  "signals es = count_list es Signal"

lemma signals_snoc [simp]: "signals (es @ [e]) = signals es + (if e = Signal then 1 else 0)"
  by (simp add: signals_def)

lemma signals_Nil [simp]: "signals [] = 0"
  by (simp add: signals_def)

definition signalled_ok :: "program_event list \<Rightarrow> program \<Rightarrow> bool" where
  "signalled_ok es s \<longleftrightarrow>
     (pg_handler s = Not_Notified \<longrightarrow> pg_end s \<noteq> Killed \<longrightarrow> signals es = 0) \<and>
     (pg_handler s \<in> {Cancelled_Once, Notify_Stopped} \<longrightarrow> signals es > 0 \<and> pg_cancelled s) \<and>
     (pg_interrupt s \<longrightarrow> signals es > 0) \<and>
     (pg_handler s = Selecting \<longrightarrow> pg_interrupt s \<or> signals es = 0) \<and>
     (pg_end s = Running \<and> pg_cancelled s \<longrightarrow> pg_handler s \<in> {Cancelled_Once, Notify_Stopped}) \<and>
     (pg_end s = Killed \<longrightarrow> (if pg_handler s = Not_Notified then signals es = 1 else signals es > 1 \<and> pg_cancelled s))"

lemma program_run_signals: "run program_step program_start es s \<Longrightarrow> signalled_ok es s"
proof (induction rule: run.induct)
  case run_refl
  then show ?case by (simp add: signalled_ok_def program_start_def)
next
  case (run_step es t e u)
  then show ?case
    by (elim program_stepE) (auto simp: signalled_ok_def main_ends_def split: option.splits)
qed

text \<open>
  The program is never killed by one signal alone, unless that signal comes before the handler has asked for signals;
  when it is killed later, the command had been cancelled before.
\<close>

theorem one_signal_never_kills:
  assumes "run program_step program_start es s" and "pg_end s = Killed" and "pg_handler s \<noteq> Not_Notified"
  shows "signals es > 1 \<and> pg_cancelled s"
  using program_run_signals [OF assms(1)] assms(2,3) by (simp add: signalled_ok_def)

text \<open>
  Two signals are not enough to kill it, though: one that comes right after the first, before the handler asks for no
  more, stays in the channel and nobody takes it out.
\<close>

lemma second_signal_lost:
  "\<exists>s. run program_step program_start [Handler, Signal, Handler, Signal, Handler] s \<and> pg_end s = Running \<and>
     pg_handler s = Notify_Stopped \<and> pg_interrupt s"
proof -
  let ?s = program_start
  let ?t = "?s\<lparr>pg_handler := Cancelled_Once, pg_interrupt := False, pg_cancelled := True\<rparr>"
  have "run program_step ?s ([] @ [Handler]) (?s\<lparr>pg_handler := Selecting\<rparr>)"
    by (intro run_step [OF run_refl] notify) (simp_all add: program_start_def)
  moreover have "program_step (?s\<lparr>pg_handler := Selecting\<rparr>) Signal (?s\<lparr>pg_handler := Selecting, pg_interrupt := True\<rparr>)"
    using signal_kept [of "?s\<lparr>pg_handler := Selecting\<rparr>"] by (simp add: program_start_def)
  moreover have "program_step (?s\<lparr>pg_handler := Selecting, pg_interrupt := True\<rparr>) Handler ?t"
    using interrupted [of "?s\<lparr>pg_handler := Selecting, pg_interrupt := True\<rparr>"] by (simp add: program_start_def)
  moreover have "program_step ?t Signal (?t\<lparr>pg_interrupt := True\<rparr>)"
    using signal_kept [of ?t] by (simp add: program_start_def)
  moreover have "program_step (?t\<lparr>pg_interrupt := True\<rparr>) Handler (?t\<lparr>pg_interrupt := True, pg_handler := Notify_Stopped\<rparr>)"
    using stop_notify [of "?t\<lparr>pg_interrupt := True\<rparr>"] by (simp add: program_start_def)
  ultimately have "run program_step ?s ((((([] @ [Handler]) @ [Signal]) @ [Handler]) @ [Signal]) @ [Handler])
      (?t\<lparr>pg_interrupt := True, pg_handler := Notify_Stopped\<rparr>)"
    by (meson run_step)
  moreover have "pg_end (?t\<lparr>pg_interrupt := True, pg_handler := Notify_Stopped\<rparr>) = Running"
    by (simp add: program_start_def)
  ultimately show ?thesis by (intro exI [of _ "?t\<lparr>pg_interrupt := True, pg_handler := Notify_Stopped\<rparr>"]) simp
qed

lemma exit_code:
  assumes "program_step s (Command_Returns r) t"
  shows "pg_end t = Exited (if r = None then 0 else 1)"
  using assms by (elim program_stepE) (auto simp: main_ends_def split: option.splits)

end
