(* ===== verification/Spec2Isabelle.thy ===== *)
theory Spec2Isabelle
  imports Registry_Properties Ingest_Worker_Properties Ingest_Pool Ingest_Events Ingest_Sync
    Ingest_Announce Finder_Protocols Ingest_Server Config_Properties Registry_Lifecycle Admin_Client
    Daemon_Start Init P2p_Client Ingest_Close Ingest_Clients Synthetic Commands
    Pipeline Interleaved Ingest_Drain Wire Metrics Http_Servers Progress Program
begin

text \<open>
  A model of the storetheindex indexer and what makes it correct.

  \<^bold>\<open>The program.\<close> An indexer node keeps, in a core index, which provider has which multihash in
  which context. Publishers announce chains of signed advertisements. The \<^emph>\<open>ingester\<close> syncs a chain
  from its head back to what it knows, stages it, and a pool of workers ingests it from the oldest
  advertisement on: a removal deletes a context, other advertisements sync their entries (a chain of
  chunks or a HAMT) and index their multihashes in batches. The \<^emph>\<open>registry\<close> knows the providers,
  admits them by a policy, stores them, polls the silent ones and retires the dead ones. The
  \<^emph>\<open>finder\<close> answers lookups over HTTP and libp2p, the \<^emph>\<open>ingest server\<close> takes registrations,
  announces and signed requests, the \<^emph>\<open>admin server\<close> imports files, changes the policy and starts
  syncs and reloads, and the \<^emph>\<open>daemon\<close> composes them from the \<^emph>\<open>configuration\<close>. The
  \<^emph>\<open>commands\<close> write the configuration, start the daemon, or ask its servers through their \<^emph>\<open>clients\<close>.

  \<^bold>\<open>Conventions.\<close> A Go function that can panic has a result \<open>'a go\<close>, whose left side is the panic;
  an error is a \<open>go_error\<close>, in a sum or an option where the code returns it. State is passed
  explicitly. What is not in the repository is an argument: \<open>lib\<close> (peer identifiers, multiaddrs,
  CIDs), \<open>datastore\<close>, \<open>indexer\<close>, \<open>env\<close> with the IPLD codecs and go-legs, the JSON codecs, the file
  system, the transport. Their documented behaviour is stated as laws (\<open>lib_laws\<close>, \<open>storage_ok\<close>,
  \<open>indexer_laws\<close>, \<open>files_laws\<close>, \<open>config_env_laws\<close>, \<open>peering_laws\<close> and so on) that appear as
  hypotheses, each with a concrete instance that satisfies it. 64- and 32-bit integers are words
  where they wrap; durations and Go's \<open>int\<close> are integers with their bounds stated where they matter.
  Strings are lists of characters that stand for bytes.

  \<^bold>\<open>Shared theories.\<close> Prelude has the panics, times, decimal printing and parsing; Errors is
  \<^verbatim>\<open>api/v0/error.go\<close>, \<^verbatim>\<open>api/v0/common.go\<close> and the error responses of \<^verbatim>\<open>internal/httpserver\<close> and
  \<^verbatim>\<open>internal/libp2pserver\<close>; Externals has the libraries the code calls; Coders and Json have
  concrete encodings, and what \<^verbatim>\<open>encoding/json\<close> does with the configuration's types. Machines has what
  the state machines share: runs, steps of the program against steps of its callers, and the locales
  \<open>machine\<close> (an invariant) and \<open>closing_machine\<close> (a measure that every step of the program decreases).

  \<^bold>\<open>The registry.\<close> Peer_Policy is \<^verbatim>\<open>peerutil/policy.go\<close> and \<^verbatim>\<open>internal/registry/policy\<close>, both
  instances of the locale \<open>access_list\<close>. Sequences is \<^verbatim>\<open>sequences.go\<close>, an instance of
  \<open>replay_guard\<close>. Registry has the actions of \<^verbatim>\<open>registry.go\<close>; Registry_Correct their invariant, the
  mirror of the providers in the datastore and the step relation; Registry_Properties what every run
  keeps, what a restart restores, and what update, import and polling do; Registry_Lifecycle starts
  and closes it, as a step relation of the two goroutines with their callers, and a measure shows
  that closing ends. Lotus is the discoverer of \<^verbatim>\<open>discovery/lotus\<close>. Registry_Instances has a codec for
  the witnesses.

  \<^bold>\<open>The ingester.\<close> Schema has advertisements and their signatures (\<^verbatim>\<open>api/v0/ingest/schema\<close>).
  Ingest_Store has the marks of processed advertisements and the latest syncs; Ingest_Ad the link
  system and \<open>ingestAd\<close> (\<^verbatim>\<open>linksystem.go\<close>), with the properties in Ingest_Ad_Properties. Ingest_Worker
  has staging and \<open>ingestWorkerLogic\<close> (\<^verbatim>\<open>ingest.go\<close>); Ingest_Worker_Correct relates a run to the
  ingestion of all advertisements one by one, which Ingest_Worker_Properties states as a refinement.
  Staging says which advertisements the step of the loop assigns to whom.
  Ingest_Pool (workers and their channels), Ingest_Events (subscribers of processed advertisements)
  and Ingest_Announce (direct announces) are step relations with invariants over every
  interleaving. Ingest_Drain shows that the workers of the pool take everything that is staged.
  Ingest_Sync has explicit and automatic syncs, their hooks, rate limits and the size
  of the pool. Ingest_Close is \<open>Close\<close> against the workers, the distributor of events and the syncs
  that are waiting; a measure shows that it ends.

  \<^bold>\<open>The servers and their clients.\<close> Finder is the finder's handler and the reframe service, with a
  reference answer that lookups are proved equal to; Finder_Protocols the HTTP and libp2p handlers and
  clients, which are proved to agree; Ingest_Server the signed requests of
  \<^verbatim>\<open>api/v0/ingest/model\<close> and the handlers, Ingest_Clients the clients of both protocols with what a
  request amounts to from end to end; P2p_Client the streams, the mutex and the timeouts of
  \<^verbatim>\<open>api/v0/libp2pclient\<close>, as a step relation with the server; Wire how messages are written and the
  server's side of a stream; Http_Servers the options of the HTTP servers, and making them; Importer
  the readers of \<^verbatim>\<open>internal/importer\<close>; Admin every route of \<^verbatim>\<open>server/admin/http\<close> and Admin_Client
  its client. Publish_Find goes from an advertisement to the answer of a query: the finder is a lookup in the
  contents of the index, and what is published is found until it is withdrawn; Pipeline does so for
  the advertisements that a worker is assigned, Synced for the chain of a sync, from the step of the ingester's
  loop on, and Interleaved shows that providers whose advertisements take turns do not interfere.

  \<^bold>\<open>Configuration, daemon and commands.\<close> Config is \<^verbatim>\<open>config/*.go\<close>: the settings with their JSON
  fields, the defaults, loading, saving, upgrading, identities; Config_Properties what is loaded, saved
  and upgraded. Daemon is the reload, the peering service, the main loop with its channel, the choice
  of the stores and the shutdown of \<^verbatim>\<open>command/daemon.go\<close>; Daemon_Properties what a reload puts into
  force, and how the loop can crash or block; Daemon_Start the start with the servers it makes. Flags
  has the flags of every command; Init, Synthetic and Commands the commands, on the clients they call, and
  Progress the display of the synthetic writers. Program is \<^verbatim>\<open>main.go\<close>: the tree of the commands, and how signals
  and the end of a command end the process.

  \<^bold>\<open>Metrics.\<close> Metrics has the measures, their views, the pages of the profiler, and the goroutine that
  keeps the size of the value store up to date, as a step relation. The counters that the workers record are part of
  their state.

  \<^bold>\<open>Loops.\<close> Recursion follows the data wherever the code's does: lists of advertisements, entries,
  providers and routes, and the chains that a sync has delivered. The only bounds are the code's own
  (batch sizes, depth limits, channel capacities); no fuel is used. The loop that writes a synthetic
  file up to a size and that of a buffered writer are partial functions, whose result None stands for
  not ending; Synthetic and Wire show that they end. Where the code waits for ever the model says so:
  \<open>run_workers\<close> has no result, and a step relation has no step.

  \<^bold>\<open>Not modelled.\<close> Logging, and the recording of latencies and of the counts of the registry and the
  importer; contexts that end in the middle
  of an operation, except where a goroutine waits for one; sockets, and serving HTTP with its
  timeouts; reading the frames of messages, which the library does; generated protobuf code; the
  parsing of the command line, and what the commands print beyond their results; the
  locks of operations that hold one for the whole of their body, because they are atomic in the
  model.
\<close>

end
